(* ===== verification/Prelude.thy ===== *)
theory Prelude
  imports Main "HOL-Library.AList" "HOL-Library.Char_ord" "HOL-Library.List_Lexorder"
begin

text \<open>
  What every component of the model shares: the exceptions the code raises, the two
  computation types (a pure result \<open>exc + 'a\<close> and a state-passing program that keeps
  the state it had when it raised), the Python string, dictionary and timestamp
  operations the sources use, and the lemma collections the component proofs draw on.

  Strings are lists of characters, a character standing for a code point below 256;
  \<open>strip\<close> and \<open>lower\<close> follow Python's tables on that range. Messages of exceptions
  are kept where they are constant; interpolated parts are dropped.
\<close>

named_theorems prog_simps \<open>unfolding of programs applied to a state\<close>
named_theorems result_simps \<open>unfolding of pure results\<close>

section \<open>Exceptions\<close>

datatype exc =
    ValueError string
  | TypeError string
  | KeyError string
  | RuntimeError string
  | AssertionError string
  | AttributeError string
  | FileNotFoundError string
  | IntegrityError string
  | TerminalRunStateError string
  | RunAlreadyTerminalError string string
  | InvalidResumeKindError string
  | ApprovalAlreadyResolvedError string
  | CrossRunCheckpointError string string
  | ManifestChangedWithoutRevisionError string
  | DelegationWideningError string
  | HTTPException nat
  | AssetValidationError string
  | AssetLoadError "string list"
  | AssetNotFoundError string string
  | FilterError string
  | ProfileLoadError "string list"
  | ProfileStartupError "string list"
  | ProfileHydrationError "string list"
  | InstanceLoadError "string list"
  | UnknownExtensionError string
  | DuplicateExtensionError string
  | ExtensionConfigError string
  | ExtensionStartupError "string list"
  | NotImplementedError string
  | YAMLError string
  | CodingProfileHydrationError "string list"
  | CalledProcessError
  | OSError string
  | UnknownModelProviderError string
  | MissingRunIdError
  | DuplicateCapabilityError string
  | UnknownCapabilityError string
  | UncoveredCapabilityError string
  | ChannelRejectedError string
  | KnowledgeNotFound string
  | ConfigLoadError "string list"
  | PolicyLoadError string
  | UnknownPresetError string

section \<open>Pure results\<close>

definition rbind :: "exc + 'a \<Rightarrow> ('a \<Rightarrow> exc + 'b) \<Rightarrow> exc + 'b" where
  "rbind r f = (case r of Inl e \<Rightarrow> Inl e | Inr x \<Rightarrow> f x)"

definition ensure :: "bool \<Rightarrow> exc \<Rightarrow> exc + unit" where
  "ensure b e = (if b then Inr () else Inl e)"

fun rmap :: "('a \<Rightarrow> exc + 'b) \<Rightarrow> 'a list \<Rightarrow> exc + 'b list" where
  "rmap f [] = Inr []"
| "rmap f (x # xs) = rbind (f x) (\<lambda>y. rbind (rmap f xs) (\<lambda>ys. Inr (y # ys)))"

text \<open>A validation loop: run a check on every element, stop at the first exception.\<close>

fun reach :: "('a \<Rightarrow> exc + unit) \<Rightarrow> 'a list \<Rightarrow> exc + unit" where
  "reach f [] = Inr ()"
| "reach f (x # xs) = rbind (f x) (\<lambda>_. reach f xs)"

definition ropt :: "('a \<Rightarrow> exc + 'b) \<Rightarrow> 'a option \<Rightarrow> exc + 'b option" where
  "ropt f v = (case v of None \<Rightarrow> Inr None | Some x \<Rightarrow> rbind (f x) (\<lambda>y. Inr (Some y)))"

lemma rbind_simps [simp, result_simps]:
  "rbind (Inl e) f = Inl e"
  "rbind (Inr x) f = f x"
  by (simp_all add: rbind_def)

lemma rbind_Inr_iff: "rbind r f = Inr y \<longleftrightarrow> (\<exists>x. r = Inr x \<and> f x = Inr y)"
  by (cases r) simp_all

lemma rbind_Inl_iff: "rbind r f = Inl e \<longleftrightarrow> r = Inl e \<or> (\<exists>x. r = Inr x \<and> f x = Inl e)"
  by (cases r) simp_all

lemma ensure_Inr_iff [simp]: "ensure b e = Inr u \<longleftrightarrow> b"
  by (simp add: ensure_def)

lemma ensure_simps [simp, result_simps]:
  "ensure True e = Inr ()"
  "ensure False e = Inl e"
  by (simp_all add: ensure_def)

lemma reach_Inr_iff: "reach f xs = Inr u \<longleftrightarrow> (\<forall>x \<in> set xs. f x = Inr ())"
  by (induction xs) (auto simp: rbind_Inr_iff)

lemma rmap_Inr_iff: "rmap f xs = Inr ys \<longleftrightarrow> list_all2 (\<lambda>x y. f x = Inr y) xs ys"
  by (induction xs arbitrary: ys) (auto simp: rbind_Inr_iff list_all2_Cons1)

lemma rmap_self: "(\<And>x. x \<in> set xs \<Longrightarrow> f x = Inr x) \<Longrightarrow> rmap f xs = Inr xs"
  by (induction xs) auto

lemma ropt_simps [simp, result_simps]:
  "ropt f None = Inr None"
  "ropt f (Some x) = rbind (f x) (\<lambda>y. Inr (Some y))"
  by (simp_all add: ropt_def)

lemma ropt_Inr_iff:
  "ropt f v = Inr r \<longleftrightarrow> (v = None \<and> r = None) \<or> (\<exists>x y. v = Some x \<and> f x = Inr y \<and> r = Some y)"
  by (cases v) (auto simp: rbind_Inr_iff)

lemma ball_set_option [simp]: "(\<forall>x \<in> set_option v. P x) \<longleftrightarrow> (\<forall>x. v = Some x \<longrightarrow> P x)"
  by (cases v) simp_all

section \<open>State-passing programs\<close>

text \<open>
  An exception does not undo what was stored before it: the state at the raise is kept,
  so that \<open>try\<close> blocks and partial effects are visible.
\<close>

type_synonym ('s, 'a) prog = "'s \<Rightarrow> (exc + 'a) \<times> 's"

definition ret :: "'a \<Rightarrow> ('s, 'a) prog" where
  "ret x s = (Inr x, s)"

definition raise :: "exc \<Rightarrow> ('s, 'a) prog" where
  "raise e s = (Inl e, s)"

definition bind :: "('s, 'a) prog \<Rightarrow> ('a \<Rightarrow> ('s, 'b) prog) \<Rightarrow> ('s, 'b) prog" where
  "bind m f s = (case m s of (Inl e, s') \<Rightarrow> (Inl e, s') | (Inr x, s') \<Rightarrow> f x s')"

definition andthen :: "('s, 'a) prog \<Rightarrow> ('s, 'b) prog \<Rightarrow> ('s, 'b) prog" where
  "andthen m n = bind m (\<lambda>_. n)"

definition lift :: "exc + 'a \<Rightarrow> ('s, 'a) prog" where
  "lift r s = (r, s)"

definition gets :: "('s \<Rightarrow> 'a) \<Rightarrow> ('s, 'a) prog" where
  "gets f s = (Inr (f s), s)"

definition modify :: "('s \<Rightarrow> 's) \<Rightarrow> ('s, unit) prog" where
  "modify f s = (Inr (), f s)"

definition require :: "bool \<Rightarrow> exc \<Rightarrow> ('s, unit) prog" where
  "require b e = (if b then ret () else raise e)"

definition try_except :: "('s, 'a) prog \<Rightarrow> (exc \<Rightarrow> ('s, 'a) prog) \<Rightarrow> ('s, 'a) prog" where
  "try_except m h s = (case m s of (Inl e, s') \<Rightarrow> h e s' | (Inr x, s') \<Rightarrow> (Inr x, s'))"

fun for_each :: "('a \<Rightarrow> ('s, 'b) prog) \<Rightarrow> 'a list \<Rightarrow> ('s, 'b list) prog" where
  "for_each f [] = ret []"
| "for_each f (x # xs) = bind (f x) (\<lambda>y. bind (for_each f xs) (\<lambda>ys. ret (y # ys)))"

lemma prog_apply [prog_simps]:
  "ret x s = (Inr x, s)"
  "raise e s = (Inl e, s)"
  "lift r s = (r, s)"
  "gets f s = (Inr (f s), s)"
  "modify g s = (Inr (), g s)"
  by (simp_all add: ret_def raise_def lift_def gets_def modify_def)

lemma bind_apply [prog_simps]:
  "bind m f s = (case m s of (Inl e, s') \<Rightarrow> (Inl e, s') | (Inr x, s') \<Rightarrow> f x s')"
  by (simp add: bind_def)

lemma andthen_apply [prog_simps]:
  "andthen m n s = (case m s of (Inl e, s') \<Rightarrow> (Inl e, s') | (Inr x, s') \<Rightarrow> n s')"
  by (simp add: andthen_def bind_def)

lemma require_apply [prog_simps]:
  "require b e s = (if b then (Inr (), s) else (Inl e, s))"
  by (simp add: require_def ret_def raise_def)

lemma try_except_apply [prog_simps]:
  "try_except m h s = (case m s of (Inl e, s') \<Rightarrow> h e s' | (Inr x, s') \<Rightarrow> (Inr x, s'))"
  by (simp add: try_except_def)

lemma bind_Inr_iff:
  "bind m f s = (Inr y, t) \<longleftrightarrow> (\<exists>x s'. m s = (Inr x, s') \<and> f x s' = (Inr y, t))"
  by (auto simp: bind_def split: prod.splits sum.splits)

lemma andthen_assoc: "andthen (andthen a b) c = andthen a (andthen b c)"
  by (auto simp: andthen_def bind_def fun_eq_iff split: prod.split sum.split)

text \<open>
  A relation between the state before and after that a program obeys whatever it
  returns or raises. For a reflexive and transitive relation it is enough to look at the
  parts of the program: the rules of this locale take a program apart.
\<close>

definition obeys :: "('s \<Rightarrow> 's \<Rightarrow> bool) \<Rightarrow> ('s, 'a) prog \<Rightarrow> bool" where
  "obeys R m \<longleftrightarrow> (\<forall>s. R s (snd (m s)))"

lemma obeysD: "obeys R m \<Longrightarrow> m s = (r, t) \<Longrightarrow> R s t"
  by (auto simp: obeys_def dest: spec [of _ s])

locale step_relation =
  fixes R :: "'s \<Rightarrow> 's \<Rightarrow> bool"
  assumes R_refl: "R s s"
    and R_trans: "R s t \<Longrightarrow> R t u \<Longrightarrow> R s u"
begin

lemma resp_pure:
  "obeys R (ret x)" "obeys R (raise e)" "obeys R (lift r)" "obeys R (gets f)"
  "obeys R (require b e)"
  by (simp_all add: obeys_def prog_simps R_refl)

lemma resp_bind: "obeys R m \<Longrightarrow> (\<And>x. obeys R (f x)) \<Longrightarrow> obeys R (bind m f)"
  unfolding obeys_def bind_def
  by (auto split: prod.splits sum.splits intro: R_trans) (metis R_trans snd_conv)+

lemma resp_bind_lift: "(\<And>x. r = Inr x \<Longrightarrow> obeys R (f x)) \<Longrightarrow> obeys R (bind (lift r) f)"
  by (cases r) (auto simp: obeys_def prog_simps R_refl)

lemma resp_andthen: "obeys R m \<Longrightarrow> obeys R n \<Longrightarrow> obeys R (andthen m n)"
  by (simp add: andthen_def resp_bind)

lemma resp_try: "obeys R m \<Longrightarrow> (\<And>e. obeys R (h e)) \<Longrightarrow> obeys R (try_except m h)"
  unfolding obeys_def try_except_def
  by (auto split: prod.splits sum.splits intro: R_trans) (metis R_trans snd_conv)+

lemma resp_if: "(b \<Longrightarrow> obeys R m) \<Longrightarrow> (\<not> b \<Longrightarrow> obeys R n) \<Longrightarrow> obeys R (if b then m else n)"
  by simp

lemma resp_option:
  "obeys R m \<Longrightarrow> (\<And>x. v = Some x \<Longrightarrow> obeys R (f x)) \<Longrightarrow>
   obeys R (case v of None \<Rightarrow> m | Some x \<Rightarrow> f x)"
  by (cases v) simp_all

lemma resp_for_each: "(\<And>x. obeys R (f x)) \<Longrightarrow> obeys R (for_each f xs)"
  by (induction xs) (simp_all add: resp_pure resp_bind)

lemmas resp_rules = resp_pure resp_bind_lift resp_andthen resp_try resp_if resp_option resp_for_each

end

text \<open>A predicate on states that a program keeps.\<close>

abbreviation keeps :: "('s \<Rightarrow> bool) \<Rightarrow> ('s, 'a) prog \<Rightarrow> bool" where
  "keeps P \<equiv> obeys (\<lambda>s t. P s \<longrightarrow> P t)"

interpretation keep: step_relation "\<lambda>s t. P s \<longrightarrow> P t" for P
  by unfold_locales auto

text \<open>
  Total correctness of a program: from every state with \<open>P\<close> it returns, without an exception,
  and its result and final state are related by \<open>Q\<close>.
\<close>

definition returns :: "('s \<Rightarrow> bool) \<Rightarrow> ('s, 'a) prog \<Rightarrow> ('a \<Rightarrow> 's \<Rightarrow> bool) \<Rightarrow> bool" where
  "returns P m Q \<longleftrightarrow> (\<forall>s. P s \<longrightarrow> (\<exists>x t. m s = (Inr x, t) \<and> Q x t))"

lemma returnsD: "returns P m Q \<Longrightarrow> P s \<Longrightarrow> \<exists>x t. m s = (Inr x, t) \<and> Q x t"
  by (simp add: returns_def)

lemma returns_ret: "(\<And>s. P s \<Longrightarrow> Q x s) \<Longrightarrow> returns P (ret x) Q"
  by (simp add: returns_def prog_simps)

lemma returns_bind: "returns P m R \<Longrightarrow> (\<And>x. returns (R x) (f x) Q) \<Longrightarrow> returns P (bind m f) Q"
  unfolding returns_def bind_def by fastforce

lemma returns_andthen: "returns P m R \<Longrightarrow> (\<And>x. returns (R x) n Q) \<Longrightarrow> returns P (andthen m n) Q"
  unfolding andthen_def by (rule returns_bind)

lemma returns_require: "(\<And>s. P s \<Longrightarrow> b) \<Longrightarrow> returns P (require b e) (\<lambda>_. P)"
  by (auto simp: returns_def prog_simps)

lemma returns_require_then:
  "(\<And>s. P s \<Longrightarrow> b) \<Longrightarrow> returns P n Q \<Longrightarrow> returns P (andthen (require b e) n) Q"
  by (auto simp: returns_def prog_simps)

lemma returns_pre: "returns P m Q \<Longrightarrow> (\<And>s. P' s \<Longrightarrow> P s) \<Longrightarrow> returns P' m Q"
  by (simp add: returns_def)

lemma returns_post: "returns P m Q \<Longrightarrow> (\<And>x s. Q x s \<Longrightarrow> Q' x s) \<Longrightarrow> returns P m Q'"
  unfolding returns_def by meson

lemma returns_assume: "(b \<Longrightarrow> returns P m Q) \<Longrightarrow> returns (\<lambda>s. b \<and> P s) m Q"
  by (auto simp: returns_def)

section \<open>Python strings\<close>

definition is_space :: "char \<Rightarrow> bool" where
  "is_space c = (let n = of_char c :: nat in
     (9 \<le> n \<and> n \<le> 13) \<or> (28 \<le> n \<and> n \<le> 32) \<or> n = 133 \<or> n = 160)"

definition strip :: "string \<Rightarrow> string" where
  "strip s = rev (dropWhile is_space (rev (dropWhile is_space s)))"

definition lower_char :: "char \<Rightarrow> char" where
  "lower_char c = (let n = of_char c :: nat in
     if (65 \<le> n \<and> n \<le> 90) \<or> (192 \<le> n \<and> n \<le> 222 \<and> n \<noteq> 215) then char_of (n + 32) else c)"

definition lower :: "string \<Rightarrow> string" where
  "lower s = map lower_char s"

fun starts_with :: "string \<Rightarrow> string \<Rightarrow> bool" where
  "starts_with s [] = True"
| "starts_with [] (p # ps) = False"
| "starts_with (c # s) (p # ps) = (c = p \<and> starts_with s ps)"

text \<open>Python's \<open>needle in s\<close>.\<close>

fun contains :: "string \<Rightarrow> string \<Rightarrow> bool" where
  "contains p [] = (p = [])"
| "contains p (c # s) = (starts_with (c # s) p \<or> contains p s)"

fun join :: "string \<Rightarrow> string list \<Rightarrow> string" where
  "join sep [] = []"
| "join sep [x] = x"
| "join sep (x # y # ys) = x @ sep @ join sep (y # ys)"

text \<open>The slice \<open>xs[:n]\<close>: a negative bound counts from the end.\<close>

definition slice_to :: "int \<Rightarrow> 'a list \<Rightarrow> 'a list" where
  "slice_to n xs = (if 0 \<le> n then take (nat n) xs else take (length xs - nat (- n)) xs)"

text \<open>Decimal rendering of integers, as f-strings do it.\<close>

definition digit :: "nat \<Rightarrow> char" where
  "digit d = ''0123456789'' ! d"

fun show_nat :: "nat \<Rightarrow> string" where
  "show_nat n = (if n < 10 then [digit n] else show_nat (n div 10) @ [digit (n mod 10)])"

declare show_nat.simps [simp del]

definition show_int :: "int \<Rightarrow> string" where
  "show_int i = (if i < 0 then CHR ''-'' # show_nat (nat (- i)) else show_nat (nat i))"

lemma dropWhile_idem: "dropWhile P (dropWhile P xs) = dropWhile P xs"
  by (induction xs) auto

lemma dropWhile_rev_fix:
  assumes "dropWhile P xs = xs"
  shows "dropWhile P (rev (dropWhile P (rev xs))) = rev (dropWhile P (rev xs))"
proof (cases xs)
  case Nil
  then show ?thesis by simp
next
  case (Cons a ys)
  with assms have a: "\<not> P a" by (auto split: if_splits dest: arg_cong [where f = length])
      (metis Suc_n_not_le_n length_Cons length_dropWhile_le)
  have "dropWhile P (rev ys @ [a]) = dropWhile P (rev ys) @ [a]"
    using a by (simp add: dropWhile_append3)
  with Cons a show ?thesis by simp
qed

lemma strip_idem [simp]: "strip (strip s) = strip s"
  unfolding strip_def
  by (simp add: dropWhile_rev_fix dropWhile_idem)

lemma strip_Nil [simp]: "strip [] = []"
  by (simp add: strip_def)

lemma starts_with_append [simp]: "starts_with (p @ s) p"
  by (induction p) auto

lemma starts_with_iff: "starts_with s p \<longleftrightarrow> (\<exists>t. s = p @ t)"
  by (induction s p rule: starts_with.induct) auto

lemma contains_iff: "contains p s \<longleftrightarrow> (\<exists>u v. s = u @ p @ v)"
proof (induction s)
  case Nil
  then show ?case by auto
next
  case (Cons c s)
  show ?case
    by (auto simp: Cons starts_with_iff) (metis append_Cons append_Nil neq_Nil_conv list.inject)+
qed

lemma digit_inj: "i < 10 \<Longrightarrow> j < 10 \<Longrightarrow> digit i = digit j \<Longrightarrow> i = j"
  unfolding digit_def by (subst (asm) nth_eq_iff_index_eq) auto

lemma show_nat_small: "n < 10 \<Longrightarrow> show_nat n = [digit n]"
  by (subst show_nat.simps) simp

lemma show_nat_big: "\<not> n < 10 \<Longrightarrow> show_nat n = show_nat (n div 10) @ [digit (n mod 10)]"
  by (subst show_nat.simps) simp

lemma show_nat_not_Nil [simp]: "show_nat n \<noteq> []" "[] \<noteq> show_nat n"
  by (cases "n < 10"; simp add: show_nat_small show_nat_big)+

lemma show_nat_inj: "show_nat m = show_nat n \<Longrightarrow> m = n"
proof (induction m arbitrary: n rule: show_nat.induct)
  case (1 m)
  consider "m < 10" "n < 10" | "m < 10" "\<not> n < 10" | "\<not> m < 10" "n < 10" | "\<not> m < 10" "\<not> n < 10"
    by blast
  then show ?case
  proof cases
    case 4
    with "1.prems" have "show_nat (m div 10) = show_nat (n div 10)"
      and "digit (m mod 10) = digit (n mod 10)" by (simp_all add: show_nat_big)
    with "1.IH" 4 have "m div 10 = n div 10" and "m mod 10 = n mod 10"
      by (auto intro: digit_inj)
    then show ?thesis by (metis div_mult_mod_eq)
  qed (use "1.prems" in \<open>auto simp: show_nat_small show_nat_big intro: digit_inj\<close>)
qed

section \<open>Timestamps\<close>

text \<open>
  A \<open>datetime\<close> is naive (no zone) or aware: an instant (microseconds since the epoch in
  UTC) and its offset. Comparison of aware values compares instants; \<open>astimezone(UTC)\<close>
  keeps the instant and sets the offset to 0.
\<close>

datatype datetime = Naive int | Aware int int

fun is_aware :: "datetime \<Rightarrow> bool" where
  "is_aware (Naive _) = False"
| "is_aware (Aware _ _) = True"

fun instant :: "datetime \<Rightarrow> int" where
  "instant (Naive t) = t"
| "instant (Aware t _) = t"

fun as_utc :: "datetime \<Rightarrow> datetime" where
  "as_utc (Naive t) = Naive t"
| "as_utc (Aware t _) = Aware t 0"

lemma instant_as_utc [simp]: "instant (as_utc d) = instant d"
  and is_aware_as_utc [simp]: "is_aware (as_utc d) = is_aware d"
  and as_utc_idem [simp]: "as_utc (as_utc d) = as_utc d"
  by (cases d; simp)+

section \<open>Dynamic values and dictionaries\<close>

text \<open>
  The values the code stores in payloads, and dictionaries with insertion order:
  \<open>d[k] = v\<close> is \<open>AList.update\<close> (replace in place, else append), \<open>d.update(e)\<close> folds it.
\<close>

datatype pyval =
    PNone
  | PBool bool
  | PInt int
  | PStr string
  | PTuple "pyval list"
  | PDict "(string \<times> pyval) list"

type_synonym payload = "(string \<times> pyval) list"

text \<open>\<open>str(value)\<close>; \<open>repr\<close> prints the containers.\<close>

fun py_str :: "(pyval \<Rightarrow> string) \<Rightarrow> pyval \<Rightarrow> string" where
  "py_str repr PNone = ''None''"
| "py_str repr (PBool b) = (if b then ''True'' else ''False'')"
| "py_str repr (PInt i) = show_int i"
| "py_str repr (PStr s) = s"
| "py_str repr v = repr v"

fun pstr_opt :: "string option \<Rightarrow> pyval" where
  "pstr_opt None = PNone"
| "pstr_opt (Some s) = PStr s"

fun pint_opt :: "int option \<Rightarrow> pyval" where
  "pint_opt None = PNone"
| "pint_opt (Some i) = PInt i"

definition dict_update :: "('k \<times> 'v) list \<Rightarrow> ('k \<times> 'v) list \<Rightarrow> ('k \<times> 'v) list" where
  "dict_update d e = fold (\<lambda>(k, v) acc. AList.update k v acc) e d"

definition dict_put_opt :: "'k \<Rightarrow> 'v option \<Rightarrow> ('k \<times> 'v) list \<Rightarrow> ('k \<times> 'v) list" where
  "dict_put_opt k v d = (case v of None \<Rightarrow> d | Some x \<Rightarrow> AList.update k x d)"

definition dict_keys :: "('k \<times> 'v) list \<Rightarrow> 'k list" where
  "dict_keys d = map fst d"

lemma dict_update_Nil [simp]: "dict_update d [] = d"
  by (simp add: dict_update_def)

lemma keys_update: "fst ` set (AList.update k v d) = insert k (fst ` set d)"
  by (induction d) auto

lemma keys_dict_update: "fst ` set (dict_update d e) = fst ` set d \<union> fst ` set e"
proof (induction e arbitrary: d)
  case Nil
  then show ?case by simp
next
  case (Cons x e)
  have "dict_update d (x # e) = dict_update (AList.update (fst x) (snd x) d) e"
    by (simp add: dict_update_def split_beta)
  with Cons show ?case by (simp add: keys_update)
qed

lemma map_of_dict_put_opt:
  "map_of (dict_put_opt k v d) = (case v of None \<Rightarrow> map_of d | Some x \<Rightarrow> (map_of d)(k \<mapsto> x))"
  by (simp add: dict_put_opt_def update_conv' split: option.split)

lemma map_of_dict_put_other [simp]: "k \<noteq> j \<Longrightarrow> map_of (dict_put_opt j v d) k = map_of d k"
  by (simp add: map_of_dict_put_opt split: option.split)

lemma map_of_dict_update:
  "distinct (map fst e) \<Longrightarrow>
   map_of (dict_update d e) k = (case map_of e k of Some v \<Rightarrow> Some v | None \<Rightarrow> map_of d k)"
proof (induction e arbitrary: d)
  case (Cons x e)
  have "dict_update d (x # e) = dict_update (AList.update (fst x) (snd x) d) e"
    by (simp add: dict_update_def split_beta)
  with Cons show ?case
    by (cases x) (auto simp: update_conv' split: option.split dest!: map_of_SomeD intro: rev_image_eqI)
qed simp

lemma distinct_dict_put_opt: "distinct (map fst d) \<Longrightarrow> distinct (map fst (dict_put_opt k v d))"
  by (simp add: dict_put_opt_def distinct_update split: option.split)

lemma keys_dict_put_opt:
  "fst ` set (dict_put_opt k v d) = (if v = None then fst ` set d else insert k (fst ` set d))"
  by (simp add: dict_put_opt_def keys_update split: option.split)

lemma keys_dict_put_opt_mono: "fst ` set d \<subseteq> fst ` set (dict_put_opt k v d)"
  by (auto simp: keys_dict_put_opt)

section \<open>Checks on text shared by the domain classes\<close>

definition require_non_empty_text :: "string \<Rightarrow> string \<Rightarrow> exc + string" where
  "require_non_empty_text field_name value =
     (let trimmed = strip value in
      if trimmed = [] then Inl (ValueError (field_name @ '' must not be blank'')) else Inr trimmed)"

text \<open>A cleaned text: non-blank and without surrounding white space.\<close>

definition clean :: "string \<Rightarrow> bool" where
  "clean s \<longleftrightarrow> strip s = s \<and> s \<noteq> []"

lemma require_text_Inr_iff:
  "require_non_empty_text f v = Inr t \<longleftrightarrow> t = strip v \<and> strip v \<noteq> []"
  by (auto simp: require_non_empty_text_def Let_def)

lemma require_text_clean: "require_non_empty_text f v = Inr t \<Longrightarrow> clean t"
  by (auto simp: require_text_Inr_iff clean_def)

lemma require_text_of_clean [simp, result_simps]:
  "clean s \<Longrightarrow> require_non_empty_text f s = Inr s"
  by (simp add: require_non_empty_text_def clean_def)

lemma dropWhile_nop: "xs \<noteq> [] \<Longrightarrow> \<not> P (hd xs) \<Longrightarrow> dropWhile P xs = xs"
  by (cases xs) auto

lemma strip_fix: "s \<noteq> [] \<Longrightarrow> \<not> is_space (hd s) \<Longrightarrow> \<not> is_space (last s) \<Longrightarrow> strip s = s"
  unfolding strip_def by (simp add: dropWhile_nop hd_rev)

lemma dropWhile_fix: "dropWhile P xs = xs \<Longrightarrow> xs \<noteq> [] \<Longrightarrow> \<not> P (hd xs)"
  by (metis hd_dropWhile)

lemma dropWhile_full: "length xs \<le> length (dropWhile P xs) \<Longrightarrow> dropWhile P xs = xs"
  by (cases xs) (auto simp: Suc_le_eq dest: less_le_trans [OF _ length_dropWhile_le])

lemma clean_iff: "clean s \<longleftrightarrow> s \<noteq> [] \<and> \<not> is_space (hd s) \<and> \<not> is_space (last s)"
proof
  assume c: "clean s"
  let ?d = "dropWhile is_space s"
  have s: "rev (dropWhile is_space (rev ?d)) = s" and ne: "s \<noteq> []"
    using c by (auto simp: clean_def strip_def)
  have "length (dropWhile is_space (rev ?d)) = length s" by (metis length_rev s)
  moreover have "length (dropWhile is_space (rev ?d)) \<le> length ?d" "length ?d \<le> length s"
    by (metis length_dropWhile_le length_rev)+
  ultimately have d: "?d = s" by (intro dropWhile_full) linarith
  then have "dropWhile is_space (rev s) = rev s" using s by (metis rev_rev_ident)
  then have "\<not> is_space (hd (rev s))" using ne by (intro dropWhile_fix) auto
  then show "s \<noteq> [] \<and> \<not> is_space (hd s) \<and> \<not> is_space (last s)"
    using ne d dropWhile_fix by (auto simp: hd_rev)
qed (simp add: clean_def strip_fix)

lemma clean_append [intro]: "clean s \<Longrightarrow> clean t \<Longrightarrow> clean (s @ u @ t)"
  by (simp add: clean_iff)

definition require_aware_datetime :: "string \<Rightarrow> datetime \<Rightarrow> exc + datetime" where
  "require_aware_datetime field_name value =
     (if is_aware value then Inr value
      else Inl (ValueError (field_name @ '' must be timezone-aware'')))"

lemma require_aware_Inr_iff:
  "require_aware_datetime f v = Inr t \<longleftrightarrow> t = v \<and> is_aware v"
  by (auto simp: require_aware_datetime_def)

lemma require_aware_simp [simp, result_simps]:
  "is_aware v \<Longrightarrow> require_aware_datetime f v = Inr v"
  by (simp add: require_aware_datetime_def)

section \<open>Decimal digits\<close>

definition decimal_digits :: string where
  "decimal_digits = ''0123456789''"

lemma digit_decimal: "k < 10 \<Longrightarrow> digit k \<in> set decimal_digits"
  unfolding digit_def decimal_digits_def by (rule nth_mem) simp

lemma set_show_nat: "set (show_nat n) \<subseteq> set decimal_digits"
proof (induction n rule: less_induct)
  case (less n)
  show ?case
  proof (cases "n < 10")
    case True
    then show ?thesis by (simp add: show_nat_small digit_decimal)
  next
    case False
    with less [of "n div 10"] digit_decimal [of "n mod 10"] show ?thesis by (simp add: show_nat_big)
  qed
qed

lemma clean_show_nat: "clean (show_nat n)"
proof -
  have "\<forall>c \<in> set decimal_digits. \<not> is_space c" by code_simp
  moreover have "hd (show_nat n) \<in> set (show_nat n)" "last (show_nat n) \<in> set (show_nat n)" by simp_all
  ultimately show ?thesis unfolding clean_iff using set_show_nat [of n] by (meson show_nat_not_Nil(1) subsetD)
qed

text \<open>
  \<open>int(text)\<close>: white space around, a sign, digits with single underscores between them. The
  interpreter's limit on the number of digits is not modelled.
\<close>

fun digit_run :: "bool \<Rightarrow> nat \<Rightarrow> string \<Rightarrow> nat option" where
  "digit_run after_digit n [] = (if after_digit then Some n else None)"
| "digit_run after_digit n (c # cs) =
     (if c \<in> set decimal_digits then digit_run True (10 * n + (of_char c - 48)) cs
      else if c = CHR ''_'' \<and> after_digit then digit_run False n cs
      else None)"

definition parse_int :: "string \<Rightarrow> exc + int" where
  "parse_int s = (let (sign, ds) = (case strip s of
       c # cs \<Rightarrow> if c = CHR ''-'' then (- 1, cs) else if c = CHR ''+'' then (1, cs) else (1, c # cs)
     | [] \<Rightarrow> (1, [])) in
     case digit_run False 0 ds of None \<Rightarrow> Inl (ValueError ''invalid literal for int()'')
     | Some n \<Rightarrow> Inr (sign * int n))"

lemma digit_value: "k < 10 \<Longrightarrow> of_char (digit k) - 48 = k"
proof -
  have "\<forall>k \<in> set [0..<10]. of_char (digit k) - 48 = k" by code_simp
  then show "k < 10 \<Longrightarrow> of_char (digit k) - 48 = k" by simp
qed

lemma digit_run_show:
  "\<exists>k. digit_run b acc (show_nat n @ cs) = digit_run True (10 ^ k * acc + n) cs"
proof (induction n arbitrary: cs rule: less_induct)
  case (less n)
  show ?case
  proof (cases "n < 10")
    case True
    then show ?thesis by (intro exI [of _ 1]) (simp add: show_nat_small digit_decimal digit_value)
  next
    case False
    then obtain k where k: "digit_run b acc (show_nat (n div 10) @ digit (n mod 10) # cs) =
        digit_run True (10 ^ k * acc + n div 10) (digit (n mod 10) # cs)"
      using less [of "n div 10" "digit (n mod 10) # cs"] by auto
    have "10 * (10 ^ k * acc + n div 10) + n mod 10 = 10 ^ Suc k * acc + n" by simp
    with k False show ?thesis
      by (intro exI [of _ "Suc k"]) (simp add: show_nat_big digit_decimal digit_value ac_simps)
  qed
qed

lemma digit_run_show_nat: "digit_run False 0 (show_nat n) = Some n"
  using digit_run_show [of False 0 n "[]"] by auto

theorem parse_int_show: "parse_int (show_int i) = Inr i"
proof (cases "i < 0")
  case True
  have "clean (CHR ''-'' # show_nat (nat (- i)))"
    using clean_append [of "''-''" "show_nat (nat (- i))" "[]"] clean_show_nat by (simp add: clean_iff is_space_def)
  then have "strip (show_int i) = CHR ''-'' # show_nat (nat (- i))" using True by (simp add: show_int_def clean_def)
  with True show ?thesis by (simp add: parse_int_def digit_run_show_nat)
next
  case False
  have "strip (show_int i) = show_nat (nat i)" using clean_show_nat False by (simp add: show_int_def clean_def)
  moreover obtain c cs where c: "show_nat (nat i) = c # cs" by (cases "show_nat (nat i)") simp_all
  moreover have "c \<in> set decimal_digits" using set_show_nat [of "nat i"] c by simp
  then have "c \<noteq> CHR ''-''" "c \<noteq> CHR ''+''" by (auto simp: decimal_digits_def)
  ultimately show ?thesis using digit_run_show_nat [of "nat i"] False by (simp add: parse_int_def)
qed

end
