(* ===== verification/Domain.thy ===== *)
theory Domain
  imports Prelude
begin

text \<open>
  The frozen records of the domain layer that the event log, the run lifecycle and the
  approval engine exchange: \<open>Run\<close> (domain/run.py), \<open>Task\<close> (domain/task.py),
  \<open>Approval\<close> (domain/approval.py), \<open>Causation\<close>, \<open>Actor\<close> and \<open>RunEvent\<close>
  (domain/run_event.py), \<open>Checkpoint\<close> (domain/checkpoint.py) and \<open>TokenUsage\<close>
  (domain/token_usage.py).

  A \<open>make_*\<close> function is the class's constructor with its \<open>__post_init__\<close>: the raw
  arguments in, the normalised record or the exception out, the checks in the code's order.
  The \<open>isinstance\<close> checks are the types of the arguments. Each record has a predicate
  \<open>wf_*\<close> that its constructor establishes and under which constructing it again
  from its own fields (what a repository does with a stored row) gives it back.
\<close>

section \<open>Run\<close>

datatype run_state =
    RCreated | RPlanning | RExecuting | RWaitingApproval | RCompleted | RFailed | RCancelled

fun show_run_state :: "run_state \<Rightarrow> string" where
  "show_run_state RCreated = ''created''"
| "show_run_state RPlanning = ''planning''"
| "show_run_state RExecuting = ''executing''"
| "show_run_state RWaitingApproval = ''waiting_approval''"
| "show_run_state RCompleted = ''completed''"
| "show_run_state RFailed = ''failed''"
| "show_run_state RCancelled = ''cancelled''"

definition run_states :: "run_state list" where
  "run_states = [RCreated, RPlanning, RExecuting, RWaitingApproval, RCompleted, RFailed, RCancelled]"

text \<open>Reading a literal: the member of the list that is written so.\<close>

definition parse_literal :: "('e \<Rightarrow> string) \<Rightarrow> 'e list \<Rightarrow> string \<Rightarrow> 'e option" where
  "parse_literal show_e es s = find (\<lambda>e. show_e e = s) es"

definition normalize_run_state :: "string \<Rightarrow> exc + run_state" where
  "normalize_run_state value = rbind (require_non_empty_text ''state'' value) (\<lambda>normalized.
     case parse_literal show_run_state run_states normalized of
       None \<Rightarrow> Inl (ValueError ''state must be one of the run states'')
     | Some s \<Rightarrow> Inr s)"

datatype policy_preset = Yolo | Ask | Allowlist | Custom

fun show_preset :: "policy_preset \<Rightarrow> string" where
  "show_preset Yolo = ''yolo''"
| "show_preset Ask = ''ask''"
| "show_preset Allowlist = ''allowlist''"
| "show_preset Custom = ''custom''"

definition policy_presets :: "policy_preset list" where
  "policy_presets = [Yolo, Ask, Allowlist, Custom]"

definition normalize_policy_preset :: "string \<Rightarrow> exc + policy_preset" where
  "normalize_policy_preset value =
     rbind (require_non_empty_text ''policy_preset'' value) (\<lambda>normalized.
       case parse_literal show_preset policy_presets normalized of
         None \<Rightarrow> Inl (ValueError ''policy_preset must be one of the presets'')
       | Some p \<Rightarrow> Inr p)"

datatype entrypoint = Api | Cli | Scheduler | Internal

fun show_entrypoint :: "entrypoint \<Rightarrow> string" where
  "show_entrypoint Api = ''api''"
| "show_entrypoint Cli = ''cli''"
| "show_entrypoint Scheduler = ''scheduler''"
| "show_entrypoint Internal = ''internal''"

definition entrypoints :: "entrypoint list" where
  "entrypoints = [Api, Cli, Scheduler, Internal]"

definition normalize_entrypoint :: "string \<Rightarrow> exc + entrypoint" where
  "normalize_entrypoint value =
     rbind (require_non_empty_text ''entrypoint'' value) (\<lambda>normalized.
       case parse_literal show_entrypoint entrypoints normalized of
         None \<Rightarrow> Inl (ValueError ''entrypoint must be one of the entrypoints'')
       | Some p \<Rightarrow> Inr p)"

record run =
  r_id :: string
  r_instance_id :: string
  r_task_id :: "string option"
  r_profile :: string
  r_policy_preset :: policy_preset
  r_manifest_ref :: string
  r_entrypoint :: entrypoint
  r_state :: run_state
  r_created_at :: datetime
  r_updated_at :: datetime
  r_terminal_seq :: "int option"
  r_manifest_hash :: "string option"

definition make_run ::
  "string \<Rightarrow> string \<Rightarrow> string option \<Rightarrow> string \<Rightarrow> string \<Rightarrow> string \<Rightarrow> string \<Rightarrow> string \<Rightarrow>
   datetime \<Rightarrow> datetime \<Rightarrow> int option \<Rightarrow> string option \<Rightarrow> exc + run" where
  "make_run id0 instance_id task_id profile policy_preset manifest_ref entrypoint state
     created_at updated_at terminal_seq manifest_hash =
   rbind (require_non_empty_text ''id'' id0) (\<lambda>id1.
   rbind (require_non_empty_text ''instance_id'' instance_id) (\<lambda>inst1.
   rbind (ropt (require_non_empty_text ''task_id'') task_id) (\<lambda>task1.
   rbind (require_non_empty_text ''profile'' profile) (\<lambda>profile1.
   rbind (normalize_policy_preset policy_preset) (\<lambda>preset1.
   rbind (require_non_empty_text ''manifest_ref'' manifest_ref) (\<lambda>ref1.
   rbind (normalize_entrypoint entrypoint) (\<lambda>entry1.
   rbind (normalize_run_state state) (\<lambda>state1.
   rbind (require_aware_datetime ''created_at'' created_at) (\<lambda>created1.
   rbind (require_aware_datetime ''updated_at'' updated_at) (\<lambda>updated1.
   rbind (ensure (\<not> instant updated1 < instant created1)
            (ValueError ''updated_at must not be before created_at'')) (\<lambda>_.
   rbind (ensure ((case terminal_seq of None \<Rightarrow> True | Some n \<Rightarrow> \<not> n < 1))
            (ValueError ''terminal_seq must be >= 1 when set'')) (\<lambda>_.
   Inr \<lparr>r_id = id1, r_instance_id = inst1, r_task_id = task1, r_profile = profile1,
        r_policy_preset = preset1, r_manifest_ref = ref1, r_entrypoint = entry1,
        r_state = state1, r_created_at = created1, r_updated_at = updated1,
        r_terminal_seq = terminal_seq, r_manifest_hash = manifest_hash\<rparr>))))))))))))"

definition wf_run :: "run \<Rightarrow> bool" where
  "wf_run r \<longleftrightarrow> clean (r_id r) \<and> clean (r_instance_id r) \<and> (\<forall>t \<in> set_option (r_task_id r). clean t) \<and>
     clean (r_profile r) \<and> clean (r_manifest_ref r) \<and>
     is_aware (r_created_at r) \<and> is_aware (r_updated_at r) \<and>
     instant (r_created_at r) \<le> instant (r_updated_at r) \<and>
     (\<forall>n \<in> set_option (r_terminal_seq r). 1 \<le> n)"

text \<open>What \<open>RunRepositoryImpl.get\<close> does with the row of a stored run.\<close>

definition reload_run :: "run \<Rightarrow> exc + run" where
  "reload_run r = make_run (r_id r) (r_instance_id r) (r_task_id r) (r_profile r)
     (show_preset (r_policy_preset r)) (r_manifest_ref r) (show_entrypoint (r_entrypoint r))
     (show_run_state (r_state r)) (r_created_at r) (r_updated_at r) (r_terminal_seq r)
     (r_manifest_hash r)"

lemma show_run_state_inj [simp]: "show_run_state s = show_run_state t \<longleftrightarrow> s = t"
  by (cases s; cases t) simp_all

lemma normalize_run_state_show [simp]: "normalize_run_state (show_run_state s) = Inr s"
  by (cases s; simp add: normalize_run_state_def parse_literal_def run_states_def
        require_non_empty_text_def strip_def is_space_def)

lemma normalize_policy_preset_show [simp]: "normalize_policy_preset (show_preset p) = Inr p"
  by (cases p; simp add: normalize_policy_preset_def parse_literal_def policy_presets_def
        require_non_empty_text_def strip_def is_space_def)

lemma normalize_entrypoint_show [simp]: "normalize_entrypoint (show_entrypoint e) = Inr e"
  by (cases e; simp add: normalize_entrypoint_def parse_literal_def entrypoints_def
        require_non_empty_text_def strip_def is_space_def)

lemma normalize_run_state_Inr:
  assumes "normalize_run_state v = Inr s"
  shows "strip v = show_run_state s"
proof -
  from assms obtain t where "t = strip v" "find (\<lambda>e. show_run_state e = t) run_states = Some s"
    by (auto simp: normalize_run_state_def rbind_Inr_iff require_text_Inr_iff parse_literal_def
        split: option.splits)
  then show ?thesis by (auto simp: find_Some_iff)
qed

lemma make_run_wf: "make_run i inst t p pre m e s c u ts mh = Inr r \<Longrightarrow> wf_run r"
  by (auto simp: make_run_def rbind_Inr_iff ropt_Inr_iff require_aware_Inr_iff wf_run_def
      dest: require_text_clean)

lemma reload_run_id: "wf_run r \<Longrightarrow> reload_run r = Inr r"
  by (cases "r_task_id r") (auto simp: reload_run_def make_run_def wf_run_def ensure_def split: option.split)

section \<open>Task\<close>

datatype task_state =
    TDraft | TPlanning | TExecuting | TWaitingApproval | TCompleted | TFailed | TCancelled

fun show_task_state :: "task_state \<Rightarrow> string" where
  "show_task_state TDraft = ''draft''"
| "show_task_state TPlanning = ''planning''"
| "show_task_state TExecuting = ''executing''"
| "show_task_state TWaitingApproval = ''waiting_approval''"
| "show_task_state TCompleted = ''completed''"
| "show_task_state TFailed = ''failed''"
| "show_task_state TCancelled = ''cancelled''"

definition task_states :: "task_state list" where
  "task_states = [TDraft, TPlanning, TExecuting, TWaitingApproval, TCompleted, TFailed, TCancelled]"

definition normalize_task_state :: "string \<Rightarrow> exc + task_state" where
  "normalize_task_state value = rbind (require_non_empty_text ''state'' value) (\<lambda>normalized.
     case parse_literal show_task_state task_states normalized of
       None \<Rightarrow> Inl (ValueError ''state must be one of the task states'')
     | Some s \<Rightarrow> Inr s)"

record task =
  t_id :: string
  t_session_id :: string
  t_title :: string
  t_objective :: string
  t_state :: task_state
  t_created_at :: datetime
  t_updated_at :: datetime

definition make_task ::
  "string \<Rightarrow> string \<Rightarrow> string \<Rightarrow> string \<Rightarrow> string \<Rightarrow> datetime \<Rightarrow> datetime \<Rightarrow> exc + task" where
  "make_task id0 session_id title objective state created_at updated_at =
   rbind (require_non_empty_text ''id'' id0) (\<lambda>id1.
   rbind (require_non_empty_text ''session_id'' session_id) (\<lambda>sess1.
   rbind (require_non_empty_text ''title'' title) (\<lambda>title1.
   rbind (require_non_empty_text ''objective'' objective) (\<lambda>obj1.
   rbind (normalize_task_state state) (\<lambda>state1.
   rbind (require_aware_datetime ''created_at'' created_at) (\<lambda>created1.
   rbind (require_aware_datetime ''updated_at'' updated_at) (\<lambda>updated1.
   rbind (ensure (\<not> instant updated1 < instant created1)
            (ValueError ''updated_at must not be before created_at'')) (\<lambda>_.
   Inr \<lparr>t_id = id1, t_session_id = sess1, t_title = title1, t_objective = obj1,
        t_state = state1, t_created_at = created1, t_updated_at = updated1\<rparr>))))))))"

definition wf_task :: "task \<Rightarrow> bool" where
  "wf_task t \<longleftrightarrow> clean (t_id t) \<and> clean (t_session_id t) \<and> clean (t_title t) \<and>
     clean (t_objective t) \<and> is_aware (t_created_at t) \<and> is_aware (t_updated_at t) \<and>
     instant (t_created_at t) \<le> instant (t_updated_at t)"

definition reload_task :: "task \<Rightarrow> exc + task" where
  "reload_task t = make_task (t_id t) (t_session_id t) (t_title t) (t_objective t)
     (show_task_state (t_state t)) (t_created_at t) (t_updated_at t)"

lemma show_task_state_inj [simp]: "show_task_state s = show_task_state t \<longleftrightarrow> s = t"
  by (cases s; cases t) simp_all

lemma normalize_task_state_show [simp]: "normalize_task_state (show_task_state s) = Inr s"
  by (cases s; simp add: normalize_task_state_def parse_literal_def task_states_def
        require_non_empty_text_def strip_def is_space_def)

lemma make_task_wf: "make_task i s ti ob st c u = Inr t \<Longrightarrow> wf_task t"
  by (auto simp: make_task_def rbind_Inr_iff require_aware_Inr_iff wf_task_def
      dest: require_text_clean)

lemma reload_task_id: "wf_task t \<Longrightarrow> reload_task t = Inr t"
  by (auto simp: reload_task_def make_task_def wf_task_def ensure_def)

section \<open>Approval\<close>

datatype approval_state = APending | AGranted | ADenied | ATimeout

fun show_approval_state :: "approval_state \<Rightarrow> string" where
  "show_approval_state APending = ''pending''"
| "show_approval_state AGranted = ''granted''"
| "show_approval_state ADenied = ''denied''"
| "show_approval_state ATimeout = ''timeout''"

definition approval_states :: "approval_state list" where
  "approval_states = [APending, AGranted, ADenied, ATimeout]"

definition normalize_approval_state :: "string \<Rightarrow> exc + approval_state" where
  "normalize_approval_state value = rbind (require_non_empty_text ''state'' value) (\<lambda>normalized.
     case parse_literal show_approval_state approval_states normalized of
       None \<Rightarrow> Inl (ValueError ''state must be one of the approval states'')
     | Some s \<Rightarrow> Inr s)"

record approval =
  ap_id :: string
  ap_run_id :: string
  ap_kind :: string
  ap_requested_capability :: "string option"
  ap_summary :: string
  ap_state :: approval_state
  ap_requested_at :: datetime
  ap_decided_at :: "datetime option"
  ap_decided_by :: "string option"
  ap_expires_at :: "datetime option"

definition check_decided_at :: "datetime \<Rightarrow> datetime \<Rightarrow> exc + datetime" where
  "check_decided_at requested_at decided_at =
     rbind (require_aware_datetime ''decided_at'' decided_at) (\<lambda>d.
     rbind (ensure (\<not> instant d < instant requested_at)
              (ValueError ''decided_at must not be before requested_at'')) (\<lambda>_. Inr d))"

definition check_decision_fields ::
  "approval_state \<Rightarrow> datetime option \<Rightarrow> string option \<Rightarrow> exc + unit" where
  "check_decision_fields state decided_at decided_by =
     (if state = APending
      then ensure (decided_at = None \<and> decided_by = None)
             (ValueError ''pending approvals must not have decided_at or decided_by'')
      else ensure (decided_at \<noteq> None)
             (ValueError ''decided_at must be set once approval state is not pending''))"

definition make_approval ::
  "string \<Rightarrow> string \<Rightarrow> string \<Rightarrow> string option \<Rightarrow> string \<Rightarrow> string \<Rightarrow> datetime \<Rightarrow>
   datetime option \<Rightarrow> string option \<Rightarrow> datetime option \<Rightarrow> exc + approval" where
  "make_approval id0 run_id approval_kind requested_capability summary state requested_at
     decided_at decided_by expires_at =
   rbind (require_non_empty_text ''id'' id0) (\<lambda>id1.
   rbind (require_non_empty_text ''run_id'' run_id) (\<lambda>run1.
   rbind (require_non_empty_text ''approval_kind'' approval_kind) (\<lambda>kind1.
   rbind (ropt (require_non_empty_text ''requested_capability'') requested_capability) (\<lambda>cap1.
   rbind (require_non_empty_text ''summary'' summary) (\<lambda>sum1.
   rbind (normalize_approval_state state) (\<lambda>state1.
   rbind (require_aware_datetime ''requested_at'' requested_at) (\<lambda>req1.
   rbind (ropt (check_decided_at req1) decided_at) (\<lambda>dec1.
   rbind (ropt (require_non_empty_text ''decided_by'') decided_by) (\<lambda>by1.
   rbind (ropt (\<lambda>t. rbind (require_aware_datetime ''expires_at'' t) (\<lambda>u. Inr (as_utc u)))
            expires_at) (\<lambda>exp1.
   rbind (check_decision_fields state1 dec1 by1) (\<lambda>_.
   Inr \<lparr>ap_id = id1, ap_run_id = run1, ap_kind = kind1, ap_requested_capability = cap1,
        ap_summary = sum1, ap_state = state1, ap_requested_at = req1, ap_decided_at = dec1,
        ap_decided_by = by1, ap_expires_at = exp1\<rparr>)))))))))))"

definition wf_approval :: "approval \<Rightarrow> bool" where
  "wf_approval a \<longleftrightarrow> clean (ap_id a) \<and> clean (ap_run_id a) \<and> clean (ap_kind a) \<and>
     clean (ap_summary a) \<and> (\<forall>c \<in> set_option (ap_requested_capability a). clean c) \<and>
     is_aware (ap_requested_at a) \<and>
     (\<forall>d \<in> set_option (ap_decided_at a). is_aware d \<and> instant (ap_requested_at a) \<le> instant d) \<and>
     (\<forall>b \<in> set_option (ap_decided_by a). clean b) \<and>
     (\<forall>x \<in> set_option (ap_expires_at a). is_aware x \<and> as_utc x = x) \<and>
     (if ap_state a = APending then ap_decided_at a = None \<and> ap_decided_by a = None
      else ap_decided_at a \<noteq> None)"

definition reload_approval :: "approval \<Rightarrow> exc + approval" where
  "reload_approval a = make_approval (ap_id a) (ap_run_id a) (ap_kind a)
     (ap_requested_capability a) (ap_summary a) (show_approval_state (ap_state a))
     (ap_requested_at a) (ap_decided_at a) (ap_decided_by a) (ap_expires_at a)"

lemma show_approval_state_inj [simp]: "show_approval_state s = show_approval_state t \<longleftrightarrow> s = t"
  by (cases s; cases t) simp_all

lemma normalize_approval_state_show [simp]:
  "normalize_approval_state (show_approval_state s) = Inr s"
  by (cases s; simp add: normalize_approval_state_def parse_literal_def approval_states_def
        require_non_empty_text_def strip_def is_space_def)

lemma check_decided_at_Inr_iff:
  "check_decided_at r d = Inr x \<longleftrightarrow> x = d \<and> is_aware d \<and> instant r \<le> instant d"
  by (auto simp: check_decided_at_def rbind_Inr_iff require_aware_Inr_iff)

lemma ropt_text_clean:
  "ropt (require_non_empty_text f) v = Inr r \<Longrightarrow> r = Some x \<Longrightarrow> clean x"
  by (cases v) (auto simp: rbind_Inr_iff dest: require_text_clean)

lemma ropt_decided_at:
  "ropt (check_decided_at q) v = Inr r \<Longrightarrow> r = Some d \<Longrightarrow> is_aware d \<and> instant q \<le> instant d"
  by (cases v) (auto simp: rbind_Inr_iff check_decided_at_Inr_iff)

lemma ropt_expires_at:
  "ropt (\<lambda>t. rbind (require_aware_datetime f t) (\<lambda>u. Inr (as_utc u))) v = Inr r \<Longrightarrow> r = Some x \<Longrightarrow>
   is_aware x \<and> as_utc x = x"
  by (cases v) (auto simp: rbind_Inr_iff require_aware_Inr_iff)

lemma make_approval_wf:
  assumes "make_approval i r k c su st q d b x = Inr a"
  shows "wf_approval a"
proof -
  from assms obtain id1 run1 kind1 cap1 sum1 state1 req1 dec1 by1 exp1 u where
    t: "require_non_empty_text ''id'' i = Inr id1" "require_non_empty_text ''run_id'' r = Inr run1"
       "require_non_empty_text ''approval_kind'' k = Inr kind1"
       "require_non_empty_text ''summary'' su = Inr sum1" and
    o: "ropt (require_non_empty_text ''requested_capability'') c = Inr cap1"
       "ropt (check_decided_at req1) d = Inr dec1"
       "ropt (require_non_empty_text ''decided_by'') b = Inr by1"
       "ropt (\<lambda>t. rbind (require_aware_datetime ''expires_at'' t) (\<lambda>u. Inr (as_utc u))) x = Inr exp1" and
    q: "require_aware_datetime ''requested_at'' q = Inr req1" and
    st: "check_decision_fields state1 dec1 by1 = Inr u" and
    a: "(Inr a :: exc + approval) = Inr \<lparr>ap_id = id1, ap_run_id = run1, ap_kind = kind1, ap_requested_capability = cap1,
        ap_summary = sum1, ap_state = state1, ap_requested_at = req1, ap_decided_at = dec1,
        ap_decided_by = by1, ap_expires_at = exp1\<rparr>"
    unfolding make_approval_def rbind_Inr_iff by (elim exE conjE) (rule that, (assumption | rule sym)+)
  show ?thesis
    using t [THEN require_text_clean] q st ropt_text_clean [OF o(1)] ropt_decided_at [OF o(2)]
      ropt_text_clean [OF o(3)] ropt_expires_at [OF o(4)]
    by (simp add: a [unfolded sum.inject] wf_approval_def require_aware_Inr_iff check_decision_fields_def split: if_splits)
qed

lemma reload_approval_id: "wf_approval a \<Longrightarrow> reload_approval a = Inr a"
  by (cases "ap_requested_capability a"; cases "ap_decided_at a"; cases "ap_decided_by a";
      cases "ap_expires_at a")
     (auto simp: reload_approval_def make_approval_def wf_approval_def check_decided_at_def
        check_decision_fields_def ensure_def split: if_splits)

section \<open>Run events\<close>

text \<open>The required payload fields of each event type of RT-002.\<close>

definition required_payload_fields :: "(string \<times> string list) list" where
  "required_payload_fields =
    [(''run.created'', [''instance_id'', ''profile'', ''policy_preset'', ''manifest_ref'', ''entrypoint'']),
     (''run.plan_ready'', [''plan_ref'', ''summary'', ''revision'', ''approval_required'']),
     (''run.execution_started'', [''worker_session_ref'', ''attempt'', ''resume_kind'']),
     (''run.progress'', [''phase'', ''milestone'']),
     (''run.approval_waiting'', [''approval_id'', ''approval_kind'', ''summary'']),
     (''run.resumed'', [''resume_kind'', ''resumed_from_seq'']),
     (''run.artifact_created'', [''artifact_ref'', ''artifact_kind'', ''label'']),
     (''run.completed'', [''outcome'']),
     (''run.failed'', [''failure_code'', ''message'', ''retryable'']),
     (''run.cancelled'', [''reason''])]"

definition validate_payload :: "string \<Rightarrow> payload \<Rightarrow> exc + unit" where
  "validate_payload event_type payload =
     (case map_of required_payload_fields event_type of
        None \<Rightarrow> Inl (ValueError ''Unknown event type'')
      | Some required \<Rightarrow>
          (let missing = filter (\<lambda>f. f \<notin> set (dict_keys payload)) required in
           if missing \<noteq> [] then Inl (ValueError ''Event type requires payload fields'')
           else Inr ()))"

record causation =
  c_event_id :: "string option"
  c_action :: "string option"
  c_request_id :: "string option"

definition make_causation :: "string option \<Rightarrow> string option \<Rightarrow> string option \<Rightarrow> exc + causation" where
  "make_causation event_id action request_id =
     (if event_id = None \<and> action = None \<and> request_id = None
      then Inl (ValueError ''At least one of event_id, action, or request_id must be set'')
      else Inr \<lparr>c_event_id = event_id, c_action = action, c_request_id = request_id\<rparr>)"

datatype actor_kind = Operator | System | SchedulerActor | Worker | PolicyEngine

fun show_actor_kind :: "actor_kind \<Rightarrow> string" where
  "show_actor_kind Operator = ''operator''"
| "show_actor_kind System = ''system''"
| "show_actor_kind SchedulerActor = ''scheduler''"
| "show_actor_kind Worker = ''worker''"
| "show_actor_kind PolicyEngine = ''policy-engine''"

definition actor_kinds :: "actor_kind list" where
  "actor_kinds = [Operator, System, SchedulerActor, Worker, PolicyEngine]"

text \<open>Unlike the other enumerations, the kind is compared as given, without trimming.\<close>

definition normalize_actor_kind :: "string \<Rightarrow> exc + actor_kind" where
  "normalize_actor_kind value = (case parse_literal show_actor_kind actor_kinds value of
       None \<Rightarrow> Inl (ValueError ''kind must be one of the actor kinds'')
     | Some k \<Rightarrow> Inr k)"

record actor =
  a_kind :: actor_kind
  a_id :: "string option"
  a_display :: "string option"

definition make_actor :: "string \<Rightarrow> string option \<Rightarrow> string option \<Rightarrow> exc + actor" where
  "make_actor kind id0 display = rbind (normalize_actor_kind kind) (\<lambda>k.
     Inr \<lparr>a_kind = k, a_id = id0, a_display = display\<rparr>)"

record run_event =
  e_id :: string
  e_run_id :: string
  e_seq :: int
  e_type :: string
  e_payload :: payload
  e_timestamp :: datetime
  e_causation :: "causation option"
  e_actor :: "actor option"

definition make_event ::
  "string \<Rightarrow> string \<Rightarrow> int \<Rightarrow> string \<Rightarrow> payload \<Rightarrow> datetime \<Rightarrow> causation option \<Rightarrow> actor option
   \<Rightarrow> exc + run_event" where
  "make_event id0 run_id seq type0 payload timestamp causation actor =
     rbind (ensure (\<not> seq < 1) (ValueError ''seq must be an integer >= 1'')) (\<lambda>_.
     rbind (ensure (is_aware timestamp)
              (ValueError ''timestamp must be timezone-aware (UTC)'')) (\<lambda>_.
     rbind (validate_payload type0 payload) (\<lambda>_.
     Inr \<lparr>e_id = id0, e_run_id = run_id, e_seq = seq, e_type = type0, e_payload = payload,
          e_timestamp = as_utc timestamp, e_causation = causation, e_actor = actor\<rparr>)))"

definition wf_event :: "run_event \<Rightarrow> bool" where
  "wf_event e \<longleftrightarrow> 1 \<le> e_seq e \<and> is_aware (e_timestamp e) \<and> as_utc (e_timestamp e) = e_timestamp e \<and>
     validate_payload (e_type e) (e_payload e) = Inr ()"

lemma validate_payload_Inr_iff:
  "validate_payload ty p = Inr u \<longleftrightarrow>
     (\<exists>req. map_of required_payload_fields ty = Some req \<and> set req \<subseteq> fst ` set p)"
  by (auto simp: validate_payload_def dict_keys_def Let_def filter_empty_conv split: option.splits)

lemma make_event_wf: "make_event i r n ty p ts c a = Inr e \<Longrightarrow> wf_event e"
  by (auto simp: make_event_def rbind_Inr_iff wf_event_def)

lemma make_event_self:
  "wf_event e \<Longrightarrow> make_event (e_id e) (e_run_id e) (e_seq e) (e_type e) (e_payload e)
     (e_timestamp e) (e_causation e) (e_actor e) = Inr e"
  by (simp add: make_event_def wf_event_def)

text \<open>Which keys make a payload of each type acceptable, in a form the simplifier can use.\<close>

lemma validate_payload_types [simp]:
  "validate_payload ''run.created'' p = Inr u \<longleftrightarrow>
     {''instance_id'', ''profile'', ''policy_preset'', ''manifest_ref'', ''entrypoint''} \<subseteq> fst ` set p"
  "validate_payload ''run.progress'' p = Inr u \<longleftrightarrow> {''phase'', ''milestone''} \<subseteq> fst ` set p"
  "validate_payload ''run.approval_waiting'' p = Inr u \<longleftrightarrow>
     {''approval_id'', ''approval_kind'', ''summary''} \<subseteq> fst ` set p"
  "validate_payload ''run.resumed'' p = Inr u \<longleftrightarrow>
     {''resume_kind'', ''resumed_from_seq''} \<subseteq> fst ` set p"
  "validate_payload ''run.artifact_created'' p = Inr u \<longleftrightarrow>
     {''artifact_ref'', ''artifact_kind'', ''label''} \<subseteq> fst ` set p"
  "validate_payload ''run.completed'' p = Inr u \<longleftrightarrow> {''outcome''} \<subseteq> fst ` set p"
  "validate_payload ''run.failed'' p = Inr u \<longleftrightarrow>
     {''failure_code'', ''message'', ''retryable''} \<subseteq> fst ` set p"
  "validate_payload ''run.cancelled'' p = Inr u \<longleftrightarrow> {''reason''} \<subseteq> fst ` set p"
  by (simp_all add: validate_payload_Inr_iff required_payload_fields_def)

text \<open>An event built from a literal type and a payload with its fields is never refused.\<close>

lemma make_event_ok:
  assumes "1 \<le> n" "is_aware ts" "validate_payload ty p = Inr ()"
  shows "make_event i r n ty p ts c a =
    Inr \<lparr>e_id = i, e_run_id = r, e_seq = n, e_type = ty, e_payload = p,
         e_timestamp = as_utc ts, e_causation = c, e_actor = a\<rparr>"
  using assms by (simp add: make_event_def ensure_def)

section \<open>Checkpoint\<close>

datatype checkpoint_kind = CkPlan | CkPreApproval | CkPostExecution | CkManual | CkRecovery

record checkpoint =
  ck_id :: string
  ck_run_id :: string
  ck_kind :: checkpoint_kind
  ck_created_at :: datetime
  ck_label :: "string option"

definition checkpoint_ref :: "checkpoint \<Rightarrow> string" where
  "checkpoint_ref c = ''checkpoint://runs/'' @ ck_run_id c @ ''/'' @ ck_id c"

text \<open>\<open>uuid4().hex\<close> and the clock are arguments.\<close>

definition make_checkpoint ::
  "string \<Rightarrow> datetime \<Rightarrow> string \<Rightarrow> checkpoint_kind \<Rightarrow> datetime option \<Rightarrow> string option \<Rightarrow> checkpoint" where
  "make_checkpoint uuid_hex now run_id kind created_at label =
     \<lparr>ck_id = ''ckp_'' @ take 12 uuid_hex, ck_run_id = run_id, ck_kind = kind,
      ck_created_at = (case created_at of None \<Rightarrow> now | Some t \<Rightarrow> t), ck_label = label\<rparr>"

section \<open>Token usage\<close>

record token_usage =
  tu_id :: string
  tu_run_id :: string
  tu_seq :: int
  tu_provider :: string
  tu_model :: string
  tu_prompt_tokens :: int
  tu_completion_tokens :: int
  tu_total_tokens :: int
  tu_recorded_at :: datetime
  tu_call_ref :: "string option"

definition make_token_usage ::
  "string \<Rightarrow> string \<Rightarrow> int \<Rightarrow> string \<Rightarrow> string \<Rightarrow> int \<Rightarrow> int \<Rightarrow> int \<Rightarrow> datetime \<Rightarrow> string option
   \<Rightarrow> exc + token_usage" where
  "make_token_usage id0 run_id seq provider model prompt completion tot recorded_at call_ref =
     rbind (ensure (\<not> (prompt < 0 \<or> completion < 0 \<or> tot < 0))
              (ValueError ''token counts must be non-negative'')) (\<lambda>_.
     rbind (ensure (tot = prompt + completion)
              (ValueError ''total_tokens must equal prompt_tokens + completion_tokens'')) (\<lambda>_.
     rbind (ensure (\<not> seq < 1) (ValueError ''seq must be >= 1'')) (\<lambda>_.
     rbind (ensure (strip provider \<noteq> []) (ValueError ''provider must be a non-empty string'')) (\<lambda>_.
     rbind (ensure (strip model \<noteq> []) (ValueError ''model must be a non-empty string'')) (\<lambda>_.
     rbind (ensure (is_aware recorded_at) (ValueError ''recorded_at must be timezone-aware'')) (\<lambda>_.
     Inr \<lparr>tu_id = id0, tu_run_id = run_id, tu_seq = seq, tu_provider = provider, tu_model = model,
          tu_prompt_tokens = prompt, tu_completion_tokens = completion, tu_total_tokens = tot,
          tu_recorded_at = as_utc recorded_at, tu_call_ref = call_ref\<rparr>))))))"

definition summary_artifact_ref :: "string \<Rightarrow> string" where
  "summary_artifact_ref run_id = ''artifact://runs/'' @ run_id @ ''/usage-summary''"

end
