(* ===== verification/Milestones.thy ===== *)
theory Milestones
  imports Prelude
begin

text \<open>
  The milestone catalog of services/orchestration/milestones.py: every
  \<open>phase\<close>/\<open>milestone\<close> pair a \<open>run.progress\<close> event may carry, the test the emitters
  make before they build an event, and the table derived from the catalog per phase.
\<close>

definition all_phases :: "string list" where
  "all_phases = [''intake'', ''plan'', ''execute'', ''review'', ''handoff'', ''code'']"

text \<open>\<open>MilestoneDefinition(phase, milestone, description)\<close>, in the catalog's order.\<close>

definition milestone_catalog :: "(string \<times> string \<times> string) list" where
  "milestone_catalog =
    [(''intake'', ''received'', ''Task received and parsed by the harness''),
     (''intake'', ''accepted'', ''Task accepted for processing''),
     (''plan'', ''drafted'', ''Initial plan drafted''),
     (''plan'', ''approval_requested'', ''Plan submitted for approval gate''),
     (''plan'', ''ready'', ''Plan approved and ready for execution''),
     (''plan'', ''revision_cataloged'',
       ''Plan revision cataloged as a first-class artifact with diff and rationale''),
     (''execute'', ''tool_invoked'', ''A tool invocation starts''),
     (''execute'', ''artifact_emitted'', ''A tool or step produced an artifact''),
     (''execute'', ''waiting_approval'', ''Execution paused at an approval gate''),
     (''review'', ''findings_recorded'', ''Review findings are durably saved''),
     (''handoff'', ''envelope_emitted'', ''Delegation envelope registered for child run''),
     (''handoff'', ''sub_agent_registered'',
       ''Bounded sub-agent role registered for orchestration''),
     (''handoff'', ''sub_agent_started'', ''Sub-agent execution started''),
     (''handoff'', ''sub_agent_completed'', ''Sub-agent execution completed''),
     (''handoff'', ''team_started'',
       ''Team execution started with aggregated member progress''),
     (''handoff'', ''team_completed'',
       ''Team execution completed with aggregated member progress''),
     (''handoff'', ''team_blocked'',
       ''Team execution blocked on handoff routing or member progress''),
     (''code'', ''iteration_started'', ''Till-done loop iteration begins''),
     (''code'', ''plan_drafted'', ''Plan artifact drafted for iteration''),
     (''code'', ''plan_approved'', ''Plan approved for implementation''),
     (''code'', ''changes_applied'', ''Implementation changes applied''),
     (''code'', ''check_passed'', ''Verification checks passed''),
     (''code'', ''check_failed'', ''Verification checks failed, iteration retries''),
     (''code'', ''plan_revised'', ''Plan revised for next iteration''),
     (''code'', ''iteration_complete'', ''Iteration completed, advance to next phase''),
     (''code'', ''loop_escalated'', ''Loop escalated due to max iterations''),
     (''code'', ''terminal'', ''Coding run reached terminal state'')]"

definition milestone_set :: "(string \<times> string) list" where
  "milestone_set = map (\<lambda>(phase, milestone, _). (phase, milestone)) milestone_catalog"

definition is_valid_milestone :: "string \<Rightarrow> string \<Rightarrow> bool" where
  "is_valid_milestone phase milestone = ((phase, milestone) \<in> set milestone_set)"

definition get_milestones :: "string \<Rightarrow> string list" where
  "get_milestones phase =
     map (\<lambda>(_, milestone, _). milestone) (filter (\<lambda>(p, _, _). p = phase) milestone_catalog)"

definition milestones :: "(string \<times> string list) list" where
  "milestones = map (\<lambda>p. (p, get_milestones p)) all_phases"

lemma get_milestones_iff: "m \<in> set (get_milestones p) \<longleftrightarrow> is_valid_milestone p m"
  by (force simp: get_milestones_def is_valid_milestone_def milestone_set_def)

lemma catalog_phases: "is_valid_milestone p m \<Longrightarrow> p \<in> set all_phases"
  by (auto simp: is_valid_milestone_def milestone_set_def milestone_catalog_def all_phases_def)

text \<open>The pairs the emitters of the model use.\<close>

lemma valid_milestones [simp]:
  "is_valid_milestone ''intake'' ''received''"
  "is_valid_milestone ''intake'' ''accepted''"
  "is_valid_milestone ''plan'' ''drafted''"
  "is_valid_milestone ''plan'' ''approval_requested''"
  "is_valid_milestone ''plan'' ''ready''"
  "is_valid_milestone ''plan'' ''revision_cataloged''"
  "is_valid_milestone ''execute'' ''tool_invoked''"
  "is_valid_milestone ''execute'' ''artifact_emitted''"
  "is_valid_milestone ''execute'' ''waiting_approval''"
  "is_valid_milestone ''review'' ''findings_recorded''"
  "is_valid_milestone ''handoff'' ''envelope_emitted''"
  "is_valid_milestone ''handoff'' ''sub_agent_registered''"
  "is_valid_milestone ''handoff'' ''sub_agent_started''"
  "is_valid_milestone ''handoff'' ''sub_agent_completed''"
  "is_valid_milestone ''handoff'' ''team_started''"
  "is_valid_milestone ''handoff'' ''team_completed''"
  "is_valid_milestone ''handoff'' ''team_blocked''"
  "is_valid_milestone ''code'' ''iteration_started''"
  "is_valid_milestone ''code'' ''plan_drafted''"
  "is_valid_milestone ''code'' ''plan_approved''"
  "is_valid_milestone ''code'' ''changes_applied''"
  "is_valid_milestone ''code'' ''check_passed''"
  "is_valid_milestone ''code'' ''check_failed''"
  "is_valid_milestone ''code'' ''plan_revised''"
  "is_valid_milestone ''code'' ''iteration_complete''"
  "is_valid_milestone ''code'' ''loop_escalated''"
  "is_valid_milestone ''code'' ''terminal''"
  by (simp_all add: is_valid_milestone_def milestone_set_def milestone_catalog_def)

lemma resume_blocked_not_cataloged [simp]: "\<not> is_valid_milestone ''execute'' ''resume_blocked''"
  by (simp add: is_valid_milestone_def milestone_set_def milestone_catalog_def)

end
