(* ===== verification/Store.thy ===== *)
theory Store
  imports Domain
begin

text \<open>
  The durable store the services share: the tables \<open>runs\<close>, \<open>run_events\<close>,
  \<open>approvals\<close>, \<open>tasks\<close> and \<open>checkpoints\<close>, and the repositories of
  infra/db/repositories over them. A table is the list of its rows in insertion order,
  keyed by primary key; \<open>run_events\<close> is the list of its rows, with its primary key \<open>id\<close>
  and its unique constraint on \<open>(run_id, seq)\<close>. Reading a row rebuilds the domain
  record with its constructor, as the code does.

  \<open>w_clock\<close> and \<open>w_uuid\<close> are what successive calls of \<open>datetime.now(UTC)\<close> and of
  \<open>uuid4().hex\<close> return; nothing is assumed of them except where a statement says so.
  A statement the database refuses leaves its tables as they were. Commit and rollback of
  the surrounding transaction are the caller's and outside the model.

  Two locales state the interfaces of domain/repositories/protocols.py that the services
  are written against, and are interpreted here on the repositories.
\<close>

section \<open>Tables\<close>

record world =
  w_runs :: "(string \<times> run) list"
  w_events :: "run_event list"
  w_approvals :: "(string \<times> approval) list"
  w_tasks :: "(string \<times> task) list"
  w_checkpoints :: "(string \<times> checkpoint) list"
  w_clock :: "nat \<Rightarrow> int"
  w_ticks :: nat
  w_uuid :: "nat \<Rightarrow> string"
  w_uuids :: nat

definition now_utc :: "(world, datetime) prog" where
  "now_utc w = (Inr (Aware (w_clock w (w_ticks w)) 0), w\<lparr>w_ticks := Suc (w_ticks w)\<rparr>)"

definition uuid_hex :: "(world, string) prog" where
  "uuid_hex w = (Inr (w_uuid w (w_uuids w)), w\<lparr>w_uuids := Suc (w_uuids w)\<rparr>)"

section \<open>RunRepository\<close>

definition run_create :: "run \<Rightarrow> (world, run) prog" where
  "run_create r w =
     (if map_of (w_runs w) (r_id r) \<noteq> None then (Inl (IntegrityError ''runs.id''), w)
      else (Inr r, w\<lparr>w_runs := w_runs w @ [(r_id r, r)]\<rparr>))"

definition run_get :: "string \<Rightarrow> (world, run option) prog" where
  "run_get run_id w = (ropt reload_run (map_of (w_runs w) run_id), w)"

definition run_update_state ::
  "string \<Rightarrow> run_state \<Rightarrow> int option \<Rightarrow> (world, run) prog" where
  "run_update_state run_id new_state terminal_seq =
     bind now_utc (\<lambda>now.
     andthen (modify (\<lambda>w. case map_of (w_runs w) run_id of
         None \<Rightarrow> w
       | Some r \<Rightarrow> w\<lparr>w_runs := AList.update run_id
             (r\<lparr>r_state := new_state, r_updated_at := now, r_terminal_seq := terminal_seq\<rparr>)
             (w_runs w)\<rparr>))
     (bind (run_get run_id) (\<lambda>result. case result of
         None \<Rightarrow> raise (RuntimeError ''Run disappeared after update_state'')
       | Some r \<Rightarrow> ret r)))"

section \<open>RunEventRepository\<close>

definition terminal_states :: "run_state list" where
  "terminal_states = [RCompleted, RFailed, RCancelled]"

definition events_of :: "world \<Rightarrow> string \<Rightarrow> run_event list" where
  "events_of w run_id = filter (\<lambda>e. e_run_id e = run_id) (w_events w)"

text \<open>\<open>SELECT COALESCE(MAX(seq), 0) FROM run_events WHERE run_id = ?\<close>\<close>

definition max_seq :: "world \<Rightarrow> string \<Rightarrow> int" where
  "max_seq w run_id = (case map e_seq (events_of w run_id) of [] \<Rightarrow> 0 | n # ns \<Rightarrow> fold max ns n)"

definition ev_latest_seq :: "string \<Rightarrow> (world, int) prog" where
  "ev_latest_seq run_id = gets (\<lambda>w. max_seq w run_id)"

definition get_run_state :: "string \<Rightarrow> world \<Rightarrow> run_state option" where
  "get_run_state run_id w = map_option r_state (map_of (w_runs w) run_id)"

definition compute_next_seq :: "string \<Rightarrow> world \<Rightarrow> int" where
  "compute_next_seq run_id w = max_seq w run_id + 1"

text \<open>
  The guard on the run's state, the next sequence number, the insertion under that number
  (the caller's own \<open>seq\<close> is ignored) and the event as it was stored. Rebuilding the
  event with the assigned number cannot raise: it was constructed before and the number
  is positive.
\<close>

definition ev_append :: "run_event \<Rightarrow> (world, run_event) prog" where
  "ev_append event w =
     (let run_id = e_run_id event in
      if (\<exists>s \<in> set terminal_states. get_run_state run_id w = Some s)
      then (Inl (TerminalRunStateError run_id), w)
      else
        let next_seq = compute_next_seq run_id w;
            row = event\<lparr>e_seq := next_seq\<rparr> in
        if e_id row \<in> e_id ` set (w_events w)
        then (Inl (IntegrityError ''run_events.id''), w)
        else if (run_id, next_seq) \<in> (\<lambda>e. (e_run_id e, e_seq e)) ` set (w_events w)
        then (Inl (IntegrityError ''uq_run_events_run_id_seq''), w)
        else (Inr row, w\<lparr>w_events := w_events w @ [row]\<rparr>))"

text \<open>\<open>seq > since_seq\<close>, ascending, at most \<open>limit\<close> rows.\<close>

definition ev_list :: "string \<Rightarrow> int \<Rightarrow> nat option \<Rightarrow> (world, run_event list) prog" where
  "ev_list run_id since_seq limit = gets (\<lambda>w.
     let rows = sort_key e_seq (filter (\<lambda>e. since_seq < e_seq e) (events_of w run_id)) in
     case limit of None \<Rightarrow> rows | Some n \<Rightarrow> take n rows)"

text \<open>
  How every emitter of the services writes an event: its number is one past the latest one,
  then the event is constructed and appended.
\<close>

definition emit_event ::
  "string \<Rightarrow> string \<Rightarrow> string \<Rightarrow> payload \<Rightarrow> datetime \<Rightarrow> causation option \<Rightarrow> actor option
   \<Rightarrow> (world, run_event) prog" where
  "emit_event id0 run_id type0 payload timestamp c a =
     bind (ev_latest_seq run_id) (\<lambda>last_seq.
     bind (lift (make_event id0 run_id (last_seq + 1) type0 payload timestamp c a)) ev_append)"

section \<open>ApprovalRepository, TaskRepository, CheckpointRepository\<close>

definition approval_get :: "string \<Rightarrow> (world, approval option) prog" where
  "approval_get id0 w = (ropt reload_approval (map_of (w_approvals w) id0), w)"

text \<open>Insert or update by primary key: \<open>AList.update\<close> is both.\<close>

definition approval_save :: "approval \<Rightarrow> (world, approval) prog" where
  "approval_save a = bind (approval_get (ap_id a)) (\<lambda>existing.
     andthen (modify (\<lambda>w. w\<lparr>w_approvals := AList.update (ap_id a) a (w_approvals w)\<rparr>)) (ret a))"

definition approval_list_by_run :: "string \<Rightarrow> (world, approval list) prog" where
  "approval_list_by_run run_id w =
     (rmap reload_approval (filter (\<lambda>a. ap_run_id a = run_id) (map snd (w_approvals w))), w)"

definition task_get :: "string \<Rightarrow> (world, task option) prog" where
  "task_get id0 w = (ropt reload_task (map_of (w_tasks w) id0), w)"

definition task_save :: "task \<Rightarrow> (world, task) prog" where
  "task_save t = bind (task_get (t_id t)) (\<lambda>existing.
     andthen (modify (\<lambda>w. w\<lparr>w_tasks := AList.update (t_id t) t (w_tasks w)\<rparr>)) (ret t))"

definition checkpoint_get :: "string \<Rightarrow> (world, checkpoint option) prog" where
  "checkpoint_get id0 = gets (\<lambda>w. map_of (w_checkpoints w) id0)"

definition checkpoint_save :: "checkpoint \<Rightarrow> (world, checkpoint) prog" where
  "checkpoint_save c w =
     (if map_of (w_checkpoints w) (ck_id c) \<noteq> None then (Inl (IntegrityError ''checkpoints.id''), w)
      else (Inr c, w\<lparr>w_checkpoints := w_checkpoints w @ [(ck_id c, c)]\<rparr>))"

definition checkpoint_list_by_run :: "string \<Rightarrow> (world, checkpoint list) prog" where
  "checkpoint_list_by_run run_id = gets (\<lambda>w.
     filter (\<lambda>c. ck_run_id c = run_id) (map snd (w_checkpoints w)))"

section \<open>What every operation keeps\<close>

text \<open>
  A table is in order when its keys are distinct, each row is stored under its own id and
  is a value its class can construct. The event log is in order when ids are distinct, every
  event is well formed and, per run, the sequence numbers in insertion order are exactly
  \<open>1, 2, ..., n\<close>.
\<close>

definition rows_ok :: "('a \<Rightarrow> string) \<Rightarrow> ('a \<Rightarrow> bool) \<Rightarrow> (string \<times> 'a) list \<Rightarrow> bool" where
  "rows_ok key good t \<longleftrightarrow> distinct (map fst t) \<and> (\<forall>(k, v) \<in> set t. key v = k \<and> good v)"

definition seqs_of :: "run_event list \<Rightarrow> string \<Rightarrow> int list" where
  "seqs_of es run_id = map e_seq (filter (\<lambda>e. e_run_id e = run_id) es)"

definition log_ok :: "run_event list \<Rightarrow> bool" where
  "log_ok es \<longleftrightarrow> distinct (map e_id es) \<and> (\<forall>e \<in> set es. wf_event e) \<and>
     (\<forall>r. seqs_of es r = map int [1..<Suc (length (seqs_of es r))])"

definition clock_ok :: "world \<Rightarrow> bool" where
  "clock_ok w \<longleftrightarrow> mono (w_clock w) \<and>
     (\<forall>(k, r) \<in> set (w_runs w). instant (r_created_at r) \<le> w_clock w (w_ticks w))"

definition world_ok :: "world \<Rightarrow> bool" where
  "world_ok w \<longleftrightarrow> rows_ok r_id wf_run (w_runs w) \<and> rows_ok ap_id wf_approval (w_approvals w) \<and>
     rows_ok t_id wf_task (w_tasks w) \<and> log_ok (w_events w) \<and> clock_ok w"

lemma rows_ok_Nil [simp]: "rows_ok key good []"
  by (simp add: rows_ok_def)

lemma rows_okD: "rows_ok key good t \<Longrightarrow> map_of t k = Some v \<Longrightarrow> good v \<and> key v = k"
  by (auto simp: rows_ok_def dest!: map_of_SomeD)

lemma set_update_subset: "set (AList.update k v t) \<subseteq> insert (k, v) (set t)"
  by (induction t) auto

lemma rows_ok_update: "rows_ok key good t \<Longrightarrow> good v \<Longrightarrow> key v = k \<Longrightarrow> rows_ok key good (AList.update k v t)"
  using set_update_subset [of k v t] by (auto simp: rows_ok_def distinct_update)

lemma rows_ok_snoc:
  "rows_ok key good t \<Longrightarrow> good v \<Longrightarrow> map_of t (key v) = None \<Longrightarrow> rows_ok key good (t @ [(key v, v)])"
  by (auto simp: rows_ok_def map_of_eq_None_iff)

lemma log_ok_Nil [simp]: "log_ok []"
  by (simp add: log_ok_def seqs_of_def)

lemma seqs_of_snoc:
  "seqs_of (es @ [e]) r = (if e_run_id e = r then seqs_of es r @ [e_seq e] else seqs_of es r)"
  by (simp add: seqs_of_def)

lemma log_ok_snoc:
  assumes "log_ok es" "wf_event e" "e_id e \<notin> e_id ` set es"
    and "e_seq e = int (length (seqs_of es (e_run_id e))) + 1"
  shows "log_ok (es @ [e])"
  using assms by (auto simp: log_ok_def seqs_of_snoc)

lemma max_seq_Max: "events_of w r \<noteq> [] \<Longrightarrow> max_seq w r = Max (set (map e_seq (events_of w r)))"
  by (cases "events_of w r") (simp_all add: max_seq_def Max.set_eq_fold [symmetric])

lemma max_seq_log_ok:
  assumes "log_ok (w_events w)"
  shows "max_seq w r = int (length (events_of w r))"
proof (cases "events_of w r = []")
  case True
  then show ?thesis by (simp add: max_seq_def)
next
  case False
  let ?n = "length (events_of w r)"
  have "map e_seq (events_of w r) = map int [1..<Suc ?n]"
    using assms by (simp add: log_ok_def seqs_of_def events_of_def)
  then have "set (map e_seq (events_of w r)) = int ` {1..<Suc ?n}" by (metis set_map set_upt)
  moreover have "Max (int ` {1..<Suc ?n}) = int ?n" using False by (intro Max_eqI) (auto simp: Suc_le_eq)
  ultimately show ?thesis using False by (simp add: max_seq_Max)
qed

lemma length_seqs_of: "length (seqs_of (w_events w) r) = length (events_of w r)"
  by (simp add: seqs_of_def events_of_def)

lemma wf_event_seq: "wf_event e \<Longrightarrow> 1 \<le> n \<Longrightarrow> wf_event (e\<lparr>e_seq := n\<rparr>)"
  by (simp add: wf_event_def)

text \<open>The sequence number an append assigns is new for its run, so only the id can clash.\<close>

lemma fresh_seq:
  assumes "log_ok (w_events w)"
  shows "(r, max_seq w r + 1) \<notin> (\<lambda>e. (e_run_id e, e_seq e)) ` set (w_events w)"
proof
  assume "(r, max_seq w r + 1) \<in> (\<lambda>e. (e_run_id e, e_seq e)) ` set (w_events w)"
  then have "max_seq w r + 1 \<in> set (seqs_of (w_events w) r)" by (force simp: seqs_of_def)
  also have "set (seqs_of (w_events w) r) = int ` {1..<Suc (length (seqs_of (w_events w) r))}"
    using assms by (subst (1) log_ok_def [THEN iffD1, THEN conjunct2, THEN conjunct2, rule_format])
      auto
  finally show False using max_seq_log_ok [OF assms, of r] by (auto simp: length_seqs_of)
qed

definition run_terminal :: "world \<Rightarrow> string \<Rightarrow> bool" where
  "run_terminal w run_id \<longleftrightarrow> (\<exists>s \<in> set terminal_states. get_run_state run_id w = Some s)"

text \<open>What the log and the guard on terminal runs do not depend on.\<close>

lemma events_of_frame [simp]:
  "events_of (w\<lparr>w_ticks := n\<rparr>) r = events_of w r" "events_of (w\<lparr>w_uuids := n\<rparr>) r = events_of w r"
  "events_of (w\<lparr>w_approvals := a\<rparr>) r = events_of w r" "events_of (w\<lparr>w_tasks := t\<rparr>) r = events_of w r"
  "events_of (w\<lparr>w_runs := s\<rparr>) r = events_of w r"
  "events_of (w\<lparr>w_checkpoints := c\<rparr>) r = events_of w r"
  by (simp_all add: events_of_def)

lemma events_of_snoc [simp]:
  "events_of (w\<lparr>w_events := es @ [e]\<rparr>) r =
     (if e_run_id e = r then events_of (w\<lparr>w_events := es\<rparr>) r @ [e] else events_of (w\<lparr>w_events := es\<rparr>) r)"
  by (simp add: events_of_def)

lemma run_terminal_frame [simp]:
  "run_terminal (w\<lparr>w_ticks := n\<rparr>) r = run_terminal w r" "run_terminal (w\<lparr>w_uuids := n\<rparr>) r = run_terminal w r"
  "run_terminal (w\<lparr>w_approvals := a\<rparr>) r = run_terminal w r"
  "run_terminal (w\<lparr>w_tasks := t\<rparr>) r = run_terminal w r"
  "run_terminal (w\<lparr>w_events := s\<rparr>) r = run_terminal w r"
  "run_terminal (w\<lparr>w_checkpoints := c\<rparr>) r = run_terminal w r"
  by (simp_all add: run_terminal_def get_run_state_def)

lemma ev_append_cases:
  assumes "log_ok (w_events w)"
  shows "ev_append e w =
    (if run_terminal w (e_run_id e) then (Inl (TerminalRunStateError (e_run_id e)), w)
     else if e_id e \<in> e_id ` set (w_events w) then (Inl (IntegrityError ''run_events.id''), w)
     else (let row = e\<lparr>e_seq := int (length (events_of w (e_run_id e))) + 1\<rparr> in
           (Inr row, w\<lparr>w_events := w_events w @ [row]\<rparr>)))"
  using assms fresh_seq [OF assms, of "e_run_id e"]
  by (simp add: ev_append_def run_terminal_def compute_next_seq_def Let_def max_seq_log_ok)

lemma log_ok_append:
  assumes "log_ok (w_events w)" "wf_event e" "ev_append e w = (r, w')"
  shows "log_ok (w_events w')"
proof -
  let ?row = "e\<lparr>e_seq := int (length (events_of w (e_run_id e))) + 1\<rparr>"
  have "log_ok (w_events w @ [?row])" if "e_id e \<notin> e_id ` set (w_events w)"
    using assms(1,2) that by (intro log_ok_snoc) (auto simp: length_seqs_of intro: wf_event_seq)
  with assms show ?thesis by (auto simp: ev_append_cases Let_def split: if_splits)
qed

section \<open>The interface of the event log\<close>

text \<open>
  What a reader of the log relies on (\<open>RunEventRepository.list\<close> and \<open>latest_seq\<close>), and what
  a writer relies on in addition (\<open>append\<close>): \<open>log s r\<close> is the history of run \<open>r\<close>.
\<close>

locale event_reader =
  fixes latest :: "string \<Rightarrow> ('s, int) prog"
    and listing :: "string \<Rightarrow> int \<Rightarrow> nat option \<Rightarrow> ('s, run_event list) prog"
    and log :: "'s \<Rightarrow> string \<Rightarrow> run_event list"
    and good :: "'s \<Rightarrow> bool"
  assumes log_seqs: "good s \<Longrightarrow> map e_seq (log s r) = map int [1..<Suc (length (log s r))]"
    and latest_spec: "good s \<Longrightarrow> latest r s = (Inr (int (length (log s r))), s)"
    and listing_spec: "good s \<Longrightarrow> listing r n lim s =
      (Inr (case lim of None \<Rightarrow> filter (\<lambda>e. n < e_seq e) (log s r)
            | Some k \<Rightarrow> take k (filter (\<lambda>e. n < e_seq e) (log s r))), s)"
begin

lemma seq_nth:
  assumes "good s" "i < length (log s r)"
  shows "e_seq (log s r ! i) = int i + 1"
proof -
  have "e_seq (log s r ! i) = map e_seq (log s r) ! i" using assms by simp
  also have "\<dots> = int i + 1" using assms by (subst log_seqs) (auto simp del: upt_Suc)
  finally show ?thesis .
qed

lemma after_is_drop:
  assumes "good s"
  shows "filter (\<lambda>e. int n < e_seq e) (log s r) = drop n (log s r)"
proof -
  let ?l = "log s r"
  have "filter (\<lambda>e. int n < e_seq e) (take n ?l) = []"
    using seq_nth [OF assms] by (auto simp: filter_empty_conv in_set_conv_nth)
  moreover have "filter (\<lambda>e. int n < e_seq e) (drop n ?l) = drop n ?l"
    using seq_nth [OF assms] by (auto simp: filter_id_conv in_set_conv_nth)
  ultimately have "filter (\<lambda>e. int n < e_seq e) (take n ?l @ drop n ?l) = drop n ?l"
    by (simp only: filter_append append_Nil)
  then show ?thesis by simp
qed

lemma listing_after:
  "good s \<Longrightarrow> listing r (int n) None s = (Inr (drop n (log s r)), s)"
  "good s \<Longrightarrow> listing r (int n) (Some k) s = (Inr (take k (drop n (log s r))), s)"
  by (simp_all add: listing_spec after_is_drop)

lemma listing_all: "good s \<Longrightarrow> listing r 0 None s = (Inr (log s r), s)"
  using listing_after(1) [of s r 0] by simp

lemma page_seq:
  assumes "good s" "p \<noteq> []" "p = take k (drop n (log s r))"
  shows "e_seq (last p) = int (n + length p)"
proof -
  have len: "length p \<le> length (log s r) - n" using assms(3) by simp
  have "last p = log s r ! (n + length p - 1)"
    using assms(2,3) by (auto simp: last_conv_nth)
  moreover have "n + length p - 1 < length (log s r)" using assms(2) len by (cases p) auto
  ultimately show ?thesis using assms(1,2) by (cases p) (auto simp: seq_nth)
qed

text \<open>Reading on from the last number of a page continues exactly where the page ended.\<close>

lemma resume_after_page:
  assumes "good s" and p: "listing r (int n) (Some k) s = (Inr p, s)" "p \<noteq> []"
  shows "listing r (e_seq (last p)) None s = (Inr (drop (n + length p) (log s r)), s)"
    and "p @ drop (n + length p) (log s r) = drop n (log s r)"
proof -
  have pt: "p = take k (drop n (log s r))" using p(1) assms(1) by (simp add: listing_after)
  from page_seq [OF assms(1) p(2) pt]
  show "listing r (e_seq (last p)) None s = (Inr (drop (n + length p) (log s r)), s)"
    using assms(1) by (simp only: listing_after)
  show "p @ drop (n + length p) (log s r) = drop n (log s r)"
    using pt by (metis append_take_drop_id drop_drop add.commute append_eq_conv_conj)
qed

end

locale event_repository = event_reader +
  fixes append :: "run_event \<Rightarrow> ('s, run_event) prog"
  assumes append_good: "good s \<Longrightarrow> wf_event e \<Longrightarrow> append e s = (r, s') \<Longrightarrow> good s'"
    and append_raise: "append e s = (Inl x, s') \<Longrightarrow> s' = s"
    and append_result: "good s \<Longrightarrow> append e s = (Inr e', s') \<Longrightarrow>
      e' = e\<lparr>e_seq := int (length (log s (e_run_id e))) + 1\<rparr>"
    and append_log: "good s \<Longrightarrow> append e s = (Inr e', s') \<Longrightarrow>
      log s' q = (if q = e_run_id e then log s q @ [e'] else log s q)"
begin

text \<open>The emission pattern: what \<open>seq = latest_seq + 1; append\<close> does, for any repository.\<close>

definition emit ::
  "string \<Rightarrow> string \<Rightarrow> string \<Rightarrow> payload \<Rightarrow> datetime \<Rightarrow> causation option \<Rightarrow> actor option
   \<Rightarrow> ('s, run_event) prog" where
  "emit i r ty p ts c a = bind (latest r) (\<lambda>n. bind (lift (make_event i r (n + 1) ty p ts c a)) append)"

lemma emit_extends:
  assumes "good s" "emit i r ty p ts c a s = (Inr e, s')"
  shows "log s' q = (if q = r then log s q @ [e] else log s q)"
    and "e_seq e = int (length (log s r)) + 1" and "e_run_id e = r" and "good s'" and "wf_event e"
    and "e_type e = ty" and "e_payload e = p" and "e_id e = i"
proof -
  let ?n = "int (length (log s r)) + 1"
  from assms obtain e0 where e0: "make_event i r ?n ty p ts c a = Inr e0"
    and ap: "append e0 s = (Inr e, s')"
    by (cases "make_event i r ?n ty p ts c a")
       (auto simp: emit_def latest_spec prog_simps)
  have w: "wf_event e0" and r: "e_run_id e0 = r" and s: "e_seq e0 = ?n"
    and rest: "e_type e0 = ty" "e_payload e0 = p" "e_id e0 = i"
    using e0 by (auto dest: make_event_wf) (auto simp: make_event_def rbind_Inr_iff)
  have e: "e = e0" using append_result [OF assms(1) ap] r s by simp
  show "log s' q = (if q = r then log s q @ [e] else log s q)"
    using append_log [OF assms(1) ap] r by simp
  show "e_seq e = ?n" "e_run_id e = r" "wf_event e" "e_type e = ty" "e_payload e = p" "e_id e = i"
    using e r s w rest by auto
  show "good s'" using append_good [OF assms(1) w ap] .
qed

lemma emit_raise: "good s \<Longrightarrow> emit i r ty p ts c a s = (Inl x, s') \<Longrightarrow> s' = s"
  by (auto simp: emit_def latest_spec prog_simps dest: append_raise split: prod.splits sum.splits)

lemma emit_good: "good s \<Longrightarrow> emit i r ty p ts c a s = (res, s') \<Longrightarrow> good s'"
  by (cases res) (auto dest: emit_raise emit_extends(4))

end

section \<open>The repository implements the interface\<close>

lemma events_of_sorted:
  assumes "log_ok (w_events w)"
  shows "map e_seq (events_of w r) = map int [1..<Suc (length (events_of w r))]"
  using assms by (simp add: log_ok_def seqs_of_def events_of_def)

lemma sort_key_filter_events:
  assumes "log_ok (w_events w)"
  shows "sort_key e_seq (filter P (events_of w r)) = filter P (events_of w r)"
proof -
  have "sorted (map e_seq (events_of w r))"
    unfolding events_of_sorted [OF assms] by (simp add: sorted_map sorted_wrt_upt del: upt_Suc)
  then have "sorted (map e_seq (filter P (events_of w r)))" by (rule sorted_filter)
  then show ?thesis by (simp add: sorted_sort_id sort_key_id_if_sorted)
qed

interpretation repo: event_repository ev_latest_seq ev_list events_of "\<lambda>w. log_ok (w_events w)" ev_append
proof (unfold_locales, goal_cases)
  case (1 s r)
  then show ?case by (rule events_of_sorted)
next
  case (2 s r)
  then show ?case by (simp add: ev_latest_seq_def gets_def max_seq_log_ok)
next
  case (3 s r n lim)
  then show ?case by (simp add: ev_list_def gets_def sort_key_filter_events Let_def split: option.split)
next
  case (4 s e r s')
  then show ?case by (rule log_ok_append)
next
  case (5 e s x s')
  then show ?case by (auto simp: ev_append_def Let_def split: if_splits)
next
  case (6 s e e' s')
  then show ?case by (auto simp: ev_append_cases Let_def split: if_splits)
next
  case (7 s e e' s' q)
  then show ?case by (auto simp: ev_append_cases Let_def events_of_def split: if_splits)
qed

lemma emit_event_eq: "emit_event = repo.emit"
  by (simp add: emit_event_def repo.emit_def fun_eq_iff)

lemma emit_event_ok:
  assumes "log_ok (w_events w)" "is_aware ts" "validate_payload ty p = Inr ()"
  shows "emit_event i r ty p ts c a w =
    (if run_terminal w r then (Inl (TerminalRunStateError r), w)
     else if i \<in> e_id ` set (w_events w) then (Inl (IntegrityError ''run_events.id''), w)
     else (let e = \<lparr>e_id = i, e_run_id = r, e_seq = int (length (events_of w r)) + 1, e_type = ty,
                    e_payload = p, e_timestamp = as_utc ts, e_causation = c, e_actor = a\<rparr> in
           (Inr e, w\<lparr>w_events := w_events w @ [e]\<rparr>)))"
  using assms
  by (simp add: emit_event_def prog_simps ev_latest_seq_def max_seq_log_ok make_event_ok
      ev_append_cases Let_def)

section \<open>Every repository operation keeps the store in order\<close>

named_theorems keeps_world \<open>programs that keep the store in order\<close>
named_theorems grows \<open>programs that only append to the event log\<close>

definition log_grows :: "world \<Rightarrow> world \<Rightarrow> bool" where
  "log_grows w w' \<longleftrightarrow> (\<exists>es. w_events w' = w_events w @ es)"

interpretation grow: step_relation log_grows
proof
  fix w1 w2 w3
  show "log_grows w1 w1" by (simp add: log_grows_def)
  show "log_grows w1 w2 \<Longrightarrow> log_grows w2 w3 \<Longrightarrow> log_grows w1 w3" by (auto simp: log_grows_def)
qed

lemma clock_ok_tick: "clock_ok w \<Longrightarrow> clock_ok (w\<lparr>w_ticks := Suc (w_ticks w)\<rparr>)"
  using monoD [of "w_clock w" "w_ticks w" "Suc (w_ticks w)"] by (fastforce simp: clock_ok_def)

lemma world_ok_tick: "world_ok w \<Longrightarrow> world_ok (w\<lparr>w_ticks := Suc (w_ticks w)\<rparr>)"
  using clock_ok_tick by (simp add: world_ok_def)

lemma keeps_now [keeps_world]: "keeps world_ok now_utc"
  by (simp add: obeys_def now_utc_def world_ok_tick)

lemma keeps_uuid [keeps_world]: "keeps world_ok uuid_hex"
  by (simp add: obeys_def uuid_hex_def world_ok_def clock_ok_def)

lemma readers_keep [keeps_world]:
  "keeps world_ok (run_get r)" "keeps world_ok (approval_get i)" "keeps world_ok (task_get i)"
  "keeps world_ok (ev_latest_seq r)" "keeps world_ok (approval_list_by_run r)"
  "keeps world_ok (ev_list r n lim)"
  by (simp_all add: obeys_def run_get_def approval_get_def task_get_def ev_latest_seq_def
      gets_def approval_list_by_run_def ev_list_def)

lemma world_okD:
  assumes "world_ok w"
  shows "map_of (w_runs w) k = Some r \<Longrightarrow> wf_run r \<and> r_id r = k"
    and "map_of (w_approvals w) k = Some a \<Longrightarrow> wf_approval a \<and> ap_id a = k"
    and "map_of (w_tasks w) k = Some t \<Longrightarrow> wf_task t \<and> t_id t = k"
    and "log_ok (w_events w)"
  using assms by (auto simp: world_ok_def dest: rows_okD)

text \<open>Reading a table in order never raises: the stored rows are valid.\<close>

lemma run_get_ok [simp]: "world_ok w \<Longrightarrow> run_get k w = (Inr (map_of (w_runs w) k), w)"
  by (cases "map_of (w_runs w) k") (auto simp: run_get_def reload_run_id dest: world_okD)

lemma approval_get_ok [simp]: "world_ok w \<Longrightarrow> approval_get k w = (Inr (map_of (w_approvals w) k), w)"
  by (cases "map_of (w_approvals w) k") (auto simp: approval_get_def reload_approval_id dest: world_okD)

lemma task_get_ok [simp]: "world_ok w \<Longrightarrow> task_get k w = (Inr (map_of (w_tasks w) k), w)"
  by (cases "map_of (w_tasks w) k") (auto simp: task_get_def reload_task_id dest: world_okD)

lemma approval_save_ok:
  "world_ok w \<Longrightarrow> approval_save a w =
     (Inr a, w\<lparr>w_approvals := AList.update (ap_id a) a (w_approvals w)\<rparr>)"
  by (simp add: approval_save_def prog_simps)

lemma task_save_ok:
  "world_ok w \<Longrightarrow> task_save t w = (Inr t, w\<lparr>w_tasks := AList.update (t_id t) t (w_tasks w)\<rparr>)"
  by (simp add: task_save_def prog_simps)

lemma world_ok_approvals:
  "world_ok w \<Longrightarrow> wf_approval a \<Longrightarrow> ap_id a = k \<Longrightarrow>
   world_ok (w\<lparr>w_approvals := AList.update k a (w_approvals w)\<rparr>)"
  by (simp add: world_ok_def clock_ok_def rows_ok_update)

lemma world_ok_tasks:
  "world_ok w \<Longrightarrow> wf_task t \<Longrightarrow> t_id t = k \<Longrightarrow> world_ok (w\<lparr>w_tasks := AList.update k t (w_tasks w)\<rparr>)"
  by (simp add: world_ok_def clock_ok_def rows_ok_update)

lemma keeps_approval_save [keeps_world]: "wf_approval a \<Longrightarrow> keeps world_ok (approval_save a)"
  by (auto simp: obeys_def approval_save_ok world_ok_approvals)

lemma keeps_task_save [keeps_world]: "wf_task t \<Longrightarrow> keeps world_ok (task_save t)"
  by (auto simp: obeys_def task_save_ok world_ok_tasks)

lemma ev_append_frame:
  "ev_append e w = (r, w') \<Longrightarrow> \<exists>es. w' = w\<lparr>w_events := w_events w @ es\<rparr>"
  by (auto simp: ev_append_def Let_def intro: exI [of _ "[]"] split: if_splits)

lemma keeps_ev_append [keeps_world]: "wf_event e \<Longrightarrow> keeps world_ok (ev_append e)"
proof -
  assume wf: "wf_event e"
  have "world_ok w'" if "world_ok w" "ev_append e w = (r, w')" for w r w'
  proof -
    from ev_append_frame [OF that(2)] obtain es where w': "w' = w\<lparr>w_events := w_events w @ es\<rparr>" by blast
    have "log_ok (w_events w')" using log_ok_append wf that by (auto simp: world_ok_def)
    with that w' show ?thesis by (simp add: world_ok_def clock_ok_def)
  qed
  then show ?thesis unfolding obeys_def by (metis prod.collapse)
qed

lemma keeps_emit [keeps_world]: "keeps world_ok (emit_event i r ty p ts c a)"
  unfolding emit_event_def
  by (intro keep.resp_bind keep.resp_rules keeps_world) (auto dest: make_event_wf)

lemma run_update_state_ok:
  assumes "world_ok w" "map_of (w_runs w) k = Some r"
    and "r' = r\<lparr>r_state := s, r_updated_at := Aware (w_clock w (w_ticks w)) 0, r_terminal_seq := n\<rparr>"
  shows "run_update_state k s n w =
      (reload_run r', w\<lparr>w_ticks := Suc (w_ticks w), w_runs := AList.update k r' (w_runs w)\<rparr>)"
  using assms
  by (cases "reload_run r'")
     (simp_all add: run_update_state_def prog_simps now_utc_def run_get_def update_conv')

lemma world_ok_update_state:
  fixes s :: run_state
  assumes ok: "world_ok w" and r: "map_of (w_runs w) k = Some r" and n: "\<forall>i. n = Some i \<longrightarrow> 1 \<le> i"
  defines "r' \<equiv> r\<lparr>r_state := s, r_updated_at := Aware (w_clock w (w_ticks w)) 0, r_terminal_seq := n\<rparr>"
  shows "wf_run r'"
    and "world_ok (w\<lparr>w_ticks := Suc (w_ticks w), w_runs := AList.update k r' (w_runs w)\<rparr>)"
proof -
  have created: "instant (r_created_at r) \<le> w_clock w (w_ticks w)"
    using ok map_of_SomeD [OF r] by (auto simp: world_ok_def clock_ok_def)
  show wf: "wf_run r'" using world_okD(1) [OF ok r] created n by (auto simp: wf_run_def r'_def)
  have "clock_ok (w\<lparr>w_ticks := Suc (w_ticks w)\<rparr>)"
    using ok clock_ok_tick by (simp add: world_ok_def)
  with map_of_SomeD [OF r] have "\<forall>(k, q) \<in> set (AList.update k r' (w_runs w)).
      instant (r_created_at q) \<le> w_clock w (Suc (w_ticks w))"
    using set_update_subset [of k r' "w_runs w"] by (fastforce simp: clock_ok_def r'_def)
  with ok wf world_okD(1) [OF ok r] show
    "world_ok (w\<lparr>w_ticks := Suc (w_ticks w), w_runs := AList.update k r' (w_runs w)\<rparr>)"
    by (simp add: world_ok_def clock_ok_def rows_ok_update r'_def)
qed

lemma keeps_update_state [keeps_world]:
  assumes "\<forall>i. n = Some i \<longrightarrow> 1 \<le> i"
  shows "keeps world_ok (run_update_state k s n)"
proof -
  have "world_ok (snd (run_update_state k s n w))" if "world_ok w" for w
  proof (cases "map_of (w_runs w) k")
    case None
    with that show ?thesis by (simp add: run_update_state_def prog_simps now_utc_def world_ok_tick)
  next
    case (Some r)
    show ?thesis
      unfolding run_update_state_ok [OF that Some refl] snd_conv
      by (rule world_ok_update_state(2) [OF that Some assms])
  qed
  then show ?thesis by (simp add: obeys_def)
qed

lemma emit_event_frame:
  "emit_event i r ty p ts c a w = (res, w') \<Longrightarrow> \<exists>es. w' = w\<lparr>w_events := w_events w @ es\<rparr>"
  by (auto simp: emit_event_def prog_simps ev_latest_seq_def intro: exI [of _ "[]"]
      dest: ev_append_frame split: prod.splits sum.splits)

lemma operations_grow [grows]:
  "obeys log_grows now_utc" "obeys log_grows uuid_hex" "obeys log_grows (run_get k)"
  "obeys log_grows (approval_get k)" "obeys log_grows (task_get k)"
  "obeys log_grows (ev_latest_seq k)" "obeys log_grows (approval_list_by_run k)"
  "obeys log_grows (approval_save a)" "obeys log_grows (task_save t)"
  "obeys log_grows (run_create rn)" "obeys log_grows (run_update_state k s n)"
  by (auto simp: obeys_def log_grows_def now_utc_def uuid_hex_def run_get_def approval_get_def
      task_get_def ev_latest_seq_def approval_list_by_run_def approval_save_def task_save_def
      run_create_def run_update_state_def prog_simps split: sum.splits option.splits)

lemma append_grows [grows]:
  "obeys log_grows (ev_append e)" "obeys log_grows (emit_event i r ty p ts c a)"
  unfolding obeys_def log_grows_def
  by (metis ev_append_frame prod.collapse select_convs(2) update_convs(2) world.select_convs(2)
        world.update_convs(2) world.surjective)
     (metis emit_event_frame prod.collapse world.select_convs(2) world.update_convs(2) world.surjective)

section \<open>The interface of the keyed repositories\<close>

text \<open>
  \<open>ApprovalRepository\<close> and \<open>TaskRepository\<close> promise their clients the same: \<open>get\<close> reads what
  the last \<open>save\<close> of that id wrote, and \<open>save\<close> touches no other id.
\<close>

locale kv_repository =
  fixes get :: "string \<Rightarrow> ('s, 'v option) prog"
    and save :: "'v \<Rightarrow> ('s, 'v) prog"
    and key :: "'v \<Rightarrow> string"
    and valid :: "'v \<Rightarrow> bool"
    and good :: "'s \<Rightarrow> bool"
    and view :: "'s \<Rightarrow> string \<Rightarrow> 'v option"
  assumes get_view: "good s \<Longrightarrow> get k s = (Inr (view s k), s)"
    and save_view: "good s \<Longrightarrow> valid v \<Longrightarrow> \<exists>s'. save v s = (Inr v, s') \<and> good s' \<and>
      view s' = (view s)(key v \<mapsto> v)"
    and view_valid: "good s \<Longrightarrow> view s k = Some v \<Longrightarrow> valid v \<and> key v = k"
begin

lemma get_after_save:
  assumes "good s" "valid v"
  shows "fst (andthen (save v) (get k) s) = Inr (if k = key v then Some v else view s k)"
proof -
  from save_view [OF assms] obtain s' where "save v s = (Inr v, s')" "good s'"
    "view s' = (view s)(key v \<mapsto> v)" by blast
  then show ?thesis by (simp add: prog_simps get_view)
qed

lemma last_save_wins:
  assumes "good s" "valid v" "valid v'" "key v = key v'"
  shows "fst (andthen (save v) (andthen (save v') (get (key v))) s) = Inr (Some v')"
proof -
  from save_view [OF assms(1,2)] obtain s' where s': "save v s = (Inr v, s')" "good s'" by blast
  with get_after_save [OF s'(2) assms(3)] assms(4) show ?thesis by (simp add: prog_simps)
qed

end

interpretation approvals_kv: kv_repository approval_get approval_save ap_id wf_approval world_ok
  "\<lambda>w. map_of (w_approvals w)"
  by unfold_locales
    (auto simp: approval_save_ok update_conv' intro: world_ok_approvals dest: world_okD)

interpretation tasks_kv: kv_repository task_get task_save t_id wf_task world_ok
  "\<lambda>w. map_of (w_tasks w)"
  by unfold_locales (auto simp: task_save_ok update_conv' intro: world_ok_tasks dest: world_okD)

section \<open>An empty store\<close>

text \<open>A store before the first run, with a clock that ticks one unit per reading.\<close>

definition fresh_world :: world where
  "fresh_world = \<lparr>w_runs = [], w_events = [], w_approvals = [], w_tasks = [], w_checkpoints = [],
     w_clock = int, w_ticks = 0, w_uuid = show_nat, w_uuids = 0\<rparr>"

lemma fresh_world_ok [simp]: "world_ok fresh_world"
  by (simp add: fresh_world_def world_ok_def clock_ok_def mono_def)

section \<open>The event log at the top level\<close>

text \<open>
  C40. Appending numbers the event one past the run's history and puts it at its end, leaving
  all other runs alone; it is refused, without a trace, exactly when the run is terminal or the
  event's id was used before.
\<close>

theorem append_extends_history:
  assumes "world_ok w"
  shows "case ev_append e w of
      (Inr e', w') \<Rightarrow> \<not> run_terminal w (e_run_id e) \<and> e_id e \<notin> e_id ` set (w_events w) \<and>
        e' = e\<lparr>e_seq := int (length (events_of w (e_run_id e))) + 1\<rparr> \<and>
        (\<forall>q. events_of w' q = (if q = e_run_id e then events_of w q @ [e'] else events_of w q))
    | (Inl x, w') \<Rightarrow> w' = w \<and> (run_terminal w (e_run_id e) \<or> e_id e \<in> e_id ` set (w_events w))"
  using assms by (auto simp: world_ok_def ev_append_cases Let_def events_of_def)

theorem append_extends_history_witness:
  "\<exists>e' w'. ev_append \<lparr>e_id = ''e1'', e_run_id = ''r'', e_seq = 7, e_type = ''run.cancelled'',
      e_payload = [(''reason'', PStr ''x'')], e_timestamp = Aware 0 0, e_causation = None, e_actor = None\<rparr>
      fresh_world = (Inr e', w') \<and> e_seq e' = 1"
proof -
  have "\<not> run_terminal fresh_world ''r''" "w_events fresh_world = []"
    by (simp_all add: run_terminal_def get_run_state_def fresh_world_def)
  with append_extends_history [OF fresh_world_ok, of "\<lparr>e_id = ''e1'', e_run_id = ''r'', e_seq = 7,
      e_type = ''run.cancelled'', e_payload = [(''reason'', PStr ''x'')], e_timestamp = Aware 0 0,
      e_causation = None, e_actor = None\<rparr>"]
  show ?thesis by (fastforce simp: events_of_def split: prod.splits sum.splits)
qed

text \<open>
  A client that reads a page and goes on from the last number it saw misses nothing and
  reads nothing twice: the two answers together are the history from where it started.
\<close>

theorem paging_is_seamless:
  assumes "world_ok w" "ev_list r (int n) (Some k) w = (Inr p, w)" "p \<noteq> []"
  shows "\<exists>rest. ev_list r (e_seq (last p)) None w = (Inr rest, w) \<and> p @ rest = drop n (events_of w r)"
  using repo.resume_after_page [of w r n k p] assms by (auto simp: world_ok_def)

text \<open>A log of two events, the store after the first two steps of a run.\<close>

definition two_events :: world where
  "two_events = fresh_world\<lparr>w_events :=
     [\<lparr>e_id = ''a'', e_run_id = ''r'', e_seq = 1, e_type = ''run.cancelled'', e_payload = [(''reason'', PStr ''x'')],
       e_timestamp = Aware 0 0, e_causation = None, e_actor = None\<rparr>,
      \<lparr>e_id = ''b'', e_run_id = ''r'', e_seq = 2, e_type = ''run.cancelled'', e_payload = [(''reason'', PStr ''y'')],
       e_timestamp = Aware 1 0, e_causation = None, e_actor = None\<rparr>]\<rparr>"

lemma two_events_ok: "world_ok two_events"
proof -
  have "log_ok (w_events two_events)"
    unfolding two_events_def
    using log_ok_snoc [OF log_ok_snoc [OF log_ok_Nil,
      of "\<lparr>e_id = ''a'', e_run_id = ''r'', e_seq = 1, e_type = ''run.cancelled'', e_payload = [(''reason'', PStr ''x'')],
       e_timestamp = Aware 0 0, e_causation = None, e_actor = None\<rparr>"],
      of "\<lparr>e_id = ''b'', e_run_id = ''r'', e_seq = 2, e_type = ''run.cancelled'', e_payload = [(''reason'', PStr ''y'')],
       e_timestamp = Aware 1 0, e_causation = None, e_actor = None\<rparr>"]
    by (simp add: wf_event_def seqs_of_def)
  with fresh_world_ok show ?thesis by (simp add: world_ok_def two_events_def clock_ok_def)
qed

theorem paging_is_seamless_witness:
  "\<exists>p rest. ev_list ''r'' 0 (Some 1) two_events = (Inr p, two_events) \<and> length p = 1 \<and>
    ev_list ''r'' (e_seq (last p)) None two_events = (Inr rest, two_events) \<and> length rest = 1"
proof -
  obtain p where p: "ev_list ''r'' (int 0) (Some 1) two_events = (Inr p, two_events)" "p = take 1 (events_of two_events ''r'')"
    using repo.listing_after(2) [of two_events "''r''" 0 1] two_events_ok by (simp add: world_ok_def)
  have len: "length (events_of two_events ''r'') = 2" by (simp add: events_of_def two_events_def)
  with p(2) have lp: "length p = 1" "p \<noteq> []" by auto
  obtain rest where "ev_list ''r'' (e_seq (last p)) None two_events = (Inr rest, two_events)"
    "p @ rest = events_of two_events ''r''"
    using paging_is_seamless [OF two_events_ok p(1) lp(2)] by auto
  with len lp p(1) show ?thesis by (auto dest: arg_cong [where f = length])
qed

end
