(* ===== verification/Policy.thy ===== *)
theory Policy
  imports Domain
begin

text \<open>
  Tool policies: the rules of domain/manifest/tool_policy.py, the preset documents of
  policy/schema.py and how policy/loader.py merges overrides into a preset and converts it
  to the domain policy. Reading the YAML file and pydantic's validation of it are outside
  the model: a document is a \<open>preset_doc\<close>, and the validation of an override rule is a
  parameter of the merge.
\<close>

section \<open>Rules and policies\<close>

datatype tool_decision = AutoAllow | ApprovalRequired | Forbidden

fun show_tool_decision :: "tool_decision \<Rightarrow> string" where
  "show_tool_decision AutoAllow = ''auto-allow''"
| "show_tool_decision ApprovalRequired = ''approval-required''"
| "show_tool_decision Forbidden = ''forbidden''"

record tool_rule =
  tr_tool :: string
  tr_action :: "string option"
  tr_decision :: tool_decision
  tr_reason :: "string option"

record tool_policy =
  tp_preset :: policy_preset
  tp_rules :: "tool_rule list"
  tp_default_decision :: tool_decision

record preset_doc =
  pd_name :: string
  pd_preset :: policy_preset
  pd_default_decision :: tool_decision
  pd_rules :: "tool_rule list"

text \<open>A rule speaks about a tool and, unless its action is \<open>None\<close>, about one action.\<close>

definition rule_matches :: "string \<Rightarrow> string \<Rightarrow> tool_rule \<Rightarrow> bool" where
  "rule_matches tool_id action r \<longleftrightarrow>
     tr_tool r = tool_id \<and> (tr_action r = None \<or> tr_action r = Some action)"

section \<open>Overrides\<close>

text \<open>
  The override's \<open>rules\<close> value, when it is a list, gives raw items; an item that does not
  validate is skipped, a later rule for the same tool replaces an earlier one.
  \<open>validate\<close> is \<open>SchemaRule.model_validate\<close> with the \<open>isinstance(ov, dict)\<close> test.
\<close>

fun override_map :: "('raw \<Rightarrow> tool_rule option) \<Rightarrow> 'raw list \<Rightarrow> (string \<times> tool_rule) list
    \<Rightarrow> (string \<times> tool_rule) list" where
  "override_map validate [] m = m"
| "override_map validate (ov # ovs) m = (case validate ov of
      None \<Rightarrow> override_map validate ovs m
    | Some rule \<Rightarrow> override_map validate ovs (AList.update (tr_tool rule) rule m))"

text \<open>
  The in-place loop over \<open>merged_rules\<close>: position \<open>i\<close> of the list being rewritten is
  visited in turn; the replacement goes to the first position holding an equal rule
  (\<open>merged_rules.index(rule)\<close>).
\<close>

fun index_of :: "'a \<Rightarrow> 'a list \<Rightarrow> nat" where
  "index_of x [] = 0"
| "index_of x (y # ys) = (if y = x then 0 else Suc (index_of x ys))"

fun replace_loop :: "(string \<times> tool_rule) list \<Rightarrow> nat \<Rightarrow> nat \<Rightarrow> tool_rule list \<Rightarrow> string list
    \<Rightarrow> tool_rule list \<times> string list" where
  "replace_loop m i 0 rules existing = (rules, existing)"
| "replace_loop m i (Suc n) rules existing =
     (let rule = rules ! i in
      case map_of m (tr_tool rule) of
        Some new \<Rightarrow> replace_loop m (Suc i) n (rules[index_of rule rules := new])
                      (tr_tool rule # existing)
      | None \<Rightarrow> replace_loop m (Suc i) n rules (tr_tool rule # existing))"

definition merge_rules :: "(string \<times> tool_rule) list \<Rightarrow> tool_rule list \<Rightarrow> tool_rule list" where
  "merge_rules m base =
     (let (rules, existing) = replace_loop m 0 (length base) base [] in
      rules @ map snd (filter (\<lambda>(tool_name, _). tool_name \<notin> set existing) m))"

text \<open>
  An override: \<open>None\<close> for an absent or empty mapping; else the raw \<open>rules\<close> list
  (\<open>None\<close> when the value is not a list) and the \<open>default_decision\<close> when the key is there.
\<close>

record 'raw override =
  ov_rules :: "'raw list option"
  ov_default_decision :: "tool_decision option"

definition merge_overrides ::
  "('raw \<Rightarrow> tool_rule option) \<Rightarrow> preset_doc \<Rightarrow> 'raw override option \<Rightarrow> preset_doc" where
  "merge_overrides validate doc ov = (case ov of None \<Rightarrow> doc | Some o' \<Rightarrow>
     (let merged = (case ov_rules o' of
            None \<Rightarrow> pd_rules doc
          | Some raws \<Rightarrow> merge_rules (override_map validate raws []) (pd_rules doc)) in
      case ov_default_decision o' of
        Some d \<Rightarrow> doc\<lparr>pd_rules := merged, pd_default_decision := d\<rparr>
      | None \<Rightarrow> doc\<lparr>pd_rules := merged\<rparr>))"

definition to_domain :: "preset_doc \<Rightarrow> tool_policy" where
  "to_domain doc = \<lparr>tp_preset = pd_preset doc, tp_rules = pd_rules doc,
     tp_default_decision = pd_default_decision doc\<rparr>"

section \<open>The in-place loop is a map\<close>

lemma index_of_hit: "i < length xs \<Longrightarrow> index_of (xs ! i) xs \<le> i \<and> xs ! index_of (xs ! i) xs = xs ! i"
proof (induction xs arbitrary: i)
  case Nil
  then show ?case by simp
next
  case (Cons y ys)
  then show ?case by (cases i) auto
qed

text \<open>What one rule becomes.\<close>

definition overridden :: "(string \<times> tool_rule) list \<Rightarrow> tool_rule \<Rightarrow> tool_rule" where
  "overridden m r = (case map_of m (tr_tool r) of Some new \<Rightarrow> new | None \<Rightarrow> r)"

definition keyed_by_tool :: "(string \<times> tool_rule) list \<Rightarrow> bool" where
  "keyed_by_tool m \<longleftrightarrow> distinct (map fst m) \<and> (\<forall>(k, r) \<in> set m. tr_tool r = k)"

lemma override_map_keyed: "keyed_by_tool m \<Longrightarrow> keyed_by_tool (override_map v raws m)"
proof (induction raws arbitrary: m)
  case Nil
  then show ?case by simp
next
  case (Cons x raws)
  have "keyed_by_tool (AList.update (tr_tool r) r m)" for r
  proof -
    have "set (AList.update k r m) \<subseteq> insert (k, r) (set m)" for k by (induction m) auto
    with Cons.prems show ?thesis by (fastforce simp: keyed_by_tool_def distinct_update)
  qed
  with Cons show ?case by (simp split: option.split)
qed

lemma overridden_idem:
  assumes "keyed_by_tool m"
  shows "overridden m (overridden m r) = overridden m r"
proof (cases "map_of m (tr_tool r)")
  case None
  then show ?thesis by (simp add: overridden_def)
next
  case (Some new)
  with assms have "tr_tool new = tr_tool r" by (auto simp: keyed_by_tool_def dest!: map_of_SomeD)
  with Some show ?thesis by (simp add: overridden_def)
qed

lemma replace_step:
  assumes m: "keyed_by_tool m" and i: "i < length base"
    and rules: "rules = map (overridden m) (take i base) @ drop i base"
    and new: "map_of m (tr_tool (base ! i)) = Some new"
  shows "rules[index_of (rules ! i) rules := new] =
     map (overridden m) (take (Suc i) base) @ drop (Suc i) base"
proof -
  let ?j = "index_of (rules ! i) rules"
  have len: "length rules = length base" using i rules by simp
  have ri: "rules ! i = base ! i" using i rules by (simp add: nth_append)
  have ov: "overridden m (base ! i) = new" using new by (simp add: overridden_def)
  have target: "map (overridden m) (take (Suc i) base) @ drop (Suc i) base = rules[i := new]"
    using i by (simp add: rules take_Suc_conv_app_nth ov list_update_append upd_conv_take_nth_drop)
  from index_of_hit [of i rules] i len have j: "?j \<le> i" "rules ! ?j = base ! i"
    by (simp_all add: ri)
  show ?thesis
  proof (cases "?j = i")
    case True
    with target show ?thesis by simp
  next
    case False
    with j i have "rules ! ?j = overridden m (base ! ?j)" by (simp add: rules nth_append)
    with j(2) have "overridden m (base ! i) = base ! i"
      using overridden_idem [OF m] by metis
    with ov ri j(2) have "new = rules ! i" "new = rules ! ?j" by simp_all
    then show ?thesis unfolding target by (metis list_update_id)
  qed
qed

lemma replace_loop_map:
  assumes "keyed_by_tool m" "i + n = length base"
    and "rules = map (overridden m) (take i base) @ drop i base"
  shows "replace_loop m i n rules existing =
     (map (overridden m) base, rev (map tr_tool (drop i base)) @ existing)"
  using assms(2,3)
proof (induction n arbitrary: i rules existing)
  case 0
  then show ?case by simp
next
  case (Suc n)
  then have i: "i < length base" by simp
  have ri: "rules ! i = base ! i" using i Suc.prems(2) by (simp add: nth_append)
  have d: "drop i base = base ! i # drop (Suc i) base" using i by (simp add: Cons_nth_drop_Suc)
  show ?case
  proof (cases "map_of m (tr_tool (base ! i))")
    case None
    then have "overridden m (base ! i) = base ! i" by (simp add: overridden_def)
    with i Suc.prems(2) have
      "rules = map (overridden m) (take (Suc i) base) @ drop (Suc i) base"
      by (simp add: take_Suc_conv_app_nth d)
    with Suc.IH [of "Suc i" rules] Suc.prems(1) None ri d show ?thesis by simp
  next
    case (Some new)
    from Suc.IH [OF _ replace_step [OF assms(1) i Suc.prems(2) Some]] Suc.prems(1) Some ri d
    show ?thesis by simp
  qed
qed

lemma merge_rules_eq:
  assumes "keyed_by_tool m"
  shows "merge_rules m base = map (overridden m) base @
     map snd (filter (\<lambda>(t, _). t \<notin> set (map tr_tool base)) m)"
  using replace_loop_map [OF assms, of 0 "length base" base base "[]"]
  by (simp add: merge_rules_def)

section \<open>What overrides do\<close>

lemma override_map_lookup:
  "map_of (override_map validate raws m) t =
     (case find (\<lambda>r. tr_tool r = t) (rev (List.map_filter validate raws)) of
        Some r \<Rightarrow> Some r | None \<Rightarrow> map_of m t)"
proof (induction raws arbitrary: m)
  case Nil
  then show ?case by (simp add: List.map_filter_def)
next
  case (Cons raw raws)
  have find_snoc: "find P (xs @ [x]) = (case find P xs of Some y \<Rightarrow> Some y | None \<Rightarrow> if P x then Some x else None)"
    for P and xs :: "tool_rule list" and x by (induction xs) auto
  show ?case
    by (cases "validate raw") (auto simp: Cons List.map_filter_simps find_snoc update_conv' split: option.split)
qed

text \<open>
  Merging an override replaces, in place, every base rule of a tool the override names by
  the last valid override rule of that tool, appends the rules of the other tools, and keeps
  everything else of the document.
\<close>

theorem merge_overrides_spec:
  fixes validate :: "'raw \<Rightarrow> tool_rule option"
  defines "chosen raws t \<equiv> find (\<lambda>r. tr_tool r = t) (rev (List.map_filter validate raws))"
  shows "\<exists>extra. pd_rules (merge_overrides validate doc (Some \<lparr>ov_rules = Some raws, ov_default_decision = d\<rparr>)) =
      map (\<lambda>r. case chosen raws (tr_tool r) of Some new \<Rightarrow> new | None \<Rightarrow> r) (pd_rules doc) @ extra \<and>
    distinct (map tr_tool extra) \<and> tr_tool ` set extra \<inter> tr_tool ` set (pd_rules doc) = {} \<and>
    (\<forall>r. r \<in> set extra \<longleftrightarrow> chosen raws (tr_tool r) = Some r \<and> tr_tool r \<notin> tr_tool ` set (pd_rules doc)) \<and>
    pd_name (merge_overrides validate doc (Some \<lparr>ov_rules = Some raws, ov_default_decision = d\<rparr>)) = pd_name doc"
proof -
  let ?m = "override_map validate raws []"
  have k: "keyed_by_tool ?m" by (rule override_map_keyed) (simp add: keyed_by_tool_def)
  have look: "map_of ?m t = chosen raws t" for t
    by (simp add: override_map_lookup chosen_def split: option.split)
  let ?sel = "filter (\<lambda>(t, _). t \<notin> set (map tr_tool (pd_rules doc))) ?m"
  let ?extra = "map snd ?sel"
  have key: "tr_tool r = t" if "(t, r) \<in> set ?m" for t r
    using k that by (auto simp: keyed_by_tool_def)
  have tools: "map tr_tool ?extra = map fst ?sel" using k by (auto simp: keyed_by_tool_def)
  have mem: "r \<in> set ?extra \<longleftrightarrow> chosen raws (tr_tool r) = Some r \<and> tr_tool r \<notin> tr_tool ` set (pd_rules doc)" for r
  proof -
    have "r \<in> set ?extra \<longleftrightarrow> (tr_tool r, r) \<in> set ?m \<and> tr_tool r \<notin> tr_tool ` set (pd_rules doc)"
    proof
      assume "r \<in> set ?extra"
      then obtain t where "(t, r) \<in> set ?m" "t \<notin> tr_tool ` set (pd_rules doc)" by auto
      with key [of t r] show "(tr_tool r, r) \<in> set ?m \<and> tr_tool r \<notin> tr_tool ` set (pd_rules doc)" by simp
    qed (auto intro!: image_eqI [of r snd "(tr_tool r, r)"])
    also have "(tr_tool r, r) \<in> set ?m \<longleftrightarrow> map_of ?m (tr_tool r) = Some r"
      using k by (simp add: keyed_by_tool_def map_of_eq_Some_iff)
    finally show ?thesis by (simp add: look)
  qed
  have "distinct (map tr_tool ?extra)"
    unfolding tools using k by (simp add: keyed_by_tool_def distinct_map_filter)
  moreover have "tr_tool ` set ?extra \<inter> tr_tool ` set (pd_rules doc) = {}"
    using mem by blast
  moreover note mem
  ultimately show ?thesis
    by (intro exI [of _ ?extra])
      (simp add: merge_overrides_def Let_def merge_rules_eq [OF k] overridden_def [abs_def] look split: option.split)
qed

definition shell_forbidden :: tool_rule where
  "shell_forbidden = \<lparr>tr_tool = ''shell'', tr_action = None, tr_decision = Forbidden, tr_reason = None\<rparr>"

definition ask_doc :: preset_doc where
  "ask_doc = \<lparr>pd_name = ''ask'', pd_preset = Ask, pd_default_decision = ApprovalRequired, pd_rules = []\<rparr>"

theorem merge_overrides_spec_witness:
  "shell_forbidden \<in> set (pd_rules (merge_overrides Some ask_doc
      (Some \<lparr>ov_rules = Some [shell_forbidden], ov_default_decision = None\<rparr>)))"
proof -
  have f: "find (\<lambda>r. tr_tool r = tr_tool shell_forbidden) (rev (List.map_filter Some [shell_forbidden])) =
      Some shell_forbidden" and d: "pd_rules ask_doc = []"
    by (simp_all add: List.map_filter_simps ask_doc_def)
  from merge_overrides_spec [where validate = Some and raws = "[shell_forbidden]" and d = None and doc = ask_doc]
    f d show ?thesis by (auto simp del: List.map_filter_simps)
qed

end
