(* ===== verification/Approval_Engine.thy ===== *)
theory Approval_Engine
  imports Store Policy
begin

text \<open>
  The approval engine (services/approval_engine.py with services/approval_types.py): a
  request persists a pending approval and appends \<open>run.approval_waiting\<close>; a decision
  closes it and appends the event RT-002 maps it to. On top, the approval hooks of
  services/approval_hooks.py that decide by the tool policy whether a tool call needs one.
\<close>

section \<open>Decisions\<close>

datatype approval_decision =
    Granted
  | DeniedAbandon string
  | DeniedAlternatePath string
  | Timeout bool

fun decision_tag :: "approval_decision \<Rightarrow> string" where
  "decision_tag Granted = ''granted''"
| "decision_tag (DeniedAbandon reason) = ''denied_abandon''"
| "decision_tag (DeniedAlternatePath note0) = ''denied_alternate_path''"
| "decision_tag (Timeout retryable) = ''timeout''"

definition new_state_map :: "(string \<times> string) list" where
  "new_state_map = [(''granted'', ''granted''), (''denied_abandon'', ''denied''),
     (''denied_alternate_path'', ''denied''), (''timeout'', ''timeout'')]"

abbreviation caused_by :: "string \<Rightarrow> causation option" where
  "caused_by action \<equiv> Some \<lparr>c_event_id = None, c_action = Some action, c_request_id = None\<rparr>"

abbreviation system_actor :: "actor option" where
  "system_actor \<equiv> Some \<lparr>a_kind = System, a_id = None, a_display = None\<rparr>"

abbreviation operator_actor :: "actor option" where
  "operator_actor \<equiv> Some \<lparr>a_kind = Operator, a_id = None, a_display = None\<rparr>"

section \<open>Requesting an approval\<close>

definition approval_id_of :: "string \<Rightarrow> string \<Rightarrow> string" where
  "approval_id_of run_id approval_kind = ''approval-'' @ run_id @ ''-'' @ approval_kind"

definition waiting_payload :: "approval \<Rightarrow> string option \<Rightarrow> payload" where
  "waiting_payload saved checkpoint_ref0 =
     dict_put_opt ''checkpoint_ref'' (map_option PStr checkpoint_ref0)
    (dict_put_opt ''requested_capability'' (map_option PStr (ap_requested_capability saved))
       [(''approval_id'', PStr (ap_id saved)), (''approval_kind'', PStr (ap_kind saved)),
        (''summary'', PStr (ap_summary saved))])"

definition engine_request ::
  "string \<Rightarrow> string \<Rightarrow> string \<Rightarrow> string option \<Rightarrow> datetime option \<Rightarrow> string option
   \<Rightarrow> (world, approval) prog" where
  "engine_request run_id approval_kind summary requested_capability expires_at checkpoint_ref0 =
     bind now_utc (\<lambda>now.
     bind (lift (make_approval (approval_id_of run_id approval_kind) run_id approval_kind
            requested_capability summary ''pending'' now None None expires_at)) (\<lambda>approval.
     bind (approval_save approval) (\<lambda>saved.
     bind (emit_event (''evt-'' @ ap_id saved @ ''-waiting'') run_id ''run.approval_waiting''
            (waiting_payload saved checkpoint_ref0) now (caused_by ''request_approval'')
            system_actor) (\<lambda>_.
     ret saved))))"

section \<open>Resolving it\<close>

definition emit_granted :: "approval \<Rightarrow> datetime \<Rightarrow> (world, run_event) prog" where
  "emit_granted a now =
     bind (ev_latest_seq (ap_run_id a)) (\<lambda>last_seq.
     bind (lift (make_event (''evt-'' @ ap_id a @ ''-granted'') (ap_run_id a) (last_seq + 1)
        ''run.resumed''
        [(''resume_kind'', PStr ''approval_granted''), (''resumed_from_seq'', PInt last_seq),
         (''approval_id'', PStr (ap_id a))]
        now (caused_by ''approve_decision'') operator_actor)) ev_append)"

definition emit_denied_abandon :: "approval \<Rightarrow> datetime \<Rightarrow> (world, run_event) prog" where
  "emit_denied_abandon a now =
     emit_event (''evt-'' @ ap_id a @ ''-denied_abandon'') (ap_run_id a) ''run.cancelled''
       [(''reason'', PStr ''approval_denied'')] now (caused_by ''deny_decision'') operator_actor"

definition emit_denied_alternate :: "approval \<Rightarrow> datetime \<Rightarrow> (world, run_event) prog" where
  "emit_denied_alternate a now =
     bind (ev_latest_seq (ap_run_id a)) (\<lambda>last_seq.
     bind (lift (make_event (''evt-'' @ ap_id a @ ''-denied_alternate'') (ap_run_id a) (last_seq + 1)
        ''run.resumed''
        [(''resume_kind'', PStr ''approval_denied_alternate_path''),
         (''resumed_from_seq'', PInt last_seq), (''approval_id'', PStr (ap_id a))]
        now (caused_by ''deny_alternate'') operator_actor)) ev_append)"

definition emit_timeout :: "approval \<Rightarrow> bool \<Rightarrow> datetime \<Rightarrow> (world, run_event) prog" where
  "emit_timeout a retryable now =
     (if retryable then
        emit_event (''evt-'' @ ap_id a @ ''-timeout_retry'') (ap_run_id a) ''run.failed''
          [(''failure_code'', PStr ''approval_timeout''), (''message'', PStr ''approval timed out''),
           (''retryable'', PBool True)] now (caused_by ''timeout_retry'') system_actor
      else
        emit_event (''evt-'' @ ap_id a @ ''-timeout'') (ap_run_id a) ''run.cancelled''
          [(''reason'', PStr ''approval_timeout'')] now (caused_by ''timeout_noretry'') system_actor)"

fun emit_decision :: "approval \<Rightarrow> approval_decision \<Rightarrow> datetime \<Rightarrow> (world, run_event) prog" where
  "emit_decision a Granted now = emit_granted a now"
| "emit_decision a (DeniedAbandon _) now = emit_denied_abandon a now"
| "emit_decision a (DeniedAlternatePath _) now = emit_denied_alternate a now"
| "emit_decision a (Timeout retryable) now = emit_timeout a retryable now"

definition engine_resolve :: "string \<Rightarrow> approval_decision \<Rightarrow> (world, run_event) prog" where
  "engine_resolve approval_id decision =
     bind (approval_get approval_id) (\<lambda>existing. case existing of
       None \<Rightarrow> raise (RuntimeError ''Approval not found'')
     | Some a \<Rightarrow>
         (if ap_state a \<noteq> APending then raise (ApprovalAlreadyResolvedError (ap_id a))
          else bind now_utc (\<lambda>now.
            case map_of new_state_map (decision_tag decision) of
              None \<Rightarrow> raise (RuntimeError ''Unexpected decision type'')
            | Some new_state \<Rightarrow>
                bind (lift (make_approval (ap_id a) (ap_run_id a) (ap_kind a)
                   (ap_requested_capability a) (ap_summary a) new_state (ap_requested_at a)
                   (Some now) (ap_decided_by a) (ap_expires_at a))) (\<lambda>updated.
                andthen (approval_save updated) (emit_decision a decision now)))))"

section \<open>The decision table\<close>

text \<open>
  What a decision leaves behind, as a table: the approval's final state and the whole event, of which
  \<open>n\<close> is the number of the run's events before it and \<open>t\<close> the time of the decision. RT-002 (Approval
  decision event mapping) asks for more in two places: the \<open>cancelled_by\<close> of an abandoned run, and the
  run's own state, \<open>executing\<close> or \<open>cancelled\<close>.
\<close>

fun decided_state :: "approval_decision \<Rightarrow> approval_state" where
  "decided_state Granted = AGranted"
| "decided_state (DeniedAbandon _) = ADenied"
| "decided_state (DeniedAlternatePath _) = ADenied"
| "decided_state (Timeout _) = ATimeout"

fun decision_event_id :: "string \<Rightarrow> approval_decision \<Rightarrow> string" where
  "decision_event_id a Granted = ''evt-'' @ a @ ''-granted''"
| "decision_event_id a (DeniedAbandon _) = ''evt-'' @ a @ ''-denied_abandon''"
| "decision_event_id a (DeniedAlternatePath _) = ''evt-'' @ a @ ''-denied_alternate''"
| "decision_event_id a (Timeout retryable) =
     (if retryable then ''evt-'' @ a @ ''-timeout_retry'' else ''evt-'' @ a @ ''-timeout'')"

fun decision_entry :: "string \<Rightarrow> nat \<Rightarrow> approval_decision \<Rightarrow> string \<times> payload" where
  "decision_entry i n Granted = (''run.resumed'',
     [(''resume_kind'', PStr ''approval_granted''), (''resumed_from_seq'', PInt (int n)),
      (''approval_id'', PStr i)])"
| "decision_entry i n (DeniedAbandon _) = (''run.cancelled'', [(''reason'', PStr ''approval_denied'')])"
| "decision_entry i n (DeniedAlternatePath _) = (''run.resumed'',
     [(''resume_kind'', PStr ''approval_denied_alternate_path''), (''resumed_from_seq'', PInt (int n)),
      (''approval_id'', PStr i)])"
| "decision_entry i n (Timeout retryable) =
     (if retryable
      then (''run.failed'', [(''failure_code'', PStr ''approval_timeout''),
         (''message'', PStr ''approval timed out''), (''retryable'', PBool True)])
      else (''run.cancelled'', [(''reason'', PStr ''approval_timeout'')]))"

fun decision_source :: "approval_decision \<Rightarrow> string \<times> actor_kind" where
  "decision_source Granted = (''approve_decision'', Operator)"
| "decision_source (DeniedAbandon _) = (''deny_decision'', Operator)"
| "decision_source (DeniedAlternatePath _) = (''deny_alternate'', Operator)"
| "decision_source (Timeout retryable) =
     (if retryable then ''timeout_retry'' else ''timeout_noretry'', System)"

definition decided_event :: "string \<Rightarrow> string \<Rightarrow> nat \<Rightarrow> datetime \<Rightarrow> approval_decision \<Rightarrow> run_event" where
  "decided_event i r n t d =
     \<lparr>e_id = decision_event_id i d, e_run_id = r, e_seq = int n + 1, e_type = fst (decision_entry i n d),
      e_payload = snd (decision_entry i n d), e_timestamp = as_utc t,
      e_causation = caused_by (fst (decision_source d)),
      e_actor = Some \<lparr>a_kind = snd (decision_source d), a_id = None, a_display = None\<rparr>\<rparr>"

section \<open>Hooks\<close>

text \<open>
  \<open>requirements\<close>: the first rule that speaks about the tool and the action decides; the
  dflt decision otherwise. The result is \<open>(approval_required, reason, action_reason)\<close>.
\<close>

definition forbidden_exc :: exc where
  "forbidden_exc = RuntimeError ''tool forbidden by policy''"

definition decision_requirements ::
  "tool_decision \<Rightarrow> string option \<Rightarrow> exc + (bool \<times> string option \<times> string option)" where
  "decision_requirements d reason = (case d of
       AutoAllow \<Rightarrow> Inr (False, None, None)
     | Forbidden \<Rightarrow> Inl forbidden_exc
     | ApprovalRequired \<Rightarrow> Inr (True, reason, reason))"

fun rules_requirements ::
  "tool_rule list \<Rightarrow> tool_decision \<Rightarrow> string \<Rightarrow> string \<Rightarrow> exc + (bool \<times> string option \<times> string option)"
where
  "rules_requirements [] dflt tool_id action = decision_requirements dflt None"
| "rules_requirements (rule # rules) dflt tool_id action =
     (if tr_tool rule \<noteq> tool_id then rules_requirements rules dflt tool_id action
      else if tr_action rule \<noteq> None \<and> tr_action rule \<noteq> Some action
      then rules_requirements rules dflt tool_id action
      else decision_requirements (tr_decision rule) (tr_reason rule))"

definition requirements ::
  "tool_policy \<Rightarrow> string \<Rightarrow> string \<Rightarrow> exc + (bool \<times> string option \<times> string option)" where
  "requirements policy tool_id action =
     rules_requirements (tp_rules policy) (tp_default_decision policy) tool_id action"

definition before_invoke ::
  "tool_policy \<Rightarrow> string \<Rightarrow> string \<Rightarrow> string \<Rightarrow> string \<Rightarrow> (world, string option) prog" where
  "before_invoke policy run_id tool_id action summary =
     bind (lift (requirements policy tool_id action)) (\<lambda>(approval_required, reason, _).
     if \<not> approval_required then ret None
     else bind (engine_request run_id tool_id summary (Some tool_id) None None) (\<lambda>approval.
          ret (Some (ap_id approval))))"

text \<open>The policy's answer as a specification: the first matching rule, else the dflt.\<close>

definition policy_decision :: "tool_policy \<Rightarrow> string \<Rightarrow> string \<Rightarrow> tool_decision" where
  "policy_decision policy tool_id action =
     (case filter (rule_matches tool_id action) (tp_rules policy) of
        r # _ \<Rightarrow> tr_decision r | [] \<Rightarrow> tp_default_decision policy)"

section \<open>Requests\<close>

lemma new_state_of_decision:
  "map_of new_state_map (decision_tag d) = Some (show_approval_state (decided_state d))"
  by (cases d) (simp_all add: new_state_map_def)

lemma clean_approval_id: "clean run_id \<Longrightarrow> clean kind \<Longrightarrow> clean (approval_id_of run_id kind)"
  by (simp add: clean_iff approval_id_of_def is_space_def)

lemma make_pending:
  assumes "clean i" "clean r" "clean k" "clean s" "\<forall>c. cap = Some c \<longrightarrow> clean c" "is_aware q"
    and "\<forall>x. expires = Some x \<longrightarrow> is_aware x"
  shows "make_approval i r k cap s ''pending'' q None None expires =
    Inr \<lparr>ap_id = i, ap_run_id = r, ap_kind = k, ap_requested_capability = cap, ap_summary = s,
         ap_state = APending, ap_requested_at = q, ap_decided_at = None, ap_decided_by = None,
         ap_expires_at = map_option as_utc expires\<rparr>"
  using assms normalize_approval_state_show [of APending]
  by (cases cap; cases expires) (simp_all add: make_approval_def check_decision_fields_def)

lemma waiting_payload_valid: "validate_payload ''run.approval_waiting'' (waiting_payload a c) = Inr ()"
  by (auto simp: waiting_payload_def keys_dict_put_opt)

text \<open>The state right after a request stored its row, and the event it then appends.\<close>

definition pending_approval ::
  "string \<Rightarrow> string \<Rightarrow> string \<Rightarrow> string option \<Rightarrow> datetime option \<Rightarrow> world \<Rightarrow> approval" where
  "pending_approval run_id kind summary cap expires_at w =
     \<lparr>ap_id = approval_id_of run_id kind, ap_run_id = run_id, ap_kind = kind,
      ap_requested_capability = cap, ap_summary = summary, ap_state = APending,
      ap_requested_at = Aware (w_clock w (w_ticks w)) 0, ap_decided_at = None,
      ap_decided_by = None, ap_expires_at = map_option as_utc expires_at\<rparr>"

definition request_ok :: "string \<Rightarrow> string \<Rightarrow> string \<Rightarrow> string option \<Rightarrow> datetime option \<Rightarrow> bool" where
  "request_ok run_id kind summary cap expires_at \<longleftrightarrow>
     clean run_id \<and> clean kind \<and> clean summary \<and> (\<forall>c \<in> set_option cap. clean c) \<and>
     (\<forall>x \<in> set_option expires_at. is_aware x)"

lemma pending_wf:
  "request_ok r k s cap x \<Longrightarrow> wf_approval (pending_approval r k s cap x w)"
  by (auto simp: pending_approval_def wf_approval_def request_ok_def clean_approval_id)

lemma engine_request_steps:
  assumes "world_ok w" "request_ok r k s cap x"
  defines "a \<equiv> pending_approval r k s cap x w"
  defines "w1 \<equiv> w\<lparr>w_ticks := Suc (w_ticks w), w_approvals := AList.update (ap_id a) a (w_approvals w)\<rparr>"
  shows "engine_request r k s cap x ck w =
      (case emit_event (''evt-'' @ ap_id a @ ''-waiting'') r ''run.approval_waiting'' (waiting_payload a ck)
          (ap_requested_at a) (caused_by ''request_approval'') system_actor w1 of
         (Inl e, w') \<Rightarrow> (Inl e, w') | (Inr _, w') \<Rightarrow> (Inr a, w'))"
    and "world_ok w1"
proof -
  have mk: "make_approval (approval_id_of r k) r k cap s ''pending'' (Aware (w_clock w (w_ticks w)) 0)
      None None x = Inr a"
    using assms(2) unfolding a_def pending_approval_def request_ok_def
    by (intro make_pending) (auto simp: clean_approval_id)
  let ?t = "w\<lparr>w_ticks := Suc (w_ticks w)\<rparr>"
  have t: "world_ok ?t" using assms(1) by (rule world_ok_tick)
  then have sv: "approval_save a ?t = (Inr a, w1)"
    by (simp add: approval_save_ok w1_def)
  have q: "ap_requested_at a = Aware (w_clock w (w_ticks w)) 0" by (simp add: a_def pending_approval_def)
  show "engine_request r k s cap x ck w =
      (case emit_event (''evt-'' @ ap_id a @ ''-waiting'') r ''run.approval_waiting'' (waiting_payload a ck)
          (ap_requested_at a) (caused_by ''request_approval'') system_actor w1 of
         (Inl e, w') \<Rightarrow> (Inl e, w') | (Inr _, w') \<Rightarrow> (Inr a, w'))"
    by (simp add: engine_request_def prog_simps now_utc_def mk sv q split: prod.split sum.split)
  show "world_ok w1"
    using world_ok_approvals [OF t pending_wf [OF assms(2)], of w] by (simp add: w1_def a_def)
qed

lemma request_effect:
  assumes "world_ok w" "request_ok r k s cap x" "\<not> run_terminal w r"
    and "''evt-'' @ approval_id_of r k @ ''-waiting'' \<notin> e_id ` set (w_events w)"
  shows "\<exists>w' e. engine_request r k s cap x ck w = (Inr (pending_approval r k s cap x w), w') \<and>
    w' = w\<lparr>w_ticks := Suc (w_ticks w), w_approvals := AList.update (approval_id_of r k) (pending_approval r k s cap x w)
             (w_approvals w), w_events := w_events w @ [e]\<rparr> \<and>
    e_id e = ''evt-'' @ approval_id_of r k @ ''-waiting'' \<and> e_run_id e = r \<and> e_type e = ''run.approval_waiting'' \<and>
    e_seq e = int (length (events_of w r)) + 1 \<and>
    map_of (e_payload e) ''approval_id'' = Some (PStr (approval_id_of r k)) \<and> world_ok w'"
proof -
  let ?a = "pending_approval r k s cap x w"
  let ?w1 = "w\<lparr>w_ticks := Suc (w_ticks w), w_approvals := AList.update (ap_id ?a) ?a (w_approvals w)\<rparr>"
  note step1 = engine_request_steps(1) [OF assms(1,2), of ck]
  have ok1: "world_ok ?w1" by (rule engine_request_steps(2) [OF assms(1,2)])
  have log: "log_ok (w_events ?w1)" using ok1 by (simp add: world_ok_def)
  have wf1: "is_aware (ap_requested_at ?a)" by (simp add: pending_approval_def)
  have id: "ap_id ?a = approval_id_of r k" by (simp add: pending_approval_def)
  note em = emit_event_ok [OF log wf1 waiting_payload_valid [of ?a ck],
      where r = r and i = "''evt-'' @ ap_id ?a @ ''-waiting''" and c = "caused_by ''request_approval''"
      and a = system_actor]
  let ?e = "\<lparr>e_id = ''evt-'' @ ap_id ?a @ ''-waiting'', e_run_id = r,
      e_seq = int (length (events_of w r)) + 1, e_type = ''run.approval_waiting'',
      e_payload = waiting_payload ?a ck, e_timestamp = as_utc (ap_requested_at ?a),
      e_causation = caused_by ''request_approval'', e_actor = system_actor\<rparr>"
  let ?w' = "?w1\<lparr>w_events := w_events w @ [?e]\<rparr>"
  from em have e2: "emit_event (''evt-'' @ ap_id ?a @ ''-waiting'') r ''run.approval_waiting''
      (waiting_payload ?a ck) (ap_requested_at ?a) (caused_by ''request_approval'') system_actor ?w1
    = (Inr ?e, ?w')"
    using assms(3,4) by (simp add: id Let_def)
  have ok': "world_ok ?w'" using keeps_emit [unfolded obeys_def] ok1 e2 by (metis snd_conv)
  have pl: "map_of (waiting_payload ?a ck) ''approval_id'' = Some (PStr (approval_id_of r k))"
    by (cases ck; cases cap) (simp_all add: waiting_payload_def dict_put_opt_def pending_approval_def)
  show ?thesis
    by (rule exI [of _ ?w'], rule exI [of _ ?e])
      (use step1 e2 ok' pl in \<open>simp add: id\<close>)
qed

text \<open>
  C26. A request that is not refused by the log (the run is open, no earlier request of this
  kind announced itself) returns the pending approval, stores it under its id and appends
  one event, \<open>run.approval_waiting\<close> with the approval's id, as the last of its run.
\<close>

theorem request_stores_and_announces:
  assumes "world_ok w" "request_ok r k s cap x" "\<not> run_terminal w r"
    and "''evt-'' @ approval_id_of r k @ ''-waiting'' \<notin> e_id ` set (w_events w)"
  shows "\<exists>w' e. engine_request r k s cap x ck w = (Inr (pending_approval r k s cap x w), w') \<and>
    map_of (w_approvals w') (approval_id_of r k) = Some (pending_approval r k s cap x w) \<and>
    events_of w' r = events_of w r @ [e] \<and> e_type e = ''run.approval_waiting'' \<and>
    e_seq e = int (length (events_of w r)) + 1 \<and>
    map_of (e_payload e) ''approval_id'' = Some (PStr (approval_id_of r k)) \<and> world_ok w'"
  using request_effect [OF assms] by (force simp: update_conv' events_of_def)

section \<open>Decisions\<close>

lemma emit_decision_exact:
  assumes log: "log_ok (w_events w)" and now: "is_aware now"
    and opn: "\<not> run_terminal w (ap_run_id a)"
    and fresh: "decision_event_id (ap_id a) d \<notin> e_id ` set (w_events w)"
  shows "emit_decision a d now w =
     (let e = decided_event (ap_id a) (ap_run_id a) (length (events_of w (ap_run_id a))) now d
      in (Inr e, w\<lparr>w_events := w_events w @ [e]\<rparr>))"
proof (cases d)
  case (Timeout retryable)
  with assms show ?thesis
    by (cases retryable) (simp_all add: emit_timeout_def emit_event_ok Let_def decided_event_def)
qed (use assms in \<open>simp_all add: emit_granted_def emit_denied_abandon_def emit_denied_alternate_def
  emit_event_ok Let_def prog_simps ev_latest_seq_def max_seq_log_ok make_event_ok ev_append_cases
  decided_event_def\<close>)

lemma emit_decision_ok:
  assumes "log_ok (w_events w)" "is_aware now" "\<not> run_terminal w (ap_run_id a)"
    and "decision_event_id (ap_id a) d \<notin> e_id ` set (w_events w)"
  shows "\<exists>e. emit_decision a d now w = (Inr e, w\<lparr>w_events := w_events w @ [e]\<rparr>) \<and>
     e_id e = decision_event_id (ap_id a) d \<and> e_run_id e = ap_run_id a"
  unfolding emit_decision_exact [OF assms] Let_def by (simp add: decided_event_def)

lemma decided_wf:
  assumes "wf_approval a" "instant (ap_requested_at a) \<le> t"
  shows "make_approval (ap_id a) (ap_run_id a) (ap_kind a) (ap_requested_capability a)
      (ap_summary a) (show_approval_state (decided_state d)) (ap_requested_at a)
      (Some (Aware t 0)) (ap_decided_by a) (ap_expires_at a) =
    Inr (a\<lparr>ap_state := decided_state d, ap_decided_at := Some (Aware t 0)\<rparr>)"
proof -
  have "wf_approval (a\<lparr>ap_state := decided_state d, ap_decided_at := Some (Aware t 0)\<rparr>)"
    using assms by (cases d) (auto simp: wf_approval_def split: if_splits)
  from reload_approval_id [OF this] show ?thesis by (simp add: reload_approval_def)
qed

lemma engine_resolve_steps:
  fixes d :: approval_decision
  assumes ok: "world_ok w" and a: "map_of (w_approvals w) i = Some a" and p: "ap_state a = APending"
    and t: "instant (ap_requested_at a) \<le> w_clock w (w_ticks w)"
  defines "a' \<equiv> a\<lparr>ap_state := decided_state d, ap_decided_at := Some (Aware (w_clock w (w_ticks w)) 0)\<rparr>"
  defines "w1 \<equiv> w\<lparr>w_ticks := Suc (w_ticks w), w_approvals := AList.update i a' (w_approvals w)\<rparr>"
  shows "engine_resolve i d w = emit_decision a d (Aware (w_clock w (w_ticks w)) 0) w1"
    and "world_ok w1" and "wf_approval a'"
proof -
  have wf: "wf_approval a" "ap_id a = i" using world_okD(2) [OF ok a] by auto
  have mk: "make_approval (ap_id a) (ap_run_id a) (ap_kind a) (ap_requested_capability a)
      (ap_summary a) (show_approval_state (decided_state d)) (ap_requested_at a)
      (Some (Aware (w_clock w (w_ticks w)) 0)) (ap_decided_by a) (ap_expires_at a) = Inr a'"
    unfolding a'_def by (rule decided_wf [OF wf(1) t])
  then show wf': "wf_approval a'" by (rule make_approval_wf)
  have i': "ap_id a' = i" using wf(2) by (simp add: a'_def)
  have okt: "world_ok (w\<lparr>w_ticks := Suc (w_ticks w)\<rparr>)" using ok by (rule world_ok_tick)
  show "engine_resolve i d w = emit_decision a d (Aware (w_clock w (w_ticks w)) 0) w1"
    using ok a p mk i' approval_save_ok [OF okt, of a']
    by (simp add: engine_resolve_def prog_simps now_utc_def new_state_of_decision w1_def)
  show "world_ok w1" using world_ok_approvals [OF okt wf' i'] by (simp add: w1_def)
qed

text \<open>
  C2. Resolving a pending approval of an open run changes exactly three things: one tick of the clock
  passes, the stored approval gets the decision's final state and time, and the one event of the
  decision table is appended, with its id, number, type, whole payload (a resumption names the approval
  and the number it resumes from), cause and actor. Nothing else of the store changes; in particular
  the run's row keeps its state, although RT-002 moves the run to \<open>executing\<close> or \<open>cancelled\<close>, and no
  \<open>cancelled_by\<close> is written. The clock is not behind the request's time, and no event of that id exists.
\<close>

theorem resolve_writes_decision:
  assumes "world_ok w" "map_of (w_approvals w) i = Some a" "ap_state a = APending"
    and "instant (ap_requested_at a) \<le> w_clock w (w_ticks w)" "\<not> run_terminal w (ap_run_id a)"
    and "decision_event_id i d \<notin> e_id ` set (w_events w)"
  shows "engine_resolve i d w =
    (let now = Aware (w_clock w (w_ticks w)) 0;
         e = decided_event i (ap_run_id a) (length (events_of w (ap_run_id a))) now d
     in (Inr e, w\<lparr>w_ticks := Suc (w_ticks w),
           w_approvals := AList.update i (a\<lparr>ap_state := decided_state d, ap_decided_at := Some now\<rparr>)
             (w_approvals w),
           w_events := w_events w @ [e]\<rparr>))"
proof -
  let ?now = "Aware (w_clock w (w_ticks w)) 0"
  let ?w1 = "w\<lparr>w_ticks := Suc (w_ticks w), w_approvals :=
      AList.update i (a\<lparr>ap_state := decided_state d, ap_decided_at := Some ?now\<rparr>) (w_approvals w)\<rparr>"
  note steps = engine_resolve_steps [OF assms(1-4), where d = d]
  have "log_ok (w_events ?w1)" "ap_id a = i"
    using steps(2) world_okD(2) [OF assms(1,2)] by (simp_all add: world_ok_def)
  then show ?thesis
    using steps(1) emit_decision_exact [of ?w1 ?now a d] assms(5,6) by (simp add: Let_def events_of_def)
qed

lemma make_approval_not_before:
  "make_approval i r k c su st q (Some t) b x = Inr a \<Longrightarrow> instant q \<le> instant t"
  by (auto simp: make_approval_def rbind_Inr_iff check_decided_at_Inr_iff require_aware_Inr_iff)

lemma emit_decision_frame:
  "emit_decision a d now w = (res, w') \<Longrightarrow> \<exists>es. w' = w\<lparr>w_events := w_events w @ es\<rparr>"
  by (cases d)
     (auto simp: emit_granted_def emit_denied_abandon_def emit_denied_alternate_def emit_timeout_def
        prog_simps ev_latest_seq_def intro: exI [of _ "[]"] dest: ev_append_frame emit_event_frame
        split: prod.splits sum.splits if_splits)

lemma resolve_success:
  assumes "world_ok w" "engine_resolve i d w = (Inr e, w')"
  obtains a where "map_of (w_approvals w) i = Some a" "ap_state a = APending" "ap_id a = i"
    "instant (ap_requested_at a) \<le> w_clock w (w_ticks w)"
proof -
  obtain a where a: "map_of (w_approvals w) i = Some a" "ap_state a = APending"
    using assms by (auto simp: engine_resolve_def prog_simps split: option.splits if_splits)
  have "instant (ap_requested_at a) \<le> w_clock w (w_ticks w)"
    using assms a make_approval_not_before [where t = "Aware (w_clock w (w_ticks w)) 0"]
    by (fastforce simp: engine_resolve_def prog_simps now_utc_def new_state_of_decision
        split: sum.splits)
  with a world_okD(2) [OF assms(1) a(1)] that show thesis by blast
qed

lemma decision_keeps: "keeps world_ok (emit_decision a d now)"
  by (cases d)
     (auto simp: emit_granted_def emit_denied_abandon_def emit_denied_alternate_def emit_timeout_def
        intro!: keep.resp_bind keep.resp_rules keeps_world dest: make_event_wf)

lemma resolve_keeps: "keeps world_ok (engine_resolve i d)"
  unfolding engine_resolve_def
  by (intro keep.resp_bind keep.resp_rules keeps_world decision_keeps) (auto dest: make_approval_wf)

lemma resolve_row:
  assumes "world_ok w" "engine_resolve i d w = (Inr e, w')"
  shows "\<exists>a. map_of (w_approvals w') i = Some a \<and> ap_state a = decided_state d"
proof -
  obtain a where a: "map_of (w_approvals w) i = Some a" "ap_state a = APending" "ap_id a = i"
    "instant (ap_requested_at a) \<le> w_clock w (w_ticks w)"
    using resolve_success [OF assms] by blast
  note steps = engine_resolve_steps [OF assms(1) a(1,2,4), where d = d]
  have "emit_decision a d (Aware (w_clock w (w_ticks w)) 0) (w\<lparr>w_ticks := Suc (w_ticks w),
      w_approvals := AList.update i (a\<lparr>ap_state := decided_state d,
        ap_decided_at := Some (Aware (w_clock w (w_ticks w)) 0)\<rparr>) (w_approvals w)\<rparr>) = (Inr e, w')"
    using steps(1) assms(2) by (simp only:)
  from emit_decision_frame [OF this] show ?thesis by (auto simp: update_conv')
qed

text \<open>
  What can happen to the engine after a decision: any sequence of its calls, by clients or by the hook.
  Only a request whose run and kind make up the id of an approval writes that approval's row again.
\<close>

datatype engine_call =
    CallRequest string string string "string option" "datetime option" "string option"
  | CallResolve string approval_decision
  | CallHook tool_policy string string string string

fun call_engine :: "engine_call \<Rightarrow> world \<Rightarrow> world" where
  "call_engine (CallRequest r k s cap x ck) w = snd (engine_request r k s cap x ck w)"
| "call_engine (CallResolve i d) w = snd (engine_resolve i d w)"
| "call_engine (CallHook policy r tool action s) w = snd (before_invoke policy r tool action s w)"

fun requests :: "string \<Rightarrow> engine_call \<Rightarrow> bool" where
  "requests i (CallRequest r k _ _ _ _) \<longleftrightarrow> strip (approval_id_of r k) = i"
| "requests i (CallResolve _ _) \<longleftrightarrow> False"
| "requests i (CallHook _ r tool _ _) \<longleftrightarrow> strip (approval_id_of r tool) = i"

definition row_kept :: "string \<Rightarrow> world \<Rightarrow> world \<Rightarrow> bool" where
  "row_kept i w w' \<longleftrightarrow> world_ok w \<longrightarrow> world_ok w' \<and> map_of (w_approvals w') i = map_of (w_approvals w) i"

interpretation row: step_relation "row_kept i" for i
  by unfold_locales (auto simp: row_kept_def)

lemma row_kept_iff:
  "obeys (row_kept i) m \<longleftrightarrow> keeps world_ok m \<and>
     (\<forall>w. world_ok w \<longrightarrow> map_of (w_approvals (snd (m w))) i = map_of (w_approvals w) i)"
  by (auto simp: obeys_def row_kept_def)

lemma row_emit: "obeys (row_kept i) (emit_event i0 r ty p ts c a)"
  unfolding row_kept_iff using emit_event_frame keeps_emit
  by (metis prod.collapse world.select_convs(3) world.update_convs(2) world.surjective)

lemma make_approval_key: "make_approval i r k c su st q d b x = Inr a \<Longrightarrow> ap_id a = strip i"
  by (auto simp: make_approval_def rbind_Inr_iff require_text_Inr_iff)

lemma wf_approval_key: "wf_approval a \<Longrightarrow> strip (ap_id a) = ap_id a"
  by (simp add: wf_approval_def clean_def)

lemma row_decision: "obeys (row_kept i) (emit_decision a d now)"
  unfolding row_kept_iff
proof (intro conjI allI impI)
  show "keeps world_ok (emit_decision a d now)" by (rule decision_keeps)
  show "map_of (w_approvals (snd (emit_decision a d now w))) i = map_of (w_approvals w) i" for w
    using emit_decision_frame [of a d now w] by (cases "emit_decision a d now w") fastforce
qed

lemma row_save: "wf_approval a \<Longrightarrow> ap_id a \<noteq> i \<Longrightarrow> obeys (row_kept i) (approval_save a)"
  unfolding row_kept_iff
  by (auto simp: keeps_approval_save approval_save_ok update_conv')

lemma row_now: "obeys (row_kept i) now_utc"
  by (simp add: row_kept_iff keeps_now) (simp add: now_utc_def)

lemma row_get:
  assumes "obeys (row_kept i) (f None)" "\<And>a. wf_approval a \<Longrightarrow> ap_id a = j \<Longrightarrow> obeys (row_kept i) (f (Some a))"
  shows "obeys (row_kept i) (bind (approval_get j) f)"
  unfolding obeys_def
proof (intro allI)
  fix w
  show "row_kept i w (snd (bind (approval_get j) f w))"
  proof (cases "world_ok w")
    case True
    then have "bind (approval_get j) f w = f (map_of (w_approvals w) j) w" by (simp add: prog_simps)
    with assms world_okD(2) [OF True] show ?thesis
      by (cases "map_of (w_approvals w) j") (auto simp: obeys_def)
  qed (simp add: row_kept_def)
qed

lemma row_request:
  assumes "strip (approval_id_of r k) \<noteq> i"
  shows "obeys (row_kept i) (engine_request r k s cap x ck)"
  unfolding engine_request_def
  by (intro row.resp_bind row.resp_bind_lift row.resp_pure row_now row_emit row_save)
    (use assms in \<open>auto dest: make_approval_key make_approval_wf\<close>)

lemma row_resolve:
  assumes "j \<noteq> i"
  shows "obeys (row_kept i) (engine_resolve j d)"
  unfolding engine_resolve_def
  by (intro row_get row.resp_bind row.resp_rules row_now row_decision row_save)
    (use assms in \<open>auto dest: make_approval_key make_approval_wf simp: wf_approval_key\<close>)

lemma request_keeps: "keeps world_ok (engine_request r k s cap x ck)"
  unfolding engine_request_def
  by (intro keep.resp_bind keep.resp_rules keeps_world) (auto dest: make_approval_wf)


text \<open>A decided row stays what it is under every call that does not ask for it anew.\<close>

lemma decided_resolve:
  assumes "world_ok w" "map_of (w_approvals w) i = Some a" "ap_state a \<noteq> APending"
  shows "engine_resolve i d w = (Inl (ApprovalAlreadyResolvedError i), w)"
  using assms world_okD(2) [OF assms(1,2)] by (simp add: engine_resolve_def prog_simps)

lemma decided_call:
  assumes "world_ok w" "map_of (w_approvals w) i = Some a" "ap_state a \<noteq> APending" "\<not> requests i c"
  shows "world_ok (call_engine c w) \<and> map_of (w_approvals (call_engine c w)) i = Some a"
proof (cases c)
  case (CallRequest r k s cap x ck)
  with assms show ?thesis using row_request [of r k i s cap x ck] by (simp add: obeys_def row_kept_def)
next
  case (CallResolve j d)
  with assms show ?thesis
    using row_resolve [of j i d] decided_resolve [OF assms(1-3), of d]
    by (cases "j = i") (simp_all add: obeys_def row_kept_def)
next
  case (CallHook policy r tool action s)
  then have "obeys (row_kept i) (before_invoke policy r tool action s)"
    using assms(4) unfolding before_invoke_def
    by (auto intro!: row.resp_bind_lift row.resp_if row.resp_pure row.resp_bind row_request split: prod.split)
  with CallHook assms show ?thesis by (simp add: obeys_def row_kept_def)
qed

lemma decided_calls:
  assumes "world_ok w" "map_of (w_approvals w) i = Some a" "ap_state a \<noteq> APending"
    and "\<forall>c \<in> set calls. \<not> requests i c"
  shows "world_ok (fold call_engine calls w) \<and> map_of (w_approvals (fold call_engine calls w)) i = Some a"
  using assms by (induction calls arbitrary: w) (simp_all add: decided_call)

text \<open>
  C10. An approval is decided at most once. After a decision went through, its row keeps the decided
  state whatever the engine is called for next, by clients or by the hook, however often and in
  whatever order, as long as no call asks for this approval again; and any further decision on it, at
  any later point, raises \<open>ApprovalAlreadyResolvedError\<close> and changes nothing. A request that makes up the
  same id is the exception: it resets the row (\<open>second_request_loses_decision\<close>).
\<close>

theorem resolve_only_once:
  assumes "world_ok w" "engine_resolve i d w = (Inr e, w')" "\<forall>c \<in> set calls. \<not> requests i c"
  shows "let w2 = fold call_engine calls w' in
    map_of (w_approvals w2) i = map_of (w_approvals w') i \<and>
    map_option ap_state (map_of (w_approvals w2) i) = Some (decided_state d) \<and>
    engine_resolve i d2 w2 = (Inl (ApprovalAlreadyResolvedError i), w2)"
proof -
  obtain a where a: "map_of (w_approvals w') i = Some a" "ap_state a = decided_state d"
    using resolve_row [OF assms(1,2)] by blast
  have ok: "world_ok w'" using obeysD [OF resolve_keeps assms(2)] assms(1) by simp
  have "decided_state d \<noteq> APending" by (cases d) simp_all
  with decided_calls [OF ok a(1) _ assms(3)] a show ?thesis
    by (simp add: Let_def decided_resolve)
qed


lemma repeated_request:
  assumes "world_ok w" "request_ok r k s cap x" "\<not> run_terminal w r"
    and "map_of (w_approvals w) (approval_id_of r k) = Some a" "ap_state a \<noteq> APending"
    and "''evt-'' @ approval_id_of r k @ ''-waiting'' \<in> e_id ` set (w_events w)"
  shows "\<exists>w'. engine_request r k s cap x ck w = (Inl (IntegrityError ''run_events.id''), w') \<and>
    map_of (w_approvals w') (approval_id_of r k) = Some (pending_approval r k s cap x w) \<and>
    w_events w' = w_events w"
proof -
  let ?a = "pending_approval r k s cap x w"
  let ?w1 = "w\<lparr>w_ticks := Suc (w_ticks w), w_approvals := AList.update (ap_id ?a) ?a (w_approvals w)\<rparr>"
  have log: "log_ok (w_events ?w1)"
    using engine_request_steps(2) [OF assms(1,2)] by (simp add: world_ok_def)
  have id: "ap_id ?a = approval_id_of r k" and aw: "is_aware (ap_requested_at ?a)"
    by (simp_all add: pending_approval_def)
  have "engine_request r k s cap x ck w = (Inl (IntegrityError ''run_events.id''), ?w1)"
    using engine_request_steps(1) [OF assms(1,2), of ck] assms(3,6)
      emit_event_ok [OF log aw waiting_payload_valid [of ?a ck], where r = r and a = system_actor
        and i = "''evt-'' @ ap_id ?a @ ''-waiting''" and c = "caused_by ''request_approval''"]
    by (simp add: id)
  then show ?thesis by (simp add: id update_conv')
qed

text \<open>
  A second request of the same kind for a run overwrites the decided approval by a
  pending one and only then fails, on the primary key of the event it would announce: the
  decision is lost, although no event tells.
\<close>

theorem second_request_loses_decision:
  assumes "world_ok w" "request_ok r k s cap x" "\<not> run_terminal w r"
    and "map_of (w_approvals w) (approval_id_of r k) = Some a" "ap_state a \<noteq> APending"
    and "''evt-'' @ approval_id_of r k @ ''-waiting'' \<in> e_id ` set (w_events w)"
  shows "\<exists>w'. engine_request r k s cap x ck w = (Inl (IntegrityError ''run_events.id''), w') \<and>
    map_of (w_approvals w') (approval_id_of r k) = Some (pending_approval r k s cap x w) \<and>
    w_events w' = w_events w"
  using assms by (rule repeated_request)

section \<open>The policy\<close>

text \<open>
  The hooks answer as the policy says: the first rule for the tool and the action
  decides (its own reason is passed on), else the default; a forbidden call raises.
\<close>

theorem requirements_follow_policy:
  "requirements policy tool action =
    (case policy_decision policy tool action of
       AutoAllow \<Rightarrow> Inr (False, None, None)
     | Forbidden \<Rightarrow> Inl forbidden_exc
     | ApprovalRequired \<Rightarrow>
         (let reason = (case find (rule_matches tool action) (tp_rules policy) of
            Some rule \<Rightarrow> tr_reason rule | None \<Rightarrow> None) in Inr (True, reason, reason)))"
proof -
  have "rules_requirements rules d tool action =
    (case find (rule_matches tool action) rules of
       Some rule \<Rightarrow> decision_requirements (tr_decision rule) (tr_reason rule)
     | None \<Rightarrow> decision_requirements d None)" for rules d
    by (induction rules) (auto simp: rule_matches_def)
  moreover have "(case filter P rs of [] \<Rightarrow> d | r # _ \<Rightarrow> tr_decision r) =
    (case find P rs of None \<Rightarrow> d | Some r \<Rightarrow> tr_decision r)" for P and rs :: "tool_rule list" and d
    by (induction rs) auto
  ultimately show ?thesis
    by (cases "find (rule_matches tool action) (tp_rules policy)")
      (auto simp: requirements_def policy_decision_def decision_requirements_def Let_def
        split: tool_decision.split)
qed

section \<open>Witnesses\<close>

text \<open>A store in which run r1 waits for an approval of a shell call, and one where it was granted.\<close>

definition asked_world :: world where
  "asked_world = snd (engine_request ''r1'' ''shell'' ''run ls'' None None None fresh_world)"

definition granted_world :: world where
  "granted_world = snd (engine_resolve ''approval-r1-shell'' Granted asked_world)"

lemma asked_world_ok: "world_ok asked_world"
  using request_keeps fresh_world_ok unfolding obeys_def asked_world_def by blast

lemma granted_world_ok: "world_ok granted_world"
  using resolve_keeps asked_world_ok unfolding obeys_def granted_world_def by blast

lemma asked_approval:
  "map_of (w_approvals asked_world) ''approval-r1-shell'' =
     Some (pending_approval ''r1'' ''shell'' ''run ls'' None None fresh_world)"
  by code_simp

lemma asked_resolve: "fst (engine_resolve ''approval-r1-shell'' Granted asked_world) = Inr
   \<lparr>e_id = ''evt-approval-r1-shell-granted'', e_run_id = ''r1'', e_seq = 2, e_type = ''run.resumed'',
    e_payload = [(''resume_kind'', PStr ''approval_granted''), (''resumed_from_seq'', PInt 1),
      (''approval_id'', PStr ''approval-r1-shell'')],
    e_timestamp = Aware 1 0, e_causation = caused_by ''approve_decision'', e_actor = operator_actor\<rparr>"
  by code_simp

lemma shell_request_ok: "request_ok ''r1'' ''shell'' ''run ls'' None None"
  by code_simp

theorem request_stores_and_announces_witness:
  "\<exists>w' e. engine_request ''r1'' ''shell'' ''run ls'' None None None fresh_world =
     (Inr (pending_approval ''r1'' ''shell'' ''run ls'' None None fresh_world), w') \<and>
     events_of w' ''r1'' = [e] \<and> e_type e = ''run.approval_waiting'' \<and> e_seq e = 1"
proof -
  have "\<not> run_terminal fresh_world ''r1''" and "w_events fresh_world = []" "events_of fresh_world ''r1'' = []"
    by code_simp+
  with request_stores_and_announces [OF fresh_world_ok shell_request_ok, where ck = None]
  show ?thesis by fastforce
qed

theorem resolve_writes_decision_witness:
  "\<exists>w'. engine_resolve ''approval-r1-shell'' Granted asked_world =
    (Inr \<lparr>e_id = ''evt-approval-r1-shell-granted'', e_run_id = ''r1'', e_seq = 2, e_type = ''run.resumed'',
       e_payload = [(''resume_kind'', PStr ''approval_granted''), (''resumed_from_seq'', PInt 1),
         (''approval_id'', PStr ''approval-r1-shell'')],
       e_timestamp = Aware 1 0, e_causation = caused_by ''approve_decision'', e_actor = operator_actor\<rparr>, w')"
proof -
  let ?a = "pending_approval ''r1'' ''shell'' ''run ls'' None None fresh_world"
  have h: "ap_state ?a = APending" "instant (ap_requested_at ?a) \<le> w_clock asked_world (w_ticks asked_world)"
    "\<not> run_terminal asked_world (ap_run_id ?a)"
    "decision_event_id ''approval-r1-shell'' Granted \<notin> e_id ` set (w_events asked_world)"
    by code_simp+
  have "decided_event ''approval-r1-shell'' (ap_run_id ?a) (length (events_of asked_world (ap_run_id ?a)))
      (Aware (w_clock asked_world (w_ticks asked_world)) 0) Granted =
    \<lparr>e_id = ''evt-approval-r1-shell-granted'', e_run_id = ''r1'', e_seq = 2, e_type = ''run.resumed'',
       e_payload = [(''resume_kind'', PStr ''approval_granted''), (''resumed_from_seq'', PInt 1),
         (''approval_id'', PStr ''approval-r1-shell'')],
       e_timestamp = Aware 1 0, e_causation = caused_by ''approve_decision'', e_actor = operator_actor\<rparr>"
    by code_simp
  with resolve_writes_decision [OF asked_world_ok asked_approval h] show ?thesis
    by (simp only: Let_def) blast
qed

theorem resolve_only_once_witness:
  "let calls = [CallRequest ''r1'' ''deploy'' ''ship it'' None None None,
        CallResolve ''approval-r1-deploy'' (Timeout False), CallResolve ''approval-r1-shell'' (Timeout True)]
   in fst (engine_resolve ''approval-r1-shell'' (DeniedAbandon ''no'') (fold call_engine calls granted_world)) =
      Inl (ApprovalAlreadyResolvedError ''approval-r1-shell'')"
proof -
  let ?calls = "[CallRequest ''r1'' ''deploy'' ''ship it'' None None None,
        CallResolve ''approval-r1-deploy'' (Timeout False), CallResolve ''approval-r1-shell'' (Timeout True)]"
  have "\<exists>e. engine_resolve ''approval-r1-shell'' Granted asked_world = (Inr e, granted_world)"
    using asked_resolve unfolding granted_world_def by (metis prod.collapse)
  moreover have "\<forall>c \<in> set ?calls. \<not> requests ''approval-r1-shell'' c" by code_simp
  ultimately show ?thesis
    using resolve_only_once [OF asked_world_ok, where calls = ?calls] by (fastforce simp: Let_def)
qed

theorem second_request_loses_decision_witness:
  "\<exists>w'. engine_request ''r1'' ''shell'' ''run ls'' None None None granted_world =
      (Inl (IntegrityError ''run_events.id''), w') \<and>
    map_option ap_state (map_of (w_approvals w') ''approval-r1-shell'') = Some APending \<and>
    map_option ap_state (map_of (w_approvals granted_world) ''approval-r1-shell'') = Some AGranted"
proof -
  have g: "map_option ap_state (map_of (w_approvals granted_world) (approval_id_of ''r1'' ''shell'')) =
      Some AGranted" and i: "approval_id_of ''r1'' ''shell'' = ''approval-r1-shell''"
    and "\<not> run_terminal granted_world ''r1''"
    and "''evt-'' @ approval_id_of ''r1'' ''shell'' @ ''-waiting'' \<in> e_id ` set (w_events granted_world)"
    by code_simp+
  then obtain a where "map_of (w_approvals granted_world) (approval_id_of ''r1'' ''shell'') = Some a"
    "ap_state a \<noteq> APending" by auto
  from second_request_loses_decision [OF granted_world_ok shell_request_ok _ this, where ck = None]
  show ?thesis using g \<open>\<not> run_terminal _ _\<close> \<open>_ \<in> _\<close> by (auto simp: i pending_approval_def)
qed


end
