(* ===== verification/Lifecycle.thy ===== *)
theory Lifecycle
  imports Store Milestones
begin

text \<open>
  The verbs of services/run_lifecycle.py (start, resume, cancel) and the crash recovery of
  services/resume.py on top of them. The pending runs a restart recovers are an argument
  (the code reads them from a YAML file), and so is the hash of a run's stored manifest
  (JSON and SHA-256 are not under src/).
\<close>

section \<open>RunLifecycleService\<close>

definition valid_resume_kinds :: "string list" where
  "valid_resume_kinds =
     [''operator_resume'', ''scheduler_wakeup'', ''worker_recovery'', ''transport_rebind'']"

definition lifecycle_terminal :: "run_state list" where
  "lifecycle_terminal = [RCompleted, RFailed, RCancelled]"

abbreviation sys_actor :: "actor option" where
  "sys_actor \<equiv> Some \<lparr>a_kind = System, a_id = None, a_display = None\<rparr>"

abbreviation action_cause :: "string \<Rightarrow> causation option" where
  "action_cause action \<equiv> Some \<lparr>c_event_id = None, c_action = Some action, c_request_id = None\<rparr>"

definition created_payload :: "run \<Rightarrow> payload" where
  "created_payload r =
     [(''instance_id'', PStr (r_instance_id r)), (''profile'', PStr (r_profile r)),
      (''policy_preset'', PStr (show_preset (r_policy_preset r))),
      (''manifest_ref'', PStr (r_manifest_ref r)),
      (''entrypoint'', PStr (show_entrypoint (r_entrypoint r)))]"

definition run_id_of :: "task \<Rightarrow> string" where
  "run_id_of t = ''run-'' @ t_id t"

definition lifecycle_start :: "task \<Rightarrow> string \<Rightarrow> (world, run) prog" where
  "lifecycle_start t entrypoint =
     bind now_utc (\<lambda>now.
     bind (lift (make_run (run_id_of t) ''inst-default'' (Some (t_id t)) (t_session_id t) ''ask''
            (''manifest://'' @ t_id t @ ''/default'') entrypoint ''created'' now now None None)) (\<lambda>run0.
     bind (run_create run0) (\<lambda>r.
     bind (ev_latest_seq (r_id r)) (\<lambda>last_seq.
     andthen (require (last_seq = 0) (AssertionError ''Expected seq=0 for new run''))
     (bind (lift (make_event (''evt-'' @ r_id r @ ''-created'') (r_id r) 1 ''run.created''
            (created_payload r) now (action_cause ''start_run'') sys_actor)) (\<lambda>event.
     andthen (ev_append event) (ret r)))))))"

definition lifecycle_resume :: "string \<Rightarrow> string \<Rightarrow> (world, run_event) prog" where
  "lifecycle_resume run_id resume_kind =
     andthen (require (resume_kind \<in> set valid_resume_kinds) (InvalidResumeKindError resume_kind))
     (bind (run_get run_id) (\<lambda>existing. case existing of
        None \<Rightarrow> raise (FileNotFoundError ''run not found'')
      | Some r \<Rightarrow>
          (if r_state r \<in> set lifecycle_terminal
           then raise (RunAlreadyTerminalError run_id (show_run_state (r_state r)))
           else
             bind (ev_latest_seq run_id) (\<lambda>latest.
             bind now_utc (\<lambda>now.
             bind (lift (make_event (''evt-'' @ run_id @ ''-resumed'') run_id (latest + 1)
                    ''run.resumed''
                    [(''resume_kind'', PStr resume_kind), (''resumed_from_seq'', PInt latest)]
                    now (action_cause resume_kind) sys_actor)) (\<lambda>event.
             andthen (ev_append event) (ret event)))))))"

definition lifecycle_cancel :: "string \<Rightarrow> string \<Rightarrow> string option \<Rightarrow> (world, run_event) prog" where
  "lifecycle_cancel run_id reason cancelled_by =
     bind (run_get run_id) (\<lambda>existing. case existing of
        None \<Rightarrow> raise (FileNotFoundError ''run not found'')
      | Some r \<Rightarrow>
          (if r_state r \<in> set lifecycle_terminal
           then raise (RunAlreadyTerminalError run_id (show_run_state (r_state r)))
           else
             bind (ev_latest_seq run_id) (\<lambda>latest.
             bind now_utc (\<lambda>now.
             bind (lift (make_event (''evt-'' @ run_id @ ''-cancelled'') run_id (latest + 1)
                    ''run.cancelled''
                    (dict_put_opt ''cancelled_by'' (map_option PStr cancelled_by)
                       [(''reason'', PStr reason)])
                    now (action_cause ''cancel_run'') sys_actor)) (\<lambda>event.
             andthen (ev_append event) (ret event))))))"

section \<open>ResumeService\<close>

record pending_run =
  pr_run_id :: string
  pr_manifest_hash :: "string option"
  pr_checkpoint_run_id :: "string option"

definition emit_resume_blocked :: "string \<Rightarrow> string \<Rightarrow> (world, unit) prog" where
  "emit_resume_blocked run_id reason =
     bind (ev_latest_seq run_id) (\<lambda>latest.
     bind now_utc (\<lambda>now.
     bind (lift (make_event (''evt-'' @ run_id @ ''-resume-blocked'') run_id (latest + 1)
            ''run.progress'' [(''phase'', PStr ''execute''), (''milestone'', PStr ''resume_blocked'')]
            now (action_cause ''resume_blocked'') sys_actor)) (\<lambda>event.
     andthen (ev_append event) (ret ()))))"

text \<open>
  The checks on one pending run before it is resumed: \<open>None\<close> when it is skipped. \<open>mhash\<close> is
  \<open>_compute_actual_manifest_hash\<close>.
\<close>

definition recovery_checks :: "(string \<Rightarrow> exc + string) \<Rightarrow> pending_run \<Rightarrow> (world, run option) prog" where
  "recovery_checks mhash p = bind (run_get (pr_run_id p)) (\<lambda>existing. case existing of
       None \<Rightarrow> ret None
     | Some r \<Rightarrow>
         (if r_state r \<in> set lifecycle_terminal then ret None
          else
            andthen (require (pr_checkpoint_run_id p = None \<or> pr_checkpoint_run_id p = Some (pr_run_id p))
              (CrossRunCheckpointError (the (pr_checkpoint_run_id p)) (pr_run_id p)))
            (case pr_manifest_hash p of
               None \<Rightarrow> ret (Some r)
             | Some expected_hash \<Rightarrow> bind (lift (mhash (pr_run_id p))) (\<lambda>actual_hash.
                 andthen (require (actual_hash = expected_hash)
                            (ManifestChangedWithoutRevisionError (pr_run_id p)))
                   (ret (Some r))))))"

fun exc_text :: "exc \<Rightarrow> string" where
  "exc_text (ValueError m) = m" | "exc_text (TypeError m) = m" | "exc_text (KeyError m) = m"
| "exc_text (RuntimeError m) = m" | "exc_text (AssertionError m) = m"
| "exc_text (FileNotFoundError m) = m" | "exc_text (IntegrityError m) = m"
| "exc_text _ = ''''"

text \<open>The result of trying to resume: \<open>True\<close> when the run is to be listed as resumed.\<close>

definition try_recover :: "string \<Rightarrow> (world, bool) prog" where
  "try_recover run_id =
     try_except (andthen (lifecycle_resume run_id ''worker_recovery'') (ret True))
       (\<lambda>e. andthen (emit_resume_blocked run_id (exc_text e)) (ret False))"

fun rehydrate_all :: "(string \<Rightarrow> exc + string) \<Rightarrow> pending_run list \<Rightarrow> (world, run list) prog" where
  "rehydrate_all mhash [] = ret []"
| "rehydrate_all mhash (p # ps) =
     bind (recovery_checks mhash p) (\<lambda>checked. case checked of
       None \<Rightarrow> rehydrate_all mhash ps
     | Some existing \<Rightarrow> bind (try_recover (pr_run_id p)) (\<lambda>ok.
         bind (rehydrate_all mhash ps) (\<lambda>rest.
         ret (if ok then existing # rest else rest))))"

section \<open>The verbs keep the store in order\<close>

lemma keeps_run_create [keeps_world]:
  assumes "wf_run r" "instant (r_created_at r) \<le> t"
  shows "world_ok w \<Longrightarrow> t \<le> w_clock w (w_ticks w) \<Longrightarrow> world_ok (snd (run_create r w))"
  using assms by (auto simp: run_create_def world_ok_def clock_ok_def intro: rows_ok_snoc)

lemma resume_keeps: "keeps world_ok (lifecycle_resume r k)"
  unfolding lifecycle_resume_def
  by (intro keep.resp_bind keep.resp_rules keeps_world) (auto dest: make_event_wf)

lemma cancel_keeps: "keeps world_ok (lifecycle_cancel r reason by0)"
  unfolding lifecycle_cancel_def
  by (intro keep.resp_bind keep.resp_rules keeps_world) (auto dest: make_event_wf)

lemma blocked_keeps: "keeps world_ok (emit_resume_blocked r reason)"
  unfolding emit_resume_blocked_def
  by (intro keep.resp_bind keep.resp_rules keeps_world) (auto dest: make_event_wf)

lemma try_recover_keeps: "keeps world_ok (try_recover r)"
  unfolding try_recover_def
  by (intro keep.resp_rules resume_keeps blocked_keeps)

lemma checks_keep: "keeps world_ok (recovery_checks mhash p)"
  unfolding recovery_checks_def
  by (intro keep.resp_bind keep.resp_rules keeps_world)

lemma rehydrate_keeps: "keeps world_ok (rehydrate_all mhash ps)"
proof (induction ps)
  case (Cons p ps)
  show ?case unfolding rehydrate_all.simps
    by (intro keep.resp_bind keep.resp_rules checks_keep try_recover_keeps Cons)
qed (simp add: keep.resp_pure)

section \<open>What resume and cancel do\<close>

lemma world_ok_log: "world_ok w \<Longrightarrow> log_ok (w_events w)"
  by (simp add: world_ok_def)

lemma terminal_lookup:
  "map_of (w_runs w) k = Some r \<Longrightarrow> run_terminal w k \<longleftrightarrow> r_state r \<in> set lifecycle_terminal"
  by (auto simp: run_terminal_def get_run_state_def terminal_states_def lifecycle_terminal_def)

text \<open>Both verbs end in the same step: one event under a fixed id, numbered next.\<close>

definition verb_event ::
  "world \<Rightarrow> string \<Rightarrow> string \<Rightarrow> string \<Rightarrow> payload \<Rightarrow> causation option \<Rightarrow> run_event" where
  "verb_event w i r ty p c =
     \<lparr>e_id = i, e_run_id = r, e_seq = int (length (events_of w r)) + 1, e_type = ty, e_payload = p,
      e_timestamp = Aware (w_clock w (w_ticks w)) 0, e_causation = c, e_actor = sys_actor\<rparr>"

definition verb_step ::
  "world \<Rightarrow> string \<Rightarrow> string \<Rightarrow> string \<Rightarrow> payload \<Rightarrow> causation option \<Rightarrow> (exc + run_event) \<times> world"
where
  "verb_step w i r ty p c =
     (if i \<in> e_id ` set (w_events w)
      then (Inl (IntegrityError ''run_events.id''), w\<lparr>w_ticks := Suc (w_ticks w)\<rparr>)
      else (Inr (verb_event w i r ty p c),
            w\<lparr>w_ticks := Suc (w_ticks w), w_events := w_events w @ [verb_event w i r ty p c]\<rparr>))"

definition resume_event_payload :: "world \<Rightarrow> string \<Rightarrow> string \<Rightarrow> payload" where
  "resume_event_payload w r k =
     [(''resume_kind'', PStr k), (''resumed_from_seq'', PInt (int (length (events_of w r))))]"

lemma resume_eq:
  assumes "world_ok w"
  shows "lifecycle_resume r k w =
    (if k \<notin> set valid_resume_kinds then (Inl (InvalidResumeKindError k), w)
     else case map_of (w_runs w) r of
       None \<Rightarrow> (Inl (FileNotFoundError ''run not found''), w)
     | Some q \<Rightarrow>
         if r_state q \<in> set lifecycle_terminal
         then (Inl (RunAlreadyTerminalError r (show_run_state (r_state q))), w)
         else verb_step w (''evt-'' @ r @ ''-resumed'') r ''run.resumed'' (resume_event_payload w r k)
                (action_cause k))"
  using assms terminal_lookup [of w r] world_ok_log [OF assms]
  by (auto simp: lifecycle_resume_def prog_simps ev_latest_seq_def max_seq_log_ok now_utc_def make_event_ok
      ev_append_cases Let_def verb_step_def verb_event_def resume_event_payload_def split: option.split)

lemma cancel_eq:
  assumes "world_ok w"
  shows "lifecycle_cancel r reason by0 w =
    (case map_of (w_runs w) r of
       None \<Rightarrow> (Inl (FileNotFoundError ''run not found''), w)
     | Some q \<Rightarrow>
         if r_state q \<in> set lifecycle_terminal
         then (Inl (RunAlreadyTerminalError r (show_run_state (r_state q))), w)
         else verb_step w (''evt-'' @ r @ ''-cancelled'') r ''run.cancelled''
                (dict_put_opt ''cancelled_by'' (map_option PStr by0) [(''reason'', PStr reason)])
                (action_cause ''cancel_run''))"
proof -
  have "validate_payload ''run.cancelled''
      (dict_put_opt ''cancelled_by'' (map_option PStr by0) [(''reason'', PStr reason)]) = Inr ()"
    by (simp add: keys_dict_put_opt)
  then show ?thesis
    using assms terminal_lookup [of w r] world_ok_log [OF assms]
    by (auto simp: lifecycle_cancel_def prog_simps ev_latest_seq_def max_seq_log_ok now_utc_def
        make_event_ok ev_append_cases Let_def verb_step_def verb_event_def split: option.split)
qed

lemma verb_step_success:
  assumes "verb_step w i r ty p c = (Inr e, w')"
  shows "e = verb_event w i r ty p c" "i \<in> e_id ` set (w_events w')" "w_runs w' = w_runs w"
    and "w_events w' = w_events w @ [e]" "events_of w' q = (if q = r then events_of w q @ [e] else events_of w q)"
  using assms by (auto simp: verb_step_def verb_event_def events_of_def split: if_splits)

lemma verb_step_again: "i \<in> e_id ` set (w_events w) \<Longrightarrow> verb_step w i r ty p c =
    (Inl (IntegrityError ''run_events.id''), w\<lparr>w_ticks := Suc (w_ticks w)\<rparr>)"
  by (simp add: verb_step_def)

lemma resume_success:
  assumes "world_ok w" "lifecycle_resume r k w = (Inr e, w')"
  obtains q where "map_of (w_runs w) r = Some q" "r_state q \<notin> set lifecycle_terminal"
    "k \<in> set valid_resume_kinds"
    "verb_step w (''evt-'' @ r @ ''-resumed'') r ''run.resumed'' (resume_event_payload w r k)
       (action_cause k) = (Inr e, w')"
  using assms by (auto simp: resume_eq split: option.splits if_splits)

lemma cancel_success:
  assumes "world_ok w" "lifecycle_cancel r reason by0 w = (Inr e, w')"
  obtains q where "map_of (w_runs w) r = Some q" "r_state q \<notin> set lifecycle_terminal"
    "verb_step w (''evt-'' @ r @ ''-cancelled'') r ''run.cancelled''
       (dict_put_opt ''cancelled_by'' (map_option PStr by0) [(''reason'', PStr reason)])
       (action_cause ''cancel_run'') = (Inr e, w')"
  using assms by (auto simp: cancel_eq split: option.splits if_splits)

definition resumable :: "world \<Rightarrow> string \<Rightarrow> string \<Rightarrow> bool" where
  "resumable w r k \<longleftrightarrow> k \<in> set valid_resume_kinds \<and> map_of (w_runs w) r \<noteq> None \<and>
     \<not> run_terminal w r \<and> ''evt-'' @ r @ ''-resumed'' \<notin> e_id ` set (w_events w)"

text \<open>
  C12. Resuming succeeds exactly for a known run that is not terminal, with a non-approval
  resume kind, and once per run; then one \<open>run.resumed\<close> event, recording the number it
  resumes from, is appended to the run. Every refusal leaves the tables alone. The run's row keeps
  its state in either case: RT-002's event catalog puts a resumed run in state \<open>executing\<close>, and no code
  does that.
\<close>

theorem resume_behaviour:
  assumes "world_ok w"
  shows "case lifecycle_resume r k w of
      (Inr e, w') \<Rightarrow> resumable w r k \<and> events_of w' r = events_of w r @ [e] \<and>
        e_type e = ''run.resumed'' \<and> w_runs w' = w_runs w \<and>
        map_of (e_payload e) ''resume_kind'' = Some (PStr k) \<and>
        map_of (e_payload e) ''resumed_from_seq'' = Some (PInt (int (length (events_of w r))))
    | (Inl x, w') \<Rightarrow> \<not> resumable w r k \<and> w_events w' = w_events w \<and> w_runs w' = w_runs w"
  using terminal_lookup [of w r]
  by (auto simp: resume_eq [OF assms] verb_step_def verb_event_def resumable_def events_of_def
      resume_event_payload_def split: option.split)

text \<open>
  A run is resumed at most once in its life: the event id carries no counter, so after
  one successful resume every later one fails on the primary key of the event log.
\<close>

theorem resume_at_most_once:
  assumes "world_ok w" "lifecycle_resume r k w = (Inr e, w')" "k2 \<in> set valid_resume_kinds"
  shows "fst (lifecycle_resume r k2 w') = Inl (IntegrityError ''run_events.id'')"
proof -
  obtain q where q: "map_of (w_runs w) r = Some q" "r_state q \<notin> set lifecycle_terminal" and
    v: "verb_step w (''evt-'' @ r @ ''-resumed'') r ''run.resumed'' (resume_event_payload w r k)
       (action_cause k) = (Inr e, w')"
    using resume_success [OF assms(1,2)] by blast
  have "world_ok w'" using obeysD [OF resume_keeps assms(2)] assms(1) by simp
  with q v assms(3) verb_step_success(2,3) [OF v] show ?thesis
    by (simp add: resume_eq verb_step_again)
qed

text \<open>
  Cancelling records \<open>run.cancelled\<close> but leaves the run in its state, so the log is not
  closed: a cancelled run can still be resumed, and \<open>run.resumed\<close> follows \<open>run.cancelled\<close>.
\<close>

theorem cancel_leaves_run_open:
  assumes "world_ok w" "lifecycle_cancel r reason by0 w = (Inr e, w')"
    and "k \<in> set valid_resume_kinds" "''evt-'' @ r @ ''-resumed'' \<notin> e_id ` set (w_events w')"
  shows "\<exists>e2 w2. lifecycle_resume r k w' = (Inr e2, w2) \<and>
    events_of w2 r = events_of w r @ [e, e2] \<and> e_type e = ''run.cancelled'' \<and>
    e_type e2 = ''run.resumed''"
proof -
  obtain q where q: "map_of (w_runs w) r = Some q" "r_state q \<notin> set lifecycle_terminal" and
    v: "verb_step w (''evt-'' @ r @ ''-cancelled'') r ''run.cancelled''
       (dict_put_opt ''cancelled_by'' (map_option PStr by0) [(''reason'', PStr reason)])
       (action_cause ''cancel_run'') = (Inr e, w')"
    using cancel_success [OF assms(1,2)] by blast
  have ok: "world_ok w'" using obeysD [OF cancel_keeps assms(2)] assms(1) by simp
  have ev: "events_of w' r = events_of w r @ [e]" using verb_step_success(5) [OF v, of r] by simp
  have ty: "e_type e = ''run.cancelled''"
    using verb_step_success(1) [OF v] by (simp add: verb_event_def)
  have "lifecycle_resume r k w' = verb_step w' (''evt-'' @ r @ ''-resumed'') r ''run.resumed''
      (resume_event_payload w' r k) (action_cause k)"
    using q verb_step_success(3) [OF v] assms(3) by (simp add: resume_eq [OF ok])
  with assms(4) ev ty show ?thesis by (auto simp: verb_step_def verb_event_def events_of_def)
qed

section \<open>Start\<close>

definition started_run :: "task \<Rightarrow> entrypoint \<Rightarrow> datetime \<Rightarrow> run" where
  "started_run t entry now =
     \<lparr>r_id = run_id_of t, r_instance_id = ''inst-default'', r_task_id = Some (t_id t),
      r_profile = t_session_id t, r_policy_preset = Ask,
      r_manifest_ref = ''manifest://'' @ t_id t @ ''/default'', r_entrypoint = entry,
      r_state = RCreated, r_created_at = now, r_updated_at = now, r_terminal_seq = None,
      r_manifest_hash = None\<rparr>"

lemma started_run_make:
  assumes "wf_task t" "is_aware now"
  shows "make_run (run_id_of t) ''inst-default'' (Some (t_id t)) (t_session_id t) ''ask''
      (''manifest://'' @ t_id t @ ''/default'') (show_entrypoint entry) ''created'' now now None None =
    Inr (started_run t entry now)"
proof -
  have "wf_run (started_run t entry now)"
    using assms by (simp add: wf_run_def wf_task_def started_run_def run_id_of_def clean_iff is_space_def)
  from reload_run_id [OF this] show ?thesis by (simp add: reload_run_def started_run_def)
qed

lemma started_payload: "validate_payload ''run.created'' (created_payload r) = Inr ()"
  by (simp add: created_payload_def)

text \<open>
  Starting a task that has no run yet stores a run in state \<open>created\<close> for it and opens
  its history with exactly one event, \<open>run.created\<close> with number 1; the store stays in order.
\<close>

theorem start_opens_history:
  assumes "world_ok w" "wf_task t" "map_of (w_runs w) (run_id_of t) = None"
    and "events_of w (run_id_of t) = []" "''evt-'' @ run_id_of t @ ''-created'' \<notin> e_id ` set (w_events w)"
  shows "\<exists>r w' e. lifecycle_start t (show_entrypoint entry) w = (Inr r, w') \<and> world_ok w' \<and>
    map_of (w_runs w') (run_id_of t) = Some r \<and> r_state r = RCreated \<and> r_task_id r = Some (t_id t) \<and>
    events_of w' (run_id_of t) = [e] \<and> e_type e = ''run.created'' \<and> e_seq e = 1"
proof -
  let ?now = "Aware (w_clock w (w_ticks w)) 0"
  let ?r = "started_run t entry ?now"
  let ?w1 = "w\<lparr>w_ticks := Suc (w_ticks w), w_runs := w_runs w @ [(run_id_of t, ?r)]\<rparr>"
  have rid: "r_id ?r = run_id_of t" by (simp add: started_run_def)
  have wf: "wf_run ?r" by (rule make_run_wf [OF started_run_make]) (use assms(2) in simp_all)
  have le: "w_clock w (w_ticks w) \<le> w_clock w (Suc (w_ticks w))"
    using assms(1) by (intro monoD [of "w_clock w"]) (auto simp: world_ok_def clock_ok_def)
  have cr: "run_create ?r (w\<lparr>w_ticks := Suc (w_ticks w)\<rparr>) = (Inr ?r, ?w1)"
    using assms(3) by (simp add: run_create_def rid)
  have ok1: "world_ok ?w1"
    using keeps_run_create [OF wf order_refl, of "w\<lparr>w_ticks := Suc (w_ticks w)\<rparr>"] cr le
      world_ok_tick [OF assms(1)] by (simp add: started_run_def)
  have nt: "\<not> run_terminal ?w1 (run_id_of t)"
    using assms(3) by (simp add: run_terminal_def get_run_state_def terminal_states_def started_run_def map_add_def)
  let ?e = "\<lparr>e_id = ''evt-'' @ run_id_of t @ ''-created'', e_run_id = run_id_of t, e_seq = 1,
      e_type = ''run.created'', e_payload = created_payload ?r, e_timestamp = ?now,
      e_causation = action_cause ''start_run'', e_actor = sys_actor\<rparr>"
  have ap: "ev_append ?e ?w1 = (Inr ?e, ?w1\<lparr>w_events := w_events w @ [?e]\<rparr>)"
    using world_ok_log [OF ok1] nt assms(4,5) by (simp add: ev_append_cases Let_def)
  have st: "lifecycle_start t (show_entrypoint entry) w = (Inr ?r, ?w1\<lparr>w_events := w_events w @ [?e]\<rparr>)"
    using world_ok_log [OF ok1] assms(4) ap started_run_make [OF assms(2), of ?now entry]
    by (simp add: lifecycle_start_def prog_simps now_utc_def cr
        ev_latest_seq_def max_seq_log_ok make_event_ok [OF _ _ started_payload] rid)
  have wfe: "wf_event ?e" using started_payload by (simp add: wf_event_def)
  have ok': "world_ok (?w1\<lparr>w_events := w_events w @ [?e]\<rparr>)"
    using obeysD [OF keeps_ev_append [OF wfe] ap] ok1 by simp
  show ?thesis
    by (rule exI [of _ ?r], rule exI [of _ "?w1\<lparr>w_events := w_events w @ [?e]\<rparr>"], rule exI [of _ ?e])
      (use st ok' assms(3,4) in \<open>simp add: started_run_def map_add_def events_of_def\<close>)
qed

section \<open>Crash recovery\<close>

text \<open>
  What crash recovery may do to the store: append resumptions and progress to the log of open runs of a
  set \<open>T\<close>, and nothing else.
\<close>

definition recovers :: "string set \<Rightarrow> world \<Rightarrow> world \<Rightarrow> bool" where
  "recovers T w w' \<longleftrightarrow> w_runs w' = w_runs w \<and> w_approvals w' = w_approvals w \<and> w_tasks w' = w_tasks w \<and>
     w_checkpoints w' = w_checkpoints w \<and>
     (\<exists>es. w_events w' = w_events w @ es \<and> (\<forall>e \<in> set es. e_run_id e \<in> T \<and>
        \<not> run_terminal w (e_run_id e) \<and> e_type e \<in> {''run.resumed'', ''run.progress''}))"

lemma run_terminal_runs: "w_runs w' = w_runs w \<Longrightarrow> run_terminal w' r \<longleftrightarrow> run_terminal w r"
  by (simp add: run_terminal_def get_run_state_def)

lemma recovers_trans:
  assumes "recovers T s t" "recovers T t u"
  shows "recovers T s u"
proof -
  obtain es es' where "w_events t = w_events s @ es" "w_events u = w_events t @ es'"
    "\<forall>e \<in> set es. e_run_id e \<in> T \<and> \<not> run_terminal s (e_run_id e) \<and> e_type e \<in> {''run.resumed'', ''run.progress''}"
    "\<forall>e \<in> set es'. e_run_id e \<in> T \<and> \<not> run_terminal t (e_run_id e) \<and> e_type e \<in> {''run.resumed'', ''run.progress''}"
    using assms unfolding recovers_def by blast
  moreover have "w_runs t = w_runs s" using assms(1) by (simp add: recovers_def)
  ultimately show ?thesis
    using assms run_terminal_runs [of t s] unfolding recovers_def by (intro conjI exI [of _ "es @ es'"]) auto
qed

interpretation recover: step_relation "recovers T" for T
  by (unfold_locales; (erule (1) recovers_trans)?) (simp add: recovers_def)

lemma recover_readers:
  "obeys (recovers T) now_utc" "obeys (recovers T) (run_get r)" "obeys (recovers T) (ev_latest_seq r)"
  by (simp_all add: obeys_def recovers_def now_utc_def run_get_def ev_latest_seq_def gets_def)

lemma recover_append:
  "e_run_id e \<in> T \<Longrightarrow> e_type e \<in> {''run.resumed'', ''run.progress''} \<Longrightarrow> obeys (recovers T) (ev_append e)"
  by (auto simp: obeys_def recovers_def ev_append_def Let_def run_terminal_def)

lemma make_event_fields: "make_event i r n ty p ts c a = Inr e \<Longrightarrow> e_run_id e = r \<and> e_type e = ty"
  by (auto simp: make_event_def rbind_Inr_iff)

lemmas recover_rules = recover.resp_bind recover.resp_rules recover_readers

lemma try_recover_steps: "r \<in> T \<Longrightarrow> obeys (recovers T) (try_recover r)"
  unfolding try_recover_def lifecycle_resume_def emit_resume_blocked_def
  by (intro recover_rules recover_append) (auto dest: make_event_fields)

lemma checks_read_only: "snd (recovery_checks mhash p w) = w"
  by (auto simp: recovery_checks_def prog_simps run_get_def split: option.split sum.split)

lemma recovers_mono: "recovers T w w' \<Longrightarrow> T \<subseteq> T' \<Longrightarrow> recovers T' w w'"
  by (auto simp: recovers_def)

lemma recovery_checks_open:
  assumes "world_ok w" "recovery_checks mhash p w = (Inr (Some q), w')"
  shows "map_of (w_runs w) (pr_run_id p) = Some q \<and> r_state q \<notin> set lifecycle_terminal"
  using assms
  by (auto simp: recovery_checks_def prog_simps split: option.splits if_splits sum.splits)

definition open_pending :: "world \<Rightarrow> pending_run list \<Rightarrow> string set" where
  "open_pending w ps = {r \<in> pr_run_id ` set ps. map_of (w_runs w) r \<noteq> None \<and> \<not> run_terminal w r}"

lemma rehydrate_recovers:
  assumes "world_ok w" "rehydrate_all mhash ps w = (res, w')"
  shows "recovers (open_pending w ps) w w'"
  using assms
proof (induction ps arbitrary: w res)
  case Nil
  then show ?case by (simp add: prog_simps recover.R_refl)
next
  case (Cons p ps)
  obtain ch where ch: "recovery_checks mhash p w = (ch, w)"
    using checks_read_only [of mhash p w] by (metis prod.collapse)
  have sub: "open_pending w ps \<subseteq> open_pending w (p # ps)" by (auto simp: open_pending_def)
  show ?case
  proof (cases "\<exists>ex. ch = Inr (Some ex)")
    case False
    then have "res = (case ch of Inl e \<Rightarrow> Inl e | Inr _ \<Rightarrow> fst (rehydrate_all mhash ps w)) \<and>
        (w' = w \<or> rehydrate_all mhash ps w = (res, w'))"
      using Cons.prems(2) ch by (cases ch) (auto simp: prog_simps split: option.splits)
    then show ?thesis
      using Cons.IH [OF Cons.prems(1)] recovers_mono [OF _ sub] by (metis recover.R_refl)
  next
    case True
    then obtain ex where ex: "ch = Inr (Some ex)" by blast
    note opn = recovery_checks_open [OF Cons.prems(1) ch [unfolded ex]]
    then have "pr_run_id p \<in> open_pending w (p # ps)"
      using terminal_lookup [of w] by (auto simp: open_pending_def)
    then have T: "obeys (recovers (open_pending w (p # ps))) (try_recover (pr_run_id p))"
      by (rule try_recover_steps)
    obtain ok w2 where t: "try_recover (pr_run_id p) w = (ok, w2)" by fastforce
    have r2: "recovers (open_pending w (p # ps)) w w2" by (rule obeysD [OF T t])
    have ok2: "world_ok w2" using obeysD [OF try_recover_keeps t] Cons.prems(1) by simp
    have "w_runs w2 = w_runs w" using r2 by (simp add: recovers_def)
    then have same: "open_pending w2 ps = open_pending w ps"
      using run_terminal_runs [of w2 w] by (simp add: open_pending_def)
    have "w' = w2 \<or> (\<exists>res'. rehydrate_all mhash ps w2 = (res', w'))"
      using Cons.prems(2) ch ex t by (auto simp: prog_simps split: prod.splits sum.splits)
    then show ?thesis
      using r2 Cons.IH [OF ok2] recovers_mono [OF _ sub] recovers_trans unfolding same by metis
  qed
qed

lemma rehydrate_open:
  assumes "world_ok w" "rehydrate_all mhash ps w = (Inr rs, w')" "q \<in> set rs"
  shows "r_id q \<in> open_pending w ps \<and> map_of (w_runs w) (r_id q) = Some q"
  using assms
proof (induction ps arbitrary: w rs)
  case Nil
  then show ?case by (simp add: prog_simps)
next
  case (Cons p ps)
  from Cons.prems(2) obtain ch where ch: "recovery_checks mhash p w = (Inr ch, w)"
    using checks_read_only [of mhash p w] by (auto simp: bind_Inr_iff)
  have sub: "open_pending w ps \<subseteq> open_pending w (p # ps)" by (auto simp: open_pending_def)
  show ?case
  proof (cases ch)
    case None
    with Cons.prems(2) ch have "rehydrate_all mhash ps w = (Inr rs, w')" by (simp add: prog_simps)
    from Cons.IH [OF Cons.prems(1) this Cons.prems(3)] sub show ?thesis by auto
  next
    case (Some ex)
    with Cons.prems(2) ch obtain ok w2 rest where t: "try_recover (pr_run_id p) w = (Inr ok, w2)"
      and rest: "rehydrate_all mhash ps w2 = (Inr rest, w')" "rs = (if ok then ex # rest else rest)"
      by (auto simp: bind_Inr_iff prog_simps split: prod.splits sum.splits)
    have ok2: "world_ok w2" using obeysD [OF try_recover_keeps t] Cons.prems(1) by simp
    have runs2: "w_runs w2 = w_runs w"
      using obeysD [OF try_recover_steps [of "pr_run_id p" UNIV] t] by (simp add: recovers_def)
    have ex: "map_of (w_runs w) (pr_run_id p) = Some ex" "r_state ex \<notin> set lifecycle_terminal"
      using recovery_checks_open [OF Cons.prems(1), of mhash p ex w] ch Some by simp_all
    show ?thesis
    proof (cases "q = ex \<and> ok")
      case True
      with ex world_okD(1) [OF Cons.prems(1) ex(1)] terminal_lookup [OF ex(1)] show ?thesis
        by (auto simp: open_pending_def)
    next
      case False
      then have "q \<in> set rest" using rest(2) Cons.prems(3) by (auto split: if_splits)
      from Cons.IH [OF ok2 rest(1) this] runs2 run_terminal_runs [OF runs2] show ?thesis
        by (auto simp: open_pending_def)
    qed
  qed
qed

text \<open>
  C24. Recovery after a crash touches open pending runs only, also when it stops with an exception half
  way: it leaves the run, approval, task and checkpoint tables as they are, keeps every event, and what
  it appends to the log are resumptions and progress of runs that are pending, known and not terminal;
  the history of every other run is unchanged. The runs it returns are open pending ones, with their
  rows, and the store stays in order.
\<close>

theorem rehydrate_touches_open_runs_only:
  assumes "world_ok w"
  shows "case rehydrate_all mhash ps w of (res, w') \<Rightarrow>
    world_ok w' \<and> w_runs w' = w_runs w \<and> w_approvals w' = w_approvals w \<and> w_tasks w' = w_tasks w \<and>
    w_checkpoints w' = w_checkpoints w \<and>
    (\<exists>es. w_events w' = w_events w @ es \<and> (\<forall>e \<in> set es. e_run_id e \<in> pr_run_id ` set ps \<and>
       map_of (w_runs w) (e_run_id e) \<noteq> None \<and> \<not> run_terminal w (e_run_id e) \<and>
       e_type e \<in> {''run.resumed'', ''run.progress''})) \<and>
    (\<forall>r. r \<notin> pr_run_id ` set ps \<or> map_of (w_runs w) r = None \<or> run_terminal w r \<longrightarrow>
       events_of w' r = events_of w r) \<and>
    (\<forall>rs. res = Inr rs \<longrightarrow> (\<forall>q \<in> set rs. r_id q \<in> pr_run_id ` set ps \<and>
       map_of (w_runs w) (r_id q) = Some q \<and> \<not> run_terminal w (r_id q)))"
proof -
  obtain res w' where r: "rehydrate_all mhash ps w = (res, w')" by fastforce
  note rec = rehydrate_recovers [OF assms r]
  then obtain es where es: "w_events w' = w_events w @ es" "\<forall>e \<in> set es. e_run_id e \<in> open_pending w ps \<and>
      \<not> run_terminal w (e_run_id e) \<and> e_type e \<in> {''run.resumed'', ''run.progress''}"
    unfolding recovers_def by blast
  have "events_of w' k = events_of w k" if "k \<notin> open_pending w ps" for k
    using es that by (auto simp: events_of_def filter_empty_conv)
  moreover have "world_ok w'" using obeysD [OF rehydrate_keeps r] assms by simp
  moreover have "\<forall>rs. res = Inr rs \<longrightarrow> (\<forall>q \<in> set rs. r_id q \<in> open_pending w ps \<and> map_of (w_runs w) (r_id q) = Some q)"
    using rehydrate_open [OF assms, of mhash ps _ w'] r by blast
  ultimately show ?thesis
    using rec es unfolding r recovers_def open_pending_def by auto
qed

lemma blocked_eq:
  assumes "world_ok w" "\<not> run_terminal w r"
  shows "emit_resume_blocked r reason w =
    (case verb_step w (''evt-'' @ r @ ''-resume-blocked'') r ''run.progress''
        [(''phase'', PStr ''execute''), (''milestone'', PStr ''resume_blocked'')]
        (action_cause ''resume_blocked'') of
       (Inl x, w') \<Rightarrow> (Inl x, w') | (Inr _, w') \<Rightarrow> (Inr (), w'))"
  using assms world_ok_log [OF assms(1)]
  by (auto simp: emit_resume_blocked_def prog_simps ev_latest_seq_def max_seq_log_ok now_utc_def
      make_event_ok ev_append_cases Let_def verb_step_def verb_event_def)

lemma recover_eq:
  assumes "world_ok w" "map_of (w_runs w) r = Some q" "r_state q \<notin> set lifecycle_terminal"
    and "\<not> run_terminal w r"
  shows "rehydrate_all mhash [\<lparr>pr_run_id = r, pr_manifest_hash = None, pr_checkpoint_run_id = None\<rparr>] w =
    (case verb_step w (''evt-'' @ r @ ''-resumed'') r ''run.resumed''
        (resume_event_payload w r ''worker_recovery'') (action_cause ''worker_recovery'') of
       (Inr _, w') \<Rightarrow> (Inr [q], w')
     | (Inl _, w') \<Rightarrow>
        (case verb_step w' (''evt-'' @ r @ ''-resume-blocked'') r ''run.progress''
            [(''phase'', PStr ''execute''), (''milestone'', PStr ''resume_blocked'')]
            (action_cause ''resume_blocked'') of
           (Inl x, w'') \<Rightarrow> (Inl x, w'') | (Inr _, w'') \<Rightarrow> (Inr [], w'')))"
proof -
  have "world_ok (w\<lparr>w_ticks := Suc (w_ticks w)\<rparr>)" using assms(1) by (rule world_ok_tick)
  from blocked_eq [OF this, of r] assms show ?thesis
    by (simp add: recovery_checks_def prog_simps try_recover_def resume_eq valid_resume_kinds_def
        verb_step_def split: option.split)
qed

text \<open>
  Restarts wear a run out: the first restart recovers an open pending run, the second
  records it as blocked because its one resume event exists already, and the third fails
  altogether, on the equally fixed id of the blocked event, so nothing is recovered any more.
\<close>

theorem third_restart_fails:
  assumes "world_ok w" "map_of (w_runs w) r = Some q" "\<not> run_terminal w r"
    and "''evt-'' @ r @ ''-resumed'' \<notin> e_id ` set (w_events w)"
    and "''evt-'' @ r @ ''-resume-blocked'' \<notin> e_id ` set (w_events w)"
    and p: "p = \<lparr>pr_run_id = r, pr_manifest_hash = None, pr_checkpoint_run_id = None\<rparr>"
  shows "\<exists>w1 w2 w3. rehydrate_all mhash [p] w = (Inr [q], w1) \<and>
    rehydrate_all mhash [p] w1 = (Inr [], w2) \<and>
    rehydrate_all mhash [p] w2 = (Inl (IntegrityError ''run_events.id''), w3)"
proof -
  have open_state: "r_state q \<notin> set lifecycle_terminal" using assms(2,3) terminal_lookup by blast
  let ?tick = "\<lambda>w. w\<lparr>w_ticks := Suc (w_ticks w)\<rparr>"
  define e1 where "e1 = verb_event w (''evt-'' @ r @ ''-resumed'') r ''run.resumed''
      (resume_event_payload w r ''worker_recovery'') (action_cause ''worker_recovery'')"
  define w1 where "w1 = ?tick w\<lparr>w_events := w_events w @ [e1]\<rparr>"
  have id1: "e_id e1 = ''evt-'' @ r @ ''-resumed''" by (simp add: e1_def verb_event_def)
  have first: "rehydrate_all mhash [p] w = (Inr [q], w1)"
    using assms(4) recover_eq [OF assms(1,2) open_state assms(3)] by (simp add: p verb_step_def w1_def e1_def del: rehydrate_all.simps)
  have ok1: "world_ok w1" using obeysD [OF rehydrate_keeps first] assms(1) by simp
  have q1: "map_of (w_runs w1) r = Some q" "\<not> run_terminal w1 r" using assms(2,3) by (simp_all add: w1_def)
  define e2 where "e2 = verb_event (?tick w1) (''evt-'' @ r @ ''-resume-blocked'') r ''run.progress''
      [(''phase'', PStr ''execute''), (''milestone'', PStr ''resume_blocked'')]
      (action_cause ''resume_blocked'')"
  define w2 where "w2 = ?tick (?tick w1)\<lparr>w_events := w_events w1 @ [e2]\<rparr>"
  have id2: "e_id e2 = ''evt-'' @ r @ ''-resume-blocked''" by (simp add: e2_def verb_event_def)
  have second: "rehydrate_all mhash [p] w1 = (Inr [], w2)"
    using assms(5) recover_eq [OF ok1 q1(1) open_state q1(2)] id1
    by (simp add: p verb_step_def w2_def e2_def w1_def del: rehydrate_all.simps)
  have ok2: "world_ok w2" using obeysD [OF rehydrate_keeps second] ok1 by simp
  have "map_of (w_runs w2) r = Some q" "\<not> run_terminal w2 r" using q1 by (simp_all add: w2_def)
  with recover_eq [OF ok2 this(1) open_state this(2)] id1 id2
  have "fst (rehydrate_all mhash [p] w2) = Inl (IntegrityError ''run_events.id'')"
    by (simp add: p verb_step_def w2_def w1_def del: rehydrate_all.simps)
  with first second show ?thesis by (metis prod.collapse)
qed

section \<open>Starting keeps the store in order\<close>

lemma make_run_created: "make_run i inst t p pre m e s c u ts mh = Inr r \<Longrightarrow> r_created_at r = c"
  by (auto simp: make_run_def rbind_Inr_iff require_aware_Inr_iff)

lemma start_keeps: "world_ok w \<Longrightarrow> world_ok (snd (lifecycle_start t entry w))"
proof -
  assume ok: "world_ok w"
  let ?now = "Aware (w_clock w (w_ticks w)) 0"
  let ?w1 = "w\<lparr>w_ticks := Suc (w_ticks w)\<rparr>"
  have ok1: "world_ok ?w1" using ok by (rule world_ok_tick)
  have le: "instant ?now \<le> w_clock ?w1 (w_ticks ?w1)"
    using ok monoD [of "w_clock w" "w_ticks w" "Suc (w_ticks w)"] by (auto simp: world_ok_def clock_ok_def)
  let ?mk = "make_run (run_id_of t) ''inst-default'' (Some (t_id t)) (t_session_id t) ''ask''
      (''manifest://'' @ t_id t @ ''/default'') entry ''created'' ?now ?now None None"
  define tail where "tail r = bind (ev_latest_seq (r_id r)) (\<lambda>last_seq.
     andthen (require (last_seq = 0) (AssertionError ''Expected seq=0 for new run''))
     (bind (lift (make_event (''evt-'' @ r_id r @ ''-created'') (r_id r) 1 ''run.created''
            (created_payload r) ?now (action_cause ''start_run'') sys_actor)) (\<lambda>event.
     andthen (ev_append event) (ret r))))" for r :: run
  have tail: "keeps world_ok (tail r)" for r
    unfolding tail_def by (intro keep.resp_bind keep.resp_rules keeps_world) (auto dest: make_event_wf)
  have eq: "lifecycle_start t entry w = bind (lift ?mk) (\<lambda>r. bind (run_create r) tail) ?w1"
    by (simp add: lifecycle_start_def tail_def [abs_def] bind_def [of now_utc] now_utc_def)
  show ?thesis
  proof (cases ?mk)
    case (Inl x)
    then show ?thesis unfolding eq using ok1 by (simp add: prog_simps)
  next
    case (Inr r)
    have "world_ok (snd (run_create r ?w1))"
      using keeps_run_create [OF make_run_wf [OF Inr] order_refl ok1] le make_run_created [OF Inr] by simp
    then show ?thesis unfolding eq using Inr tail
      by (auto simp: prog_simps obeys_def split: prod.split sum.split)
  qed
qed

section \<open>Witnesses\<close>

definition demo_task :: task where
  "demo_task = \<lparr>t_id = ''t1'', t_session_id = ''s1'', t_title = ''Tidy'', t_objective = ''Tidy up'',
     t_state = TDraft, t_created_at = Aware 0 0, t_updated_at = Aware 0 0\<rparr>"

definition started_world :: world where
  "started_world = snd (lifecycle_start demo_task ''api'' fresh_world)"

lemma started_world_ok: "world_ok started_world"
  unfolding started_world_def by (rule start_keeps [OF fresh_world_ok])

lemma started_world_runs:
  "map_of (w_runs started_world) ''run-t1'' = Some (started_run demo_task Api (Aware 0 0))"
  "\<not> run_terminal started_world ''run-t1''" "map e_id (w_events started_world) = [''evt-run-t1-created'']"
  by code_simp+

theorem start_opens_history_witness:
  "\<exists>r w' e. lifecycle_start demo_task ''api'' fresh_world = (Inr r, w') \<and> r_state r = RCreated \<and>
     events_of w' ''run-t1'' = [e] \<and> e_type e = ''run.created''"
proof -
  have "wf_task demo_task" "map_of (w_runs fresh_world) (run_id_of demo_task) = None"
    "events_of fresh_world (run_id_of demo_task) = []"
    "''evt-'' @ run_id_of demo_task @ ''-created'' \<notin> e_id ` set (w_events fresh_world)"
    and id: "run_id_of demo_task = ''run-t1''"
    by code_simp+
  from start_opens_history [OF fresh_world_ok this(1-4), of Api] show ?thesis by (auto simp: id)
qed

theorem resume_behaviour_witness:
  "case lifecycle_resume ''run-t1'' ''approval_granted'' started_world of
     (Inr _, _) \<Rightarrow> False | (Inl _, w') \<Rightarrow> w_events w' = w_events started_world"
  using resume_behaviour [OF started_world_ok, of "''run-t1''" "''approval_granted''"]
  by (auto simp: resumable_def valid_resume_kinds_def split: prod.splits sum.splits)

theorem resume_at_most_once_witness:
  "fst (lifecycle_resume ''run-t1'' ''operator_resume''
     (snd (lifecycle_resume ''run-t1'' ''scheduler_wakeup'' started_world))) =
   Inl (IntegrityError ''run_events.id'')"
proof -
  obtain e w' where r: "lifecycle_resume ''run-t1'' ''scheduler_wakeup'' started_world = (Inr e, w')"
    using started_world_runs
    by (simp add: resume_eq [OF started_world_ok] valid_resume_kinds_def verb_step_def
        lifecycle_terminal_def started_run_def image_set flip: set_map)
  from resume_at_most_once [OF started_world_ok r, of "''operator_resume''"] r show ?thesis
    by (simp add: valid_resume_kinds_def)
qed

definition cancelled_world :: world where
  "cancelled_world = snd (lifecycle_cancel ''run-t1'' ''stop'' None started_world)"

lemma started_cancel:
  "isl (fst (lifecycle_cancel ''run-t1'' ''stop'' None started_world)) = False"
  "''evt-run-t1-resumed'' \<notin> e_id ` set (w_events cancelled_world)"
  "map e_type (events_of started_world ''run-t1'') = [''run.created'']"
  by code_simp+

theorem cancel_leaves_run_open_witness:
  "\<exists>e2 w2. lifecycle_resume ''run-t1'' ''operator_resume'' cancelled_world = (Inr e2, w2) \<and>
    map e_type (events_of w2 ''run-t1'') = [''run.created'', ''run.cancelled'', ''run.resumed'']"
proof -
  obtain e where c: "lifecycle_cancel ''run-t1'' ''stop'' None started_world = (Inr e, cancelled_world)"
    using started_cancel(1) unfolding cancelled_world_def
    by (cases "lifecycle_cancel ''run-t1'' ''stop'' None started_world"; cases "fst (lifecycle_cancel ''run-t1'' ''stop'' None started_world)") auto
  have k: "''operator_resume'' \<in> set valid_resume_kinds" by (simp add: valid_resume_kinds_def)
  have f: "''evt-'' @ ''run-t1'' @ ''-resumed'' \<notin> e_id ` set (w_events cancelled_world)"
    using started_cancel(2) by simp
  from cancel_leaves_run_open [OF started_world_ok c k f] obtain e2 w2 where
    "lifecycle_resume ''run-t1'' ''operator_resume'' cancelled_world = (Inr e2, w2)"
    "events_of w2 ''run-t1'' = events_of started_world ''run-t1'' @ [e, e2]"
    "e_type e = ''run.cancelled''" "e_type e2 = ''run.resumed''" by blast
  then show ?thesis using started_cancel(3) by simp
qed

theorem rehydrate_touches_open_runs_only_witness:
  "case rehydrate_all (\<lambda>_. Inr ''h'')
     [\<lparr>pr_run_id = ''run-t1'', pr_manifest_hash = Some ''h'', pr_checkpoint_run_id = None\<rparr>] started_world of
   (res, w') \<Rightarrow> world_ok w' \<and> w_runs w' = w_runs started_world \<and>
     events_of w' ''run-t2'' = events_of started_world ''run-t2''"
  using rehydrate_touches_open_runs_only [OF started_world_ok, where mhash = "\<lambda>_. Inr ''h''" and
    ps = "[\<lparr>pr_run_id = ''run-t1'', pr_manifest_hash = Some ''h'', pr_checkpoint_run_id = None\<rparr>]"]
  by (auto simp del: rehydrate_all.simps split: prod.splits)

theorem third_restart_fails_witness:
  "\<exists>p w1 w2 w3. rehydrate_all (\<lambda>_. Inr ''h'') [p] started_world =
      (Inr [started_run demo_task Api (Aware 0 0)], w1) \<and>
    rehydrate_all (\<lambda>_. Inr ''h'') [p] w1 = (Inr [], w2) \<and>
    rehydrate_all (\<lambda>_. Inr ''h'') [p] w2 = (Inl (IntegrityError ''run_events.id''), w3)"
proof -
  have ids: "e_id ` set (w_events started_world) = {''evt-run-t1-created''}"
    using arg_cong [where f = set, OF started_world_runs(3)] by simp
  have "''evt-'' @ ''run-t1'' @ ''-resumed'' \<notin> e_id ` set (w_events started_world)"
    "''evt-'' @ ''run-t1'' @ ''-resume-blocked'' \<notin> e_id ` set (w_events started_world)"
    by (simp_all add: ids)
  from third_restart_fails [OF started_world_ok started_world_runs(1,2) this refl, of "\<lambda>_. Inr ''h''"]
  show ?thesis by blast
qed

end
