(* ===== verification/Orchestration.thy ===== *)
theory Orchestration
  imports Lifecycle
begin

text \<open>
  services/orchestration/service.py: the pipeline that drives a created run through intake,
  plan, execute, review and handoff as progress milestones, then writes the usage-summary
  artifact and \<open>run.completed\<close>. The theorems give the exact history a pipeline run leaves
  and show that nothing can follow it.
\<close>

section \<open>Helpers of the service\<close>

abbreviation caused_by_action :: "string \<Rightarrow> causation option" where
  "caused_by_action action \<equiv> Some \<lparr>c_event_id = None, c_action = Some action, c_request_id = None\<rparr>"

abbreviation by_system :: "actor option" where
  "by_system \<equiv> Some \<lparr>a_kind = System, a_id = None, a_display = None\<rparr>"

definition valid_run_states :: "run_state list" where
  "valid_run_states =
     [RCreated, RPlanning, RExecuting, RWaitingApproval, RCompleted, RFailed, RCancelled]"

definition is_terminal_run :: "run \<Rightarrow> bool" where
  "is_terminal_run r \<longleftrightarrow> r_state r \<in> set valid_run_states \<and> r_state r \<in> {RCompleted, RFailed, RCancelled}"

definition emit_progress :: "run \<Rightarrow> string \<Rightarrow> string \<Rightarrow> datetime \<Rightarrow> (world, unit) prog" where
  "emit_progress r phase milestone timestamp =
     andthen (require (is_valid_milestone phase milestone)
       (ValueError ''progress event is not in the milestone catalog''))
     (andthen (require (\<not> is_terminal_run r)
       (RuntimeError ''attempted to emit progress after run reached terminal state''))
     (andthen (emit_event (''evt-'' @ r_id r @ ''-'' @ phase @ ''-'' @ milestone) (r_id r)
        ''run.progress'' [(''phase'', PStr phase), (''milestone'', PStr milestone)] timestamp
        (caused_by_action (phase @ ''.'' @ milestone)) by_system)
      (ret ())))"

definition emit_completed :: "run \<Rightarrow> datetime \<Rightarrow> (world, unit) prog" where
  "emit_completed r timestamp =
     andthen (emit_event (''evt-'' @ r_id r @ ''-completed'') (r_id r) ''run.completed''
        [(''outcome'', PStr ''success'')] timestamp (caused_by_action ''terminal_completion'') by_system)
      (ret ())"

definition emit_usage_summary_artifact :: "run \<Rightarrow> datetime \<Rightarrow> (world, unit) prog" where
  "emit_usage_summary_artifact r timestamp =
     andthen (emit_event (''evt-'' @ r_id r @ ''-usage-summary'') (r_id r) ''run.artifact_created''
        [(''artifact_ref'', PStr (summary_artifact_ref (r_id r))),
         (''artifact_kind'', PStr ''usage-summary''), (''label'', PStr ''usage-summary'')]
        timestamp (caused_by_action ''terminal_usage_summary'') by_system)
      (ret ())"

definition update_state :: "run \<Rightarrow> run_state \<Rightarrow> (world, run) prog" where
  "update_state r new_state =
     andthen (require (new_state \<in> set valid_run_states)
       (AssertionError ''State is not in the 7 RT-002 run states''))
     (run_update_state (r_id r) new_state None)"

section \<open>The phases\<close>

definition do_intake :: "run \<Rightarrow> (world, run) prog" where
  "do_intake r = bind now_utc (\<lambda>now.
     andthen (emit_progress r ''intake'' ''received'' now)
     (andthen (emit_progress r ''intake'' ''accepted'' now)
     (update_state r RPlanning)))"

definition do_plan :: "run \<Rightarrow> (world, run) prog" where
  "do_plan r = bind now_utc (\<lambda>now.
     andthen (emit_progress r ''plan'' ''drafted'' now)
     (andthen (emit_progress r ''plan'' ''approval_requested'' now)
     (andthen (emit_progress r ''plan'' ''ready'' now)
     (update_state r RPlanning))))"

definition do_execute :: "run \<Rightarrow> (world, run) prog" where
  "do_execute r = bind now_utc (\<lambda>now.
     andthen (emit_progress r ''execute'' ''tool_invoked'' now)
     (andthen (emit_progress r ''execute'' ''artifact_emitted'' now)
     (andthen (emit_progress r ''execute'' ''waiting_approval'' now)
     (update_state r RExecuting))))"

definition do_review :: "run \<Rightarrow> (world, run) prog" where
  "do_review r = bind now_utc (\<lambda>now.
     andthen (emit_progress r ''review'' ''findings_recorded'' now)
     (update_state r RPlanning))"

definition do_handoff :: "run \<Rightarrow> (world, run) prog" where
  "do_handoff r = bind now_utc (\<lambda>now.
     andthen (emit_progress r ''handoff'' ''envelope_emitted'' now)
     (andthen (emit_usage_summary_artifact r now)
     (andthen (emit_completed r now)
     (update_state r RCompleted))))"

definition orchestrate :: "run \<Rightarrow> (world, run) prog" where
  "orchestrate r =
     andthen (require (r_state r = RCreated)
       (ValueError ''run must be in 'created' state to start orchestration''))
     (andthen (require (r_state r \<in> set valid_run_states)
       (AssertionError ''State is not in the 7 RT-002 run states''))
     (bind (do_intake r) (\<lambda>r1. bind (do_plan r1) (\<lambda>r2. bind (do_execute r2) (\<lambda>r3.
      bind (do_review r3) (\<lambda>r4. do_handoff r4))))))"

section \<open>The history a pipeline run writes\<close>

type_synonym trace = "(string \<times> string \<times> payload) list"

definition trace_of :: "run_event list \<Rightarrow> trace" where
  "trace_of es = map (\<lambda>e. (e_id e, e_type e, e_payload e)) es"

abbreviation milestone_entry :: "string \<Rightarrow> string \<Rightarrow> string \<Rightarrow> string \<times> string \<times> payload" where
  "milestone_entry rid ph m \<equiv> (''evt-'' @ rid @ ''-'' @ ph @ ''-'' @ m, ''run.progress'',
     [(''phase'', PStr ph), (''milestone'', PStr m)])"

text \<open>The specification: ten milestones in catalog order, the artifact, the completion.\<close>

definition pipeline_trace :: "string \<Rightarrow> trace" where
  "pipeline_trace rid =
     [milestone_entry rid ''intake'' ''received'', milestone_entry rid ''intake'' ''accepted'',
      milestone_entry rid ''plan'' ''drafted'', milestone_entry rid ''plan'' ''approval_requested'',
      milestone_entry rid ''plan'' ''ready'', milestone_entry rid ''execute'' ''tool_invoked'',
      milestone_entry rid ''execute'' ''artifact_emitted'',
      milestone_entry rid ''execute'' ''waiting_approval'',
      milestone_entry rid ''review'' ''findings_recorded'',
      milestone_entry rid ''handoff'' ''envelope_emitted'',
      (''evt-'' @ rid @ ''-usage-summary'', ''run.artifact_created'',
        [(''artifact_ref'', PStr (summary_artifact_ref rid)),
         (''artifact_kind'', PStr ''usage-summary''), (''label'', PStr ''usage-summary'')]),
      (''evt-'' @ rid @ ''-completed'', ''run.completed'', [(''outcome'', PStr ''success'')])]"

text \<open>Where the pipeline is: the run's record and what it has appended to the log so far.\<close>

definition at_trace :: "world \<Rightarrow> run \<Rightarrow> trace \<Rightarrow> world \<Rightarrow> bool" where
  "at_trace w0 r tr w \<longleftrightarrow> world_ok w \<and> map_of (w_runs w) (r_id r) = Some r \<and>
     (\<exists>es. w_events w = w_events w0 @ es \<and> (\<forall>e \<in> set es. e_run_id e = r_id r) \<and> trace_of es = tr)"

definition unused_id :: "world \<Rightarrow> trace \<Rightarrow> string \<Rightarrow> bool" where
  "unused_id w0 tr i \<longleftrightarrow> i \<notin> e_id ` set (w_events w0) \<and> i \<notin> fst ` set tr"

lemma at_trace_now: "returns (at_trace w0 r tr) now_utc (\<lambda>now w. is_aware now \<and> at_trace w0 r tr w)"
  by (auto simp: returns_def now_utc_def at_trace_def world_ok_tick)

lemma at_trace_event:
  assumes "unused_id w0 tr i" "r_state r \<notin> set terminal_states" "is_aware ts"
    and "validate_payload ty p = Inr ()"
  shows "returns (at_trace w0 r tr) (emit_event i (r_id r) ty p ts c a)
    (\<lambda>_. at_trace w0 r (tr @ [(i, ty, p)]))"
  unfolding returns_def
proof (intro allI impI)
  fix w assume at: "at_trace w0 r tr w"
  then obtain es where es: "w_events w = w_events w0 @ es" "\<forall>e \<in> set es. e_run_id e = r_id r"
    "trace_of es = tr" and ok: "world_ok w" and run: "map_of (w_runs w) (r_id r) = Some r"
    by (auto simp: at_trace_def)
  have log: "log_ok (w_events w)" using ok by (simp add: world_ok_def)
  have "\<not> run_terminal w (r_id r)" using run assms(2) by (auto simp: run_terminal_def get_run_state_def)
  moreover have "i \<notin> e_id ` set (w_events w)"
    using assms(1) es(1) es(3) by (force simp: unused_id_def trace_of_def)
  ultimately obtain e where e: "emit_event i (r_id r) ty p ts c a w = (Inr e, w\<lparr>w_events := w_events w @ [e]\<rparr>)"
    and f: "e_id e = i" "e_run_id e = r_id r" "e_type e = ty" "e_payload e = p"
    by (simp add: emit_event_ok [OF log assms(3,4)] Let_def)
  have "world_ok (w\<lparr>w_events := w_events w @ [e]\<rparr>)" using obeysD [OF keeps_emit e] ok by simp
  then have "at_trace w0 r (tr @ [(i, ty, p)]) (w\<lparr>w_events := w_events w @ [e]\<rparr>)"
    using es run f unfolding at_trace_def by (auto simp: trace_of_def intro!: exI [of _ "es @ [e]"])
  with e show "\<exists>x t. emit_event i (r_id r) ty p ts c a w = (Inr x, t) \<and> at_trace w0 r (tr @ [(i, ty, p)]) t"
    by blast
qed

lemma at_trace_progress:
  assumes "unused_id w0 tr (''evt-'' @ r_id r @ ''-'' @ ph @ ''-'' @ m)"
    and "r_state r \<notin> set terminal_states" "is_aware ts" "is_valid_milestone ph m"
  shows "returns (at_trace w0 r tr) (emit_progress r ph m ts)
    (\<lambda>_. at_trace w0 r (tr @ [milestone_entry (r_id r) ph m]))"
  unfolding emit_progress_def
  apply (rule returns_require_then, simp add: assms(4))
  apply (rule returns_require_then)
  using assms(2) apply (simp add: is_terminal_run_def terminal_states_def)
  by (rule returns_andthen [OF at_trace_event returns_ret]) (use assms in simp_all)

lemma at_trace_update:
  "returns (at_trace w0 r tr) (update_state r s)
    (\<lambda>r' w. r_id r' = r_id r \<and> r_state r' = s \<and> at_trace w0 r' tr w)"
  unfolding returns_def
proof (intro allI impI)
  fix w assume at: "at_trace w0 r tr w"
  then have ok: "world_ok w" and run: "map_of (w_runs w) (r_id r) = Some r" by (auto simp: at_trace_def)
  let ?r = "r\<lparr>r_state := s, r_updated_at := Aware (w_clock w (w_ticks w)) 0, r_terminal_seq := None\<rparr>"
  let ?w = "w\<lparr>w_ticks := Suc (w_ticks w), w_runs := AList.update (r_id r) ?r (w_runs w)\<rparr>"
  note new = world_ok_update_state [OF ok run, where n = None and s = s]
  have "s \<in> set valid_run_states" by (cases s) (simp_all add: valid_run_states_def)
  then have "update_state r s w = (Inr ?r, ?w)"
    using run_update_state_ok [OF ok run refl, of s None] reload_run_id [OF new(1)]
    by (simp add: update_state_def prog_simps)
  moreover have "at_trace w0 ?r tr ?w" using at new(2) by (auto simp: at_trace_def update_conv')
  ultimately show "\<exists>x t. update_state r s w = (Inr x, t) \<and> r_id x = r_id r \<and> r_state x = s \<and> at_trace w0 x tr t"
    by force
qed

lemma at_trace_artifact:
  assumes "unused_id w0 tr (''evt-'' @ r_id r @ ''-usage-summary'')"
    and "r_state r \<notin> set terminal_states" "is_aware ts"
  shows "returns (at_trace w0 r tr) (emit_usage_summary_artifact r ts) (\<lambda>_. at_trace w0 r
     (tr @ [(''evt-'' @ r_id r @ ''-usage-summary'', ''run.artifact_created'',
        [(''artifact_ref'', PStr (summary_artifact_ref (r_id r))),
         (''artifact_kind'', PStr ''usage-summary''), (''label'', PStr ''usage-summary'')])]))"
  unfolding emit_usage_summary_artifact_def
  by (rule returns_andthen [OF at_trace_event returns_ret]) (use assms in simp_all)

lemma at_trace_completed:
  assumes "unused_id w0 tr (''evt-'' @ r_id r @ ''-completed'')"
    and "r_state r \<notin> set terminal_states" "is_aware ts"
  shows "returns (at_trace w0 r tr) (emit_completed r ts) (\<lambda>_. at_trace w0 r
     (tr @ [(''evt-'' @ r_id r @ ''-completed'', ''run.completed'', [(''outcome'', PStr ''success'')])]))"
  unfolding emit_completed_def
  by (rule returns_andthen [OF at_trace_event returns_ret]) (use assms in simp_all)

lemma at_trace_clock:
  assumes "\<And>now. is_aware now \<Longrightarrow> returns (at_trace w0 r tr) (f now) Q"
  shows "returns (at_trace w0 r tr) (bind now_utc f) Q"
  by (rule returns_bind [OF at_trace_now]) (rule returns_assume [OF assms])

text \<open>The ids the pipeline uses, and that none of them is in the log when it starts.\<close>

definition pipeline_ids_free :: "world \<Rightarrow> string \<Rightarrow> bool" where
  "pipeline_ids_free w rid \<longleftrightarrow> fst ` set (pipeline_trace rid) \<inter> e_id ` set (w_events w) = {}"

definition after_phase :: "world \<Rightarrow> string \<Rightarrow> run_state \<Rightarrow> nat \<Rightarrow> run \<Rightarrow> world \<Rightarrow> bool" where
  "after_phase w0 rid s n r w \<longleftrightarrow> r_id r = rid \<and> r_state r = s \<and> at_trace w0 r (take n (pipeline_trace rid)) w"

lemma free_step:
  assumes "pipeline_ids_free w0 rid" "n < length (pipeline_trace rid)"
  shows "unused_id w0 (take n (pipeline_trace rid)) (fst (pipeline_trace rid ! n))"
proof -
  have d: "distinct (map fst (pipeline_trace rid))" by (simp add: pipeline_trace_def)
  have "fst (pipeline_trace rid ! n) \<notin> fst ` set (take n (pipeline_trace rid))"
  proof
    assume "fst (pipeline_trace rid ! n) \<in> fst ` set (take n (pipeline_trace rid))"
    then obtain i where "i < n" "fst (pipeline_trace rid ! i) = fst (pipeline_trace rid ! n)"
      using assms(2) by (auto simp: in_set_conv_nth)
    then show False using d assms(2) by (auto simp: distinct_conv_nth)
  qed
  moreover have "pipeline_trace rid ! n \<in> set (pipeline_trace rid)" using assms(2) by simp
  ultimately show ?thesis using assms(1) by (auto simp: unused_id_def pipeline_ids_free_def)
qed

lemma trace_step:
  "pipeline_trace rid ! n = x \<Longrightarrow> n < length (pipeline_trace rid) \<Longrightarrow>
   take n (pipeline_trace rid) @ [x] = take (Suc n) (pipeline_trace rid)"
  by (auto simp: take_Suc_conv_app_nth)

lemma pipeline_length [simp]: "length (pipeline_trace rid) = 12"
  by (simp add: pipeline_trace_def)

text \<open>One milestone moves the run one entry down the script.\<close>

lemma script_progress:
  assumes "pipeline_ids_free w0 (r_id r)" "pipeline_trace (r_id r) ! n = milestone_entry (r_id r) ph m"
    and "n < 12" "is_aware ts" "r_state r \<notin> set terminal_states" "is_valid_milestone ph m"
    and "k = Suc n"
  shows "returns (at_trace w0 r (take n (pipeline_trace (r_id r)))) (emit_progress r ph m ts)
    (\<lambda>_. at_trace w0 r (take k (pipeline_trace (r_id r))))"
proof -
  have n: "n < length (pipeline_trace (r_id r))" using assms(3) by simp
  have "unused_id w0 (take n (pipeline_trace (r_id r))) (fst (milestone_entry (r_id r) ph m))"
    using free_step [OF assms(1) n] unfolding assms(2) .
  from at_trace_progress [OF this [unfolded fst_conv] assms(5,4,6)] show ?thesis
    unfolding trace_step [OF assms(2) n] assms(7) .
qed

lemma script_nth:
  "pipeline_trace rid ! 0 = milestone_entry rid ''intake'' ''received''"
  "pipeline_trace rid ! 1 = milestone_entry rid ''intake'' ''accepted''"
  "pipeline_trace rid ! 2 = milestone_entry rid ''plan'' ''drafted''"
  "pipeline_trace rid ! 3 = milestone_entry rid ''plan'' ''approval_requested''"
  "pipeline_trace rid ! 4 = milestone_entry rid ''plan'' ''ready''"
  "pipeline_trace rid ! 5 = milestone_entry rid ''execute'' ''tool_invoked''"
  "pipeline_trace rid ! 6 = milestone_entry rid ''execute'' ''artifact_emitted''"
  "pipeline_trace rid ! 7 = milestone_entry rid ''execute'' ''waiting_approval''"
  "pipeline_trace rid ! 8 = milestone_entry rid ''review'' ''findings_recorded''"
  "pipeline_trace rid ! 9 = milestone_entry rid ''handoff'' ''envelope_emitted''"
  by (simp_all add: pipeline_trace_def)

lemma phase_update:
  "returns (at_trace w0 r (take n (pipeline_trace (r_id r)))) (update_state r s) (after_phase w0 (r_id r) s n)"
  by (rule returns_post [OF at_trace_update]) (simp add: after_phase_def)

lemma phase_intake:
  assumes "pipeline_ids_free w0 (r_id r)" "r_state r \<notin> set terminal_states"
  shows "returns (at_trace w0 r (take 0 (pipeline_trace (r_id r)))) (do_intake r)
    (after_phase w0 (r_id r) RPlanning 2)"
  unfolding do_intake_def
  by (intro at_trace_clock
      returns_andthen [OF script_progress [where n = 0 and k = 1, OF assms(1) script_nth(1)]]
      returns_andthen [OF script_progress [where n = 1 and k = 2, OF assms(1) script_nth(2)]]
      phase_update) (use assms(2) in simp_all)

lemma phase_plan:
  assumes "pipeline_ids_free w0 (r_id r)" "r_state r \<notin> set terminal_states"
  shows "returns (at_trace w0 r (take 2 (pipeline_trace (r_id r)))) (do_plan r)
    (after_phase w0 (r_id r) RPlanning 5)"
  unfolding do_plan_def
  by (intro at_trace_clock
      returns_andthen [OF script_progress [where n = 2 and k = 3, OF assms(1) script_nth(3)]]
      returns_andthen [OF script_progress [where n = 3 and k = 4, OF assms(1) script_nth(4)]]
      returns_andthen [OF script_progress [where n = 4 and k = 5, OF assms(1) script_nth(5)]]
      phase_update) (use assms(2) in simp_all)

lemma phase_execute:
  assumes "pipeline_ids_free w0 (r_id r)" "r_state r \<notin> set terminal_states"
  shows "returns (at_trace w0 r (take 5 (pipeline_trace (r_id r)))) (do_execute r)
    (after_phase w0 (r_id r) RExecuting 8)"
  unfolding do_execute_def
  by (intro at_trace_clock
      returns_andthen [OF script_progress [where n = 5 and k = 6, OF assms(1) script_nth(6)]]
      returns_andthen [OF script_progress [where n = 6 and k = 7, OF assms(1) script_nth(7)]]
      returns_andthen [OF script_progress [where n = 7 and k = 8, OF assms(1) script_nth(8)]]
      phase_update) (use assms(2) in simp_all)

lemma phase_review:
  assumes "pipeline_ids_free w0 (r_id r)" "r_state r \<notin> set terminal_states"
  shows "returns (at_trace w0 r (take 8 (pipeline_trace (r_id r)))) (do_review r)
    (after_phase w0 (r_id r) RPlanning 9)"
  unfolding do_review_def
  by (intro at_trace_clock
      returns_andthen [OF script_progress [where n = 8 and k = 9, OF assms(1) script_nth(9)]]
      phase_update) (use assms(2) in simp_all)

lemma phase_handoff:
  assumes "pipeline_ids_free w0 (r_id r)" "r_state r \<notin> set terminal_states"
  shows "returns (at_trace w0 r (take 9 (pipeline_trace (r_id r)))) (do_handoff r)
    (after_phase w0 (r_id r) RCompleted 12)"
proof -
  let ?T = "pipeline_trace (r_id r)"
  have nth: "?T ! 10 = (''evt-'' @ r_id r @ ''-usage-summary'', ''run.artifact_created'',
        [(''artifact_ref'', PStr (summary_artifact_ref (r_id r))),
         (''artifact_kind'', PStr ''usage-summary''), (''label'', PStr ''usage-summary'')])"
    "?T ! 11 = (''evt-'' @ r_id r @ ''-completed'', ''run.completed'', [(''outcome'', PStr ''success'')])"
    by (simp_all add: pipeline_trace_def)
  have free: "unused_id w0 (take 10 ?T) (''evt-'' @ r_id r @ ''-usage-summary'')"
    "unused_id w0 (take 11 ?T) (''evt-'' @ r_id r @ ''-completed'')"
    using free_step [OF assms(1), of 10] free_step [OF assms(1), of 11] nth by simp_all
  have T: "take 10 ?T @ [?T ! 10] = take 11 ?T" "take 11 ?T @ [?T ! 11] = take 12 ?T"
    using trace_step [OF refl, of 10 "r_id r"] trace_step [OF refl, of 11 "r_id r"] by simp_all
  show ?thesis
    unfolding do_handoff_def
    by (intro at_trace_clock
      returns_andthen [OF script_progress [where n = 9 and k = 10, OF assms(1) script_nth(10)]]
      returns_andthen [OF at_trace_artifact [OF free(1), folded nth(1), unfolded T(1)]]
      returns_andthen [OF at_trace_completed [OF free(2), folded nth(2), unfolded T(2)]]
      phase_update) (use assms(2) in simp_all)
qed

lemma returns_phase:
  assumes "\<And>r'. r_id r' = rid \<Longrightarrow> r_state r' = s \<Longrightarrow>
      returns (at_trace w0 r' (take n (pipeline_trace rid))) (f r') Q"
  shows "returns (after_phase w0 rid s n r') (f r') Q"
  using assms [of r'] by (auto simp: returns_def after_phase_def)

lemma orchestrate_returns:
  assumes free: "pipeline_ids_free w (r_id r)" and created: "r_state r = RCreated"
  shows "returns (at_trace w r []) (orchestrate r) (after_phase w (r_id r) RCompleted 12)"
proof -
  have nt: "RCreated \<notin> set terminal_states" "RPlanning \<notin> set terminal_states"
    "RExecuting \<notin> set terminal_states" by (simp_all add: terminal_states_def)
  have "returns (at_trace w r (take 0 (pipeline_trace (r_id r)))) (do_intake r)
      (after_phase w (r_id r) RPlanning 2)"
    using phase_intake [OF free] nt created by simp
  then have intake: "returns (at_trace w r []) (do_intake r) (after_phase w (r_id r) RPlanning 2)"
    by simp
  have plan: "returns (after_phase w (r_id r) RPlanning 2 q) (do_plan q) (after_phase w (r_id r) RPlanning 5)" for q
    by (rule returns_phase) (metis phase_plan free nt(2))
  have exec: "returns (after_phase w (r_id r) RPlanning 5 q) (do_execute q) (after_phase w (r_id r) RExecuting 8)" for q
    by (rule returns_phase) (metis phase_execute free nt(2))
  have review: "returns (after_phase w (r_id r) RExecuting 8 q) (do_review q) (after_phase w (r_id r) RPlanning 9)" for q
    by (rule returns_phase) (metis phase_review free nt(3))
  have handoff: "returns (after_phase w (r_id r) RPlanning 9 q) (do_handoff q) (after_phase w (r_id r) RCompleted 12)" for q
    by (rule returns_phase) (metis phase_handoff free nt(2))
  show ?thesis
    unfolding orchestrate_def
    by (intro returns_require_then returns_bind [OF intake] returns_bind [OF plan]
        returns_bind [OF exec] returns_bind [OF review] handoff)
      (simp_all add: created valid_run_states_def)
qed

section \<open>Properties\<close>


text \<open>
  C15. A completed run is closed: no event can be appended to it any more, and the pipeline
  refuses to run it again without touching the store.
\<close>

theorem orchestrate_closes_run:
  assumes "world_ok w" "map_of (w_runs w) (r_id r) = Some r" "r_state r = RCreated"
    and "pipeline_ids_free w (r_id r)" "orchestrate r w = (Inr r', w')"
  shows "(e_run_id e = r_id r \<longrightarrow> ev_append e w' = (Inl (TerminalRunStateError (r_id r)), w')) \<and>
    orchestrate r' w' = (Inl (ValueError ''run must be in 'created' state to start orchestration''), w')"
proof -
  have "at_trace w r [] w" using assms(1,2) by (simp add: at_trace_def trace_of_def)
  from returnsD [OF orchestrate_returns [OF assms(4,3)] this] assms(5)
  have st: "r_state r' = RCompleted" "map_of (w_runs w') (r_id r) = Some r'" "world_ok w'"
    by (auto simp: after_phase_def at_trace_def)
  then have "run_terminal w' (r_id r)" by (simp add: run_terminal_def get_run_state_def terminal_states_def)
  with st show ?thesis
    by (simp add: ev_append_cases world_ok_def orchestrate_def prog_simps)
qed

text \<open>
  The pipeline starts only from \<open>created\<close>: any other run is refused with a \<open>ValueError\<close>
  and the store stays as it is; and whatever happens on the way, the log only grows.
\<close>

theorem orchestrate_refuses_and_grows:
  "(r_state r \<noteq> RCreated \<longrightarrow> orchestrate r w =
     (Inl (ValueError ''run must be in 'created' state to start orchestration''), w)) \<and>
   obeys log_grows (orchestrate r)"
proof -
  have "obeys log_grows (orchestrate r)"
    unfolding orchestrate_def do_intake_def do_plan_def do_execute_def do_review_def do_handoff_def
      emit_progress_def emit_completed_def emit_usage_summary_artifact_def update_state_def
    by (intro grow.resp_bind grow.resp_rules grows)
  then show ?thesis by (simp add: orchestrate_def prog_simps)
qed

section \<open>Witnesses\<close>

definition demo_run :: run where
  "demo_run = started_run demo_task Api (Aware 0 0)"

lemma demo_run_facts:
  "r_id demo_run = ''run-t1''" "r_state demo_run = RCreated" "pipeline_ids_free started_world ''run-t1''"
  by code_simp+

lemma demo_run_stored: "map_of (w_runs started_world) (r_id demo_run) = Some demo_run"
  using started_world_runs(1) by (simp add: demo_run_facts(1)) (simp add: demo_run_def)


definition orchestrated_world :: world where
  "orchestrated_world = snd (orchestrate demo_run started_world)"

theorem orchestrate_closes_run_witness:
  "\<exists>r'. orchestrate demo_run started_world = (Inr r', orchestrated_world) \<and>
     fst (orchestrate r' orchestrated_world) =
       Inl (ValueError ''run must be in 'created' state to start orchestration'')"
proof -
  have free: "pipeline_ids_free started_world (r_id demo_run)" by (simp add: demo_run_facts)
  have at: "at_trace started_world demo_run [] started_world"
    by (simp add: at_trace_def trace_of_def started_world_ok demo_run_stored)
  from returnsD [OF orchestrate_returns [OF free demo_run_facts(2)] at] obtain r' where
    r': "orchestrate demo_run started_world = (Inr r', orchestrated_world)"
    by (auto simp: orchestrated_world_def)
  from orchestrate_closes_run [OF started_world_ok demo_run_stored demo_run_facts(2) free r'] r'
  show ?thesis by auto
qed

theorem orchestrate_refuses_and_grows_witness:
  "orchestrate (demo_run\<lparr>r_state := RWaitingApproval\<rparr>) started_world =
     (Inl (ValueError ''run must be in 'created' state to start orchestration''), started_world)"
  using orchestrate_refuses_and_grows [of "demo_run\<lparr>r_state := RWaitingApproval\<rparr>" started_world] by simp

end
