(* ===== verification/Handoff.thy ===== *)
theory Handoff
  imports Domain
begin

text \<open>
  The metadata that travels with delegated work: side-effect classes, tool actions and token
  budgets (domain/durability.py), run lineage and handoff artifacts (domain/handoff.py) and
  the artifact event written at a handoff (services/orchestration/handoff_events.py).
\<close>

section \<open>Durability metadata\<close>

definition clean_text :: "string \<Rightarrow> string \<Rightarrow> exc + string" where
  "clean_text field_name value =
     (let cleaned = strip value in
      if cleaned = [] then Inl (ValueError (field_name @ '' must not be blank'')) else Inr cleaned)"

lemma clean_text_eq [simp]: "clean_text = require_non_empty_text"
  by (simp add: fun_eq_iff clean_text_def require_non_empty_text_def)

definition side_effect_classes :: "string list" where
  "side_effect_classes = [''read-only'', ''workspace-mutating'', ''DB-mutating'',
     ''provider-mutating'', ''external-write'', ''unknown/high-risk'']"

definition validate_non_negative :: "int option \<Rightarrow> exc + int option" where
  "validate_non_negative v = (case v of None \<Rightarrow> Inr None
     | Some n \<Rightarrow> if n < 0 then Inl (ValueError ''token counts must be non-negative'') else Inr (Some n))"

record side_effect =
  se_class :: string
  se_rationale :: string

definition make_side_effect :: "string \<Rightarrow> string \<Rightarrow> exc + side_effect" where
  "make_side_effect action_class rationale =
     rbind (clean_text ''action_class'' action_class) (\<lambda>c.
     rbind (ensure (c \<in> set side_effect_classes)
       (ValueError ''action_class must be a supported side-effect class'')) (\<lambda>_.
     rbind (clean_text ''rationale'' rationale) (\<lambda>r.
     Inr \<lparr>se_class = c, se_rationale = r\<rparr>)))"

definition side_effect_payload :: "side_effect \<Rightarrow> payload" where
  "side_effect_payload s =
     [(''action_class'', PStr (se_class s)), (''rationale'', PStr (se_rationale s))]"

record tool_action =
  ta_tool_id :: string
  ta_action :: string
  ta_side_effect :: side_effect
  ta_approval_explanation :: payload

definition make_tool_action ::
  "string \<Rightarrow> string \<Rightarrow> side_effect \<Rightarrow> payload \<Rightarrow> exc + tool_action" where
  "make_tool_action tool_id action side_effect explanation =
     rbind (clean_text ''tool_id'' tool_id) (\<lambda>t.
     rbind (clean_text ''action'' action) (\<lambda>a.
     Inr \<lparr>ta_tool_id = t, ta_action = a, ta_side_effect = side_effect,
          ta_approval_explanation = explanation\<rparr>))"

definition tool_action_payload :: "tool_action \<Rightarrow> payload" where
  "tool_action_payload a =
     [(''tool_id'', PStr (ta_tool_id a)), (''action'', PStr (ta_action a)),
      (''side_effect'', PDict (side_effect_payload (ta_side_effect a)))] @
     (if ta_approval_explanation a \<noteq> []
      then [(''approval_explanation'', PDict (ta_approval_explanation a))] else [])"

record token_budget =
  tb_source :: string
  tb_budget_id :: "string option"
  tb_prompt :: "int option"
  tb_completion :: "int option"
  tb_total :: "int option"
  tb_remaining :: "int option"
  tb_warning :: "string option"

definition make_token_budget ::
  "string \<Rightarrow> string option \<Rightarrow> int option \<Rightarrow> int option \<Rightarrow> int option \<Rightarrow> int option \<Rightarrow> string option
   \<Rightarrow> exc + token_budget" where
  "make_token_budget source budget_id prompt completion tot remaining warning =
     rbind (clean_text ''source'' source) (\<lambda>s.
     rbind (ropt (clean_text ''budget_id'') budget_id) (\<lambda>b.
     rbind (ropt (clean_text ''warning'') warning) (\<lambda>w.
     rbind (validate_non_negative prompt) (\<lambda>p.
     rbind (validate_non_negative completion) (\<lambda>c.
     rbind (validate_non_negative tot) (\<lambda>t.
     rbind (validate_non_negative remaining) (\<lambda>r.
     Inr \<lparr>tb_source = s, tb_budget_id = b, tb_prompt = p, tb_completion = c, tb_total = t,
          tb_remaining = r, tb_warning = w\<rparr>)))))))"

definition token_budget_as_payload :: "token_budget \<Rightarrow> payload" where
  "token_budget_as_payload b =
     [(''budget_id'', pstr_opt (tb_budget_id b)), (''source'', PStr (tb_source b)),
      (''observed_prompt_tokens'', pint_opt (tb_prompt b)),
      (''observed_completion_tokens'', pint_opt (tb_completion b)),
      (''observed_total_tokens'', pint_opt (tb_total b)),
      (''remaining_tokens'', pint_opt (tb_remaining b)), (''warning'', pstr_opt (tb_warning b))]"

definition token_budget_payload :: "token_budget option \<Rightarrow> payload option" where
  "token_budget_payload = map_option token_budget_as_payload"

definition tool_actions_payload :: "tool_action list option \<Rightarrow> payload list option" where
  "tool_actions_payload = map_option (map tool_action_payload)"

section \<open>Run lineage\<close>

definition clean_artifact_ref :: "string \<Rightarrow> exc + string" where
  "clean_artifact_ref value = rbind (clean_text ''artifact_ref'' value) (\<lambda>cleaned.
     rbind (ensure (starts_with cleaned ''artifact://'')
       (ValueError ''artifact_ref must use the artifact:// scheme'')) (\<lambda>_. Inr cleaned))"

definition clean_run_id :: "string \<Rightarrow> string \<Rightarrow> exc + string" where
  "clean_run_id field_name value = clean_text field_name value"

definition clean_optional_run_id :: "string \<Rightarrow> string option \<Rightarrow> exc + string option" where
  "clean_optional_run_id field_name = ropt (clean_run_id field_name)"

definition clean_delegation_id :: "string \<Rightarrow> exc + string" where
  "clean_delegation_id value = clean_text ''delegation_id'' value"

record run_correlation =
  rc_correlation_id :: string
  rc_parent_run_id :: string
  rc_child_run_id :: string
  rc_dispatcher_run_id :: string
  rc_team_run_id :: string
  rc_pipeline_run_id :: string
  rc_delegation_id :: string
  rc_manifest_run_id :: string
  rc_sub_agent_run_id :: "string option"
  rc_review_run_id :: "string option"
  rc_checkpoint_id :: "string option"
  rc_saga_id :: "string option"
  rc_resume_token :: "string option"

text \<open>The constructor, from a record of raw values.\<close>

definition make_run_correlation :: "run_correlation \<Rightarrow> exc + run_correlation" where
  "make_run_correlation raw =
     rbind (clean_text ''correlation_id'' (rc_correlation_id raw)) (\<lambda>c.
     rbind (clean_run_id ''parent_run_id'' (rc_parent_run_id raw)) (\<lambda>p.
     rbind (clean_run_id ''child_run_id'' (rc_child_run_id raw)) (\<lambda>ch.
     rbind (clean_run_id ''dispatcher_run_id'' (rc_dispatcher_run_id raw)) (\<lambda>d.
     rbind (clean_run_id ''team_run_id'' (rc_team_run_id raw)) (\<lambda>t.
     rbind (clean_run_id ''pipeline_run_id'' (rc_pipeline_run_id raw)) (\<lambda>pl.
     rbind (clean_delegation_id (rc_delegation_id raw)) (\<lambda>dl.
     rbind (clean_run_id ''manifest_run_id'' (rc_manifest_run_id raw)) (\<lambda>m.
     rbind (clean_optional_run_id ''sub_agent_run_id'' (rc_sub_agent_run_id raw)) (\<lambda>sa.
     rbind (clean_optional_run_id ''review_run_id'' (rc_review_run_id raw)) (\<lambda>rv.
     rbind (ropt (clean_text ''checkpoint_id'') (rc_checkpoint_id raw)) (\<lambda>ck.
     rbind (ropt (clean_text ''saga_id'') (rc_saga_id raw)) (\<lambda>sg.
     rbind (ropt (clean_text ''resume_token'') (rc_resume_token raw)) (\<lambda>rt.
     Inr \<lparr>rc_correlation_id = c, rc_parent_run_id = p, rc_child_run_id = ch,
          rc_dispatcher_run_id = d, rc_team_run_id = t, rc_pipeline_run_id = pl,
          rc_delegation_id = dl, rc_manifest_run_id = m, rc_sub_agent_run_id = sa,
          rc_review_run_id = rv, rc_checkpoint_id = ck, rc_saga_id = sg, rc_resume_token = rt\<rparr>
     )))))))))))))"

definition correlation_payload :: "run_correlation \<Rightarrow> payload" where
  "correlation_payload c =
     dict_put_opt ''resume_token'' (map_option PStr (rc_resume_token c))
    (dict_put_opt ''saga_id'' (map_option PStr (rc_saga_id c))
    (dict_put_opt ''checkpoint_id'' (map_option PStr (rc_checkpoint_id c))
    (dict_put_opt ''review_run_id'' (map_option PStr (rc_review_run_id c))
    (dict_put_opt ''sub_agent_run_id'' (map_option PStr (rc_sub_agent_run_id c))
     [(''correlation_id'', PStr (rc_correlation_id c)),
      (''parent_run_id'', PStr (rc_parent_run_id c)),
      (''child_run_id'', PStr (rc_child_run_id c)),
      (''dispatcher_run_id'', PStr (rc_dispatcher_run_id c)),
      (''team_run_id'', PStr (rc_team_run_id c)),
      (''pipeline_run_id'', PStr (rc_pipeline_run_id c)),
      (''delegation_id'', PStr (rc_delegation_id c)),
      (''manifest_run_id'', PStr (rc_manifest_run_id c))]))))"

section \<open>Handoff artifacts\<close>

record handoff_artifact =
  ha_artifact_ref :: string
  ha_artifact_kind :: string
  ha_label :: string
  ha_output_name :: string
  ha_producer_run_id :: string
  ha_parent_run_id :: string
  ha_child_run_id :: string
  ha_delegation_id :: string
  ha_manifest_run_id :: string
  ha_correlation_id :: string
  ha_metadata :: payload

definition make_handoff_artifact :: "handoff_artifact \<Rightarrow> exc + handoff_artifact" where
  "make_handoff_artifact raw =
     rbind (clean_artifact_ref (ha_artifact_ref raw)) (\<lambda>r.
     rbind (clean_text ''artifact_kind'' (ha_artifact_kind raw)) (\<lambda>k.
     rbind (clean_text ''label'' (ha_label raw)) (\<lambda>l.
     rbind (clean_text ''output_name'' (ha_output_name raw)) (\<lambda>out.
     rbind (clean_run_id ''producer_run_id'' (ha_producer_run_id raw)) (\<lambda>pr.
     rbind (clean_run_id ''parent_run_id'' (ha_parent_run_id raw)) (\<lambda>pa.
     rbind (clean_run_id ''child_run_id'' (ha_child_run_id raw)) (\<lambda>ch.
     rbind (clean_delegation_id (ha_delegation_id raw)) (\<lambda>dl.
     rbind (clean_run_id ''manifest_run_id'' (ha_manifest_run_id raw)) (\<lambda>m.
     rbind (clean_text ''correlation_id'' (ha_correlation_id raw)) (\<lambda>c.
     Inr \<lparr>ha_artifact_ref = r, ha_artifact_kind = k, ha_label = l, ha_output_name = out,
          ha_producer_run_id = pr, ha_parent_run_id = pa, ha_child_run_id = ch,
          ha_delegation_id = dl, ha_manifest_run_id = m, ha_correlation_id = c,
          ha_metadata = ha_metadata raw\<rparr>))))))))))"

text \<open>\<open>uuid4().hex\<close> and the clock are the arguments \<open>hex\<close> and \<open>clock\<close>.\<close>

definition artifact_event_payload ::
  "handoff_artifact \<Rightarrow> string \<Rightarrow> string \<Rightarrow> string \<Rightarrow> run_correlation option \<Rightarrow> string option
   \<Rightarrow> string option \<Rightarrow> payload" where
  "artifact_event_payload a source target boundary correlation source_agent target_agent =
     (let base = dict_put_opt ''target_agent_id'' (map_option PStr target_agent)
        (dict_put_opt ''source_agent_id'' (map_option PStr source_agent)
          [(''artifact_ref'', PStr (ha_artifact_ref a)),
           (''artifact_kind'', PStr (ha_artifact_kind a)), (''label'', PStr (ha_label a)),
           (''source_run_id'', PStr source), (''target_run_id'', PStr target),
           (''handoff_boundary'', PStr boundary),
           (''producer_run_id'', PStr (ha_producer_run_id a)),
           (''parent_run_id'', PStr (ha_parent_run_id a)),
           (''child_run_id'', PStr (ha_child_run_id a)),
           (''delegation_id'', PStr (ha_delegation_id a)),
           (''manifest_run_id'', PStr (ha_manifest_run_id a)),
           (''correlation_id'', PStr (ha_correlation_id a))]) in
      case correlation of None \<Rightarrow> base | Some c \<Rightarrow> dict_update base (correlation_payload c))"

definition make_handoff_artifact_event ::
  "string \<Rightarrow> datetime \<Rightarrow> string \<Rightarrow> handoff_artifact \<Rightarrow> int \<Rightarrow> string \<Rightarrow> string \<Rightarrow> string
   \<Rightarrow> run_correlation option \<Rightarrow> string option \<Rightarrow> string option \<Rightarrow> datetime option \<Rightarrow> exc + run_event"
where
  "make_handoff_artifact_event hex clock run_id a seq source_run_id target_run_id handoff_boundary
     correlation source_agent target_agent now =
   (let boundary = strip handoff_boundary; source = strip source_run_id;
        target = strip target_run_id in
    rbind (ensure (boundary \<noteq> []) (ValueError ''handoff_boundary must not be blank'')) (\<lambda>_.
    rbind (ensure (source \<noteq> []) (ValueError ''source_run_id must not be blank'')) (\<lambda>_.
    rbind (ensure (target \<noteq> []) (ValueError ''target_run_id must not be blank'')) (\<lambda>_.
    rbind (ensure (\<not> (correlation \<noteq> None \<and>
              ha_correlation_id a \<noteq> rc_correlation_id (the correlation)))
            (ValueError ''handoff_artifact correlation_id must match correlation'')) (\<lambda>_.
    make_event (''evt-'' @ run_id @ ''-artifact-'' @ hex) run_id seq ''run.artifact_created''
      (artifact_event_payload a source target boundary correlation source_agent target_agent)
      (case now of None \<Rightarrow> clock | Some t \<Rightarrow> t)
      (Some \<lparr>c_event_id = None, c_action = Some (''handoff_artifact.'' @ boundary),
             c_request_id = Some (ha_delegation_id a)\<rparr>)
      (Some \<lparr>a_kind = System, a_id = Some run_id, a_display = Some ''handoff''\<rparr>))))))"

section \<open>Constructors are idempotent\<close>

lemma clean_ids_eq: "clean_run_id = require_non_empty_text"
  "clean_delegation_id = require_non_empty_text ''delegation_id''"
  by (simp_all add: fun_eq_iff clean_run_id_def clean_delegation_id_def)

lemmas correlation_cleaners = clean_ids_eq clean_optional_run_id_def

definition clean_opt :: "string option \<Rightarrow> bool" where
  "clean_opt v \<longleftrightarrow> (\<forall>x \<in> set_option v. clean x)"

lemma ropt_clean_opt: "ropt (require_non_empty_text f) v = Inr r \<Longrightarrow> clean_opt r"
  by (cases v) (auto simp: clean_opt_def rbind_Inr_iff dest: require_text_clean)

lemma ropt_of_clean_opt [simp]: "clean_opt v \<Longrightarrow> ropt (require_non_empty_text f) v = Inr v"
  by (cases v) (simp_all add: clean_opt_def)

definition wf_correlation :: "run_correlation \<Rightarrow> bool" where
  "wf_correlation c \<longleftrightarrow> clean (rc_correlation_id c) \<and> clean (rc_parent_run_id c) \<and> clean (rc_child_run_id c) \<and> clean (rc_dispatcher_run_id c) \<and> clean (rc_team_run_id c) \<and> clean (rc_pipeline_run_id c) \<and> clean (rc_delegation_id c) \<and> clean (rc_manifest_run_id c) \<and>
     clean_opt (rc_sub_agent_run_id c) \<and> clean_opt (rc_review_run_id c) \<and> clean_opt (rc_checkpoint_id c) \<and> clean_opt (rc_saga_id c) \<and> clean_opt (rc_resume_token c)"

definition wf_handoff_artifact :: "handoff_artifact \<Rightarrow> bool" where
  "wf_handoff_artifact a \<longleftrightarrow> clean (ha_artifact_ref a) \<and> starts_with (ha_artifact_ref a) ''artifact://'' \<and>
     clean (ha_artifact_kind a) \<and> clean (ha_label a) \<and> clean (ha_output_name a) \<and> clean (ha_producer_run_id a) \<and> clean (ha_parent_run_id a) \<and> clean (ha_child_run_id a) \<and> clean (ha_delegation_id a) \<and> clean (ha_manifest_run_id a) \<and> clean (ha_correlation_id a)"

lemma make_run_correlation_wf:
  assumes "make_run_correlation raw = Inr c"
  shows "wf_correlation c"
  using assms unfolding make_run_correlation_def correlation_cleaners clean_text_eq rbind_Inr_iff
  apply (elim exE conjE)
  apply (drule require_text_clean ropt_clean_opt)+
  apply (drule sum.inject(2) [THEN iffD1])
  by (hypsubst, simp add: wf_correlation_def)

lemma make_run_correlation_self: "wf_correlation c \<Longrightarrow> make_run_correlation c = Inr c"
  by (cases c) (simp add: wf_correlation_def make_run_correlation_def correlation_cleaners)

lemma make_handoff_artifact_wf:
  assumes "make_handoff_artifact raw = Inr a"
  shows "wf_handoff_artifact a"
  using assms
  unfolding make_handoff_artifact_def clean_artifact_ref_def correlation_cleaners clean_text_eq
    rbind_Inr_iff ensure_Inr_iff
  apply (elim exE conjE)
  apply (drule require_text_clean)+
  apply (drule sum.inject(2) [THEN iffD1])
  by (auto simp: wf_handoff_artifact_def)

lemma make_handoff_artifact_self: "wf_handoff_artifact a \<Longrightarrow> make_handoff_artifact a = Inr a"
  by (cases a) (simp add: wf_handoff_artifact_def make_handoff_artifact_def clean_artifact_ref_def correlation_cleaners)

section \<open>The handoff event\<close>

lemma correlation_payload_keys:
  "distinct (map fst (correlation_payload c))"
  unfolding correlation_payload_def by (intro distinct_dict_put_opt) simp

lemma correlation_payload_silent:
  "k \<in> {''artifact_ref'', ''artifact_kind'', ''label'', ''source_run_id'', ''target_run_id'',
      ''handoff_boundary'', ''producer_run_id''} \<Longrightarrow> map_of (correlation_payload c) k = None"
  by (auto simp: correlation_payload_def)

lemma correlation_payload_id: "map_of (correlation_payload c) ''correlation_id'' = Some (PStr (rc_correlation_id c))"
  by (simp add: correlation_payload_def)

lemma artifact_payload_valid:
  "validate_payload ''run.artifact_created'' (artifact_event_payload a s t b c sa ta) = Inr ()"
  by (auto simp: artifact_event_payload_def Let_def keys_dict_update keys_dict_put_opt split: option.split)

text \<open>When the event can be built.\<close>

definition handoff_inputs_ok ::
  "handoff_artifact \<Rightarrow> int \<Rightarrow> string \<Rightarrow> string \<Rightarrow> string \<Rightarrow> run_correlation option \<Rightarrow> datetime \<Rightarrow> bool" where
  "handoff_inputs_ok a seq source target boundary correlation timestamp \<longleftrightarrow>
     strip boundary \<noteq> [] \<and> strip source \<noteq> [] \<and> strip target \<noteq> [] \<and> 1 \<le> seq \<and> is_aware timestamp \<and>
     (\<forall>c \<in> set_option correlation. ha_correlation_id a = rc_correlation_id c)"

text \<open>
  A handoff event is built exactly for non-blank ends and boundary, a positive number and a
  correlation of the artifact's id. It is a valid \<open>run.artifact_created\<close> event that names the
  artifact and the trimmed boundary, and every lineage field of the correlation overrides the
  artifact's own.
\<close>

theorem handoff_event_records_lineage:
  fixes clock :: datetime
  defines "ts now \<equiv> (case now of None \<Rightarrow> clock | Some t \<Rightarrow> t)"
  shows "case make_handoff_artifact_event hex clock run a seq src tgt bnd corr sa ta now of
      Inr e \<Rightarrow> handoff_inputs_ok a seq src tgt bnd corr (ts now) \<and> wf_event e \<and>
        e_type e = ''run.artifact_created'' \<and> e_run_id e = run \<and> e_seq e = seq \<and>
        map_of (e_payload e) ''artifact_ref'' = Some (PStr (ha_artifact_ref a)) \<and>
        map_of (e_payload e) ''handoff_boundary'' = Some (PStr (strip bnd)) \<and>
        map_of (e_payload e) ''correlation_id'' = Some (PStr (ha_correlation_id a)) \<and>
        (\<forall>c k v. corr = Some c \<and> map_of (correlation_payload c) k = Some v \<longrightarrow>
           map_of (e_payload e) k = Some v)
    | Inl x \<Rightarrow> \<not> handoff_inputs_ok a seq src tgt bnd corr (ts now)"
proof (cases "handoff_inputs_ok a seq src tgt bnd corr (ts now)")
  case True
  let ?p = "artifact_event_payload a (strip src) (strip tgt) (strip bnd) corr sa ta"
  from True have ev: "make_handoff_artifact_event hex clock run a seq src tgt bnd corr sa ta now = Inr
     \<lparr>e_id = ''evt-'' @ run @ ''-artifact-'' @ hex, e_run_id = run, e_seq = seq,
      e_type = ''run.artifact_created'', e_payload = ?p, e_timestamp = as_utc (ts now),
      e_causation = Some \<lparr>c_event_id = None, c_action = Some (''handoff_artifact.'' @ strip bnd),
             c_request_id = Some (ha_delegation_id a)\<rparr>,
      e_actor = Some \<lparr>a_kind = System, a_id = Some run, a_display = Some ''handoff''\<rparr>\<rparr>"
    using artifact_payload_valid [of a "strip src" "strip tgt" "strip bnd" corr sa ta]
    by (cases corr) (simp_all add: make_handoff_artifact_event_def handoff_inputs_ok_def Let_def
        make_event_ok ts_def [symmetric])
  have p: "map_of ?p ''artifact_ref'' = Some (PStr (ha_artifact_ref a))"
    "map_of ?p ''handoff_boundary'' = Some (PStr (strip bnd))"
    "map_of ?p ''correlation_id'' = Some (PStr (ha_correlation_id a))"
    using True
    by (simp_all add: artifact_event_payload_def Let_def map_of_dict_update correlation_payload_keys
        correlation_payload_silent correlation_payload_id handoff_inputs_ok_def
        split: option.split)
  have q: "map_of ?p k = Some v" if "corr = Some c" "map_of (correlation_payload c) k = Some v" for c k v
    using that by (simp add: artifact_event_payload_def Let_def map_of_dict_update correlation_payload_keys)
  show ?thesis using True p q artifact_payload_valid [of a "strip src" "strip tgt" "strip bnd" corr sa ta]
    by (simp add: ev wf_event_def handoff_inputs_ok_def)
next
  case False
  then have "\<not> (\<exists>e. make_handoff_artifact_event hex clock run a seq src tgt bnd corr sa ta now = Inr e)"
    by (auto simp: make_handoff_artifact_event_def make_event_def Let_def rbind_Inr_iff ts_def
        handoff_inputs_ok_def)
  with False show ?thesis by (auto split: sum.split)
qed

definition demo_artifact :: handoff_artifact where
  "demo_artifact = \<lparr>ha_artifact_ref = ''artifact://a'', ha_artifact_kind = ''diff'', ha_label = ''d'',
     ha_output_name = ''o'', ha_producer_run_id = ''r0'', ha_parent_run_id = ''p'', ha_child_run_id = ''c'',
     ha_delegation_id = ''d0'', ha_manifest_run_id = ''c'', ha_correlation_id = ''k'', ha_metadata = []\<rparr>"

definition demo_correlation :: run_correlation where
  "demo_correlation = \<lparr>rc_correlation_id = ''k'', rc_parent_run_id = ''p2'', rc_child_run_id = ''c'',
     rc_dispatcher_run_id = ''x'', rc_team_run_id = ''t'', rc_pipeline_run_id = ''l'',
     rc_delegation_id = ''d0'', rc_manifest_run_id = ''c'', rc_sub_agent_run_id = None,
     rc_review_run_id = None, rc_checkpoint_id = None, rc_saga_id = None, rc_resume_token = None\<rparr>"

theorem handoff_event_records_lineage_witness:
  "\<exists>e. make_handoff_artifact_event ''h'' (Aware 5 0) ''r'' demo_artifact 1 ''s'' ''t'' '' b ''
      (Some demo_correlation) None None None = Inr e \<and>
    map_of (e_payload e) ''parent_run_id'' = Some (PStr ''p2'') \<and>
    map_of (e_payload e) ''handoff_boundary'' = Some (PStr ''b'')"
proof -
  let ?m = "make_handoff_artifact_event ''h'' (Aware 5 0) ''r'' demo_artifact 1 ''s'' ''t'' '' b ''
      (Some demo_correlation) None None None"
  have "handoff_inputs_ok demo_artifact 1 ''s'' ''t'' '' b '' (Some demo_correlation) (Aware 5 0)"
    and "map_of (correlation_payload demo_correlation) ''parent_run_id'' = Some (PStr ''p2'')"
    and "strip '' b '' = ''b''"
    by code_simp+
  then show ?thesis
    using handoff_event_records_lineage [where clock = "Aware 5 0" and hex = "''h''" and run = "''r''"
      and a = demo_artifact and seq = 1 and src = "''s''" and tgt = "''t''" and bnd = "'' b ''"
      and corr = "Some demo_correlation" and sa = None and ta = None and now = None]
    by (cases ?m) auto
qed

end
