(* ===== verification/Till_Done.thy ===== *)
theory Till_Done
  imports Handoff Milestones
begin

text \<open>
  The till-done loop of coding runs (services/orchestration/tilldone.py): plan, apply, check,
  up to a bound of iterations, with every step recorded in an event stream; and the catalog of
  plan revisions (services/orchestration/plan_revision.py). The result of an iteration is an
  argument, a function of its number, as in the code; the stream is the state.
\<close>

section \<open>Loop data\<close>

definition loop_completed :: string where "loop_completed = ''completed''"
definition loop_escalated :: string where "loop_escalated = ''escalated''"

definition outcome_resolved :: "string \<Rightarrow> string" where
  "outcome_resolved value =
     (if value \<in> {loop_completed, loop_escalated} then value else loop_escalated)"

record iteration_result =
  ir_plan_artifact_id :: string
  ir_check_passed :: bool
  ir_changes_applied :: bool
  ir_plan_revised :: bool
  ir_iteration_count :: int
  ir_plan_body :: string
  ir_plan_diff :: string
  ir_plan_rationale :: string

definition iteration_done :: "iteration_result \<Rightarrow> bool" where
  "iteration_done r \<longleftrightarrow> ir_check_passed r \<and> \<not> ir_plan_revised r"

record loop_config =
  lc_max_iterations :: int
  lc_check_failure_max :: int
  lc_esc_check_if_revised :: bool

definition default_config :: loop_config where
  "default_config = \<lparr>lc_max_iterations = 3, lc_check_failure_max = 2, lc_esc_check_if_revised = True\<rparr>"

section \<open>The event stream\<close>

record stream =
  st_events :: "run_event list"
  st_clock :: "nat \<Rightarrow> int"
  st_ticks :: nat

definition stream_now :: "(stream, datetime) prog" where
  "stream_now s = (Inr (Aware (st_clock s (st_ticks s)) 0), s\<lparr>st_ticks := Suc (st_ticks s)\<rparr>)"

definition stream_emit :: "run_event \<Rightarrow> (stream, unit) prog" where
  "stream_emit e = modify (\<lambda>s. s\<lparr>st_events := st_events s @ [e]\<rparr>)"

text \<open>
  The selections by phase and by milestone test whether a payload is a \<open>dict\<close>. The constructor of an
  event freezes its payload into a \<open>MappingProxyType\<close> (domain/run_event.py), which is none.
\<close>

definition payload_is_dict :: "run_event \<Rightarrow> bool" where
  "payload_is_dict e = False"

definition by_phase :: "stream \<Rightarrow> string \<Rightarrow> run_event list" where
  "by_phase s phase = filter (\<lambda>e. e_type e = ''run.progress'' \<and> payload_is_dict e \<and>
     map_of (e_payload e) ''phase'' = Some (PStr phase)) (st_events s)"

definition by_milestone :: "stream \<Rightarrow> string \<Rightarrow> run_event list" where
  "by_milestone s milestone = filter (\<lambda>e. e_type e = ''run.progress'' \<and> payload_is_dict e \<and>
     map_of (e_payload e) ''milestone'' = Some (PStr milestone)) (st_events s)"

lemma selections_are_empty: "by_phase s phase = []" "by_milestone s milestone = []"
  by (simp_all add: by_phase_def by_milestone_def payload_is_dict_def)

definition progress_events :: "stream \<Rightarrow> run_event list" where
  "progress_events s = filter (\<lambda>e. e_type e = ''run.progress'') (st_events s)"

definition artifact_events :: "stream \<Rightarrow> run_event list" where
  "artifact_events s = filter (\<lambda>e. e_type e = ''run.artifact_created'') (st_events s)"

definition td_progress ::
  "string \<Rightarrow> token_budget option \<Rightarrow> string \<Rightarrow> string \<Rightarrow> payload option \<Rightarrow> (stream, unit) prog" where
  "td_progress run_id budget phase milestone extra =
     andthen (require (is_valid_milestone phase milestone) (ValueError ''milestone not cataloged''))
     (bind (gets (\<lambda>s. int (length (st_events s)) + 1)) (\<lambda>seq.
      bind stream_now (\<lambda>now.
      bind (lift (make_event (run_id @ ''.prog.'' @ phase @ ''.'' @ milestone) run_id seq ''run.progress''
          (dict_put_opt ''token_budget'' (map_option PDict (token_budget_payload budget))
            (dict_update [(''phase'', PStr phase), (''milestone'', PStr milestone)]
               (case extra of None \<Rightarrow> [] | Some p \<Rightarrow> p)))
          now
          (Some \<lparr>c_event_id = None, c_action = Some (phase @ ''.'' @ milestone), c_request_id = None\<rparr>)
          (Some \<lparr>a_kind = System, a_id = None, a_display = None\<rparr>))) stream_emit)))"

definition emit_plan_revision_artifact ::
  "string \<Rightarrow> token_budget option \<Rightarrow> int \<Rightarrow> string \<Rightarrow> string \<Rightarrow> string \<Rightarrow> string \<Rightarrow> (stream, unit) prog"
where
  "emit_plan_revision_artifact run_id budget version body diff rationale artifact_ref =
     bind (gets (\<lambda>s. int (length (st_events s)) + 1)) (\<lambda>seq.
     bind stream_now (\<lambda>now.
     bind (lift (make_event (run_id @ ''.artifact.plan-revision-v'' @ show_int version) run_id seq
         ''run.artifact_created''
         (dict_put_opt ''token_budget'' (map_option PDict (token_budget_payload budget))
            [(''artifact_ref'', PStr artifact_ref), (''artifact_kind'', PStr ''plan-revision''),
             (''label'', PStr (''plan-revision-v'' @ show_int version)), (''version'', PInt version),
             (''diff_from_previous'', PStr diff), (''rationale'', PStr rationale),
             (''body'', PStr body)])
         now
         (Some \<lparr>c_event_id = None, c_action = Some ''plan_revision'', c_request_id = Some artifact_ref\<rparr>)
         (Some \<lparr>a_kind = System, a_id = None, a_display = None\<rparr>))) stream_emit))"

section \<open>The loop\<close>

text \<open>
  The body of one iteration below the bound: \<open>Some outcome\<close> when it returns from the loop.
\<close>

definition iteration_body ::
  "string \<Rightarrow> token_budget option \<Rightarrow> loop_config \<Rightarrow> int \<Rightarrow> iteration_result \<Rightarrow> (stream, string option) prog"
where
  "iteration_body run_id budget cfg iteration result =
    (let progress = td_progress run_id budget in
     andthen (progress ''code'' ''iteration_started'' None)
     (if lc_max_iterations cfg \<le> iteration then
        andthen (progress ''code'' ''loop_escalated'' None) (ret (Some loop_escalated))
      else
        andthen (progress ''plan'' ''drafted'' None)
        (andthen (progress ''plan'' ''approval_requested'' None)
        (andthen (progress ''plan'' ''ready'' None)
        (andthen (progress ''code'' ''changes_applied''
                    (Some [(''artifact_id'', PStr (ir_plan_artifact_id result))]))
        (andthen
          (if ir_plan_revised result then
             andthen (progress ''plan'' ''revision_cataloged'' None)
             (andthen (progress ''code'' ''plan_revised'' None)
             (andthen (emit_plan_revision_artifact run_id budget (ir_iteration_count result)
                         (ir_plan_body result) (ir_plan_diff result) (ir_plan_rationale result)
                         (ir_plan_artifact_id result))
             (progress ''plan'' ''ready'' None)))
           else if ir_check_passed result then progress ''code'' ''check_passed'' None
           else progress ''code'' ''iteration_complete'' None)
        (if ir_check_passed result \<and> \<not> ir_plan_revised result then
           andthen (progress ''code'' ''iteration_complete'' None)
           (andthen (progress ''code'' ''terminal'' None) (ret (Some loop_completed)))
         else ret None)))))))"

text \<open>\<open>while iteration < cfg.max_iterations\<close>; \<open>n\<close> is what is left of the bound.\<close>

fun till_done_loop ::
  "string \<Rightarrow> token_budget option \<Rightarrow> loop_config \<Rightarrow> (int \<Rightarrow> iteration_result) \<Rightarrow> nat \<Rightarrow> int
   \<Rightarrow> (stream, string) prog" where
  "till_done_loop run_id budget cfg results 0 iteration =
     andthen (td_progress run_id budget ''code'' ''loop_escalated'' None) (ret loop_escalated)"
| "till_done_loop run_id budget cfg results (Suc n) iteration =
     bind (iteration_body run_id budget cfg (iteration + 1)
            ((results (iteration + 1))\<lparr>ir_iteration_count := iteration + 1\<rparr>)) (\<lambda>outcome.
     case outcome of Some r \<Rightarrow> ret r
     | None \<Rightarrow> till_done_loop run_id budget cfg results n (iteration + 1))"

definition run_till_done ::
  "string \<Rightarrow> (int \<Rightarrow> iteration_result) \<Rightarrow> loop_config option \<Rightarrow> token_budget option \<Rightarrow> (stream, string) prog"
where
  "run_till_done run_id results config budget =
    (let cfg = (case config of None \<Rightarrow> default_config | Some c \<Rightarrow> c) in
     till_done_loop run_id budget cfg results (nat (lc_max_iterations cfg)) 0)"

section \<open>Plan revisions\<close>

record plan_revision =
  pv_version :: int
  pv_body :: string
  pv_diff :: string
  pv_rationale :: string
  pv_timestamp :: datetime
  pv_artifact_ref :: string

definition make_plan_revision ::
  "int \<Rightarrow> string \<Rightarrow> string \<Rightarrow> string \<Rightarrow> datetime \<Rightarrow> string \<Rightarrow> exc + plan_revision" where
  "make_plan_revision version body diff rationale timestamp artifact_ref =
     rbind (ensure (\<not> version < 1) (ValueError ''PlanRevision version must be >= 1'')) (\<lambda>_.
     rbind (ensure (body \<noteq> []) (ValueError ''PlanRevision body must not be empty'')) (\<lambda>_.
     rbind (ensure (rationale \<noteq> []) (ValueError ''PlanRevision rationale must not be empty'')) (\<lambda>_.
     rbind (ensure (\<not> (version = 1 \<and> diff \<noteq> []))
       (ValueError ''First revision (version 1) must have an empty diff_from_previous'')) (\<lambda>_.
     Inr \<lparr>pv_version = version, pv_body = body, pv_diff = diff, pv_rationale = rationale,
          pv_timestamp = timestamp, pv_artifact_ref = artifact_ref\<rparr>))))"

definition is_first :: "plan_revision \<Rightarrow> bool" where
  "is_first r \<longleftrightarrow> pv_version r = 1"

type_synonym revision_catalog = "plan_revision list"

definition catalog_latest :: "revision_catalog \<Rightarrow> plan_revision option" where
  "catalog_latest revisions = (if revisions = [] then None else Some (last revisions))"

definition next_version :: "revision_catalog \<Rightarrow> int" where
  "next_version revisions = int (length revisions) + 1"

definition add_revision ::
  "datetime \<Rightarrow> revision_catalog \<Rightarrow> string \<Rightarrow> string \<Rightarrow> string \<Rightarrow> exc + revision_catalog" where
  "add_revision now revisions body diff rationale =
     (case catalog_latest revisions of
        Some latest \<Rightarrow>
          (if body = pv_body latest then Inl (ValueError ''Redundant revision'')
           else rbind (make_plan_revision (next_version revisions) body diff rationale now
                  (''artifact://plan-v'' @ show_int (next_version revisions)))
                  (\<lambda>r. Inr (revisions @ [r])))
      | None \<Rightarrow> rbind (make_plan_revision (next_version revisions) body diff rationale now
                  (''artifact://plan-v'' @ show_int (next_version revisions)))
                  (\<lambda>r. Inr (revisions @ [r])))"

section \<open>What the loop writes\<close>

text \<open>A step as a reader of the stream sees it: event type, phase and milestone.\<close>

type_synonym step = "string \<times> pyval option \<times> pyval option"

definition step_of :: "run_event \<Rightarrow> step" where
  "step_of e = (e_type e, map_of (e_payload e) ''phase'', map_of (e_payload e) ''milestone'')"

abbreviation mark :: "string \<Rightarrow> string \<Rightarrow> step" where
  "mark phase milestone \<equiv> (''run.progress'', Some (PStr phase), Some (PStr milestone))"

definition iteration_script :: "int \<Rightarrow> int \<Rightarrow> iteration_result \<Rightarrow> step list" where
  "iteration_script bound i r = mark ''code'' ''iteration_started'' #
     (if bound \<le> i then [mark ''code'' ''loop_escalated'']
      else [mark ''plan'' ''drafted'', mark ''plan'' ''approval_requested'', mark ''plan'' ''ready'',
            mark ''code'' ''changes_applied''] @
       (if ir_plan_revised r then
          [mark ''plan'' ''revision_cataloged'', mark ''code'' ''plan_revised'',
           (''run.artifact_created'', None, None), mark ''plan'' ''ready'']
        else if ir_check_passed r then [mark ''code'' ''check_passed'']
        else [mark ''code'' ''iteration_complete'']) @
       (if iteration_done r then [mark ''code'' ''iteration_complete'', mark ''code'' ''terminal''] else []))"

definition first_done :: "(int \<Rightarrow> iteration_result) \<Rightarrow> int \<Rightarrow> int \<Rightarrow> int option" where
  "first_done results lo hi = find (\<lambda>i. iteration_done (results i)) [lo..hi - 1]"

definition loop_script :: "(int \<Rightarrow> iteration_result) \<Rightarrow> int \<Rightarrow> int \<Rightarrow> step list" where
  "loop_script results lo bound =
     concat (map (\<lambda>i. iteration_script bound i (results i))
       [lo..(case first_done results lo bound of Some i \<Rightarrow> i | None \<Rightarrow> bound)])"

definition loop_outcome :: "(int \<Rightarrow> iteration_result) \<Rightarrow> int \<Rightarrow> int \<Rightarrow> string" where
  "loop_outcome results lo bound =
     (if first_done results lo bound = None then loop_escalated else loop_completed)"

text \<open>The stream since \<open>s0\<close>: the new events, numbered on from the old ones, as steps.\<close>

definition recorded :: "string \<Rightarrow> stream \<Rightarrow> step list \<Rightarrow> stream \<Rightarrow> bool" where
  "recorded run_id s0 tr s \<longleftrightarrow> (\<exists>es. st_events s = st_events s0 @ es \<and> map step_of es = tr \<and>
     (\<forall>e \<in> set es. wf_event e \<and> e_run_id e = run_id) \<and>
     map e_seq es = map (\<lambda>k. int (length (st_events s0) + k)) [1..<Suc (length es)])"

lemma recorded_event:
  assumes "validate_payload ty p = Inr ()" "step_of_payload = (ty, map_of p ''phase'', map_of p ''milestone'')"
  shows "returns (recorded run_id s0 tr)
    (bind (gets (\<lambda>s. int (length (st_events s)) + 1)) (\<lambda>seq.
      bind stream_now (\<lambda>now.
      bind (lift (make_event i run_id seq ty p now c a)) stream_emit)))
    (\<lambda>_. recorded run_id s0 (tr @ [step_of_payload]))"
  unfolding returns_def
proof (intro allI impI)
  fix s assume "recorded run_id s0 tr s"
  then obtain es where es: "st_events s = st_events s0 @ es" "map step_of es = tr"
    "\<forall>e \<in> set es. wf_event e \<and> e_run_id e = run_id"
    "map e_seq es = map (\<lambda>k. int (length (st_events s0) + k)) [1..<Suc (length es)]"
    by (auto simp: recorded_def)
  let ?e = "\<lparr>e_id = i, e_run_id = run_id, e_seq = int (length (st_events s)) + 1, e_type = ty,
      e_payload = p, e_timestamp = Aware (st_clock s (st_ticks s)) 0, e_causation = c, e_actor = a\<rparr>"
  have "wf_event ?e" using assms(1) by (simp add: wf_event_def)
  with es assms(2) have "recorded run_id s0 (tr @ [step_of_payload])
      (s\<lparr>st_ticks := Suc (st_ticks s), st_events := st_events s @ [?e]\<rparr>)"
    unfolding recorded_def by (intro exI [of _ "es @ [?e]"]) (simp add: step_of_def)
  then show "\<exists>x t. bind (gets (\<lambda>s. int (length (st_events s)) + 1)) (\<lambda>seq.
      bind stream_now (\<lambda>now.
      bind (lift (make_event i run_id seq ty p now c a)) stream_emit)) s = (Inr x, t) \<and>
      recorded run_id s0 (tr @ [step_of_payload]) t"
    using assms(1) by (simp add: prog_simps stream_now_def stream_emit_def make_event_ok)
qed

definition no_marks :: "payload option \<Rightarrow> bool" where
  "no_marks extra \<longleftrightarrow> (\<forall>p \<in> set_option extra. distinct (map fst p) \<and>
     map_of p ''phase'' = None \<and> map_of p ''milestone'' = None)"

lemma recorded_progress:
  assumes "is_valid_milestone ph m" "no_marks extra"
  shows "returns (recorded run_id s0 tr) (td_progress run_id budget ph m extra)
    (\<lambda>_. recorded run_id s0 (tr @ [mark ph m]))"
  unfolding td_progress_def
  using assms
  by (intro returns_require_then recorded_event)
     (auto simp: keys_dict_put_opt keys_dict_update map_of_dict_update no_marks_def split: option.split)

lemma recorded_artifact:
  "returns (recorded run_id s0 tr) (emit_plan_revision_artifact run_id budget v b d r ref)
    (\<lambda>_. recorded run_id s0 (tr @ [(''run.artifact_created'', None, None)]))"
  unfolding emit_plan_revision_artifact_def
  by (intro recorded_event) (auto simp: keys_dict_put_opt)

lemma iteration_body_records:
  "returns (recorded run_id s0 tr) (iteration_body run_id budget cfg i r)
    (\<lambda>out s. recorded run_id s0 (tr @ iteration_script (lc_max_iterations cfg) i r) s \<and>
       out = (if lc_max_iterations cfg \<le> i then Some loop_escalated
              else if iteration_done r then Some loop_completed else None))"
proof -
  note steps = returns_andthen [OF recorded_progress] returns_andthen [OF recorded_artifact] returns_ret
  consider "lc_max_iterations cfg \<le> i" | "\<not> lc_max_iterations cfg \<le> i" "ir_plan_revised r"
    | "\<not> lc_max_iterations cfg \<le> i" "\<not> ir_plan_revised r" "ir_check_passed r"
    | "\<not> lc_max_iterations cfg \<le> i" "\<not> ir_plan_revised r" "\<not> ir_check_passed r" by blast
  then show ?thesis
    by cases (simp_all only: iteration_body_def Let_def andthen_assoc if_True if_False simp_thms,
        (intro steps; simp add: no_marks_def iteration_script_def iteration_done_def)+)
qed

lemma iteration_done_count [simp]: "iteration_done (r\<lparr>ir_iteration_count := k\<rparr>) = iteration_done r"
  by (simp add: iteration_done_def)

lemma iteration_script_count [simp]:
  "iteration_script b i (r\<lparr>ir_iteration_count := k\<rparr>) = iteration_script b i r"
  by (simp add: iteration_script_def)

lemma first_done_step:
  "lo < hi \<Longrightarrow> first_done results lo hi =
     (if iteration_done (results lo) then Some lo else first_done results (lo + 1) hi)"
  by (simp add: first_done_def upto_rec1)

lemma first_done_range: "first_done results lo hi = Some i \<Longrightarrow> lo \<le> i \<and> i < hi"
  by (auto simp: first_done_def find_Some_iff)

lemma loop_script_step:
  assumes "lo < hi" "\<not> iteration_done (results lo)"
  shows "loop_script results lo hi = iteration_script hi lo (results lo) @ loop_script results (lo + 1) hi"
proof -
  let ?last = "\<lambda>lo. case first_done results lo hi of Some i \<Rightarrow> i | None \<Rightarrow> hi"
  have l: "?last lo = ?last (lo + 1)" using assms by (simp add: first_done_step)
  have "lo \<le> ?last (lo + 1)"
    using assms(1) by (auto split: option.split dest!: first_done_range)
  then show ?thesis unfolding loop_script_def l by (simp add: upto_rec1)
qed

lemma till_done_loop_records:
  assumes "lc_max_iterations cfg = it + 1 + int n"
  shows "returns (recorded run_id s0 tr) (till_done_loop run_id budget cfg results (Suc n) it)
    (\<lambda>out s. recorded run_id s0 (tr @ loop_script results (it + 1) (lc_max_iterations cfg)) s \<and>
       out = loop_outcome results (it + 1) (lc_max_iterations cfg))"
  using assms
proof (induction n arbitrary: it tr)
  case 0
  then have b: "lc_max_iterations cfg = it + 1" by simp
  have fd: "first_done results (it + 1) (it + 1) = None" by (simp add: first_done_def)
  show ?case
    unfolding till_done_loop.simps(2)
    apply (rule returns_bind [OF iteration_body_records])
    using b fd by (auto simp: returns_def prog_simps loop_script_def loop_outcome_def)
next
  case (Suc n)
  let ?b = "lc_max_iterations cfg"
  have lt: "it + 1 < ?b" using Suc.prems by simp
  have ih: "returns (recorded run_id s0 tr') (till_done_loop run_id budget cfg results (Suc n) (it + 1))
    (\<lambda>out s. recorded run_id s0 (tr' @ loop_script results (it + 1 + 1) ?b) s \<and>
       out = loop_outcome results (it + 1 + 1) ?b)" for tr'
    using Suc.IH [of "it + 1" tr'] Suc.prems by (simp only: add.assoc of_nat_Suc)
  show ?case
    unfolding till_done_loop.simps(2) [of run_id budget cfg results "Suc n"]
  proof (rule returns_bind [OF iteration_body_records], unfold iteration_done_count iteration_script_count, goal_cases)
    case (1 out)
    show ?case
    proof (cases "iteration_done (results (it + 1))")
      case True
      have "first_done results (it + 1) ?b = Some (it + 1)" using lt True by (simp add: first_done_step)
      with lt True show ?thesis
        by (auto simp: returns_def prog_simps loop_script_def loop_outcome_def)
    next
      case False
      have "loop_outcome results (it + 1) ?b = loop_outcome results (it + 1 + 1) ?b"
        using lt False by (simp add: loop_outcome_def first_done_step)
      with lt False ih [of "tr @ iteration_script ?b (it + 1) (results (it + 1))"]
      show ?thesis by (auto simp: returns_def loop_script_step simp del: till_done_loop.simps)
    qed
  qed
qed

section \<open>Properties of the loop\<close>

text \<open>
  C11. With a positive bound the loop always ends, without an exception, and writes exactly the
  scripts of iterations 1 to k, consecutively numbered: k is the first iteration below the bound
  whose checks pass without a revised plan, and then the outcome is completed; if there is none
  k is the bound and the outcome is escalated.
\<close>

theorem till_done_writes_script:
  fixes cfg :: loop_config
  defines "bound \<equiv> lc_max_iterations cfg"
  assumes "1 \<le> bound"
  shows "\<exists>s'. run_till_done run_id results (Some cfg) budget s = (Inr (loop_outcome results 1 bound), s') \<and>
    recorded run_id s (loop_script results 1 bound) s'"
proof -
  define n where "n = nat (bound - 1)"
  have n: "nat bound = Suc n" "bound = 0 + 1 + int n" using assms(2) by (simp_all add: n_def)
  have "recorded run_id s [] s" by (simp add: recorded_def)
  from returnsD [OF till_done_loop_records [of cfg 0 n, OF n(2) [unfolded bound_def]] this, of budget results]
  have "\<exists>s'. till_done_loop run_id budget cfg results (nat bound) 0 s = (Inr (loop_outcome results 1 bound), s') \<and>
    recorded run_id s (loop_script results 1 bound) s'"
    unfolding n(1) by (simp add: bound_def del: till_done_loop.simps)
  then show ?thesis by (simp add: run_till_done_def bound_def)
qed

text \<open>
  The last permitted iteration escalates whatever it reports, so a run is completed
  exactly when an earlier iteration is done: with a bound of one no result completes it.
\<close>

theorem till_done_completes_iff:
  assumes "1 \<le> lc_max_iterations cfg"
  shows "fst (run_till_done run_id results (Some cfg) budget s) = Inr loop_completed \<longleftrightarrow>
    (\<exists>i. 1 \<le> i \<and> i < lc_max_iterations cfg \<and> iteration_done (results i))"
proof -
  let ?b = "lc_max_iterations cfg"
  define n where "n = nat (?b - 1)"
  have n: "nat ?b = Suc n" "?b = 0 + 1 + int n" using assms by (simp_all add: n_def)
  have "recorded run_id s [] s" by (simp add: recorded_def)
  from returnsD [OF till_done_loop_records [of cfg 0 n] this, of budget results] n
  have "fst (run_till_done run_id results (Some cfg) budget s) = Inr (loop_outcome results 1 ?b)"
    by (auto simp add: run_till_done_def simp del: till_done_loop.simps)
  moreover have "first_done results 1 ?b = None \<longleftrightarrow> \<not> (\<exists>i \<in> {1..?b - 1}. iteration_done (results i))"
    by (auto simp: first_done_def find_None_iff)
  ultimately show ?thesis by (auto simp: loop_outcome_def loop_completed_def loop_escalated_def)
qed

text \<open>
  The bound on consecutive check failures has no effect at all, and a failed check is
  never recorded as \<open>check_failed\<close>.
\<close>

theorem till_done_ignores_check_failures:
  "run_till_done run_id results (Some (cfg\<lparr>lc_check_failure_max := k\<rparr>)) budget s =
     run_till_done run_id results (Some cfg) budget s \<and>
   mark ''code'' ''check_failed'' \<notin> set (loop_script results lo bound)"
proof -
  have b: "iteration_body run_id budget (cfg\<lparr>lc_check_failure_max := k\<rparr>) = iteration_body run_id budget cfg"
    by (simp add: iteration_body_def fun_eq_iff)
  have "till_done_loop run_id budget (cfg\<lparr>lc_check_failure_max := k\<rparr>) results n it =
      till_done_loop run_id budget cfg results n it" for n it
    by (induction n arbitrary: it) (simp_all add: b cong: option.case_cong)
  moreover have "mark ''code'' ''check_failed'' \<notin> set (loop_script results lo bound)"
    by (auto simp: loop_script_def iteration_script_def)
  ultimately show ?thesis by (simp add: run_till_done_def del: till_done_loop.simps)
qed

section \<open>Properties of the revision catalog\<close>

text \<open>Versions count up from one, no body repeats its predecessor, every revision says why.\<close>

definition catalog_ok :: "revision_catalog \<Rightarrow> bool" where
  "catalog_ok rs \<longleftrightarrow> map pv_version rs = map int [1..<Suc (length rs)] \<and>
     (\<forall>i. Suc i < length rs \<longrightarrow> pv_body (rs ! i) \<noteq> pv_body (rs ! Suc i)) \<and>
     (\<forall>r \<in> set rs. pv_body r \<noteq> [] \<and> pv_rationale r \<noteq> []) \<and> (rs \<noteq> [] \<longrightarrow> pv_diff (hd rs) = [])"

definition accepts_revision :: "revision_catalog \<Rightarrow> string \<Rightarrow> string \<Rightarrow> string \<Rightarrow> bool" where
  "accepts_revision rs body diff rationale \<longleftrightarrow>
     (rs \<noteq> [] \<longrightarrow> body \<noteq> pv_body (last rs)) \<and> body \<noteq> [] \<and> rationale \<noteq> [] \<and> (rs = [] \<longrightarrow> diff = [])"

lemma add_revision_Inr_iff:
  "add_revision now rs body diff rationale = Inr rs' \<longleftrightarrow> accepts_revision rs body diff rationale \<and>
     rs' = rs @ [\<lparr>pv_version = int (length rs) + 1, pv_body = body, pv_diff = diff,
       pv_rationale = rationale, pv_timestamp = now,
       pv_artifact_ref = ''artifact://plan-v'' @ show_int (int (length rs) + 1)\<rparr>]"
  by (auto simp: add_revision_def catalog_latest_def next_version_def make_plan_revision_def
      rbind_Inr_iff accepts_revision_def)

text \<open>
  Adding a revision succeeds exactly when it is not redundant, says what and why, and
  (as the first one) carries no diff; it then extends the history by the next version and
  keeps the catalog's invariant. Otherwise it is a \<open>ValueError\<close>.
\<close>

theorem add_revision_extends:
  assumes "catalog_ok rs"
  shows "case add_revision now rs body diff rationale of
      Inr rs' \<Rightarrow> accepts_revision rs body diff rationale \<and> catalog_ok rs' \<and> butlast rs' = rs \<and>
        pv_version (last rs') = int (length rs) + 1 \<and> pv_body (last rs') = body
    | Inl x \<Rightarrow> \<not> accepts_revision rs body diff rationale \<and> (\<exists>m. x = ValueError m)"
proof (cases "add_revision now rs body diff rationale")
  case (Inl x)
  then have "\<not> accepts_revision rs body diff rationale" by (metis add_revision_Inr_iff sum.distinct(1))
  moreover have "\<exists>m. x = ValueError m"
    using Inl by (auto simp: add_revision_def make_plan_revision_def rbind_Inl_iff ensure_def
        split: option.splits if_splits)
  ultimately show ?thesis using Inl by simp
next
  case (Inr rs')
  let ?r = "\<lparr>pv_version = int (length rs) + 1, pv_body = body, pv_diff = diff,
       pv_rationale = rationale, pv_timestamp = now,
       pv_artifact_ref = ''artifact://plan-v'' @ show_int (int (length rs) + 1)\<rparr>"
  from Inr have acc: "accepts_revision rs body diff rationale" and rs': "rs' = rs @ [?r]"
    by (simp_all add: add_revision_Inr_iff)
  have "pv_body ((rs @ [?r]) ! i) \<noteq> pv_body ((rs @ [?r]) ! Suc i)" if "Suc i < length (rs @ [?r])" for i
  proof (cases "Suc i < length rs")
    case True
    then show ?thesis using assms by (simp add: catalog_ok_def nth_append)
  next
    case False
    with that have "Suc i = length rs" "rs \<noteq> []" by auto
    then have "i = length rs - 1" by simp
    with \<open>Suc i = length rs\<close> \<open>rs \<noteq> []\<close> acc show ?thesis
      by (auto simp: nth_append last_conv_nth accepts_revision_def)
  qed
  with assms acc have "catalog_ok rs'"
    by (auto simp: catalog_ok_def rs' accepts_revision_def hd_append)
  with Inr acc show ?thesis by (simp add: rs')
qed

section \<open>Witnesses\<close>

definition demo_results :: "int \<Rightarrow> iteration_result" where
  "demo_results i = \<lparr>ir_plan_artifact_id = ''artifact://p'', ir_check_passed = (2 \<le> i),
     ir_changes_applied = True, ir_plan_revised = (i = 1), ir_iteration_count = 0, ir_plan_body = ''b'',
     ir_plan_diff = [], ir_plan_rationale = ''r''\<rparr>"

definition demo_stream :: stream where
  "demo_stream = \<lparr>st_events = [], st_clock = int, st_ticks = 0\<rparr>"

theorem till_done_writes_script_witness:
  "\<exists>s'. run_till_done ''r'' demo_results (Some default_config) None demo_stream =
      (Inr loop_completed, s') \<and> length (st_events s') = 17"
proof -
  have b: "1 \<le> lc_max_iterations default_config" by (simp add: default_config_def)
  have v: "loop_outcome demo_results 1 (lc_max_iterations default_config) = loop_completed"
    "length (loop_script demo_results 1 (lc_max_iterations default_config)) = 17"
    by code_simp+
  obtain s' where s': "run_till_done ''r'' demo_results (Some default_config) None demo_stream =
      (Inr loop_completed, s')"
    "recorded ''r'' demo_stream (loop_script demo_results 1 (lc_max_iterations default_config)) s'"
    using till_done_writes_script [OF b, of "''r''" demo_results None demo_stream] v(1) by auto
  from s'(2) have "length (st_events s') = 17"
    using v(2) by (auto simp: recorded_def demo_stream_def dest!: arg_cong [where f = length])
  with s'(1) show ?thesis by blast
qed

theorem till_done_completes_iff_witness:
  "fst (run_till_done ''r'' demo_results (Some (default_config\<lparr>lc_max_iterations := 1\<rparr>)) None demo_stream) \<noteq>
    Inr loop_completed"
  using till_done_completes_iff [of "default_config\<lparr>lc_max_iterations := 1\<rparr>"] by simp

theorem add_revision_extends_witness:
  "case add_revision (Aware 0 0) [] ''plan'' [] ''why'' of
     Inr rs \<Rightarrow> catalog_ok rs | Inl _ \<Rightarrow> False"
proof -
  have "catalog_ok []" by (simp add: catalog_ok_def)
  from add_revision_extends [OF this, where now = "Aware 0 0" and body = "''plan''" and diff = "[]"
    and rationale = "''why''"] show ?thesis
    by (auto simp: accepts_revision_def split: sum.splits)
qed

end
