(* ===== verification/Manifest.thy ===== *)
theory Manifest
  imports Policy
begin

text \<open>
  The workspace manifest of RT-001 (domain/manifest/manifest.py and the value types beside it)
  and its validation rules (domain/manifest/validation.py). \<open>os.path.normpath\<close> and the
  component view of \<open>PurePosixPath\<close> are modelled as the standard library defines them on POSIX.
\<close>

section \<open>The manifest\<close>

datatype input_kind = InFile | InDirectory | InArtifact | InBundle | InMemoryExport | InKnowledgeExport

record input_mount =
  im_name :: string
  im_kind :: input_kind
  im_source_ref :: string
  im_target_path :: string
  im_read_only :: bool
  im_required :: bool
  im_description :: "string option"

datatype writable_purpose = TaskScratch | DeclaredOutput | Cache | CheckoutCopy
datatype retention = Ephemeral | RunRetained | ArtifactPromoted

record writable_path =
  wp_path :: string
  wp_purpose :: writable_purpose
  wp_max_size_mb :: "int option"
  wp_retention :: "retention option"

datatype output_kind = OutFile | OutDirectory | OutJson | OutLog | OutPatchSet | OutReport

record output_contract =
  oc_name :: string
  oc_path :: string
  oc_kind :: output_kind
  oc_required :: bool
  oc_promote_to_artifact :: bool
  oc_description :: "string option"

datatype network_mode = NetDeny | NetAllowlist | NetProfileDefault
datatype network_scheme = Https | Http | Ssh | Tcp

record network_rule =
  nr_host_pattern :: string
  nr_purpose :: string
  nr_port :: "int option"
  nr_scheme :: "network_scheme option"

record network_policy =
  np_mode :: network_mode
  np_allow :: "network_rule list"
  np_deny :: "string list"

datatype secret_mode = SecretNone | Brokered | EnvMounted
datatype redaction_level = RedactFull | NamesOnly | RedactNone

record secret_scope =
  ss_mode :: secret_mode
  ss_allowed_secret_refs :: "string list"
  ss_mount_env :: "string list"
  ss_redaction_level :: redaction_level

record snapshot_policy =
  sp_on_start :: bool
  sp_on_completion :: bool
  sp_on_failure :: bool
  sp_before_destructive_actions :: bool
  sp_max_snapshots :: "int option"
  sp_include_paths :: "string list"
  sp_exclude_paths :: "string list"

record manifest =
  mf_run_id :: string
  mf_inputs :: "input_mount list"
  mf_writable_paths :: "writable_path list"
  mf_outputs :: "output_contract list"
  mf_network_policy :: network_policy
  mf_tool_policy :: tool_policy
  mf_secret_scope :: secret_scope
  mf_snapshot_policy :: snapshot_policy

section \<open>Paths\<close>

text \<open>\<open>path.split('/')\<close>\<close>

fun split_slash :: "string \<Rightarrow> string list" where
  "split_slash [] = [[]]"
| "split_slash (c # s) =
     (if c = CHR ''/'' then [] # split_slash s
      else (case split_slash s of [] \<Rightarrow> [[c]] | p # ps \<Rightarrow> (c # p) # ps))"

text \<open>POSIX keeps exactly two leading slashes; one or more than two count as one.\<close>

definition leading_slashes :: "string \<Rightarrow> string" where
  "leading_slashes s =
     (if \<not> starts_with s ''/'' then []
      else if starts_with s ''//'' \<and> \<not> starts_with s ''///'' then ''//'' else ''/'')"

definition norm_comp :: "bool \<Rightarrow> string list \<Rightarrow> string \<Rightarrow> string list" where
  "norm_comp rooted new_comps part =
     (if part = [] \<or> part = ''.'' then new_comps
      else if part \<noteq> ''..'' \<or> (\<not> rooted \<and> new_comps = []) \<or>
              (new_comps \<noteq> [] \<and> last new_comps = ''..'')
      then new_comps @ [part]
      else if new_comps \<noteq> [] then butlast new_comps else new_comps)"

definition normpath :: "string \<Rightarrow> string" where
  "normpath path =
     (if path = [] then ''.''
      else (let root = leading_slashes path;
                comps = foldl (norm_comp (root \<noteq> [])) [] (split_slash path);
                res = root @ join ''/'' comps in
            if res = [] then ''.'' else res))"

definition is_absolute_normalized :: "string \<Rightarrow> bool" where
  "is_absolute_normalized path \<longleftrightarrow> starts_with path ''/'' \<and> path = normpath path"

definition path_parts :: "string \<Rightarrow> string list" where
  "path_parts path = filter (\<lambda>c. c \<noteq> [] \<and> c \<noteq> ''.'') (split_slash path)"

definition pure_path :: "string \<Rightarrow> string \<times> string list" where
  "pure_path path = (leading_slashes path, path_parts path)"

fun is_prefix :: "'a list \<Rightarrow> 'a list \<Rightarrow> bool" where
  "is_prefix [] ys = True"
| "is_prefix (x # xs) [] = False"
| "is_prefix (x # xs) (y # ys) = (x = y \<and> is_prefix xs ys)"

text \<open>\<open>p.relative_to(q)\<close>, of which the code uses only whether it raises.\<close>

definition relative_to :: "string \<times> string list \<Rightarrow> string \<times> string list \<Rightarrow> exc + unit" where
  "relative_to p q = ensure (fst q = fst p \<and> is_prefix (snd q) (snd p))
     (ValueError ''not in the subpath'')"

text \<open>\<open>try: a except ValueError: b\<close>\<close>

definition except_value_error :: "exc + 'a \<Rightarrow> exc + 'a \<Rightarrow> exc + 'a" where
  "except_value_error a b = (case a of Inl (ValueError _) \<Rightarrow> b | _ \<Rightarrow> a)"

section \<open>Validation\<close>

fun is_inside_any :: "string \<Rightarrow> writable_path list \<Rightarrow> bool" where
  "is_inside_any path [] = False"
| "is_inside_any path (wp # wps) =
     (case relative_to (pure_path path) (pure_path (wp_path wp)) of
        Inr _ \<Rightarrow> True | Inl _ \<Rightarrow> is_inside_any path wps)"

definition identical_grant :: "writable_path \<Rightarrow> writable_path \<Rightarrow> bool" where
  "identical_grant a b \<longleftrightarrow> wp_purpose a = wp_purpose b \<and> wp_max_size_mb a = wp_max_size_mb b \<and>
     wp_retention a = wp_retention b"

definition overlap_error :: exc where
  "overlap_error = ValueError ''writable paths overlap with different grants''"

definition check_overlap :: "writable_path \<Rightarrow> writable_path \<Rightarrow> exc + unit" where
  "check_overlap wp_a wp_b =
     (let path_a = pure_path (wp_path wp_a); path_b = pure_path (wp_path wp_b) in
      except_value_error
        (rbind (relative_to path_b path_a) (\<lambda>_.
           if identical_grant wp_a wp_b then Inr () else Inl overlap_error))
        (except_value_error
          (rbind (relative_to path_a path_b) (\<lambda>_.
             if identical_grant wp_b wp_a then Inr () else Inl overlap_error))
          (Inr ())))"

definition validate_writable_overlaps :: "writable_path list \<Rightarrow> exc + unit" where
  "validate_writable_overlaps wps =
     reach (\<lambda>i. reach (\<lambda>j. if j \<le> i then Inr () else check_overlap (wps ! i) (wps ! j))
        [0..<length wps]) [0..<length wps]"

fun check_duplicates :: "string list \<Rightarrow> input_mount list \<Rightarrow> exc + unit" where
  "check_duplicates seen [] = Inr ()"
| "check_duplicates seen (inp # inps) =
     (if im_target_path inp \<in> set seen then Inl (ValueError ''duplicate input target_path'')
      else check_duplicates (im_target_path inp # seen) inps)"

definition validate_manifest :: "manifest \<Rightarrow> exc + unit" where
  "validate_manifest m =
     rbind (reach (\<lambda>i. ensure (is_absolute_normalized (im_target_path i))
       (ValueError ''input target_path must be absolute and normalized'')) (mf_inputs m)) (\<lambda>_.
     rbind (reach (\<lambda>w. ensure (is_absolute_normalized (wp_path w))
       (ValueError ''writable_path must be absolute and normalized'')) (mf_writable_paths m)) (\<lambda>_.
     rbind (reach (\<lambda>k. ensure (is_absolute_normalized (oc_path k))
       (ValueError ''output path must be absolute and normalized'')) (mf_outputs m)) (\<lambda>_.
     rbind (check_duplicates [] (mf_inputs m)) (\<lambda>_.
     rbind (reach (\<lambda>k. ensure (is_inside_any (oc_path k) (mf_writable_paths m))
       (ValueError ''output path is not inside any writable_path'')) (mf_outputs m)) (\<lambda>_.
     rbind (ensure (\<not> (np_mode (mf_network_policy m) = NetAllowlist \<and>
                        np_allow (mf_network_policy m) = []))
       (ValueError ''allowlist with empty allow list is ambiguous'')) (\<lambda>_.
     rbind (ensure (np_mode (mf_network_policy m) \<noteq> NetProfileDefault)
       (ValueError ''profile-default must be normalized'')) (\<lambda>_.
     validate_writable_overlaps (mf_writable_paths m))))))))"

section \<open>Normal forms of paths\<close>

text \<open>A component that names a directory or file, not a step through the tree.\<close>

definition plain_comp :: "string \<Rightarrow> bool" where
  "plain_comp c \<longleftrightarrow> c \<noteq> [] \<and> c \<noteq> ''.'' \<and> c \<noteq> ''..'' \<and> CHR ''/'' \<notin> set c"

lemma split_slash_not_Nil [simp]: "split_slash s \<noteq> []"
  by (cases s) (auto split: list.split)

lemma split_slash_free: "c \<in> set (split_slash s) \<Longrightarrow> CHR ''/'' \<notin> set c"
  by (induction s arbitrary: c) (auto split: if_splits list.splits)

lemma split_slash_comp: "CHR ''/'' \<notin> set c \<Longrightarrow> split_slash c = [c]"
  by (induction c) auto

lemma split_slash_append: "CHR ''/'' \<notin> set c \<Longrightarrow> split_slash (c @ CHR ''/'' # s) = c # split_slash s"
  by (induction c) auto

lemma split_join: "cs \<noteq> [] \<Longrightarrow> \<forall>c \<in> set cs. CHR ''/'' \<notin> set c \<Longrightarrow> split_slash (join ''/'' cs) = cs"
  by (induction cs rule: induct_list012) (auto simp: split_slash_comp split_slash_append)

lemma norm_comp_plain:
  assumes "\<forall>c \<in> set acc. plain_comp c" "CHR ''/'' \<notin> set x"
  shows "\<forall>c \<in> set (norm_comp True acc x). plain_comp c"
proof -
  have "\<forall>c \<in> set (butlast acc). plain_comp c" using assms(1) by (meson in_set_butlastD)
  moreover have "acc \<noteq> [] \<Longrightarrow> last acc \<noteq> ''..''" using assms(1) by (force simp: plain_comp_def)
  ultimately show ?thesis using assms by (auto simp: norm_comp_def) (auto simp: plain_comp_def)
qed

lemma normalized_comps_plain:
  "\<forall>x \<in> set xs. CHR ''/'' \<notin> set x \<Longrightarrow> \<forall>c \<in> set acc. plain_comp c \<Longrightarrow>
   \<forall>c \<in> set (foldl (norm_comp True) acc xs). plain_comp c"
proof (induction xs arbitrary: acc)
  case (Cons x xs)
  have "\<forall>c \<in> set (norm_comp True acc x). plain_comp c" using Cons.prems by (intro norm_comp_plain) auto
  with Cons show ?case by simp
qed simp

lemma fold_plain: "\<forall>c \<in> set cs. plain_comp c \<Longrightarrow> foldl (norm_comp r) acc cs = acc @ cs"
  by (induction cs arbitrary: acc) (auto simp: norm_comp_def plain_comp_def)

lemma normpath_abs:
  assumes "starts_with p ''/''"
  shows "\<exists>cs. normpath p = leading_slashes p @ join ''/'' cs \<and> (\<forall>c \<in> set cs. plain_comp c)"
proof -
  have r: "leading_slashes p \<noteq> []" "p \<noteq> []" using assms by (auto simp: leading_slashes_def)
  let ?cs = "foldl (norm_comp True) [] (split_slash p)"
  have "\<forall>c \<in> set ?cs. plain_comp c"
    by (rule normalized_comps_plain) (auto dest: split_slash_free)
  with r show ?thesis by (auto simp: normpath_def Let_def intro: exI [of _ ?cs])
qed

lemma join_head:
  assumes "\<forall>c \<in> set cs. plain_comp c"
  shows "\<not> starts_with (join ''/'' cs) ''/''"
proof (cases cs)
  case (Cons c cs')
  with assms obtain x xs where c: "c = x # xs" "x \<noteq> CHR ''/''" by (cases c) (auto simp: plain_comp_def)
  with Cons show ?thesis by (cases cs') simp_all
qed simp

lemma leading_slashes_normal:
  assumes "root \<in> {''/'', ''//''}" "\<not> starts_with s ''/''"
  shows "leading_slashes (root @ s) = root"
  using assms by (cases s) (auto simp: leading_slashes_def)

lemma split_root:
  "root \<in> {''/'', ''//''} \<Longrightarrow> \<exists>e. split_slash (root @ s) = e @ split_slash s \<and> (\<forall>x \<in> set e. x = [])"
  by (auto intro: exI [of _ "[[]]"] exI [of _ "[[], []]"])

lemma fold_empties: "\<forall>x \<in> set e. x = [] \<Longrightarrow> foldl (norm_comp r) acc (e @ xs) = foldl (norm_comp r) acc xs"
  by (induction e) (simp_all add: norm_comp_def)

text \<open>
  A path is accepted as absolute and normalized exactly when it is one or two slashes followed
  by plain components: no empty, \<open>.\<close> or \<open>..\<close> component survives.
\<close>

lemma normalized_iff:
  "is_absolute_normalized p \<longleftrightarrow>
     (\<exists>root cs. p = root @ join ''/'' cs \<and> root \<in> {''/'', ''//''} \<and> (\<forall>c \<in> set cs. plain_comp c))"
proof
  assume a: "is_absolute_normalized p"
  then obtain cs where "p = leading_slashes p @ join ''/'' cs" "\<forall>c \<in> set cs. plain_comp c"
    using normpath_abs by (metis is_absolute_normalized_def)
  moreover have "leading_slashes p \<in> {''/'', ''//''}"
    using a by (simp add: leading_slashes_def is_absolute_normalized_def)
  ultimately show "\<exists>root cs. p = root @ join ''/'' cs \<and> root \<in> {''/'', ''//''} \<and> (\<forall>c \<in> set cs. plain_comp c)"
    by blast
next
  assume "\<exists>root cs. p = root @ join ''/'' cs \<and> root \<in> {''/'', ''//''} \<and> (\<forall>c \<in> set cs. plain_comp c)"
  then obtain root cs where p: "p = root @ join ''/'' cs" and root: "root \<in> {''/'', ''//''}"
    and cs: "\<forall>c \<in> set cs. plain_comp c" by blast
  have ls: "leading_slashes p = root" unfolding p by (rule leading_slashes_normal [OF root join_head [OF cs]])
  obtain e where e: "split_slash p = e @ split_slash (join ''/'' cs)" "\<forall>x \<in> set e. x = []"
    using split_root [OF root] p by blast
  have "foldl (norm_comp True) [] (split_slash (join ''/'' cs)) = cs"
  proof (cases "cs = []")
    case True
    then show ?thesis by (simp add: norm_comp_def)
  next
    case False
    moreover have "\<forall>c \<in> set cs. CHR ''/'' \<notin> set c" using cs by (simp add: plain_comp_def)
    ultimately show ?thesis using fold_plain [OF cs] by (simp add: split_join)
  qed
  then have f: "foldl (norm_comp True) [] (split_slash p) = cs" by (simp only: e(1) fold_empties [OF e(2)])
  have "p \<noteq> []" "root \<noteq> []" using root by (auto simp: p)
  then have "normpath p = root @ join ''/'' cs" by (simp add: normpath_def Let_def ls f)
  with p root show "is_absolute_normalized p" by (auto simp: is_absolute_normalized_def)
qed

lemma pure_path_normal:
  assumes "root \<in> {''/'', ''//''}" "\<forall>c \<in> set cs. plain_comp c"
  shows "pure_path (root @ join ''/'' cs) = (root, cs)"
proof -
  obtain e where e: "split_slash (root @ join ''/'' cs) = e @ split_slash (join ''/'' cs)" "\<forall>x \<in> set e. x = []"
    using split_root [OF assms(1)] by blast
  have "filter (\<lambda>c. c \<noteq> [] \<and> c \<noteq> ''.'') (split_slash (join ''/'' cs)) = cs"
  proof (cases "cs = []")
    case False
    moreover have "\<forall>c \<in> set cs. CHR ''/'' \<notin> set c" using assms(2) by (simp add: plain_comp_def)
    ultimately show ?thesis using assms(2) by (auto simp: split_join filter_id_conv plain_comp_def)
  qed simp
  moreover have "filter (\<lambda>c. c \<noteq> [] \<and> c \<noteq> ''.'') e = []" using e(2) by (auto simp: filter_empty_conv)
  ultimately show ?thesis
    using leading_slashes_normal [OF assms(1) join_head [OF assms(2)]] by (simp add: pure_path_def path_parts_def e)
qed

section \<open>What validation accepts\<close>

lemma is_prefix_iff: "is_prefix xs ys \<longleftrightarrow> (\<exists>zs. ys = xs @ zs)"
  by (induction xs ys rule: is_prefix.induct) auto

lemma relative_to_Inr_iff:
  "relative_to p q = Inr u \<longleftrightarrow> fst q = fst p \<and> is_prefix (snd q) (snd p)"
  by (simp add: relative_to_def)

lemma is_inside_any_iff:
  "is_inside_any path wps \<longleftrightarrow> (\<exists>wp \<in> set wps. fst (pure_path (wp_path wp)) = fst (pure_path path) \<and>
     is_prefix (snd (pure_path (wp_path wp))) (snd (pure_path path)))"
proof (induction wps)
  case (Cons wp wps)
  then show ?case
    by (cases "relative_to (pure_path path) (pure_path (wp_path wp))")
      (auto simp: relative_to_def ensure_def split: if_splits)
qed simp

lemma check_duplicates_iff:
  "check_duplicates seen inps = Inr u \<longleftrightarrow>
     distinct (map im_target_path inps) \<and> set (map im_target_path inps) \<inter> set seen = {}"
  by (induction inps arbitrary: seen) auto

lemma check_overlap_accepts: "check_overlap a b = Inr ()"
proof -
  have v: "except_value_error r (Inr ()) = Inr ()" if "r = Inr () \<or> (\<exists>m. r = Inl (ValueError m))"
    for r :: "exc + unit" using that by (auto simp: except_value_error_def)
  have r: "relative_to p q = Inr () \<or> (\<exists>m. relative_to p q = Inl (ValueError m))" for p q
    by (auto simp: relative_to_def ensure_def)
  let ?pa = "pure_path (wp_path a)" and ?pb = "pure_path (wp_path b)"
  have inner: "except_value_error (rbind (relative_to ?pa ?pb) (\<lambda>_.
      if identical_grant b a then Inr () else Inl overlap_error)) (Inr ()) = Inr ()"
    using r [of ?pa ?pb] by (intro v) (auto simp: overlap_error_def)
  show ?thesis
    using r [of ?pb ?pa] unfolding check_overlap_def Let_def inner
    by (intro v) (auto simp: overlap_error_def)
qed

lemma overlaps_accepted: "validate_writable_overlaps wps = Inr ()"
  by (simp add: validate_writable_overlaps_def reach_Inr_iff check_overlap_accepts)

text \<open>
  Overlapping writable paths with different grants are never rejected: the error the check
  raises is swallowed by its own handler, so it accepts every list of paths.
\<close>

theorem overlaps_never_rejected:
  "validate_writable_overlaps wps = Inr ()"
  by (rule overlaps_accepted)

definition paths_of :: "manifest \<Rightarrow> string list" where
  "paths_of m = map im_target_path (mf_inputs m) @ map wp_path (mf_writable_paths m) @ map oc_path (mf_outputs m)"

text \<open>The check reads neither the snapshot policy nor the names of outputs.\<close>

lemma snapshots_unchecked: "validate_manifest (m\<lparr>mf_snapshot_policy := s\<rparr>) = validate_manifest m"
  by (simp add: validate_manifest_def)

lemma names_unchecked:
  fixes m :: manifest
  shows "validate_manifest (m\<lparr>mf_outputs := map (oc_name_update (\<lambda>_. n)) (mf_outputs m)\<rparr>) = validate_manifest m"
proof -
  have "reach f (map g ks) = reach (f \<circ> g) ks" for f and g :: "output_contract \<Rightarrow> output_contract" and ks
    by (induction ks) simp_all
  then show ?thesis by (simp add: validate_manifest_def comp_def)
qed

text \<open>
  C18. A manifest is accepted exactly when every path in it consists of a root and plain
  components, input targets are distinct, every output lies component-wise under a writable
  path and the network policy is a deny or a non-empty allowlist. That is less than RT-001 asks: names
  of inputs or outputs may repeat, snapshot paths may be relative or lie outside every input and
  writable path, and writable paths may overlap with different grants (lemmas names\_unchecked, snapshots\_unchecked and
  overlaps\_accepted). Also,
  no code of the repository calls the check.
\<close>

theorem validate_manifest_accepts:
  "validate_manifest m = Inr () \<longleftrightarrow>
     (\<forall>p \<in> set (paths_of m). \<exists>root cs. p = root @ join ''/'' cs \<and> root \<in> {''/'', ''//''} \<and>
        (\<forall>c \<in> set cs. plain_comp c)) \<and>
     distinct (map im_target_path (mf_inputs m)) \<and>
     (\<forall>k \<in> set (mf_outputs m). \<exists>w \<in> set (mf_writable_paths m).
        fst (pure_path (wp_path w)) = fst (pure_path (oc_path k)) \<and>
        (\<exists>rest. snd (pure_path (oc_path k)) = snd (pure_path (wp_path w)) @ rest)) \<and>
     (np_mode (mf_network_policy m) = NetDeny \<or>
      np_mode (mf_network_policy m) = NetAllowlist \<and> np_allow (mf_network_policy m) \<noteq> [])"
proof -
  have paths: "(\<forall>p \<in> set (paths_of m). P p) \<longleftrightarrow> (\<forall>i \<in> set (mf_inputs m). P (im_target_path i)) \<and>
      (\<forall>w \<in> set (mf_writable_paths m). P (wp_path w)) \<and> (\<forall>k \<in> set (mf_outputs m). P (oc_path k))" for P
    by (auto simp: paths_of_def)
  have net: "(mode = NetAllowlist \<longrightarrow> allow \<noteq> []) \<and> mode \<noteq> NetProfileDefault \<longleftrightarrow>
      mode = NetDeny \<or> mode = NetAllowlist \<and> allow \<noteq> []" for mode and allow :: "network_rule list"
    by (cases mode) auto
  show ?thesis
    unfolding validate_manifest_def rbind_Inr_iff reach_Inr_iff ensure_Inr_iff check_duplicates_iff
      overlaps_accepted is_inside_any_iff is_prefix_iff normalized_iff paths net [symmetric]
    by auto
qed

section \<open>A manifest for the witnesses\<close>

definition demo_manifest :: manifest where
  "demo_manifest = \<lparr>mf_run_id = ''r1'', mf_inputs = [],
     mf_writable_paths = [\<lparr>wp_path = ''/work'', wp_purpose = TaskScratch, wp_max_size_mb = None, wp_retention = None\<rparr>],
     mf_outputs = [\<lparr>oc_name = ''plan'', oc_path = ''/work/out/plan'', oc_kind = OutReport, oc_required = True,
       oc_promote_to_artifact = True, oc_description = None\<rparr>],
     mf_network_policy = \<lparr>np_mode = NetDeny, np_allow = [], np_deny = []\<rparr>,
     mf_tool_policy = \<lparr>tp_preset = Ask, tp_rules = [], tp_default_decision = ApprovalRequired\<rparr>,
     mf_secret_scope = \<lparr>ss_mode = SecretNone, ss_allowed_secret_refs = [], ss_mount_env = [],
       ss_redaction_level = RedactFull\<rparr>,
     mf_snapshot_policy = \<lparr>sp_on_start = False, sp_on_completion = True, sp_on_failure = True,
       sp_before_destructive_actions = True, sp_max_snapshots = None, sp_include_paths = [], sp_exclude_paths = []\<rparr>\<rparr>"

theorem validate_manifest_accepts_witness:
  "\<exists>rest. snd (pure_path ''/work/out/plan'') = snd (pure_path ''/work'') @ rest"
proof -
  have "validate_manifest demo_manifest = Inr ()" by code_simp
  then show ?thesis
    unfolding validate_manifest_accepts by (simp add: demo_manifest_def)
qed

end
