(* ===== verification/Delegation.thy ===== *)
theory Delegation
  imports Manifest Handoff Store Milestones
begin

text \<open>
  Delegating work to a child run: the narrowing check (domain/delegation/narrowing.py), the
  envelope (domain/delegation/envelope.py), the EA handoff helper (domain/delegation/handoff.py),
  the coding handoff routine (services/orchestration/coding_handoff.py) and the dispatcher's
  packages (services/orchestration/dispatcher_workflow.py).
\<close>

section \<open>Narrowing\<close>

definition narrow_writable_paths :: "manifest \<Rightarrow> manifest \<Rightarrow> exc + unit" where
  "narrow_writable_paths parent child =
     ensure (set (map wp_path (mf_writable_paths child)) \<subseteq> set (map wp_path (mf_writable_paths parent)))
       (DelegationWideningError ''writable_paths'')"

definition narrow_network_policy :: "manifest \<Rightarrow> manifest \<Rightarrow> exc + unit" where
  "narrow_network_policy parent child =
     (if np_mode (mf_network_policy parent) = NetAllowlist
      then ensure (set (map nr_host_pattern (np_allow (mf_network_policy child))) \<subseteq>
                   set (map nr_host_pattern (np_allow (mf_network_policy parent))))
             (DelegationWideningError ''network_policy'')
      else Inr ())"

fun preset_order :: "policy_preset \<Rightarrow> int" where
  "preset_order Yolo = 3"
| "preset_order Ask = 2"
| "preset_order Allowlist = 1"
| "preset_order Custom = 0"

definition narrow_tool_policy :: "manifest \<Rightarrow> manifest \<Rightarrow> exc + unit" where
  "narrow_tool_policy parent child =
     ensure (\<not> preset_order (tp_preset (mf_tool_policy parent)) < preset_order (tp_preset (mf_tool_policy child)))
       (DelegationWideningError ''tool_policy'')"

definition narrow_secret_scope :: "manifest \<Rightarrow> manifest \<Rightarrow> exc + unit" where
  "narrow_secret_scope parent child =
     ensure (set (ss_allowed_secret_refs (mf_secret_scope child)) \<subseteq>
             set (ss_allowed_secret_refs (mf_secret_scope parent)))
       (DelegationWideningError ''secret_scope'')"

definition narrow_manifest :: "manifest \<Rightarrow> manifest \<Rightarrow> exc + unit" where
  "narrow_manifest parent child =
     rbind (narrow_writable_paths parent child) (\<lambda>_.
     rbind (narrow_network_policy parent child) (\<lambda>_.
     rbind (narrow_tool_policy parent child) (\<lambda>_.
     narrow_secret_scope parent child)))"

section \<open>Envelopes\<close>

record envelope =
  en_id :: string
  en_parent_run_id :: string
  en_child_manifest :: manifest
  en_brief :: string
  en_expected_outputs :: "string list"
  en_created_at :: datetime

text \<open>\<open>default_created_at\<close> is the time the module was imported.\<close>

definition make_envelope ::
  "datetime \<Rightarrow> string \<Rightarrow> manifest \<Rightarrow> string \<Rightarrow> string list \<Rightarrow> envelope" where
  "make_envelope default_created_at parent_run_id child_manifest brief expected_outputs =
     \<lparr>en_id = ''del-'' @ parent_run_id @ ''-1'', en_parent_run_id = parent_run_id,
      en_child_manifest = child_manifest, en_brief = brief, en_expected_outputs = expected_outputs,
      en_created_at = default_created_at\<rparr>"

section \<open>Handoff contexts and briefs\<close>

definition valid_checkpoints :: "string list" where
  "valid_checkpoints = [''plan-approved'', ''implementation-complete'', ''review-found-issues'']"

text \<open>An artifact context maps names to the text of their values.\<close>

record handoff_context =
  hc_objective :: string
  hc_constraints :: "string list"
  hc_non_goals :: "string list"
  hc_acceptance_criteria :: "string list"
  hc_artifact_context :: "(string \<times> string) list option"

record handback_record =
  hb_checkpoint :: string
  hb_summary :: string
  hb_timestamp :: datetime

definition newline :: string where "newline = [CHR 0x0A]"

definition bullet_section :: "string \<Rightarrow> string list \<Rightarrow> string list" where
  "bullet_section title items =
     (if items \<noteq> [] then [title @ newline @ join newline (map (\<lambda>i. ''- '' @ i) items)] else [])"

definition format_brief :: "string \<Rightarrow> handoff_context \<Rightarrow> string" where
  "format_brief heading ctx =
     join (newline @ newline)
       ([heading @ hc_objective ctx] @
        bullet_section ''Constraints:'' (hc_constraints ctx) @
        bullet_section ''Non-goals:'' (hc_non_goals ctx) @
        bullet_section ''Acceptance criteria:'' (hc_acceptance_criteria ctx) @
        (case hc_artifact_context ctx of
           None \<Rightarrow> []
         | Some items \<Rightarrow> bullet_section ''Artifact context:''
             (map (\<lambda>(k, v). k @ '': '' @ v) (sort_key fst items))))"

definition format_handoff_brief :: "handoff_context \<Rightarrow> string" where
  "format_handoff_brief = format_brief ''EA handoff: ''"

definition format_coding_brief :: "handoff_context \<Rightarrow> string" where
  "format_coding_brief = format_brief ''Coding handoff: ''"

section \<open>The EA handoff helper\<close>

text \<open>The helper's own fields beside the store; \<open>hh_events\<close> tells whether a repository was given.\<close>

record helper =
  hh_world :: world
  hh_parent_run_id :: string
  hh_events :: bool
  hh_records :: "handback_record list"
  hh_envelope :: "envelope option"
  hh_ctx :: "handoff_context option"
  hh_parent_manifest :: "manifest option"

definition on_store :: "(world, 'a) prog \<Rightarrow> (helper, 'a) prog" where
  "on_store m h = (case m (hh_world h) of (r, w') \<Rightarrow> (r, h\<lparr>hh_world := w'\<rparr>))"

definition set_parent_manifest :: "manifest \<Rightarrow> (helper, unit) prog" where
  "set_parent_manifest m = modify (\<lambda>h. h\<lparr>hh_parent_manifest := Some m\<rparr>)"

definition build_context ::
  "string \<Rightarrow> string list option \<Rightarrow> string list option \<Rightarrow> string list option
   \<Rightarrow> (string \<times> string) list option \<Rightarrow> (helper, handoff_context) prog" where
  "build_context objective constraints non_goals criteria artifacts =
     (let ctx = \<lparr>hc_objective = objective,
          hc_constraints = (case constraints of None \<Rightarrow> [] | Some v \<Rightarrow> v),
          hc_non_goals = (case non_goals of None \<Rightarrow> [] | Some v \<Rightarrow> v),
          hc_acceptance_criteria = (case criteria of None \<Rightarrow> [] | Some v \<Rightarrow> v),
          hc_artifact_context = artifacts\<rparr> in
      andthen (modify (\<lambda>h. h\<lparr>hh_ctx := Some ctx\<rparr>)) (ret ctx))"

definition placeholder_manifest :: "string list \<Rightarrow> (world, manifest) prog" where
  "placeholder_manifest expected_outputs = bind uuid_hex (\<lambda>hex. ret
     \<lparr>mf_run_id = ''run-placeholder-'' @ take 8 hex, mf_inputs = [],
      mf_writable_paths = [\<lparr>wp_path = ''/tmp'', wp_purpose = TaskScratch, wp_max_size_mb = None,
        wp_retention = None\<rparr>],
      mf_outputs = map (\<lambda>name. \<lparr>oc_name = name, oc_path = ''/tmp/'' @ name, oc_kind = OutReport,
        oc_required = True, oc_promote_to_artifact = True, oc_description = None\<rparr>) expected_outputs,
      mf_network_policy = \<lparr>np_mode = NetDeny, np_allow = [], np_deny = []\<rparr>,
      mf_tool_policy = \<lparr>tp_preset = Yolo, tp_rules = [], tp_default_decision = AutoAllow\<rparr>,
      mf_secret_scope = \<lparr>ss_mode = SecretNone, ss_allowed_secret_refs = [], ss_mount_env = [],
        ss_redaction_level = RedactFull\<rparr>,
      mf_snapshot_policy = \<lparr>sp_on_start = False, sp_on_completion = False, sp_on_failure = False,
        sp_before_destructive_actions = True, sp_max_snapshots = Some 10, sp_include_paths = [],
        sp_exclude_paths = []\<rparr>\<rparr>)"

definition resolve_child_manifest :: "string list \<Rightarrow> (helper, manifest) prog" where
  "resolve_child_manifest expected_outputs =
     bind (gets hh_parent_manifest) (\<lambda>p. case p of
       Some parent \<Rightarrow>
         bind (on_store uuid_hex) (\<lambda>hex.
         (let child = parent\<lparr>mf_run_id := ''run-child-'' @ take 8 hex\<rparr> in
          andthen (lift (narrow_manifest parent child)) (ret child)))
     | None \<Rightarrow> on_store (placeholder_manifest expected_outputs))"

definition do_make_envelope :: "datetime \<Rightarrow> string list \<Rightarrow> (helper, envelope) prog" where
  "do_make_envelope created expected_outputs =
     bind (gets hh_ctx) (\<lambda>c. case c of
       None \<Rightarrow> raise (ValueError ''no HandoffContext; call build_context first'')
     | Some ctx \<Rightarrow>
         bind (resolve_child_manifest expected_outputs) (\<lambda>child.
         bind (gets hh_parent_run_id) (\<lambda>parent.
         (let env = make_envelope created parent child (format_handoff_brief ctx) expected_outputs in
          andthen (modify (\<lambda>h. h\<lparr>hh_envelope := Some env\<rparr>)) (ret env)))))"

definition outputs_or_default :: "string list option \<Rightarrow> string list" where
  "outputs_or_default v = (case v of None \<Rightarrow> [''artifact''] | Some v \<Rightarrow> if v = [] then [''artifact''] else v)"

definition helper_make_envelope :: "datetime \<Rightarrow> string list option \<Rightarrow> (helper, envelope) prog" where
  "helper_make_envelope created expected_outputs =
     do_make_envelope created (outputs_or_default expected_outputs)"

text \<open>\<open>try ... finally\<close>: the stored context is put back whatever happens.\<close>

definition make_envelope_manual ::
  "datetime \<Rightarrow> handoff_context \<Rightarrow> string list option \<Rightarrow> (helper, envelope) prog" where
  "make_envelope_manual created ctx expected_outputs h =
     (case do_make_envelope created (outputs_or_default expected_outputs) (h\<lparr>hh_ctx := Some ctx\<rparr>) of
        (r, h') \<Rightarrow> (r, h'\<lparr>hh_ctx := hh_ctx h\<rparr>))"

definition record_handback :: "string \<Rightarrow> string \<Rightarrow> (helper, handback_record) prog" where
  "record_handback checkpoint summary =
     andthen (require (checkpoint \<in> set valid_checkpoints) (ValueError ''unknown checkpoint''))
     (bind (on_store now_utc) (\<lambda>timestamp.
      (let rec = \<lparr>hb_checkpoint = checkpoint, hb_summary = summary, hb_timestamp = timestamp\<rparr> in
       andthen (modify (\<lambda>h. h\<lparr>hh_records := hh_records h @ [rec]\<rparr>)) (ret rec))))"

definition record_handback_async :: "string \<Rightarrow> string \<Rightarrow> (helper, handback_record) prog" where
  "record_handback_async checkpoint summary =
     andthen (require (checkpoint \<in> set valid_checkpoints) (ValueError ''unknown checkpoint''))
     (bind (on_store now_utc) (\<lambda>timestamp.
      bind (gets (\<lambda>h. map_option en_id (hh_envelope h))) (\<lambda>envelope_ref.
      bind (gets (\<lambda>h. length (hh_records h) + 1)) (\<lambda>queue_len.
      (let rec = \<lparr>hb_checkpoint = checkpoint, hb_summary = summary, hb_timestamp = timestamp\<rparr> in
       andthen (modify (\<lambda>h. h\<lparr>hh_records := hh_records h @ [rec]\<rparr>))
       (bind (gets (\<lambda>h. (hh_events h, hh_parent_run_id h))) (\<lambda>(has_events, parent).
        if has_events then
          andthen (on_store (emit_event (''evt-handback-'' @ checkpoint @ ''-'' @ show_nat queue_len) parent
            ''run.progress''
            [(''phase'', PStr ''handoff''), (''milestone'', PStr ''envelope_emitted''),
             (''checkpoint'', PStr checkpoint), (''summary'', PStr summary),
             (''delegation_id'', pstr_opt envelope_ref)]
            timestamp
            (Some \<lparr>c_event_id = None, c_action = Some ''handback_checkpoint'', c_request_id = Some checkpoint\<rparr>)
            (Some \<lparr>a_kind = System, a_id = None, a_display = None\<rparr>)))
          (ret rec)
        else ret rec)))))))"

definition validate_narrowing :: "manifest \<Rightarrow> manifest \<Rightarrow> exc + unit" where
  "validate_narrowing parent child = narrow_manifest parent child"

section \<open>The coding handoff routine\<close>

definition routine_id :: string where "routine_id = ''coding-handoff''"
definition handoff_phase :: string where "handoff_phase = ''handoff''"
definition handoff_milestone :: string where "handoff_milestone = ''envelope_emitted''"
definition default_expected_outputs :: "string list" where
  "default_expected_outputs = [''plan'', ''patch'', ''review'']"

record coding_routine =
  cr_world :: world
  cr_parent_run_id :: string
  cr_events :: bool
  cr_envelope :: "envelope option"
  cr_records :: "handback_record list"

definition on_routine_store :: "(world, 'a) prog \<Rightarrow> (coding_routine, 'a) prog" where
  "on_routine_store m h = (case m (cr_world h) of (r, w') \<Rightarrow> (r, h\<lparr>cr_world := w'\<rparr>))"

definition coding_child_manifest :: "manifest \<Rightarrow> manifest" where
  "coding_child_manifest parent = parent\<lparr>mf_run_id := mf_run_id parent @ ''-coding-child''\<rparr>"

definition validate_expected_outputs :: "manifest \<Rightarrow> string list \<Rightarrow> exc + unit" where
  "validate_expected_outputs child expected_outputs =
     ensure (set expected_outputs \<subseteq> set (map oc_name (mf_outputs child)))
       (ValueError ''expected_outputs must reference child manifest outputs'')"

definition create_envelope ::
  "datetime \<Rightarrow> handoff_context \<Rightarrow> manifest \<Rightarrow> string list \<Rightarrow> (coding_routine, envelope) prog" where
  "create_envelope created ctx parent_manifest expected_outputs =
    (let child = coding_child_manifest parent_manifest in
     andthen (lift (narrow_manifest parent_manifest child))
     (andthen (lift (validate_expected_outputs child expected_outputs))
     (bind (gets cr_parent_run_id) (\<lambda>parent.
      (let env = make_envelope created parent child (format_coding_brief ctx) expected_outputs in
       andthen (modify (\<lambda>h. h\<lparr>cr_envelope := Some env\<rparr>)) (ret env))))))"

definition record_checkpoint :: "string \<Rightarrow> string \<Rightarrow> (coding_routine, handback_record) prog" where
  "record_checkpoint checkpoint summary =
     andthen (require (checkpoint \<in> set valid_checkpoints) (ValueError ''unknown checkpoint''))
     (bind (on_routine_store now_utc) (\<lambda>timestamp.
      (let rec = \<lparr>hb_checkpoint = checkpoint, hb_summary = summary, hb_timestamp = timestamp\<rparr> in
       andthen (modify (\<lambda>h. h\<lparr>cr_records := cr_records h @ [rec]\<rparr>))
       (bind (gets (\<lambda>h. (cr_events h, cr_parent_run_id h, length (cr_records h),
            map_option en_id (cr_envelope h)))) (\<lambda>(has_events, parent, n, envelope_ref).
        if has_events then
          andthen (on_routine_store (emit_event
            (''evt-'' @ routine_id @ ''-'' @ checkpoint @ ''-'' @ show_nat n) parent ''run.progress''
            [(''phase'', PStr handoff_phase), (''milestone'', PStr handoff_milestone),
             (''detail'', PDict [(''checkpoint'', PStr checkpoint), (''summary'', PStr summary),
                (''routine'', PStr routine_id), (''delegation_id'', pstr_opt envelope_ref)])]
            timestamp
            (Some \<lparr>c_event_id = None, c_action = Some ''coding_handoff_checkpoint'',
                   c_request_id = Some checkpoint\<rparr>)
            (Some \<lparr>a_kind = System, a_id = None, a_display = None\<rparr>)))
          (ret rec)
        else ret rec)))))"

section \<open>The dispatcher's packages\<close>

record workflow =
  wf_id :: string
  wf_team_ref :: string
  wf_pipeline_ref :: string
  wf_artifact_kind :: string
  wf_artifact_label :: string
  wf_artifact_output_name :: string
  wf_expected_outputs :: "string list"

record dispatch_package =
  dp_envelope :: envelope
  dp_handoff_artifact :: handoff_artifact
  dp_correlation :: run_correlation
  dp_progress_event :: run_event
  dp_artifact_event :: run_event

definition dispatch_child_manifest :: "manifest \<Rightarrow> string \<Rightarrow> string list \<Rightarrow> exc + manifest" where
  "dispatch_child_manifest parent child_run_id expected_outputs =
    (let child_outputs = filter (\<lambda>k. oc_name k \<in> set expected_outputs) (mf_outputs parent) in
     if length child_outputs \<noteq> card (set expected_outputs)
     then Inl (ValueError ''expected_outputs must reference parent manifest outputs'')
     else Inr (parent\<lparr>mf_run_id := child_run_id, mf_outputs := child_outputs\<rparr>))"

definition dispatch_progress_event ::
  "string \<Rightarrow> datetime \<Rightarrow> workflow \<Rightarrow> run_correlation \<Rightarrow> handoff_artifact \<Rightarrow> exc + run_event" where
  "dispatch_progress_event hex now workflow correlation artifact =
     make_event (''evt-'' @ rc_dispatcher_run_id correlation @ ''-'' @ wf_id workflow @ ''-'' @ hex)
       (rc_dispatcher_run_id correlation) 1 ''run.progress''
       (dict_update
          [(''phase'', PStr ''handoff''), (''milestone'', PStr ''envelope_emitted''),
           (''milestone_ref'', PStr ''handoff.envelope_emitted''),
           (''run_id'', PStr (rc_dispatcher_run_id correlation)),
           (''detail'', PDict [(''workflow_id'', PStr (wf_id workflow)),
              (''team_ref'', PStr (wf_team_ref workflow)),
              (''pipeline_ref'', PStr (wf_pipeline_ref workflow)),
              (''handoff_artifact_ref'', PStr (ha_artifact_ref artifact))])]
          (correlation_payload correlation))
       now
       (Some \<lparr>c_event_id = None, c_action = Some ''dispatcher_workflow.package'',
              c_request_id = Some (wf_id workflow)\<rparr>)
       (Some \<lparr>a_kind = System, a_id = Some (wf_id workflow), a_display = Some (wf_id workflow)\<rparr>)"

text \<open>The two readings of the packager's clock and the two \<open>uuid4\<close> values are arguments.\<close>

definition package ::
  "datetime \<Rightarrow> string \<Rightarrow> datetime \<Rightarrow> string \<Rightarrow> datetime \<Rightarrow> workflow \<Rightarrow> manifest \<Rightarrow> string
   \<Rightarrow> run_correlation \<Rightarrow> string \<Rightarrow> exc + dispatch_package" where
  "package created hex1 now1 hex2 now2 workflow parent_manifest objective correlation artifact_ref =
     rbind (dispatch_child_manifest parent_manifest (rc_child_run_id correlation)
              (wf_expected_outputs workflow)) (\<lambda>child.
     rbind (narrow_manifest parent_manifest child) (\<lambda>_.
     (let env = make_envelope created (rc_parent_run_id correlation) child
            (''Dispatcher handoff: '' @ objective) (wf_expected_outputs workflow) in
     rbind (ensure (en_id env = rc_delegation_id correlation)
       (ValueError ''correlation delegation_id must match the emitted delegation envelope'')) (\<lambda>_.
     rbind (make_handoff_artifact
       \<lparr>ha_artifact_ref = artifact_ref, ha_artifact_kind = wf_artifact_kind workflow,
        ha_label = wf_artifact_label workflow, ha_output_name = wf_artifact_output_name workflow,
        ha_producer_run_id = rc_dispatcher_run_id correlation,
        ha_parent_run_id = rc_parent_run_id correlation, ha_child_run_id = rc_child_run_id correlation,
        ha_delegation_id = en_id env, ha_manifest_run_id = mf_run_id child,
        ha_correlation_id = rc_correlation_id correlation,
        ha_metadata = [(''workflow_id'', PStr (wf_id workflow)), (''team_ref'', PStr (wf_team_ref workflow)),
          (''pipeline_ref'', PStr (wf_pipeline_ref workflow))]\<rparr>) (\<lambda>artifact.
     rbind (dispatch_progress_event hex1 now1 workflow correlation artifact) (\<lambda>progress.
     rbind (make_handoff_artifact_event hex2 now2 (rc_dispatcher_run_id correlation) artifact 2
              (rc_dispatcher_run_id correlation) (rc_team_run_id correlation) ''dispatcher_to_team''
              (Some correlation) None None (Some now2)) (\<lambda>artifact_event.
     Inr \<lparr>dp_envelope = env, dp_handoff_artifact = artifact, dp_correlation = correlation,
          dp_progress_event = progress, dp_artifact_event = artifact_event\<rparr>)))))))"

section \<open>What narrowing guarantees\<close>

text \<open>The order of the presets written out: what a parent lets its child choose.\<close>

definition no_looser :: "policy_preset \<Rightarrow> policy_preset \<Rightarrow> bool" where
  "no_looser parent child \<longleftrightarrow> (case parent of
       Yolo \<Rightarrow> True
     | Ask \<Rightarrow> child \<noteq> Yolo
     | Allowlist \<Rightarrow> child = Allowlist \<or> child = Custom
     | Custom \<Rightarrow> child = Custom)"

lemma no_looser_iff: "preset_order child \<le> preset_order parent \<longleftrightarrow> no_looser parent child"
  by (cases parent; cases child) (simp_all add: no_looser_def)

lemma no_looser_trans: "no_looser a b \<Longrightarrow> no_looser b c \<Longrightarrow> no_looser a c"
  by (cases a; cases b; cases c) (simp_all add: no_looser_def)

definition allowed_hosts :: "manifest \<Rightarrow> string set" where
  "allowed_hosts m = {nr_host_pattern r | r. r \<in> set (np_allow (mf_network_policy m))}"

definition writable :: "manifest \<Rightarrow> string set" where
  "writable m = {wp_path w | w. w \<in> set (mf_writable_paths m)}"

lemma narrow_step:
  "narrow_manifest parent child = Inr () \<longleftrightarrow>
     writable child \<subseteq> writable parent \<and>
     (np_mode (mf_network_policy parent) = NetAllowlist \<longrightarrow> allowed_hosts child \<subseteq> allowed_hosts parent) \<and>
     no_looser (tp_preset (mf_tool_policy parent)) (tp_preset (mf_tool_policy child)) \<and>
     set (ss_allowed_secret_refs (mf_secret_scope child)) \<subseteq> set (ss_allowed_secret_refs (mf_secret_scope parent))"
  unfolding writable_def allowed_hosts_def
  by (auto simp: narrow_manifest_def narrow_writable_paths_def narrow_network_policy_def
      narrow_tool_policy_def narrow_secret_scope_def rbind_Inr_iff simp flip: no_looser_iff)

lemma narrow_chain:
  assumes "successively (\<lambda>p c. narrow_manifest p c = Inr ()) (m # ms)" "c \<in> set ms"
  shows "writable c \<subseteq> writable m \<and> no_looser (tp_preset (mf_tool_policy m)) (tp_preset (mf_tool_policy c)) \<and>
    set (ss_allowed_secret_refs (mf_secret_scope c)) \<subseteq> set (ss_allowed_secret_refs (mf_secret_scope m)) \<and>
    ((\<forall>x \<in> set (m # ms). np_mode (mf_network_policy x) = NetAllowlist) \<longrightarrow> allowed_hosts c \<subseteq> allowed_hosts m)"
  using assms
proof (induction ms arbitrary: m)
  case (Cons x xs)
  then have "narrow_manifest m x = Inr ()" "successively (\<lambda>p c. narrow_manifest p c = Inr ()) (x # xs)" by simp_all
  then show ?case
    using Cons.IH [of x] Cons.prems(2) narrow_step [of m x] no_looser_trans
    by (cases "c = x") (auto 4 3)
qed simp

text \<open>
  C19. Narrowing accepts a child exactly when every path it may write is one of the parent's, every host it
  allows is one of an allowlist parent's, its preset is no looser (a parent on yolo takes any, on ask any
  but yolo, on allowlist allowlist or custom, on custom only custom) and every secret is one of the
  parent's. Along a chain of accepted delegations of any length no writable path, secret or looser preset
  is gained, and no host either as long as every manifest of the chain is an allowlist.
\<close>

theorem narrow_manifest_accepts:
  "(narrow_manifest parent child = Inr () \<longleftrightarrow>
     writable child \<subseteq> writable parent \<and>
     (np_mode (mf_network_policy parent) = NetAllowlist \<longrightarrow> allowed_hosts child \<subseteq> allowed_hosts parent) \<and>
     no_looser (tp_preset (mf_tool_policy parent)) (tp_preset (mf_tool_policy child)) \<and>
     set (ss_allowed_secret_refs (mf_secret_scope child)) \<subseteq> set (ss_allowed_secret_refs (mf_secret_scope parent))) \<and>
   (successively (\<lambda>p c. narrow_manifest p c = Inr ()) (parent # chain) \<longrightarrow>
     (\<forall>c \<in> set chain. writable c \<subseteq> writable parent \<and>
        no_looser (tp_preset (mf_tool_policy parent)) (tp_preset (mf_tool_policy c)) \<and>
        set (ss_allowed_secret_refs (mf_secret_scope c)) \<subseteq> set (ss_allowed_secret_refs (mf_secret_scope parent)) \<and>
        ((\<forall>x \<in> set (parent # chain). np_mode (mf_network_policy x) = NetAllowlist) \<longrightarrow>
           allowed_hosts c \<subseteq> allowed_hosts parent)))"
  using narrow_step narrow_chain by blast

definition same_grants :: "manifest \<Rightarrow> manifest \<Rightarrow> bool" where
  "same_grants p c \<longleftrightarrow> mf_writable_paths c = mf_writable_paths p \<and>
     mf_network_policy c = mf_network_policy p \<and> mf_tool_policy c = mf_tool_policy p \<and>
     mf_secret_scope c = mf_secret_scope p"

lemma narrow_same_grants: "same_grants p c \<Longrightarrow> narrow_manifest p c = Inr ()"
  by (simp add: same_grants_def narrow_manifest_def narrow_writable_paths_def narrow_network_policy_def
      narrow_tool_policy_def narrow_secret_scope_def)

text \<open>
  A parent that denies the network altogether accepts a child with an allowlist of any
  hosts, and a child whose tool rules allow everything: the guarded fields are not compared.
\<close>

theorem narrowing_leaves_gaps:
  assumes "np_mode (mf_network_policy parent) = NetDeny"
  shows "narrow_manifest parent (parent\<lparr>mf_network_policy :=
      \<lparr>np_mode = NetAllowlist, np_allow = rules, np_deny = []\<rparr>,
    mf_tool_policy := (mf_tool_policy parent)\<lparr>tp_rules := trules, tp_default_decision := AutoAllow\<rparr>\<rparr>) = Inr ()"
  using assms
  by (simp add: narrow_manifest_def narrow_writable_paths_def narrow_network_policy_def
      narrow_tool_policy_def narrow_secret_scope_def)

text \<open>
  Narrowing is reflexive but not transitive: through a child that denies the network a
  grandchild regains hosts the first parent did not allow.
\<close>

theorem narrowing_not_transitive:
  fixes p :: manifest and r :: network_rule
  assumes "np_mode (mf_network_policy p) = NetAllowlist"
    and "nr_host_pattern r \<notin> nr_host_pattern ` set (np_allow (mf_network_policy p))"
  shows "\<exists>c g. narrow_manifest p p = Inr () \<and> narrow_manifest p c = Inr () \<and> narrow_manifest c g = Inr () \<and>
    narrow_manifest p g = Inl (DelegationWideningError ''network_policy'')"
proof (intro exI conjI)
  let ?c = "p\<lparr>mf_network_policy := \<lparr>np_mode = NetDeny, np_allow = [], np_deny = []\<rparr>\<rparr>"
  let ?g = "p\<lparr>mf_network_policy := \<lparr>np_mode = NetAllowlist, np_allow = [r], np_deny = []\<rparr>\<rparr>"
  show "narrow_manifest p p = Inr ()" by (rule narrow_same_grants) (simp add: same_grants_def)
  show "narrow_manifest p ?c = Inr ()" "narrow_manifest ?c ?g = Inr ()"
    by (simp_all add: narrow_manifest_def narrow_writable_paths_def narrow_network_policy_def
        narrow_tool_policy_def narrow_secret_scope_def)
  show "narrow_manifest p ?g = Inl (DelegationWideningError ''network_policy'')"
    using assms by (simp add: narrow_manifest_def narrow_writable_paths_def narrow_network_policy_def)
qed

section \<open>What the handoff helpers guarantee\<close>

lemma on_store_apply [prog_simps]:
  "on_store m h = (case m (hh_world h) of (r, w') \<Rightarrow> (r, h\<lparr>hh_world := w'\<rparr>))"
  by (simp add: on_store_def)

text \<open>
  With a context and a parent manifest the helper always builds an envelope: its child has
  exactly the parent's grants, so it passes the narrowing check, and the context stays stored.
\<close>

theorem helper_envelope_narrows:
  assumes "hh_ctx h = Some ctx" "hh_parent_manifest h = Some parent"
  shows "\<exists>env h'. helper_make_envelope created out h = (Inr env, h') \<and>
    same_grants parent (en_child_manifest env) \<and> narrow_manifest parent (en_child_manifest env) = Inr () \<and>
    en_parent_run_id env = hh_parent_run_id h \<and> en_brief env = format_handoff_brief ctx \<and>
    hh_envelope h' = Some env \<and> hh_ctx h' = Some ctx"
proof -
  have n: "narrow_manifest parent (parent\<lparr>mf_run_id := r\<rparr>) = Inr ()" for r
    by (rule narrow_same_grants) (simp add: same_grants_def)
  show ?thesis
    using assms
    by (simp add: helper_make_envelope_def do_make_envelope_def resolve_child_manifest_def prog_simps
        uuid_hex_def Let_def n make_envelope_def same_grants_def)
qed

definition handback_step :: "helper \<Rightarrow> string \<Rightarrow> string \<Rightarrow> handback_record" where
  "handback_step h checkpoint summary = \<lparr>hb_checkpoint = checkpoint, hb_summary = summary,
     hb_timestamp = Aware (w_clock (hh_world h) (w_ticks (hh_world h))) 0\<rparr>"

text \<open>The recorded handback and the event, on a store in order.\<close>

lemma handback_eq:
  assumes "world_ok (hh_world h)" "c \<in> set valid_checkpoints" "hh_events h"
    and "\<not> run_terminal (hh_world h) (hh_parent_run_id h)"
  defines "i \<equiv> ''evt-handback-'' @ c @ ''-'' @ show_nat (Suc (length (hh_records h)))"
  shows "\<exists>e w'. record_handback_async c s h =
    (if i \<in> e_id ` set (w_events (hh_world h)) then Inl (IntegrityError ''run_events.id'')
     else Inr (handback_step h c s),
     h\<lparr>hh_records := hh_records h @ [handback_step h c s], hh_world := w'\<rparr>) \<and>
    w_events w' = w_events (hh_world h) @ (if i \<in> e_id ` set (w_events (hh_world h)) then [] else [e]) \<and>
    w_runs w' = w_runs (hh_world h) \<and> e_id e = i \<and> world_ok w'"
proof -
  let ?w = "hh_world h"
  let ?w1 = "?w\<lparr>w_ticks := Suc (w_ticks ?w)\<rparr>"
  let ?ts = "Aware (w_clock ?w (w_ticks ?w)) 0"
  let ?p = "[(''phase'', PStr ''handoff''), (''milestone'', PStr ''envelope_emitted''),
    (''checkpoint'', PStr c), (''summary'', PStr s), (''delegation_id'', pstr_opt (map_option en_id (hh_envelope h)))]"
  let ?em = "emit_event i (hh_parent_run_id h) ''run.progress'' ?p ?ts
      (Some \<lparr>c_event_id = None, c_action = Some ''handback_checkpoint'', c_request_id = Some c\<rparr>)
      (Some \<lparr>a_kind = System, a_id = None, a_display = None\<rparr>)"
  have ok1: "world_ok ?w1" using assms(1) by (rule world_ok_tick)
  then have log: "log_ok (w_events ?w1)" by (simp add: world_ok_def)
  obtain r w' where e: "?em ?w1 = (r, w')" by fastforce
  have okw': "world_ok w'" using obeysD [OF keeps_emit e] ok1 by simp
  note em = emit_event_ok [OF log, of ?ts "''run.progress''" ?p i "hh_parent_run_id h"]
  have "record_handback_async c s h = (case r of Inl x \<Rightarrow> Inl x | Inr _ \<Rightarrow> Inr (handback_step h c s),
     h\<lparr>hh_records := hh_records h @ [handback_step h c s], hh_world := w'\<rparr>)"
    using e assms(2,3)
    by (simp add: record_handback_async_def prog_simps now_utc_def Let_def handback_step_def i_def
        split: sum.split)
  moreover
  let ?e = "\<lparr>e_id = i, e_run_id = hh_parent_run_id h,
      e_seq = int (length (events_of ?w (hh_parent_run_id h))) + 1, e_type = ''run.progress'',
      e_payload = ?p, e_timestamp = ?ts,
      e_causation = Some \<lparr>c_event_id = None, c_action = Some ''handback_checkpoint'', c_request_id = Some c\<rparr>,
      e_actor = Some \<lparr>a_kind = System, a_id = None, a_display = None\<rparr>\<rparr>"
  have "(r, w') = (if i \<in> e_id ` set (w_events ?w) then (Inl (IntegrityError ''run_events.id''), ?w1)
      else (Inr ?e, ?w1\<lparr>w_events := w_events ?w @ [?e]\<rparr>))"
    using e assms(4) by (simp add: em Let_def split: if_splits)
  ultimately show ?thesis
    using okw' by (intro exI [of _ ?e] exI [of _ w']) (simp split: if_splits)
qed

text \<open>
  Handback event ids do not name the run: once one run has recorded a checkpoint first,
  the same first checkpoint of any other run fails on the primary key of the event log, while
  the helper's own history already lists it.
\<close>

theorem handback_ids_collide:
  assumes "world_ok (hh_world h)" "c \<in> set valid_checkpoints" "hh_events h" "hh_records h = []"
    and "\<not> run_terminal (hh_world h) (hh_parent_run_id h)"
    and "record_handback_async c s h = (Inr r, h')"
    and "hh_world h2 = hh_world h'" "hh_events h2" "hh_records h2 = []"
    and "\<not> run_terminal (hh_world h) (hh_parent_run_id h2)"
  shows "\<exists>h3. record_handback_async c s2 h2 = (Inl (IntegrityError ''run_events.id''), h3) \<and>
    length (hh_records h3) = 1 \<and> w_events (hh_world h3) = w_events (hh_world h')"
proof -
  let ?i = "''evt-handback-'' @ c @ ''-'' @ show_nat (Suc 0)"
  from handback_eq [OF assms(1,2,3,5), of s] assms(4,6) obtain e w' where
    w': "w' = hh_world h'" "w_events w' = w_events (hh_world h) @ [e]" "e_id e = ?i" "world_ok w'"
      "w_runs w' = w_runs (hh_world h)"
    by (auto split: if_splits)
  have nt: "\<not> run_terminal (hh_world h2) (hh_parent_run_id h2)"
    using assms(7,10) w'(1,5) by (simp add: run_terminal_def get_run_state_def)
  have ok2: "world_ok (hh_world h2)" using assms(7) w'(1,4) by simp
  have "?i \<in> e_id ` set (w_events (hh_world h2))" using w'(1-3) assms(7) by force
  with handback_eq [OF ok2 assms(2,8) nt, of s2] assms(7,9) show ?thesis by auto
qed

section \<open>What the dispatcher guarantees\<close>

lemma dispatch_child_Inr:
  "dispatch_child_manifest parent rid out = Inr c \<longleftrightarrow>
     length (filter (\<lambda>k. oc_name k \<in> set out) (mf_outputs parent)) = card (set out) \<and>
     c = parent\<lparr>mf_run_id := rid, mf_outputs := filter (\<lambda>k. oc_name k \<in> set out) (mf_outputs parent)\<rparr>"
  by (auto simp: dispatch_child_manifest_def Let_def)

text \<open>
  When the parent's output names are distinct, the dispatcher's child manifest has exactly
  the expected outputs and the parent's grants; the count it compares proves nothing otherwise:
  a name declared twice hides that an expected output is missing.
\<close>

theorem dispatch_child_outputs:
  assumes "dispatch_child_manifest parent rid out = Inr c"
  shows "same_grants parent c \<and> mf_run_id c = rid \<and> oc_name ` set (mf_outputs c) \<subseteq> set out \<and>
    (distinct (map oc_name (mf_outputs parent)) \<longrightarrow> oc_name ` set (mf_outputs c) = set out) \<and>
    (\<exists>p. map oc_name (mf_outputs p) = [a, a] \<and> (a \<noteq> b \<longrightarrow> (\<exists>q.
       dispatch_child_manifest p rid [a, b] = Inr q \<and> b \<notin> oc_name ` set (mf_outputs q))))"
proof -
  let ?f = "filter (\<lambda>k. oc_name k \<in> set out) (mf_outputs parent)"
  have len: "length ?f = card (set out)"
    and c: "c = parent\<lparr>mf_run_id := rid, mf_outputs := ?f\<rparr>"
    using assms by (simp_all add: dispatch_child_Inr)
  have "oc_name ` set ?f = set out" if d: "distinct (map oc_name (mf_outputs parent))"
  proof (rule card_subset_eq)
    show "finite (set out)" "oc_name ` set ?f \<subseteq> set out" by auto
    have "distinct (map oc_name ?f)" using d by (simp add: distinct_map_filter)
    then show "card (oc_name ` set ?f) = card (set out)"
      using len distinct_card [of "map oc_name ?f"] by simp
  qed
  moreover have "oc_name ` set ?f \<subseteq> set out" by auto
  moreover
  let ?k = "\<lparr>oc_name = a, oc_path = [], oc_kind = OutFile, oc_required = True,
    oc_promote_to_artifact = True, oc_description = None\<rparr>"
  let ?p = "parent\<lparr>mf_outputs := [?k, ?k]\<rparr>"
  have "\<exists>q. dispatch_child_manifest ?p rid [a, b] = Inr q \<and> b \<notin> oc_name ` set (mf_outputs q)" if "a \<noteq> b"
    using that by (auto simp: dispatch_child_Inr)
  then have "\<exists>p. map oc_name (mf_outputs p) = [a, a] \<and> (a \<noteq> b \<longrightarrow> (\<exists>q.
       dispatch_child_manifest p rid [a, b] = Inr q \<and> b \<notin> oc_name ` set (mf_outputs q)))"
    by (intro exI [of _ ?p]) auto
  ultimately show ?thesis by (auto simp: c same_grants_def)
qed

text \<open>
  The coding routine creates an envelope exactly when every expected output names an output
  of the parent; the child then has the parent's grants. Otherwise it raises and keeps no envelope.
\<close>

theorem coding_envelope_created_iff:
  "case create_envelope created ctx parent out h of
     (Inr env, h') \<Rightarrow> set out \<subseteq> oc_name ` set (mf_outputs parent) \<and>
       same_grants parent (en_child_manifest env) \<and> en_expected_outputs env = out \<and>
       en_brief env = format_coding_brief ctx \<and> h' = h\<lparr>cr_envelope := Some env\<rparr>
   | (Inl x, h') \<Rightarrow> \<not> set out \<subseteq> oc_name ` set (mf_outputs parent) \<and> h' = h \<and> (\<exists>m. x = ValueError m)"
proof -
  have "same_grants parent (coding_child_manifest parent)"
    by (simp add: same_grants_def coding_child_manifest_def)
  note this narrow_same_grants [OF this]
  then show ?thesis
    by (cases "set out \<subseteq> oc_name ` set (mf_outputs parent)")
      (simp_all add: create_envelope_def prog_simps Let_def validate_expected_outputs_def
        coding_child_manifest_def make_envelope_def)
qed

lemma dispatch_progress_ok:
  assumes "is_aware now"
  shows "\<exists>e. dispatch_progress_event hex now flow c a = Inr e \<and> wf_event e \<and> e_seq e = 1 \<and>
     e_type e = ''run.progress'' \<and> e_run_id e = rc_dispatcher_run_id c \<and>
     (\<forall>k v. map_of (correlation_payload c) k = Some v \<longrightarrow> map_of (e_payload e) k = Some v)"
  using assms
  by (auto simp: dispatch_progress_event_def make_event_ok keys_dict_update wf_event_def
      map_of_dict_update correlation_payload_keys)

lemma handoff_event_ok:
  assumes "handoff_inputs_ok a seq src tgt bnd (Some c) now"
  shows "\<exists>e. make_handoff_artifact_event hex clock run a seq src tgt bnd (Some c) None None (Some now) = Inr e \<and>
     wf_event e \<and> e_seq e = seq \<and> e_type e = ''run.artifact_created'' \<and> e_run_id e = run \<and>
     (\<forall>k v. map_of (correlation_payload c) k = Some v \<longrightarrow> map_of (e_payload e) k = Some v)"
proof -
  let ?p = "artifact_event_payload a (strip src) (strip tgt) (strip bnd) (Some c) None None"
  have "map_of ?p k = Some v" if "map_of (correlation_payload c) k = Some v" for k v
    using that by (simp add: artifact_event_payload_def Let_def map_of_dict_update correlation_payload_keys)
  then show ?thesis
    using assms artifact_payload_valid [of a "strip src" "strip tgt" "strip bnd" "Some c" None None]
    by (auto simp: make_handoff_artifact_event_def handoff_inputs_ok_def Let_def make_event_ok wf_event_def)
qed

definition package_artifact :: "workflow \<Rightarrow> run_correlation \<Rightarrow> string \<Rightarrow> handoff_artifact" where
  "package_artifact flow c ref =
     \<lparr>ha_artifact_ref = ref, ha_artifact_kind = wf_artifact_kind flow, ha_label = wf_artifact_label flow,
      ha_output_name = wf_artifact_output_name flow, ha_producer_run_id = rc_dispatcher_run_id c,
      ha_parent_run_id = rc_parent_run_id c, ha_child_run_id = rc_child_run_id c,
      ha_delegation_id = rc_delegation_id c, ha_manifest_run_id = rc_child_run_id c,
      ha_correlation_id = rc_correlation_id c,
      ha_metadata = [(''workflow_id'', PStr (wf_id flow)), (''team_ref'', PStr (wf_team_ref flow)),
        (''pipeline_ref'', PStr (wf_pipeline_ref flow))]\<rparr>"

text \<open>
  For a valid lineage whose delegation id is the envelope's and a workflow whose texts are
  clean and whose outputs the parent declares once, packaging succeeds: the child is a narrowing
  of the parent under the lineage's child id, and the two events, numbered 1 and 2 of the
  dispatcher's run, both carry the whole lineage.
\<close>

theorem package_succeeds:
  assumes "wf_correlation c" "rc_delegation_id c = ''del-'' @ rc_parent_run_id c @ ''-1''"
    and "wf_handoff_artifact (package_artifact flow c ref)"
    and "distinct (map oc_name (mf_outputs parent))"
    and "set (wf_expected_outputs flow) \<subseteq> oc_name ` set (mf_outputs parent)"
    and "is_aware now1" "is_aware now2"
  shows "\<exists>p. package created hex1 now1 hex2 now2 flow parent objective c ref = Inr p \<and>
    narrow_manifest parent (en_child_manifest (dp_envelope p)) = Inr () \<and>
    mf_run_id (en_child_manifest (dp_envelope p)) = rc_child_run_id c \<and>
    en_id (dp_envelope p) = rc_delegation_id c \<and> dp_handoff_artifact p = package_artifact flow c ref \<and>
    map e_seq [dp_progress_event p, dp_artifact_event p] = [1, 2] \<and>
    (\<forall>e \<in> {dp_progress_event p, dp_artifact_event p}. wf_event e \<and> e_run_id e = rc_dispatcher_run_id c \<and>
       (\<forall>k v. map_of (correlation_payload c) k = Some v \<longrightarrow> map_of (e_payload e) k = Some v))"
proof -
  let ?out = "wf_expected_outputs flow" and ?a = "package_artifact flow c ref"
  let ?ks = "filter (\<lambda>k. oc_name k \<in> set ?out) (mf_outputs parent)"
  let ?child = "parent\<lparr>mf_run_id := rc_child_run_id c, mf_outputs := ?ks\<rparr>"
  have "set (map oc_name ?ks) = set ?out" using assms(5) by auto
  moreover have "distinct (map oc_name ?ks)" using assms(4) by (simp add: distinct_map_filter)
  ultimately have "length ?ks = card (set ?out)" by (metis distinct_card length_map)
  then have child: "dispatch_child_manifest parent (rc_child_run_id c) ?out = Inr ?child"
    by (simp add: dispatch_child_Inr)
  have narrow: "narrow_manifest parent ?child = Inr ()"
    by (rule narrow_same_grants) (simp add: same_grants_def)
  have artifact: "make_handoff_artifact \<lparr>ha_artifact_ref = ref, ha_artifact_kind = wf_artifact_kind flow,
      ha_label = wf_artifact_label flow, ha_output_name = wf_artifact_output_name flow,
      ha_producer_run_id = rc_dispatcher_run_id c, ha_parent_run_id = rc_parent_run_id c,
      ha_child_run_id = rc_child_run_id c, ha_delegation_id = rc_delegation_id c,
      ha_manifest_run_id = rc_child_run_id c, ha_correlation_id = rc_correlation_id c,
      ha_metadata = [(''workflow_id'', PStr (wf_id flow)), (''team_ref'', PStr (wf_team_ref flow)),
        (''pipeline_ref'', PStr (wf_pipeline_ref flow))]\<rparr> = Inr ?a"
    using make_handoff_artifact_self [OF assms(3)] by (simp add: package_artifact_def)
  have "handoff_inputs_ok ?a 2 (rc_dispatcher_run_id c) (rc_team_run_id c) ''dispatcher_to_team'' (Some c) now2"
    using assms(1,7)
    by (simp add: handoff_inputs_ok_def wf_correlation_def clean_def package_artifact_def)
      (simp add: strip_def is_space_def)
  from handoff_event_ok [OF this, of hex2 now2 "rc_dispatcher_run_id c"]
  obtain ae where ae: "make_handoff_artifact_event hex2 now2 (rc_dispatcher_run_id c) ?a 2
      (rc_dispatcher_run_id c) (rc_team_run_id c) ''dispatcher_to_team'' (Some c) None None (Some now2) = Inr ae"
    "wf_event ae" "e_seq ae = 2" "e_run_id ae = rc_dispatcher_run_id c"
    "\<forall>k v. map_of (correlation_payload c) k = Some v \<longrightarrow> map_of (e_payload ae) k = Some v" by blast
  obtain pe where pe: "dispatch_progress_event hex1 now1 flow c ?a = Inr pe" "wf_event pe" "e_seq pe = 1"
    "e_run_id pe = rc_dispatcher_run_id c"
    "\<forall>k v. map_of (correlation_payload c) k = Some v \<longrightarrow> map_of (e_payload pe) k = Some v"
    using dispatch_progress_ok [OF assms(6), of hex1 flow c ?a] by blast
  have "package created hex1 now1 hex2 now2 flow parent objective c ref = Inr
     \<lparr>dp_envelope = make_envelope created (rc_parent_run_id c) ?child (''Dispatcher handoff: '' @ objective) ?out,
      dp_handoff_artifact = ?a, dp_correlation = c, dp_progress_event = pe, dp_artifact_event = ae\<rparr>"
    unfolding package_def child narrow rbind_simps Let_def
    using assms(2) artifact pe(1) ae(1) by (simp add: make_envelope_def)
  with narrow pe ae show ?thesis by (simp add: make_envelope_def assms(2))
qed

section \<open>Witnesses\<close>

theorem narrow_manifest_accepts_witness:
  "narrow_manifest demo_manifest (demo_manifest\<lparr>mf_tool_policy := \<lparr>tp_preset = Allowlist, tp_rules = [],
      tp_default_decision = ApprovalRequired\<rparr>\<rparr>) = Inr () \<and>
   narrow_manifest demo_manifest (demo_manifest\<lparr>mf_tool_policy := \<lparr>tp_preset = Yolo, tp_rules = [],
      tp_default_decision = ApprovalRequired\<rparr>\<rparr>) \<noteq> Inr () \<and>
   writable (demo_manifest\<lparr>mf_run_id := ''r2''\<rparr>) \<subseteq> writable demo_manifest"
proof -
  have "narrow_manifest demo_manifest (demo_manifest\<lparr>mf_run_id := ''r2''\<rparr>) = Inr ()"
    by (rule narrow_same_grants) (simp add: same_grants_def)
  then show ?thesis
    using narrow_manifest_accepts [of demo_manifest "demo_manifest\<lparr>mf_tool_policy := \<lparr>tp_preset = Allowlist, tp_rules = [],
        tp_default_decision = ApprovalRequired\<rparr>\<rparr>" "[]"]
      narrow_manifest_accepts [of demo_manifest "demo_manifest\<lparr>mf_tool_policy := \<lparr>tp_preset = Yolo, tp_rules = [],
        tp_default_decision = ApprovalRequired\<rparr>\<rparr>" "[]"]
      narrow_manifest_accepts [of demo_manifest demo_manifest "[demo_manifest\<lparr>mf_run_id := ''r2''\<rparr>]"]
    by (simp add: demo_manifest_def no_looser_def writable_def allowed_hosts_def)
qed

theorem narrowing_leaves_gaps_witness:
  "narrow_manifest demo_manifest (demo_manifest\<lparr>mf_network_policy := \<lparr>np_mode = NetAllowlist,
      np_allow = [\<lparr>nr_host_pattern = ''*'', nr_purpose = ''any'', nr_port = None, nr_scheme = None\<rparr>], np_deny = []\<rparr>,
    mf_tool_policy := (mf_tool_policy demo_manifest)\<lparr>tp_rules := [], tp_default_decision := AutoAllow\<rparr>\<rparr>) = Inr ()"
  by (rule narrowing_leaves_gaps) (simp add: demo_manifest_def)

theorem narrowing_not_transitive_witness:
  "\<exists>p c g. narrow_manifest p c = Inr () \<and> narrow_manifest c g = Inr () \<and> narrow_manifest p g \<noteq> Inr ()"
  using narrowing_not_transitive [of
    "demo_manifest\<lparr>mf_network_policy := \<lparr>np_mode = NetAllowlist, np_allow = [], np_deny = []\<rparr>\<rparr>"
    "\<lparr>nr_host_pattern = ''a'', nr_purpose = ''b'', nr_port = None, nr_scheme = None\<rparr>"]
  by fastforce

definition demo_ctx :: handoff_context where
  "demo_ctx = \<lparr>hc_objective = ''tidy'', hc_constraints = [], hc_non_goals = [], hc_acceptance_criteria = [],
     hc_artifact_context = None\<rparr>"

definition demo_helper :: "string \<Rightarrow> helper" where
  "demo_helper parent = \<lparr>hh_world = fresh_world, hh_parent_run_id = parent, hh_events = True, hh_records = [],
     hh_envelope = None, hh_ctx = Some demo_ctx, hh_parent_manifest = Some demo_manifest\<rparr>"

theorem helper_envelope_narrows_witness:
  "\<exists>env h'. helper_make_envelope (Aware 0 0) None (demo_helper ''p'') = (Inr env, h') \<and>
     narrow_manifest demo_manifest (en_child_manifest env) = Inr () \<and> hh_envelope h' = Some env"
  using helper_envelope_narrows [of "demo_helper ''p''" demo_ctx demo_manifest "Aware 0 0" None]
  by (fastforce simp: demo_helper_def)

definition handed_back :: helper where
  "handed_back = snd (record_handback_async ''plan-approved'' ''ok'' (demo_helper ''p''))"

theorem handback_ids_collide_witness:
  "\<exists>h3. record_handback_async ''plan-approved'' ''ok''
      ((demo_helper ''q'')\<lparr>hh_world := hh_world handed_back\<rparr>) =
    (Inl (IntegrityError ''run_events.id''), h3) \<and> length (hh_records h3) = 1"
proof -
  have nt: "\<not> run_terminal fresh_world r" for r by (simp add: run_terminal_def get_run_state_def fresh_world_def)
  have "isl (fst (record_handback_async ''plan-approved'' ''ok'' (demo_helper ''p''))) = False" by code_simp
  then obtain r where r: "record_handback_async ''plan-approved'' ''ok'' (demo_helper ''p'') = (Inr r, handed_back)"
    unfolding handed_back_def
    by (cases "record_handback_async ''plan-approved'' ''ok'' (demo_helper ''p'')";
        cases "fst (record_handback_async ''plan-approved'' ''ok'' (demo_helper ''p''))") auto
  have "world_ok (hh_world (demo_helper ''p''))" "''plan-approved'' \<in> set valid_checkpoints"
    "hh_events (demo_helper ''p'')" "hh_records (demo_helper ''p'') = []"
    "\<not> run_terminal (hh_world (demo_helper ''p'')) (hh_parent_run_id (demo_helper ''p''))"
    by (simp_all add: demo_helper_def valid_checkpoints_def nt)
  from handback_ids_collide [OF this r, of "(demo_helper ''q'')\<lparr>hh_world := hh_world handed_back\<rparr>" "''ok''"]
  show ?thesis by (auto simp: demo_helper_def nt)
qed

theorem dispatch_child_outputs_witness:
  "\<exists>c. dispatch_child_manifest demo_manifest ''child'' [''plan''] = Inr c \<and> oc_name ` set (mf_outputs c) = {''plan''}"
proof -
  have "isl (dispatch_child_manifest demo_manifest ''child'' [''plan'']) = False"
    by (simp add: dispatch_child_manifest_def Let_def demo_manifest_def)
  then obtain c where c: "dispatch_child_manifest demo_manifest ''child'' [''plan''] = Inr c"
    by (cases "dispatch_child_manifest demo_manifest ''child'' [''plan'']") auto
  from dispatch_child_outputs [OF this] c show ?thesis by (simp add: demo_manifest_def)
qed

definition demo_workflow :: workflow where
  "demo_workflow = \<lparr>wf_id = ''w'', wf_team_ref = ''team'', wf_pipeline_ref = ''pipe'', wf_artifact_kind = ''k'',
     wf_artifact_label = ''l'', wf_artifact_output_name = ''plan'', wf_expected_outputs = [''plan'']\<rparr>"

definition lineage :: run_correlation where
  "lineage = demo_correlation\<lparr>rc_delegation_id := ''del-p2-1''\<rparr>"

theorem package_succeeds_witness:
  "\<exists>p. package (Aware 0 0) ''h1'' (Aware 1 0) ''h2'' (Aware 2 0) demo_workflow demo_manifest ''tidy'' lineage
      ''artifact://a'' = Inr p \<and> map e_seq [dp_progress_event p, dp_artifact_event p] = [1, 2]"
proof -
  have cs: "wf_correlation lineage" "rc_delegation_id lineage = ''del-'' @ rc_parent_run_id lineage @ ''-1''"
    "wf_handoff_artifact (package_artifact demo_workflow lineage ''artifact://a'')"
    "distinct (map oc_name (mf_outputs demo_manifest))"
    "set (wf_expected_outputs demo_workflow) \<subseteq> oc_name ` set (mf_outputs demo_manifest)"
    by code_simp+
  from package_succeeds [OF cs, of "Aware 1 0" "Aware 2 0"] show ?thesis by fastforce
qed

end
