(* ===== verification/Registry.thy ===== *)
theory Registry
  imports Handoff
begin

text \<open>
  The in-memory registries of domain/subagent.py, domain/team.py and domain/pipeline.py are
  three copies of one contract: an insertion refuses a known id, a lookup cleans its argument,
  and the listing is sorted by id. The contract is a locale; each registry is interpreted in the
  theory of its component. A registry is the list of its entries in insertion order.
\<close>

section \<open>The shared operations\<close>

definition registry_add :: "('v \<Rightarrow> string) \<Rightarrow> 'v \<Rightarrow> (string \<times> 'v) list \<Rightarrow> exc + (string \<times> 'v) list" where
  "registry_add key v reg =
     (if key v \<in> fst ` set reg then Inl (ValueError ''already registered'') else Inr (reg @ [(key v, v)]))"

definition registry_get :: "string \<Rightarrow> string \<Rightarrow> (string \<times> 'v) list \<Rightarrow> exc + 'v" where
  "registry_get field_name k reg = rbind (clean_text field_name k) (\<lambda>key.
     case map_of reg key of Some v \<Rightarrow> Inr v | None \<Rightarrow> Inl (KeyError ''unknown id''))"

definition registry_list :: "(string \<times> 'v) list \<Rightarrow> 'v list" where
  "registry_list reg = map snd (sort_key fst reg)"

fun registry_init :: "('v \<Rightarrow> 'r \<Rightarrow> exc + 'r) \<Rightarrow> 'v list \<Rightarrow> 'r \<Rightarrow> exc + 'r" where
  "registry_init add [] reg = Inr reg"
| "registry_init add (v # vs) reg = rbind (add v reg) (registry_init add vs)"

lemma update_new: "k \<notin> fst ` set d \<Longrightarrow> AList.update k v d = d @ [(k, v)]"
  by (induction d) auto

lemma find_SomeD: "find P rs = Some r \<Longrightarrow> r \<in> set rs \<and> P r"
  by (auto simp: find_Some_iff)

section \<open>The contract\<close>

locale keyed_registry =
  fixes add :: "'v \<Rightarrow> 'r \<Rightarrow> exc + 'r"
    and get :: "string \<Rightarrow> 'r \<Rightarrow> exc + 'v"
    and listing :: "'r \<Rightarrow> 'v list"
    and ident :: "'v \<Rightarrow> string"
    and entries :: "'r \<Rightarrow> string \<Rightarrow> 'v option"
    and sound :: "'r \<Rightarrow> bool"
  assumes add_known: "sound r \<Longrightarrow> entries r (ident v) \<noteq> None \<Longrightarrow> \<exists>m. add v r = Inl (ValueError m)"
    and add_new: "sound r \<Longrightarrow> clean (ident v) \<Longrightarrow> entries r (ident v) = None \<Longrightarrow>
      \<exists>r'. add v r = Inr r' \<and> sound r' \<and> entries r' = (entries r)(ident v \<mapsto> v)"
    and get_entry: "sound r \<Longrightarrow> strip k \<noteq> [] \<Longrightarrow>
      get k r = (case entries r (strip k) of Some v \<Rightarrow> Inr v | None \<Rightarrow> Inl (KeyError ''unknown id''))"
    and entry_ident: "sound r \<Longrightarrow> entries r k = Some v \<Longrightarrow> ident v = k \<and> clean k"
    and listing_set: "sound r \<Longrightarrow> set (listing r) = {v. entries r (ident v) = Some v}"
    and listing_sorted: "sound r \<Longrightarrow> sorted (map ident (listing r)) \<and> distinct (map ident (listing r))"
begin

lemma get_after_add:
  assumes "sound r" "clean (ident v)" "add v r = Inr r'"
  shows "get (ident v) r' = Inr v"
proof -
  have new: "entries r (ident v) = None" using add_known [OF assms(1)] assms(3) by fastforce
  from add_new [OF assms(1,2) new] assms(3)
  have "sound r'" "entries r' (ident v) = Some v" by auto
  with get_entry [of r' "ident v"] assms(2) show ?thesis by (simp add: clean_def)
qed

lemma add_keeps_others:
  assumes "sound r" "clean (ident v)" "add v r = Inr r'" "strip k \<noteq> []" "strip k \<noteq> ident v"
  shows "get k r' = get k r"
proof -
  have new: "entries r (ident v) = None" using add_known [OF assms(1)] assms(3) by fastforce
  from add_new [OF assms(1,2) new] assms(3)
  have "sound r'" "entries r' = (entries r)(ident v \<mapsto> v)" by auto
  with get_entry [OF \<open>sound r'\<close> assms(4)] get_entry [OF assms(1,4)] assms(5) show ?thesis by simp
qed

text \<open>Registering a list of values with distinct clean ids succeeds and stores exactly these.\<close>

lemma init_distinct:
  assumes "sound r" "\<forall>v \<in> set vs. clean (ident v) \<and> entries r (ident v) = None" "distinct (map ident vs)"
  shows "\<exists>r'. registry_init add vs r = Inr r' \<and> sound r' \<and> set (listing r') = set (listing r) \<union> set vs"
  using assms
proof (induction vs arbitrary: r)
  case (Cons v vs)
  from add_new [OF Cons.prems(1), of v] Cons.prems(2) obtain r1 where
    r1: "add v r = Inr r1" "sound r1" "entries r1 = (entries r)(ident v \<mapsto> v)" by auto
  have "\<forall>u \<in> set vs. clean (ident u) \<and> entries r1 (ident u) = None"
    using Cons.prems(2,3) r1(3) by (auto simp: image_iff)
  from Cons.IH [OF r1(2) this] Cons.prems(3) obtain r' where
    r': "registry_init add vs r1 = Inr r'" "sound r'" "set (listing r') = set (listing r1) \<union> set vs" by auto
  have "set (listing r1) = insert v (set (listing r))"
    using Cons.prems(1,2) r1(2,3) by (auto simp: listing_set)
  with r1(1) r' show ?case by auto
qed simp

lemma listed_is_found:
  assumes "sound r" "v \<in> set (listing r)"
  shows "get (ident v) r = Inr v" and "\<exists>m. add u r = Inl (ValueError m) \<or> ident u \<noteq> ident v"
proof -
  from assms have e: "entries r (ident v) = Some v" by (simp add: listing_set)
  with entry_ident [OF assms(1)] have "clean (ident v)" by blast
  with e get_entry [OF assms(1), of "ident v"] show "get (ident v) r = Inr v" by (simp add: clean_def)
  show "\<exists>m. add u r = Inl (ValueError m) \<or> ident u \<noteq> ident v"
    using add_known [OF assms(1), of u] e by (cases "ident u = ident v") auto
qed

text \<open>A registry filled from a list serves exactly its elements, in the order of their ids.\<close>

lemma init_serves:
  assumes "sound r0" "listing r0 = []" "\<forall>v \<in> set vs. clean (ident v) \<and> entries r0 (ident v) = None"
    "distinct (map ident vs)"
  shows "\<exists>r. registry_init add vs r0 = Inr r \<and> set (listing r) = set vs \<and> sorted (map ident (listing r)) \<and>
    (\<forall>v \<in> set vs. get (ident v) r = Inr v) \<and>
    (\<forall>u v. v \<in> set vs \<and> ident u = ident v \<longrightarrow> (\<exists>m. add u r = Inl (ValueError m)))"
proof -
  from init_distinct [OF assms(1,3,4)] assms(2) obtain r where
    r: "registry_init add vs r0 = Inr r" "sound r" "set (listing r) = set vs" by auto
  have "sorted (map ident (listing r))" using listing_sorted [OF r(2)] by simp
  with r show ?thesis using listed_is_found [OF r(2)] by metis
qed

end

section \<open>The shared operations keep the contract\<close>

definition registry_sound :: "('v \<Rightarrow> string) \<Rightarrow> (string \<times> 'v) list \<Rightarrow> bool" where
  "registry_sound key reg \<longleftrightarrow> distinct (map fst reg) \<and> (\<forall>(k, v) \<in> set reg. key v = k \<and> clean k)"

lemma registry_add_new:
  assumes "registry_sound key reg" "clean (key v)" "map_of reg (key v) = None"
  shows "\<exists>r'. registry_add key v reg = Inr r' \<and> registry_sound key r' \<and> map_of r' = (map_of reg)(key v \<mapsto> v)"
proof -
  have "key v \<notin> fst ` set reg" using assms(3) by (simp add: map_of_eq_None_iff)
  then show ?thesis
    using assms by (auto simp: registry_add_def registry_sound_def fun_eq_iff map_add_def split: option.split)
qed

lemma registry_listing:
  assumes "registry_sound key reg"
  shows "set (registry_list reg) = {v. map_of reg (key v) = Some v}"
    and "map key (registry_list reg) = sort (map fst reg)"
proof -
  have d: "distinct (map fst reg)" and k: "\<forall>(k, v) \<in> set reg. key v = k"
    using assms by (auto simp: registry_sound_def)
  show "set (registry_list reg) = {v. map_of reg (key v) = Some v}"
    using d k by (force simp: registry_list_def map_of_eq_Some_iff)
  have "map key (registry_list reg) = map fst (sort_key fst reg)"
    using k by (auto simp: registry_list_def)
  also have "\<dots> = sort (map fst reg)"
    by (rule sorted_distinct_set_unique) (use d in \<open>simp_all add: distinct_map\<close>)
  finally show "map key (registry_list reg) = sort (map fst reg)" .
qed

lemma registry_laws:
  "keyed_registry (registry_add key) (registry_get f) registry_list key map_of (registry_sound key)"
proof (unfold_locales, goal_cases)
  case (1 r v)
  then show ?case by (auto simp: registry_add_def map_of_eq_None_iff)
next
  case (2 r v)
  then show ?case by (rule registry_add_new)
next
  case (3 r k)
  then show ?case by (simp add: registry_get_def require_non_empty_text_def)
next
  case (4 r k v)
  then show ?case by (auto simp: registry_sound_def dest!: map_of_SomeD)
next
  case (5 r)
  then show ?case by (rule registry_listing(1))
next
  case (6 r)
  then show ?case by (simp add: registry_listing(2) registry_sound_def)
qed

end
