(* ===== verification/Team.thy ===== *)
theory Team
  imports Registry Milestones
begin

text \<open>
  Sub-agents (domain/subagent.py) and teams (domain/team.py): the bounded role contract, the
  artifacts of a sub-agent, teams with their handoff routes and the depth-first search that
  rejects routes with a cycle, the two registries, and the progress events of both
  (services/orchestration/subagent_progress.py, team_progress.py). The search is shown to
  reject exactly the cyclic route graphs.
\<close>

section \<open>Sub-agents\<close>

definition opaque_persona_phrases :: "string list" where
  "opaque_persona_phrases = [''autonomous coding persona'', ''general autonomous'',
     ''unconstrained assistant'', ''do whatever is needed'', ''anything necessary'']"

definition clean_tuple :: "string \<Rightarrow> bool \<Rightarrow> string list \<Rightarrow> exc + string list" where
  "clean_tuple field_name required values =
     rbind (rmap (clean_text field_name) values) (\<lambda>cleaned.
     rbind (ensure (\<not> (required \<and> cleaned = [])) (ValueError (field_name @ '' must not be empty''))) (\<lambda>_.
     rbind (ensure (distinct cleaned) (ValueError (field_name @ '' must not contain duplicates''))) (\<lambda>_.
     Inr cleaned)))"

definition reject_opaque_persona :: "string list \<Rightarrow> exc + unit" where
  "reject_opaque_persona values =
     (let haystack = lower (join '' '' values) in
      ensure (\<not> list_ex (\<lambda>phrase. contains phrase haystack) opaque_persona_phrases)
        (ValueError ''sub-agent must define a bounded role, not an opaque persona''))"

record sub_agent_role =
  sr_name :: string
  sr_objective :: string
  sr_responsibilities :: "string list"
  sr_constraints :: "string list"
  sr_non_goals :: "string list"
  sr_allowed_tools :: "string list"
  sr_expected_outputs :: "string list"

definition make_sub_agent_role :: "sub_agent_role \<Rightarrow> exc + sub_agent_role" where
  "make_sub_agent_role raw =
     rbind (clean_text ''name'' (sr_name raw)) (\<lambda>name.
     rbind (clean_text ''objective'' (sr_objective raw)) (\<lambda>objective.
     rbind (clean_tuple ''responsibilities'' True (sr_responsibilities raw)) (\<lambda>responsibilities.
     rbind (clean_tuple ''constraints'' True (sr_constraints raw)) (\<lambda>constraints.
     rbind (clean_tuple ''non_goals'' False (sr_non_goals raw)) (\<lambda>non_goals.
     rbind (clean_tuple ''allowed_tools'' False (sr_allowed_tools raw)) (\<lambda>allowed_tools.
     rbind (clean_tuple ''expected_outputs'' True (sr_expected_outputs raw)) (\<lambda>expected_outputs.
     rbind (reject_opaque_persona (name # objective # responsibilities)) (\<lambda>_.
     Inr \<lparr>sr_name = name, sr_objective = objective, sr_responsibilities = responsibilities,
          sr_constraints = constraints, sr_non_goals = non_goals, sr_allowed_tools = allowed_tools,
          sr_expected_outputs = expected_outputs\<rparr>))))))))"

record sub_agent_artifact =
  sf_artifact_ref :: string
  sf_artifact_kind :: string
  sf_label :: string
  sf_produced_by :: string
  sf_output_name :: string
  sf_metadata :: payload

definition make_sub_agent_artifact :: "sub_agent_artifact \<Rightarrow> exc + sub_agent_artifact" where
  "make_sub_agent_artifact raw =
     rbind (clean_text ''artifact_ref'' (sf_artifact_ref raw)) (\<lambda>ref.
     rbind (ensure (starts_with ref ''artifact://'')
       (ValueError ''artifact_ref must use the artifact:// scheme'')) (\<lambda>_.
     rbind (clean_text ''artifact_kind'' (sf_artifact_kind raw)) (\<lambda>kind.
     rbind (clean_text ''label'' (sf_label raw)) (\<lambda>label.
     rbind (clean_text ''produced_by'' (sf_produced_by raw)) (\<lambda>by.
     rbind (clean_text ''output_name'' (sf_output_name raw)) (\<lambda>out.
     Inr \<lparr>sf_artifact_ref = ref, sf_artifact_kind = kind, sf_label = label, sf_produced_by = by,
          sf_output_name = out, sf_metadata = sf_metadata raw\<rparr>))))))"

record sub_agent =
  sg_id :: string
  sg_role :: sub_agent_role
  sg_artifacts :: "sub_agent_artifact list"

definition make_sub_agent :: "sub_agent \<Rightarrow> exc + sub_agent" where
  "make_sub_agent raw =
     rbind (clean_text ''id'' (sg_id raw)) (\<lambda>sub_agent_id.
     rbind (reach (\<lambda>artifact.
         rbind (ensure (sf_produced_by artifact = sub_agent_id)
           (ValueError ''handoff artifact produced_by must match sub-agent id'')) (\<lambda>_.
         ensure (sf_output_name artifact \<in> set (sr_expected_outputs (sg_role raw)))
           (ValueError ''handoff artifact output_name must be in role.expected_outputs'')))
       (sg_artifacts raw)) (\<lambda>_.
     Inr (raw\<lparr>sg_id := sub_agent_id\<rparr>)))"

section \<open>Teams\<close>

record handoff_route =
  hr_from_agent :: string
  hr_output_name :: string
  hr_to_agent :: string
  hr_artifact_kind :: string
  hr_is_fallback :: bool

definition make_handoff_route :: "handoff_route \<Rightarrow> exc + handoff_route" where
  "make_handoff_route raw =
     rbind (clean_text ''from_agent'' (hr_from_agent raw)) (\<lambda>f.
     rbind (clean_text ''output_name'' (hr_output_name raw)) (\<lambda>out.
     rbind (clean_text ''to_agent'' (hr_to_agent raw)) (\<lambda>t.
     rbind (clean_text ''artifact_kind'' (hr_artifact_kind raw)) (\<lambda>k.
     Inr \<lparr>hr_from_agent = f, hr_output_name = out, hr_to_agent = t, hr_artifact_kind = k,
          hr_is_fallback = hr_is_fallback raw\<rparr>))))"

record team =
  tm_id :: string
  tm_input_artifact_kind :: string
  tm_output_artifact_kind :: string
  tm_dispatcher :: sub_agent
  tm_specialists :: "sub_agent list"
  tm_handoff_routes :: "handoff_route list"
  tm_fallback_agent :: "string option"
  tm_provider_config :: payload

text \<open>
  The adjacency dictionary of the routes. A set of targets is kept in the order of insertion;
  Python's order is arbitrary, which the search's result does not depend on
  (\<open>raise_on_deadlock_iff\<close>).
\<close>

type_synonym route_graph = "(string \<times> string list) list"

definition targets :: "route_graph \<Rightarrow> string \<Rightarrow> string list" where
  "targets g n = (case map_of g n of None \<Rightarrow> [] | Some ts \<Rightarrow> ts)"

definition add_edge :: "handoff_route \<Rightarrow> route_graph \<Rightarrow> route_graph" where
  "add_edge r g = (let ts = targets g (hr_from_agent r) in
     AList.update (hr_from_agent r) (if hr_to_agent r \<in> set ts then ts else ts @ [hr_to_agent r]) g)"

definition graph_of :: "handoff_route list \<Rightarrow> route_graph" where
  "graph_of routes = fold add_edge routes []"

lemma visiting_smaller:
  "n \<notin> set visiting \<Longrightarrow> n \<in> fst ` set g \<Longrightarrow>
   card (fst ` set g - insert n (set visiting)) < card (fst ` set g - set visiting)"
  by (rule psubset_card_mono) auto

lemma targets_Nil: "n \<notin> fst ` set g \<Longrightarrow> targets g n = []"
  by (simp add: targets_def map_of_eq_None_iff [THEN iffD2])

text \<open>
  The recursive search. \<open>visiting\<close> holds the nodes on the stack: a node is added before its
  targets are searched and removed after, so the callers' set is unchanged on return and is
  passed down; \<open>visited\<close> is passed on from call to call.
\<close>

function visit :: "route_graph \<Rightarrow> string list \<Rightarrow> string list \<Rightarrow> string \<Rightarrow> exc + string list"
  and visit_each :: "route_graph \<Rightarrow> string list \<Rightarrow> string list \<Rightarrow> string list \<Rightarrow> exc + string list" where
  "visit g visiting visited n =
     (if n \<in> set visiting then Inl (ValueError ''team handoff routes contain a deadlock cycle'')
      else if n \<in> set visited then Inr visited
      else rbind (visit_each g (n # visiting) visited (targets g n)) (\<lambda>v. Inr (n # v)))"
| "visit_each g visiting visited [] = Inr visited"
| "visit_each g visiting visited (n # ns) =
     rbind (visit g visiting visited n) (\<lambda>v. visit_each g visiting v ns)"
  by pat_completeness auto

termination
proof (relation "measures
    [case_sum (\<lambda>(g, visiting, visited, n). card (fst ` set g - set visiting))
       (\<lambda>(g, visiting, visited, ns). card (fst ` set g - set visiting)),
     case_sum (\<lambda>_. 1) (\<lambda>(g, visiting, visited, ns). 2 * length ns)]", goal_cases)
  case (2 g visiting visited n)
  then show ?case
  proof (cases "n \<in> fst ` set g")
    case True
    with 2 visiting_smaller [of n visiting g] show ?thesis by simp
  next
    case False
    then have "fst ` set g - insert n (set visiting) = fst ` set g - set visiting" by auto
    with False show ?thesis by (simp add: targets_Nil)
  qed
qed auto

declare visit.simps [simp del]

definition raise_on_deadlock :: "handoff_route list \<Rightarrow> exc + unit" where
  "raise_on_deadlock routes =
     (let g = graph_of routes in rbind (visit_each g [] [] (dict_keys g)) (\<lambda>_. Inr ()))"

section \<open>The search rejects exactly the cyclic graphs\<close>

definition edges :: "route_graph \<Rightarrow> (string \<times> string) set" where
  "edges g = {(a, b). b \<in> set (targets g a)}"

definition route_edges :: "handoff_route list \<Rightarrow> (string \<times> string) set" where
  "route_edges routes = (\<lambda>r. (hr_from_agent r, hr_to_agent r)) ` set routes"

lemma targets_add_edge:
  "set (targets (add_edge r g) a) =
     set (targets g a) \<union> (if a = hr_from_agent r then {hr_to_agent r} else {})"
  by (auto simp: add_edge_def targets_def Let_def update_conv' split: option.split)

lemma edges_fold_add_edge: "edges (fold add_edge rs g) = edges g \<union> route_edges rs"
  by (induction rs arbitrary: g)
    (auto simp: edges_def route_edges_def targets_add_edge split: if_splits)

lemma edges_graph_of: "edges (graph_of routes) = route_edges routes"
  by (simp add: graph_of_def edges_fold_add_edge) (simp add: edges_def targets_def)

lemma edges_source_key: "(a, b) \<in> edges g \<Longrightarrow> a \<in> fst ` set g"
  using targets_Nil by (fastforce simp: edges_def)

text \<open>A finished search lists the nodes so that every target stands behind its source.\<close>

fun finished :: "route_graph \<Rightarrow> string list \<Rightarrow> bool" where
  "finished g [] = True"
| "finished g (n # v) = (set (targets g n) \<subseteq> set v \<and> n \<notin> set v \<and> finished g v)"

lemma finished_closed:
  assumes "finished g v" "(x, y) \<in> (edges g)\<^sup>+" "x \<in> set v"
  shows "y \<in> set v"
proof -
  have step: "b \<in> set v" if "(a, b) \<in> edges g" "a \<in> set v" for a b
    using assms(1) that by (induction v) (auto simp: edges_def)
  from assms(2,3) show ?thesis by (induction rule: trancl_induct) (auto intro: step)
qed

lemma finished_acyclic: "finished g v \<Longrightarrow> x \<in> set v \<Longrightarrow> (x, x) \<notin> (edges g)\<^sup>+"
proof (induction v)
  case (Cons n v)
  show ?case
  proof (cases "x = n")
    case True
    show ?thesis
    proof
      assume "(x, x) \<in> (edges g)\<^sup>+"
      then obtain z where z: "(x, z) \<in> edges g" "(z, x) \<in> (edges g)\<^sup>*" by (meson tranclD)
      with True Cons.prems(1) have "z \<in> set v" "x \<notin> set v" by (auto simp: edges_def)
      with z(2) Cons.prems(1) True show False
        by (auto simp: rtrancl_eq_or_trancl dest: finished_closed [of g v])
    qed
  qed (use Cons in auto)
qed simp

lemma visit_returns:
  "visit g visiting visited n = Inr v \<Longrightarrow> finished g visited \<Longrightarrow> set visited \<inter> set visiting = {} \<Longrightarrow>
     finished g v \<and> set visited \<subseteq> set v \<and> n \<in> set v \<and> set v \<inter> set visiting = {}"
  "visit_each g visiting visited ns = Inr v \<Longrightarrow> finished g visited \<Longrightarrow> set visited \<inter> set visiting = {} \<Longrightarrow>
     finished g v \<and> set visited \<subseteq> set v \<and> set ns \<subseteq> set v \<and> set v \<inter> set visiting = {}"
proof (induction g visiting visited n and g visiting visited ns arbitrary: v and v
    rule: visit_visit_each.induct)
  case (1 g visiting visited n)
  show ?case
  proof (cases "n \<in> set visited")
    case True
    with "1.prems" show ?thesis by (auto simp: visit.simps split: if_splits)
  next
    case False
    with "1.prems"(1) obtain u where u: "n \<notin> set visiting" "v = n # u"
      "visit_each g (n # visiting) visited (targets g n) = Inr u"
      by (auto simp: visit.simps rbind_Inr_iff split: if_splits)
    have "finished g u \<and> set visited \<subseteq> set u \<and> set (targets g n) \<subseteq> set u \<and> set u \<inter> set (n # visiting) = {}"
      by (rule "1.IH" [OF u(1) False u(3)]) (use "1.prems"(2,3) False in auto)
    with u(1,2) show ?thesis by auto
  qed
next
  case (3 g visiting visited n ns)
  from "3.prems"(1) obtain u where u: "visit g visiting visited n = Inr u"
    "visit_each g visiting u ns = Inr v" by (auto simp: rbind_Inr_iff)
  have a: "finished g u \<and> set visited \<subseteq> set u \<and> n \<in> set u \<and> set u \<inter> set visiting = {}"
    by (rule "3.IH"(1) [OF u(1) "3.prems"(2,3)])
  then have "finished g v \<and> set u \<subseteq> set v \<and> set ns \<subseteq> set v \<and> set v \<inter> set visiting = {}"
    by (intro "3.IH"(2) [OF u(2)]) auto
  with a show ?case by auto
qed simp

lemma visit_raises:
  "visit g visiting visited n = Inl e \<Longrightarrow> \<forall>m \<in> set visiting. (m, n) \<in> (edges g)\<^sup>+ \<Longrightarrow>
     e = ValueError ''team handoff routes contain a deadlock cycle'' \<and> (\<exists>x. (x, x) \<in> (edges g)\<^sup>+)"
  "visit_each g visiting visited ns = Inl e \<Longrightarrow>
     \<forall>n \<in> set ns. \<forall>m \<in> set visiting. (m, n) \<in> (edges g)\<^sup>+ \<Longrightarrow>
     e = ValueError ''team handoff routes contain a deadlock cycle'' \<and> (\<exists>x. (x, x) \<in> (edges g)\<^sup>+)"
proof (induction g visiting visited n and g visiting visited ns rule: visit_visit_each.induct)
  case (1 g visiting visited n)
  show ?case
  proof (cases "n \<in> set visiting")
    case True
    with "1.prems" show ?thesis by (auto simp: visit.simps)
  next
    case False
    with "1.prems"(1) have v: "n \<notin> set visited"
      "visit_each g (n # visiting) visited (targets g n) = Inl e"
      by (auto simp: visit.simps rbind_Inl_iff split: if_splits)
    have "\<forall>t \<in> set (targets g n). \<forall>m \<in> set (n # visiting). (m, t) \<in> (edges g)\<^sup>+"
    proof (intro ballI)
      fix t m assume t: "t \<in> set (targets g n)" and m: "m \<in> set (n # visiting)"
      from t have e: "(n, t) \<in> edges g" by (simp add: edges_def)
      with m "1.prems"(2) show "(m, t) \<in> (edges g)\<^sup>+" by (auto intro: trancl_into_trancl)
    qed
    with "1.IH" False v show ?thesis by blast
  qed
next
  case (3 g visiting visited n ns)
  from "3.prems"(1) consider "visit g visiting visited n = Inl e"
    | u where "visit g visiting visited n = Inr u" "visit_each g visiting u ns = Inl e"
    by (auto simp: rbind_Inl_iff)
  then show ?case using "3.IH" "3.prems"(2) by cases auto
qed simp

lemma raise_on_deadlock_iff:
  "raise_on_deadlock routes =
     (if acyclic (route_edges routes) then Inr ()
      else Inl (ValueError ''team handoff routes contain a deadlock cycle''))"
proof (cases "visit_each (graph_of routes) [] [] (dict_keys (graph_of routes))")
  case (Inl e)
  from visit_raises(2) [OF Inl] have "e = ValueError ''team handoff routes contain a deadlock cycle''"
    "\<not> acyclic (route_edges routes)" by (auto simp: acyclic_def edges_graph_of)
  with Inl show ?thesis by (simp add: raise_on_deadlock_def Let_def)
next
  case (Inr v)
  from visit_returns(2) [OF Inr] have v: "finished (graph_of routes) v"
    "fst ` set (graph_of routes) \<subseteq> set v" by (auto simp: dict_keys_def)
  have "(x, x) \<notin> (edges (graph_of routes))\<^sup>+" for x
    using finished_acyclic [OF v(1)] v(2) by (meson edges_source_key subsetD tranclD)
  then have "acyclic (route_edges routes)" by (simp add: acyclic_def edges_graph_of)
  with Inr show ?thesis by (simp add: raise_on_deadlock_def Let_def)
qed

section \<open>Building and routing a team\<close>

fun index_members :: "sub_agent list \<Rightarrow> (string \<times> sub_agent) list \<Rightarrow> exc + (string \<times> sub_agent) list" where
  "index_members [] member_by_id = Inr member_by_id"
| "index_members (m # ms) member_by_id =
     (if sg_id m \<in> fst ` set member_by_id then Inl (ValueError ''duplicate team member'')
      else index_members ms (AList.update (sg_id m) m member_by_id))"

definition check_route :: "(string \<times> sub_agent) list \<Rightarrow> handoff_route \<Rightarrow> exc + unit" where
  "check_route member_by_id route =
     rbind (ensure (hr_from_agent route \<in> fst ` set member_by_id)
       (ValueError ''handoff route references unknown from_agent'')) (\<lambda>_.
     rbind (ensure (hr_to_agent route \<in> fst ` set member_by_id)
       (ValueError ''handoff route references unknown to_agent'')) (\<lambda>_.
     rbind (ensure (hr_from_agent route \<noteq> hr_to_agent route)
       (ValueError ''handoff route cannot target the same agent'')) (\<lambda>_.
     ensure (hr_output_name route \<in>
         set (sr_expected_outputs (sg_role (the (map_of member_by_id (hr_from_agent route))))))
       (ValueError ''handoff route output_name must be in source expected_outputs''))))"

definition check_fallback :: "sub_agent list \<Rightarrow> string option \<Rightarrow> exc + string option" where
  "check_fallback specialists fallback = ropt (\<lambda>f.
     rbind (clean_text ''fallback_agent'' f) (\<lambda>fallback_agent.
     rbind (ensure (fallback_agent \<in> sg_id ` set specialists)
       (ValueError ''fallback_agent must reference a specialist'')) (\<lambda>_. Inr fallback_agent))) fallback"

definition make_team :: "team \<Rightarrow> exc + team" where
  "make_team raw =
     rbind (clean_text ''id'' (tm_id raw)) (\<lambda>team_id.
     rbind (clean_text ''input_artifact_kind'' (tm_input_artifact_kind raw)) (\<lambda>input_kind.
     rbind (clean_text ''output_artifact_kind'' (tm_output_artifact_kind raw)) (\<lambda>output_kind.
     rbind (ensure (tm_specialists raw \<noteq> []) (ValueError ''specialists must not be empty'')) (\<lambda>_.
     rbind (index_members (tm_dispatcher raw # tm_specialists raw) []) (\<lambda>member_by_id.
     rbind (reach (check_route member_by_id) (tm_handoff_routes raw)) (\<lambda>_.
     rbind (check_fallback (tm_specialists raw) (tm_fallback_agent raw)) (\<lambda>fallback.
     rbind (raise_on_deadlock (tm_handoff_routes raw)) (\<lambda>_.
     rbind (ensure (tm_provider_config raw = []) (ValueError
       ''team provider_config must be empty; provider behavior belongs to adapters'')) (\<lambda>_.
     Inr (raw\<lparr>tm_id := team_id, tm_input_artifact_kind := input_kind,
              tm_output_artifact_kind := output_kind, tm_fallback_agent := fallback,
              tm_provider_config := []\<rparr>))))))))))"

definition member_ids :: "team \<Rightarrow> string list" where
  "member_ids t = map sg_id (tm_dispatcher t # tm_specialists t)"

definition route_handoff :: "team \<Rightarrow> string \<Rightarrow> string \<Rightarrow> exc + handoff_route" where
  "route_handoff t from_agent output_name =
     rbind (clean_text ''from_agent'' from_agent) (\<lambda>clean_from.
     rbind (clean_text ''output_name'' output_name) (\<lambda>clean_output.
     rbind (ensure (clean_from \<in> set (member_ids t)) (KeyError ''unknown team member'')) (\<lambda>_.
     case find (\<lambda>r. hr_from_agent r = clean_from \<and> hr_output_name r = clean_output)
            (tm_handoff_routes t) of
       Some r \<Rightarrow> Inr r
     | None \<Rightarrow>
         if clean_from = sg_id (tm_dispatcher t) \<and> tm_fallback_agent t \<noteq> None then
           make_handoff_route \<lparr>hr_from_agent = clean_from, hr_output_name = clean_output,
             hr_to_agent = the (tm_fallback_agent t), hr_artifact_kind = ''team-fallback-handoff'',
             hr_is_fallback = True\<rparr>
         else Inl (KeyError ''no handoff route''))))"

definition team_accepts_artifact :: "team \<Rightarrow> handoff_artifact \<Rightarrow> bool" where
  "team_accepts_artifact t a = (ha_artifact_kind a = tm_input_artifact_kind t)"

section \<open>Registries\<close>

definition register_sub_agent :: "sub_agent \<Rightarrow> (string \<times> sub_agent) list \<Rightarrow> exc + (string \<times> sub_agent) list" where
  "register_sub_agent = registry_add sg_id"

definition get_sub_agent :: "string \<Rightarrow> (string \<times> sub_agent) list \<Rightarrow> exc + sub_agent" where
  "get_sub_agent = registry_get ''agent_id''"

definition list_sub_agents :: "(string \<times> sub_agent) list \<Rightarrow> sub_agent list" where
  "list_sub_agents = registry_list"

definition sub_agent_registry :: "sub_agent list \<Rightarrow> exc + (string \<times> sub_agent) list" where
  "sub_agent_registry agents = registry_init register_sub_agent agents []"

definition register_team :: "team \<Rightarrow> (string \<times> team) list \<Rightarrow> exc + (string \<times> team) list" where
  "register_team = registry_add tm_id"

definition get_team :: "string \<Rightarrow> (string \<times> team) list \<Rightarrow> exc + team" where
  "get_team = registry_get ''team_id''"

definition list_teams :: "(string \<times> team) list \<Rightarrow> team list" where
  "list_teams = registry_list"

definition team_registry :: "team list \<Rightarrow> exc + (string \<times> team) list" where
  "team_registry teams = registry_init register_team teams []"

interpretation sub_agents: keyed_registry register_sub_agent get_sub_agent list_sub_agents sg_id map_of "registry_sound sg_id"
  unfolding register_sub_agent_def get_sub_agent_def list_sub_agents_def by (rule registry_laws)

interpretation teams: keyed_registry register_team get_team list_teams tm_id map_of "registry_sound tm_id"
  unfolding register_team_def get_team_def list_teams_def by (rule registry_laws)

section \<open>Progress events\<close>

definition with_telemetry ::
  "run_correlation option \<Rightarrow> token_budget option \<Rightarrow> tool_action list option \<Rightarrow> payload \<Rightarrow> payload" where
  "with_telemetry correlation token_budget tool_actions base =
     (let p = (case correlation of None \<Rightarrow> base | Some c \<Rightarrow> dict_update base (correlation_payload c));
          p = dict_put_opt ''token_budget'' (map_option PDict (token_budget_payload token_budget)) p in
      dict_put_opt ''tool_actions''
        (map_option (\<lambda>actions. PTuple (map PDict actions)) (tool_actions_payload tool_actions)) p)"

definition make_sub_agent_progress_event ::
  "string \<Rightarrow> datetime \<Rightarrow> string \<Rightarrow> sub_agent \<Rightarrow> int \<Rightarrow> string \<Rightarrow> string \<Rightarrow> string
   \<Rightarrow> run_correlation option \<Rightarrow> token_budget option \<Rightarrow> tool_action list option \<Rightarrow> datetime option
   \<Rightarrow> exc + run_event" where
  "make_sub_agent_progress_event hex clock run_id sub_agent seq milestone status summary
     correlation token_budget tool_actions now =
     rbind (ensure (is_valid_milestone ''handoff'' milestone) (ValueError ''milestone not cataloged'')) (\<lambda>_.
     (let clean_summary = strip summary in
     rbind (ensure (clean_summary \<noteq> []) (ValueError ''summary must not be blank'')) (\<lambda>_.
     make_event (''evt-'' @ run_id @ ''-'' @ sg_id sub_agent @ ''-'' @ milestone @ ''-'' @ hex)
       run_id seq ''run.progress''
       (with_telemetry correlation token_budget tool_actions
         [(''phase'', PStr ''handoff''), (''milestone'', PStr milestone),
          (''milestone_ref'', PStr (''handoff.'' @ milestone)), (''run_id'', PStr run_id),
          (''agent_id'', PStr (sg_id sub_agent)), (''sub_agent_id'', PStr (sg_id sub_agent)),
          (''role'', PStr (sr_name (sg_role sub_agent))), (''status'', PStr status),
          (''summary'', PStr clean_summary)])
       (case now of None \<Rightarrow> clock | Some t \<Rightarrow> t)
       (Some \<lparr>c_event_id = None, c_action = Some milestone, c_request_id = Some (sg_id sub_agent)\<rparr>)
       (Some \<lparr>a_kind = System, a_id = Some (sg_id sub_agent),
              a_display = Some (sr_name (sg_role sub_agent))\<rparr>))))"

text \<open>The checks on the two per-member dictionaries, then the event itself.\<close>

definition check_members ::
  "string list \<Rightarrow> (string \<times> string) list \<Rightarrow> (string \<times> string) list option \<Rightarrow> exc + unit" where
  "check_members ids member_statuses member_run_ids =
     rbind (ensure (fst ` set member_statuses - set ids = {})
       (ValueError ''unknown team member statuses'')) (\<lambda>_.
     rbind (ensure (set ids - fst ` set member_statuses = {})
       (ValueError ''missing team member statuses'')) (\<lambda>_.
     case member_run_ids of None \<Rightarrow> Inr ()
     | Some run_ids \<Rightarrow>
         rbind (ensure (fst ` set run_ids - set ids = {}) (ValueError ''unknown team member run ids'')) (\<lambda>_.
         rbind (ensure (set ids - fst ` set run_ids = {}) (ValueError ''missing team member run ids'')) (\<lambda>_.
         reach (\<lambda>(_, member_run_id).
           ensure (strip member_run_id \<noteq> []) (ValueError ''member run id must not be blank'')) run_ids))))"

definition agent_progress ::
  "string list \<Rightarrow> string \<Rightarrow> string \<Rightarrow> (string \<times> string) list \<Rightarrow> (string \<times> string) list option
   \<Rightarrow> run_correlation option \<Rightarrow> pyval list" where
  "agent_progress ids run_id milestone member_statuses member_run_ids correlation =
     map (\<lambda>member_id. PDict
       ([(''agent_id'', PStr member_id),
         (''run_id'', PStr (case member_run_ids of None \<Rightarrow> run_id
             | Some run_ids \<Rightarrow> the (map_of run_ids member_id))),
         (''status'', PStr (the (map_of member_statuses member_id))),
         (''milestone_ref'', PStr (''handoff.'' @ milestone))] @
        (case correlation of None \<Rightarrow> []
         | Some c \<Rightarrow> [(''parent_run_id'', PStr (rc_parent_run_id c))]))) ids"

definition make_team_progress_event ::
  "string \<Rightarrow> datetime \<Rightarrow> string \<Rightarrow> team \<Rightarrow> int \<Rightarrow> string \<Rightarrow> string \<Rightarrow> string
   \<Rightarrow> (string \<times> string) list \<Rightarrow> (string \<times> string) list option \<Rightarrow> run_correlation option
   \<Rightarrow> token_budget option \<Rightarrow> tool_action list option \<Rightarrow> datetime option \<Rightarrow> exc + run_event" where
  "make_team_progress_event hex clock run_id team seq milestone status summary member_statuses
     member_run_ids correlation token_budget tool_actions now =
     rbind (ensure (is_valid_milestone ''handoff'' milestone) (ValueError ''milestone not cataloged'')) (\<lambda>_.
     (let clean_summary = strip summary in
     rbind (ensure (clean_summary \<noteq> []) (ValueError ''summary must not be blank'')) (\<lambda>_.
     rbind (check_members (member_ids team) member_statuses member_run_ids) (\<lambda>_.
     make_event (''evt-'' @ run_id @ ''-'' @ tm_id team @ ''-'' @ milestone @ ''-'' @ hex)
       run_id seq ''run.progress''
       (with_telemetry correlation token_budget tool_actions
         [(''phase'', PStr ''handoff''), (''milestone'', PStr milestone),
          (''milestone_ref'', PStr (''handoff.'' @ milestone)), (''run_id'', PStr run_id),
          (''team_id'', PStr (tm_id team)), (''dispatcher_id'', PStr (sg_id (tm_dispatcher team))),
          (''specialist_ids'', PTuple (map (\<lambda>a. PStr (sg_id a)) (tm_specialists team))),
          (''status'', PStr status), (''summary'', PStr clean_summary),
          (''member_statuses'', PDict (map (\<lambda>m. (m, PStr (the (map_of member_statuses m)))) (member_ids team))),
          (''agent_progress'', PTuple (agent_progress (member_ids team) run_id milestone
             member_statuses member_run_ids correlation))])
       (case now of None \<Rightarrow> clock | Some t \<Rightarrow> t)
       (Some \<lparr>c_event_id = None, c_action = Some milestone, c_request_id = Some (tm_id team)\<rparr>)
       (Some \<lparr>a_kind = System, a_id = Some (tm_id team), a_display = Some (tm_id team)\<rparr>)))))"

section \<open>Which teams are accepted\<close>

lemma index_members_Inr:
  "index_members ms d = Inr d' \<longleftrightarrow>
     distinct (map sg_id ms) \<and> sg_id ` set ms \<inter> fst ` set d = {} \<and> d' = d @ map (\<lambda>m. (sg_id m, m)) ms"
  by (induction ms arbitrary: d) (auto simp: update_new)

lemma index_members_Inl: "index_members ms d = Inl e \<Longrightarrow> e = ValueError ''duplicate team member''"
  by (induction ms arbitrary: d) (auto split: if_splits)

definition produces :: "sub_agent list \<Rightarrow> string \<Rightarrow> string \<Rightarrow> bool" where
  "produces ms agent out \<longleftrightarrow> (\<exists>m \<in> set ms. sg_id m = agent \<and> out \<in> set (sr_expected_outputs (sg_role m)))"

definition route_ok :: "sub_agent list \<Rightarrow> handoff_route \<Rightarrow> bool" where
  "route_ok ms r \<longleftrightarrow> produces ms (hr_from_agent r) (hr_output_name r) \<and>
     hr_to_agent r \<in> sg_id ` set ms \<and> hr_from_agent r \<noteq> hr_to_agent r"

lemma check_route_Inr:
  assumes "distinct (map sg_id ms)"
  shows "check_route (map (\<lambda>m. (sg_id m, m)) ms) r = Inr () \<longleftrightarrow> route_ok ms r"
proof -
  have keys: "fst ` set (map (\<lambda>m. (sg_id m, m)) ms) = sg_id ` set ms" by force
  have look: "map_of (map (\<lambda>m. (sg_id m, m)) ms) (sg_id m) = Some m" if "m \<in> set ms" for m
    using assms that by (intro map_of_is_SomeI) (auto simp: comp_def)
  have "produces ms a out \<longleftrightarrow> a \<in> sg_id ` set ms \<and>
      out \<in> set (sr_expected_outputs (sg_role (the (map_of (map (\<lambda>m. (sg_id m, m)) ms) a))))" for a out
    using assms by (auto simp: produces_def look image_iff)
  then show ?thesis
    unfolding check_route_def keys route_ok_def by (auto simp: rbind_Inr_iff)
qed

definition members :: "team \<Rightarrow> sub_agent list" where
  "members t = tm_dispatcher t # tm_specialists t"

definition fallback_ok :: "team \<Rightarrow> bool" where
  "fallback_ok t \<longleftrightarrow> (\<forall>f. tm_fallback_agent t = Some f \<longrightarrow>
     strip f \<noteq> [] \<and> strip f \<in> sg_id ` set (tm_specialists t))"

definition team_acceptable :: "team \<Rightarrow> bool" where
  "team_acceptable t \<longleftrightarrow>
     strip (tm_id t) \<noteq> [] \<and> strip (tm_input_artifact_kind t) \<noteq> [] \<and> strip (tm_output_artifact_kind t) \<noteq> [] \<and>
     tm_specialists t \<noteq> [] \<and> distinct (map sg_id (members t)) \<and>
     (\<forall>r \<in> set (tm_handoff_routes t). route_ok (members t) r) \<and> fallback_ok t \<and>
     acyclic (route_edges (tm_handoff_routes t)) \<and> tm_provider_config t = []"

lemma check_fallback_Inr:
  "check_fallback (tm_specialists t) (tm_fallback_agent t) = Inr f \<longleftrightarrow>
     fallback_ok t \<and> f = map_option strip (tm_fallback_agent t)"
  by (cases "tm_fallback_agent t")
    (auto simp: check_fallback_def fallback_ok_def rbind_Inr_iff require_text_Inr_iff)

definition cleaned_team :: "team \<Rightarrow> team" where
  "cleaned_team t = t\<lparr>tm_id := strip (tm_id t), tm_input_artifact_kind := strip (tm_input_artifact_kind t),
     tm_output_artifact_kind := strip (tm_output_artifact_kind t),
     tm_fallback_agent := map_option strip (tm_fallback_agent t)\<rparr>"

lemma make_team_Inr: "make_team raw = Inr t \<longleftrightarrow> team_acceptable raw \<and> t = cleaned_team raw"
proof (cases "distinct (map sg_id (members raw))")
  case True
  let ?d = "map (\<lambda>m. (sg_id m, m)) (members raw)"
  have ix: "index_members (tm_dispatcher raw # tm_specialists raw) [] = Inr ?d"
    using True by (simp add: index_members_Inr members_def)
  have "reach (check_route ?d) (tm_handoff_routes raw) = Inr () \<longleftrightarrow>
      (\<forall>r \<in> set (tm_handoff_routes raw). route_ok (members raw) r)"
    by (simp add: reach_Inr_iff check_route_Inr [OF True])
  then show ?thesis
    unfolding make_team_def clean_text_eq ix rbind_simps
    by (auto simp: rbind_Inr_iff require_text_Inr_iff check_fallback_Inr raise_on_deadlock_iff
        team_acceptable_def cleaned_team_def True ix)
next
  case False
  then show ?thesis
    by (auto simp: make_team_def rbind_Inr_iff index_members_Inr team_acceptable_def members_def)
qed

lemma check_route_Inl: "check_route d r = Inl e \<Longrightarrow> \<exists>m. e = ValueError m"
  by (auto simp: check_route_def rbind_Inl_iff ensure_def split: if_splits)

lemma reach_Inl: "reach f xs = Inl e \<Longrightarrow> \<exists>x \<in> set xs. f x = Inl e"
  by (induction xs) (auto simp: rbind_Inl_iff)

lemma require_text_Inl: "require_non_empty_text f v = Inl e \<Longrightarrow> \<exists>m. e = ValueError m"
  by (auto simp: require_non_empty_text_def Let_def split: if_splits)

lemma ensure_Inl_iff: "ensure b e = Inl e' \<longleftrightarrow> \<not> b \<and> e' = e"
  by (auto simp: ensure_def)

lemma make_team_Inl:
  assumes "make_team raw = Inl e"
  shows "\<exists>m. e = ValueError m"
proof -
  have fb: "\<exists>m. x = ValueError m" if "check_fallback ss v = Inl x" for ss v x
    using that by (cases v) (auto simp: check_fallback_def rbind_Inl_iff ensure_Inl_iff dest: require_text_Inl)
  show ?thesis
    using assms unfolding make_team_def clean_text_eq
    by (auto simp: rbind_Inl_iff ensure_Inl_iff raise_on_deadlock_iff split: if_splits
        dest!: require_text_Inl index_members_Inl reach_Inl check_route_Inl fb)
qed

text \<open>
  C20. A team is built exactly when its texts are non-blank, it has specialists, its members
  have distinct ids, every route goes from a member that produces the output to another member,
  the fallback is a specialist, the provider configuration is empty and the graph of the routes
  is acyclic: the depth-first search finds every deadlock and reports no other. Every other
  team is refused by a ValueError.
\<close>

theorem team_built_iff_acyclic:
  "case make_team raw of
     Inr t \<Rightarrow> team_acceptable raw \<and> t = cleaned_team raw
   | Inl e \<Rightarrow> \<not> team_acceptable raw \<and> (\<exists>m. e = ValueError m)"
proof (cases "make_team raw")
  case (Inl e)
  have "\<not> team_acceptable raw" using make_team_Inr [of raw "cleaned_team raw"] Inl by auto
  with Inl make_team_Inl [OF Inl] show ?thesis by simp
next
  case (Inr t)
  then show ?thesis using make_team_Inr [of raw t] by simp
qed

section \<open>Where a handoff goes\<close>

definition has_route :: "team \<Rightarrow> string \<Rightarrow> string \<Rightarrow> bool" where
  "has_route t a out \<longleftrightarrow> (\<exists>r \<in> set (tm_handoff_routes t). hr_from_agent r = a \<and> hr_output_name r = out)"

lemma route_handoff_known:
  assumes "strip a \<in> sg_id ` set (members t)" "strip a \<noteq> []" "strip out \<noteq> []"
  shows "route_handoff t a out =
    (case find (\<lambda>r. hr_from_agent r = strip a \<and> hr_output_name r = strip out) (tm_handoff_routes t) of
       Some r \<Rightarrow> Inr r
     | None \<Rightarrow> if strip a = sg_id (tm_dispatcher t) \<and> tm_fallback_agent t \<noteq> None
         then make_handoff_route \<lparr>hr_from_agent = strip a, hr_output_name = strip out,
             hr_to_agent = the (tm_fallback_agent t), hr_artifact_kind = ''team-fallback-handoff'',
             hr_is_fallback = True\<rparr>
         else Inl (KeyError ''no handoff route''))"
  using assms by (simp add: route_handoff_def require_non_empty_text_def member_ids_def members_def)

text \<open>The fallback handoff of the dispatcher: its target is cleaned already.\<close>

lemma fallback_route:
  assumes "strip a \<noteq> []" "strip out \<noteq> []" "clean f"
  shows "make_handoff_route \<lparr>hr_from_agent = strip a, hr_output_name = strip out, hr_to_agent = f,
      hr_artifact_kind = ''team-fallback-handoff'', hr_is_fallback = True\<rparr> =
    Inr \<lparr>hr_from_agent = strip a, hr_output_name = strip out, hr_to_agent = f,
      hr_artifact_kind = ''team-fallback-handoff'', hr_is_fallback = True\<rparr>"
proof -
  have "clean ''team-fallback-handoff''" by code_simp
  with assms show ?thesis by (simp add: make_handoff_route_def require_non_empty_text_def clean_def)
qed

lemma cleaned_team_sel [simp]:
  "tm_dispatcher (cleaned_team t) = tm_dispatcher t" "tm_specialists (cleaned_team t) = tm_specialists t"
  "tm_handoff_routes (cleaned_team t) = tm_handoff_routes t"
  "tm_fallback_agent (cleaned_team t) = map_option strip (tm_fallback_agent t)"
  "tm_id (cleaned_team t) = strip (tm_id t)"
  "members (cleaned_team t) = members t"
  by (simp_all add: cleaned_team_def members_def)

text \<open>
  C32. In a team that was built, a handoff of a member goes to another member, by the first route
  declared for the member and the output, or by the fallback when the member is the dispatcher
  and no route is declared. It fails, with a KeyError, exactly when there is neither.
\<close>

theorem handoff_goes_to_member:
  assumes "make_team raw = Inr t" "strip a \<in> sg_id ` set (members t)" "strip a \<noteq> []" "strip out \<noteq> []"
  shows "case route_handoff t a out of
      Inr r \<Rightarrow> hr_from_agent r = strip a \<and> hr_output_name r = strip out \<and>
        hr_to_agent r \<in> sg_id ` set (members t) \<and> hr_to_agent r \<noteq> strip a \<and>
        (if has_route t (strip a) (strip out) then r \<in> set (tm_handoff_routes t)
         else hr_is_fallback r \<and> strip a = sg_id (tm_dispatcher t) \<and>
              tm_fallback_agent t = Some (hr_to_agent r))
    | Inl e \<Rightarrow> e = KeyError ''no handoff route'' \<and> \<not> has_route t (strip a) (strip out) \<and>
        (strip a \<noteq> sg_id (tm_dispatcher t) \<or> tm_fallback_agent t = None)"
proof -
  from assms(1) have ok: "team_acceptable raw" and t: "t = cleaned_team raw"
    by (simp_all add: make_team_Inr)
  let ?P = "\<lambda>r. hr_from_agent r = strip a \<and> hr_output_name r = strip out"
  show ?thesis
  proof (cases "find ?P (tm_handoff_routes t)")
    case (Some r)
    from find_SomeD [OF Some] have r: "r \<in> set (tm_handoff_routes raw)" "?P r" using t by simp_all
    with ok have "route_ok (members raw) r" by (simp add: team_acceptable_def)
    moreover have "route_handoff t a out = Inr r" by (simp add: route_handoff_known [OF assms(2-4)] Some)
    ultimately show ?thesis using r t by (auto simp: route_ok_def has_route_def)
  next
    case None
    then have no: "\<not> has_route t (strip a) (strip out)" by (auto simp: find_None_iff has_route_def)
    show ?thesis
    proof (cases "strip a = sg_id (tm_dispatcher t) \<and> tm_fallback_agent t \<noteq> None")
      case True
      then obtain f where f: "tm_fallback_agent t = Some f" by auto
      with t ok have m: "clean f" "f \<in> sg_id ` set (tm_specialists raw)"
        by (auto simp: team_acceptable_def fallback_ok_def clean_def)
      from ok have "sg_id (tm_dispatcher raw) \<notin> sg_id ` set (tm_specialists raw)"
        by (simp add: team_acceptable_def members_def)
      with True t m(2) have "f \<noteq> strip a" by (metis cleaned_team_sel(1))
      moreover have "f \<in> sg_id ` set (members t)" using t m(2) by (simp add: members_def)
      moreover have "route_handoff t a out = Inr \<lparr>hr_from_agent = strip a, hr_output_name = strip out,
          hr_to_agent = f, hr_artifact_kind = ''team-fallback-handoff'', hr_is_fallback = True\<rparr>"
        unfolding route_handoff_known [OF assms(2-4)] None fallback_route [OF assms(3,4) m(1), symmetric]
        using True f by (simp only: option.case simp_thms if_True option.sel)
      ultimately show ?thesis using no True f by simp
    qed (use None no in \<open>auto simp: route_handoff_known [OF assms(2-4)]\<close>)
  qed
qed

text \<open>Some output is not routed: there are more clean names than routes.\<close>

lemma unrouted_output:
  obtains out where "clean out" "\<not> has_route t a out"
proof
  let ?n = "sum_list (map (\<lambda>r. length (hr_output_name r)) (tm_handoff_routes t))"
  let ?out = "replicate (Suc ?n) (CHR ''a'')"
  have "\<not> is_space (CHR ''a'')" by code_simp
  then show "clean ?out" by (simp add: clean_iff del: replicate_Suc)
  have "length (hr_output_name r) \<le> ?n" if "r \<in> set (tm_handoff_routes t)" for r
    using that by (intro member_le_sum_list) auto
  moreover have "length ?out = Suc ?n" by (rule length_replicate)
  ultimately show "\<not> has_route t a ?out" unfolding has_route_def
    by (auto simp del: replicate_Suc length_replicate) (metis Suc_n_not_le_n)
qed

text \<open>
  The deadlock check sees declared routes only. A team whose fallback specialist hands
  back to the dispatcher is built all the same, and then an output of the dispatcher without a
  route goes to the specialist by the fallback, and the specialist's output goes back to the
  dispatcher: the two can hand over to each other for ever.
\<close>

theorem fallback_cycle_is_accepted:
  assumes "make_team raw = Inr t" "tm_fallback_agent t = Some f"
    and "r \<in> set (tm_handoff_routes t)" "hr_from_agent r = f" "hr_to_agent r = sg_id (tm_dispatcher t)"
    and "\<forall>q \<in> set (tm_handoff_routes t). hr_from_agent q = f \<and> hr_output_name q = hr_output_name r \<longrightarrow> q = r"
    and "clean (hr_output_name r)" "clean (sg_id (tm_dispatcher t))"
  shows "\<exists>out there. clean out \<and>
      route_handoff t (sg_id (tm_dispatcher t)) out = Inr there \<and> hr_to_agent there = f \<and>
      route_handoff t f (hr_output_name r) = Inr r"
proof -
  let ?d = "sg_id (tm_dispatcher t)"
  obtain out where out: "clean out" "\<not> has_route t ?d out" by (rule unrouted_output)
  from assms(1,2) have f: "clean f" "f \<in> sg_id ` set (members t)"
    by (auto simp: make_team_Inr team_acceptable_def fallback_ok_def clean_def members_def)
  have d: "strip ?d = ?d" "?d \<noteq> []" "strip out = out" "out \<noteq> []" "strip f = f" "f \<noteq> []"
    "strip (hr_output_name r) = hr_output_name r" "hr_output_name r \<noteq> []"
    using assms(7,8) out(1) f(1) by (auto simp: clean_def)
  have "find (\<lambda>q. hr_from_agent q = ?d \<and> hr_output_name q = out) (tm_handoff_routes t) = None"
    using out(2) by (auto simp: find_None_iff has_route_def)
  then have there: "route_handoff t ?d out = Inr \<lparr>hr_from_agent = ?d, hr_output_name = out, hr_to_agent = f,
      hr_artifact_kind = ''team-fallback-handoff'', hr_is_fallback = True\<rparr>"
    using d assms(2) fallback_route [of ?d out f] f(1) by (simp add: route_handoff_known members_def)
  obtain q where q: "find (\<lambda>q. hr_from_agent q = f \<and> hr_output_name q = hr_output_name r)
      (tm_handoff_routes t) = Some q"
    using find_None_iff assms(3,4) by (metis (mono_tags, lifting) not_None_eq)
  with find_SomeD [OF q] assms(6) have "q = r" by blast
  with q have home: "route_handoff t f (hr_output_name r) = Inr r"
    using d f(2) by (simp add: route_handoff_known)
  from there home out(1) show ?thesis by (intro exI [of _ out]) simp
qed

section \<open>The three properties on a concrete team\<close>

definition demo_agent :: "string \<Rightarrow> string \<Rightarrow> sub_agent" where
  "demo_agent i out = \<lparr>sg_id = i, sg_role = \<lparr>sr_name = i, sr_objective = ''plan'',
     sr_responsibilities = [''r''], sr_constraints = [''c''], sr_non_goals = [], sr_allowed_tools = [],
     sr_expected_outputs = [out]\<rparr>, sg_artifacts = []\<rparr>"

definition demo_route :: handoff_route where
  "demo_route = \<lparr>hr_from_agent = ''s'', hr_output_name = ''report'', hr_to_agent = ''d'',
     hr_artifact_kind = ''k'', hr_is_fallback = False\<rparr>"

definition demo_team :: team where
  "demo_team = \<lparr>tm_id = ''t'', tm_input_artifact_kind = ''i'', tm_output_artifact_kind = ''o'',
     tm_dispatcher = demo_agent ''d'' ''task'', tm_specialists = [demo_agent ''s'' ''report''],
     tm_handoff_routes = [demo_route], tm_fallback_agent = Some ''s'', tm_provider_config = []\<rparr>"

lemma demo_team_built: "make_team demo_team = Inr demo_team"
  by code_simp

theorem handoff_goes_to_member_witness:
  "\<exists>r. route_handoff demo_team ''d'' '' task '' = Inr r \<and> hr_to_agent r = ''s'' \<and> hr_is_fallback r"
proof -
  have h: "strip ''d'' \<in> sg_id ` set (members demo_team)" "strip ''d'' \<noteq> []" "strip '' task '' \<noteq> []"
    and e: "strip ''d'' = ''d''" "strip '' task '' = ''task''" "tm_fallback_agent demo_team = Some ''s''"
      "sg_id (tm_dispatcher demo_team) = ''d''"
    by code_simp+
  have "\<not> has_route demo_team ''d'' ''task''" by (simp add: has_route_def demo_team_def demo_route_def)
  with e handoff_goes_to_member [OF demo_team_built h] show ?thesis
    by (auto split: sum.splits)
qed

theorem fallback_cycle_is_accepted_witness:
  "\<exists>out there. clean out \<and> route_handoff demo_team ''d'' out = Inr there \<and> hr_to_agent there = ''s'' \<and>
     route_handoff demo_team ''s'' ''report'' = Inr demo_route"
proof -
  have "clean ''report''" "clean ''d''" by code_simp+
  then show ?thesis
    using fallback_cycle_is_accepted [OF demo_team_built, of "''s''" demo_route]
    by (simp add: demo_team_def demo_route_def demo_agent_def)
qed

section \<open>The progress event of a team\<close>

lemma with_telemetry_other:
  assumes "map_of (correlation_payload (the correlation)) k = None" "k \<noteq> ''token_budget''" "k \<noteq> ''tool_actions''"
  shows "map_of (with_telemetry correlation budget actions base) k = map_of base k"
  using assms by (cases correlation)
    (simp_all add: with_telemetry_def Let_def map_of_dict_update correlation_payload_keys)

lemma with_telemetry_keys: "fst ` set base \<subseteq> fst ` set (with_telemetry correlation budget actions base)"
  unfolding with_telemetry_def Let_def
  by (intro order_trans [OF _ keys_dict_put_opt_mono]) (auto simp: keys_dict_update split: option.split)

definition members_reported ::
  "string list \<Rightarrow> (string \<times> string) list \<Rightarrow> (string \<times> string) list option \<Rightarrow> bool" where
  "members_reported ids member_statuses member_run_ids \<longleftrightarrow>
     fst ` set member_statuses = set ids \<and>
     (case member_run_ids of None \<Rightarrow> True
      | Some r \<Rightarrow> fst ` set r = set ids \<and> (\<forall>v \<in> snd ` set r. strip v \<noteq> []))"

lemma check_members_Inr: "check_members ids st rids = Inr () \<longleftrightarrow> members_reported ids st rids"
  by (cases rids) (force simp: check_members_def members_reported_def rbind_Inr_iff reach_Inr_iff)+

definition progress_inputs_ok ::
  "team \<Rightarrow> int \<Rightarrow> string \<Rightarrow> string \<Rightarrow> (string \<times> string) list \<Rightarrow> (string \<times> string) list option \<Rightarrow> datetime \<Rightarrow> bool"
where
  "progress_inputs_ok t seq milestone summary member_statuses member_run_ids timestamp \<longleftrightarrow>
     is_valid_milestone ''handoff'' milestone \<and> strip summary \<noteq> [] \<and>
     members_reported (member_ids t) member_statuses member_run_ids \<and> 1 \<le> seq \<and> is_aware timestamp"

text \<open>What a payload says of the members: each once, in team order, with its status and lineage.\<close>

definition reports_members ::
  "string list \<Rightarrow> (string \<times> string) list \<Rightarrow> run_correlation option \<Rightarrow> payload \<Rightarrow> bool" where
  "reports_members ids member_statuses correlation p \<longleftrightarrow> (\<exists>d es.
     map_of p ''member_statuses'' = Some (PDict d) \<and> map fst d = ids \<and>
     (\<forall>m s. m \<in> set ids \<and> map_of member_statuses m = Some s \<longrightarrow> map_of d m = Some (PStr s)) \<and>
     map_of p ''agent_progress'' = Some (PTuple es) \<and> length es = length ids \<and>
     (\<forall>i < length ids. \<exists>x. es ! i = PDict x \<and> map_of x ''agent_id'' = Some (PStr (ids ! i)) \<and>
        (\<forall>c. correlation = Some c \<longrightarrow> map_of x ''parent_run_id'' = Some (PStr (rc_parent_run_id c)))))"

lemma progress_payload_reports:
  assumes "map_of base ''member_statuses'' =
      Some (PDict (map (\<lambda>m. (m, PStr (the (map_of st m)))) ids))"
    and "map_of base ''agent_progress'' = Some (PTuple (agent_progress ids run ms st rids corr))"
  shows "reports_members ids st corr (with_telemetry corr budget actions base)"
proof -
  have silent: "map_of (correlation_payload c) k = None"
    if "k \<in> {''member_statuses'', ''agent_progress''}" for c k
    using that by (auto simp: correlation_payload_def)
  have "map_of (with_telemetry corr budget actions base) k = map_of base k"
    if "k \<in> {''member_statuses'', ''agent_progress''}" for k
    by (rule with_telemetry_other) (use that silent in auto)
  moreover have "map_of (map (\<lambda>m. (m, PStr (the (map_of st m)))) ids) m = Some (PStr s)"
    if "m \<in> set ids" "map_of st m = Some s" for m s
    using that by (simp add: map_of_map_restrict)
  ultimately show ?thesis
    unfolding reports_members_def
    by (auto simp: assms agent_progress_def comp_def split: option.split)
qed

text \<open>
  A team progress event is built exactly for a milestone of the handoff phase, a non-blank
  summary, a status for every member and no other, run ids likewise when they are given and none
  of them blank, a positive number and an aware time. It is a valid event that reports every
  member once, in team order, with the status given and the parent run of the correlation.
\<close>

theorem team_progress_reports_members:
  fixes clock :: datetime
  defines "ts now \<equiv> (case now of None \<Rightarrow> clock | Some t \<Rightarrow> t)"
  shows "case make_team_progress_event hex clock run t seq ms status summary st rids corr budget actions now of
      Inr e \<Rightarrow> progress_inputs_ok t seq ms summary st rids (ts now) \<and> wf_event e \<and>
        e_type e = ''run.progress'' \<and> e_run_id e = run \<and> e_seq e = seq \<and>
        reports_members (member_ids t) st corr (e_payload e)
    | Inl x \<Rightarrow> \<not> progress_inputs_ok t seq ms summary st rids (ts now)"
proof (cases "make_team_progress_event hex clock run t seq ms status summary st rids corr budget actions now")
  case (Inr e)
  then have ok: "progress_inputs_ok t seq ms summary st rids (ts now)"
    by (auto simp: make_team_progress_event_def Let_def rbind_Inr_iff check_members_Inr make_event_def
        progress_inputs_ok_def ts_def)
  from Inr obtain base where
    e: "e_type e = ''run.progress''" "e_run_id e = run" "e_seq e = seq"
      "e_payload e = with_telemetry corr budget actions base"
    and base: "map_of base ''member_statuses'' =
        Some (PDict (map (\<lambda>m. (m, PStr (the (map_of st m)))) (member_ids t)))"
      "map_of base ''agent_progress'' = Some (PTuple (agent_progress (member_ids t) run ms st rids corr))"
    by (auto simp: make_team_progress_event_def Let_def rbind_Inr_iff make_event_def)
  moreover have "wf_event e"
    using Inr by (auto simp: make_team_progress_event_def Let_def rbind_Inr_iff dest: make_event_wf)
  ultimately show ?thesis using ok progress_payload_reports [OF base] by (simp add: Inr)
next
  case (Inl x)
  have "\<not> progress_inputs_ok t seq ms summary st rids (ts now)"
  proof
    assume ok: "progress_inputs_ok t seq ms summary st rids (ts now)"
    then have "validate_payload ''run.progress'' (with_telemetry corr budget actions base) = Inr ()"
      if "fst ` set base \<supseteq> {''phase'', ''milestone''}" for base
      using that with_telemetry_keys [of base corr budget actions] by auto
    with ok Inl show False
      by (auto simp: make_team_progress_event_def Let_def rbind_Inl_iff ensure_Inl_iff make_event_def
          progress_inputs_ok_def ts_def check_members_Inr [symmetric])
  qed
  with Inl show ?thesis by simp
qed

theorem team_progress_reports_members_witness:
  "\<exists>e. make_team_progress_event ''h'' (Aware 5 0) ''r'' demo_team 1 ''team_started'' ''running'' ''go''
      [(''s'', ''running''), (''d'', ''registered'')] None (Some demo_correlation) None None None = Inr e \<and>
    reports_members [''d'', ''s''] [(''s'', ''running''), (''d'', ''registered'')] (Some demo_correlation)
      (e_payload e)"
proof -
  let ?st = "[(''s'', ''running''), (''d'', ''registered'')]"
  have "progress_inputs_ok demo_team 1 ''team_started'' ''go'' ?st None (Aware 5 0)"
    and "member_ids demo_team = [''d'', ''s'']"
    by code_simp+
  then show ?thesis
    using team_progress_reports_members [where hex = "''h''" and clock = "Aware 5 0" and run = "''r''"
      and t = demo_team and seq = 1 and ms = "''team_started''" and status = "''running''"
      and summary = "''go''" and st = ?st and rids = None and corr = "Some demo_correlation"
      and budget = None and actions = None and now = None]
    by (auto split: sum.splits)
qed

end
