(* ===== verification/Pipeline.thy ===== *)
theory Pipeline
  imports Registry Milestones
begin

text \<open>
  Pipelines (domain/pipeline.py) and their execution (services/orchestration/pipeline.py): nodes
  with their artifact kinds and milestones, outcome routes, the constructor's checks, and the
  engine that walks a pipeline by given outcomes under a step limit. A walk is shown to end,
  without using more steps than there are nodes, or to be refused at the limit.
\<close>

section \<open>Pipelines\<close>

record review_checkpoint =
  rk_input_artifact_kind :: string
  rk_passed_output_artifact_kind :: string
  rk_failed_output_artifact_kind :: string

definition make_review_checkpoint :: "review_checkpoint \<Rightarrow> exc + review_checkpoint" where
  "make_review_checkpoint raw =
     rbind (clean_text ''input_artifact_kind'' (rk_input_artifact_kind raw)) (\<lambda>i.
     rbind (clean_text ''passed_output_artifact_kind'' (rk_passed_output_artifact_kind raw)) (\<lambda>p.
     rbind (clean_text ''failed_output_artifact_kind'' (rk_failed_output_artifact_kind raw)) (\<lambda>f.
     Inr \<lparr>rk_input_artifact_kind = i, rk_passed_output_artifact_kind = p,
          rk_failed_output_artifact_kind = f\<rparr>)))"

record pipeline_node =
  nd_id :: string
  nd_kind :: string
  nd_ref_id :: string
  nd_input_artifact_kind :: string
  nd_output_artifact_kind :: string
  nd_phase :: string
  nd_milestone :: string
  nd_review_checkpoint :: "review_checkpoint option"

definition make_pipeline_node :: "pipeline_node \<Rightarrow> exc + pipeline_node" where
  "make_pipeline_node raw =
     rbind (clean_text ''id'' (nd_id raw)) (\<lambda>node_id.
     rbind (clean_text ''kind'' (nd_kind raw)) (\<lambda>kind.
     rbind (ensure (kind \<in> {''sub_agent'', ''team'', ''review_checkpoint''})
       (ValueError ''kind must be one of sub_agent, team, review_checkpoint'')) (\<lambda>_.
     rbind (clean_text ''phase'' (nd_phase raw)) (\<lambda>phase.
     rbind (clean_text ''milestone'' (nd_milestone raw)) (\<lambda>milestone.
     rbind (ensure (is_valid_milestone phase milestone) (ValueError ''milestone not cataloged'')) (\<lambda>_.
     rbind (if kind = ''review_checkpoint'' then
              case nd_review_checkpoint raw of
                None \<Rightarrow> Inl (ValueError ''review_checkpoint nodes require review_checkpoint'')
              | Some checkpoint \<Rightarrow>
                  ensure (rk_input_artifact_kind checkpoint = nd_input_artifact_kind raw)
                    (ValueError ''review checkpoint input must match node input_artifact_kind'')
            else ensure (nd_review_checkpoint raw = None)
              (ValueError ''review_checkpoint is only valid for review_checkpoint nodes'')) (\<lambda>_.
     rbind (clean_text ''ref_id'' (nd_ref_id raw)) (\<lambda>ref_id.
     rbind (clean_text ''input_artifact_kind'' (nd_input_artifact_kind raw)) (\<lambda>i.
     rbind (clean_text ''output_artifact_kind'' (nd_output_artifact_kind raw)) (\<lambda>out.
     Inr \<lparr>nd_id = node_id, nd_kind = kind, nd_ref_id = ref_id, nd_input_artifact_kind = i,
          nd_output_artifact_kind = out, nd_phase = phase, nd_milestone = milestone,
          nd_review_checkpoint = nd_review_checkpoint raw\<rparr>))))))))))"

record pipeline_route =
  pr_from_node :: string
  pr_outcome :: string
  pr_to_node :: "string option"

definition make_pipeline_route :: "pipeline_route \<Rightarrow> exc + pipeline_route" where
  "make_pipeline_route raw =
     rbind (clean_text ''outcome'' (pr_outcome raw)) (\<lambda>outcome.
     rbind (ensure (outcome \<in> {''success'', ''failure''})
       (ValueError ''outcome must be one of success, failure'')) (\<lambda>_.
     rbind (clean_text ''from_node'' (pr_from_node raw)) (\<lambda>from_node.
     rbind (ropt (clean_text ''to_node'') (pr_to_node raw)) (\<lambda>to_node.
     Inr \<lparr>pr_from_node = from_node, pr_outcome = outcome, pr_to_node = to_node\<rparr>))))"

record pipeline =
  pl_id :: string
  pl_start_node :: string
  pl_nodes :: "pipeline_node list"
  pl_routes :: "pipeline_route list"

fun index_nodes :: "pipeline_node list \<Rightarrow> (string \<times> pipeline_node) list \<Rightarrow> exc + (string \<times> pipeline_node) list" where
  "index_nodes [] node_by_id = Inr node_by_id"
| "index_nodes (n # ns) node_by_id =
     (if nd_id n \<in> fst ` set node_by_id then Inl (ValueError ''duplicate pipeline node'')
      else index_nodes ns (AList.update (nd_id n) n node_by_id))"

fun check_routes :: "string set \<Rightarrow> pipeline_route list \<Rightarrow> (string \<times> string) set \<Rightarrow> exc + unit" where
  "check_routes ids [] route_keys = Inr ()"
| "check_routes ids (r # rs) route_keys =
     rbind (ensure (pr_from_node r \<in> ids) (ValueError ''route references unknown from_node'')) (\<lambda>_.
     rbind (ensure (pr_to_node r = None \<or> the (pr_to_node r) \<in> ids)
       (ValueError ''route references unknown to_node'')) (\<lambda>_.
     rbind (ensure ((pr_from_node r, pr_outcome r) \<notin> route_keys)
       (ValueError ''duplicate route for node outcome'')) (\<lambda>_.
     check_routes ids rs (insert (pr_from_node r, pr_outcome r) route_keys))))"

definition make_pipeline :: "pipeline \<Rightarrow> exc + pipeline" where
  "make_pipeline raw =
     rbind (clean_text ''id'' (pl_id raw)) (\<lambda>pipeline_id.
     rbind (clean_text ''start_node'' (pl_start_node raw)) (\<lambda>start_node.
     rbind (ensure (pl_nodes raw \<noteq> []) (ValueError ''nodes must not be empty'')) (\<lambda>_.
     rbind (index_nodes (pl_nodes raw) []) (\<lambda>node_by_id.
     rbind (ensure (start_node \<in> fst ` set node_by_id)
       (ValueError ''start_node references unknown node'')) (\<lambda>_.
     rbind (check_routes (fst ` set node_by_id) (pl_routes raw) {}) (\<lambda>_.
     Inr (raw\<lparr>pl_id := pipeline_id, pl_start_node := start_node\<rparr>)))))))"

definition pipeline_get_node :: "pipeline \<Rightarrow> string \<Rightarrow> exc + pipeline_node" where
  "pipeline_get_node p node_id = rbind (clean_text ''node_id'' node_id) (\<lambda>key.
     case find (\<lambda>n. nd_id n = key) (pl_nodes p) of
       Some n \<Rightarrow> Inr n | None \<Rightarrow> Inl (KeyError ''unknown pipeline node''))"

definition pipeline_get_route :: "pipeline \<Rightarrow> string \<Rightarrow> string \<Rightarrow> exc + pipeline_route" where
  "pipeline_get_route p from_node outcome =
     rbind (clean_text ''from_node'' from_node) (\<lambda>clean_from.
     rbind (clean_text ''outcome'' outcome) (\<lambda>clean_outcome.
     case find (\<lambda>r. pr_from_node r = clean_from \<and> pr_outcome r = clean_outcome) (pl_routes p) of
       Some r \<Rightarrow> Inr r | None \<Rightarrow> Inl (KeyError ''no route for outcome'')))"

definition pipeline_accepts_artifact :: "pipeline \<Rightarrow> handoff_artifact \<Rightarrow> string option \<Rightarrow> exc + bool" where
  "pipeline_accepts_artifact p artifact node_id =
     rbind (pipeline_get_node p (case node_id of Some n \<Rightarrow> n | None \<Rightarrow> pl_start_node p)) (\<lambda>node.
     Inr (ha_artifact_kind artifact = nd_input_artifact_kind node))"

section \<open>Registry\<close>

definition register_pipeline :: "pipeline \<Rightarrow> (string \<times> pipeline) list \<Rightarrow> exc + (string \<times> pipeline) list" where
  "register_pipeline = registry_add pl_id"

definition get_pipeline :: "string \<Rightarrow> (string \<times> pipeline) list \<Rightarrow> exc + pipeline" where
  "get_pipeline = registry_get ''pipeline_id''"

definition list_pipelines :: "(string \<times> pipeline) list \<Rightarrow> pipeline list" where
  "list_pipelines = registry_list"

definition pipeline_registry :: "pipeline list \<Rightarrow> exc + (string \<times> pipeline) list" where
  "pipeline_registry ps = registry_init register_pipeline ps []"

interpretation pipelines: keyed_registry register_pipeline get_pipeline list_pipelines pl_id map_of "registry_sound pl_id"
  unfolding register_pipeline_def get_pipeline_def list_pipelines_def by (rule registry_laws)


section \<open>Execution\<close>

record execution_result =
  ex_status :: string
  ex_visited_node_ids :: "string list"
  ex_events :: "run_event list"

text \<open>What one execution is given: the clock and \<open>uuid4\<close> are read once per event.\<close>

record execution_input =
  ei_pipeline :: pipeline
  ei_run_id :: string
  ei_outcomes :: "(string \<times> string) list"
  ei_correlation :: "run_correlation option"
  ei_token_budget :: "token_budget option"
  ei_clock :: "nat \<Rightarrow> datetime"
  ei_hex :: "nat \<Rightarrow> string"

definition outcome_for :: "pipeline_node \<Rightarrow> (string \<times> string) list \<Rightarrow> exc + string" where
  "outcome_for node outcomes = (case map_of outcomes (nd_id node) of
     Some o1 \<Rightarrow> Inr o1 | None \<Rightarrow> Inl (KeyError ''missing outcome for pipeline node''))"

definition node_payload :: "execution_input \<Rightarrow> pipeline_node \<Rightarrow> string \<Rightarrow> string \<Rightarrow> payload" where
  "node_payload i node outcome status =
     (let base =
        [(''phase'', PStr (nd_phase node)), (''milestone'', PStr (nd_milestone node)),
         (''milestone_ref'', PStr (nd_phase node @ ''.'' @ nd_milestone node)),
         (''run_id'', PStr (ei_run_id i)), (''pipeline_id'', PStr (pl_id (ei_pipeline i))),
         (''node_id'', PStr (nd_id node)), (''node_kind'', PStr (nd_kind node)),
         (''ref_id'', PStr (nd_ref_id node)),
         (''input_artifact_kind'', PStr (nd_input_artifact_kind node)),
         (''output_artifact_kind'', PStr (nd_output_artifact_kind node)),
         (''outcome'', PStr outcome), (''status'', PStr status)];
        p = (case ei_correlation i of None \<Rightarrow> base | Some c \<Rightarrow> dict_update base (correlation_payload c)) in
      dict_put_opt ''token_budget'' (map_option PDict (token_budget_payload (ei_token_budget i))) p)"

definition node_event ::
  "execution_input \<Rightarrow> pipeline_node \<Rightarrow> nat \<Rightarrow> string \<Rightarrow> string \<Rightarrow> exc + run_event" where
  "node_event i node seq outcome status =
     rbind (ensure (is_valid_milestone (nd_phase node) (nd_milestone node))
       (ValueError ''milestone not cataloged'')) (\<lambda>_.
     make_event (''evt-'' @ ei_run_id i @ ''-'' @ pl_id (ei_pipeline i) @ ''-'' @ nd_id node @ ''-'' @ ei_hex i seq)
       (ei_run_id i) (int seq) ''run.progress'' (node_payload i node outcome status) (ei_clock i seq)
       (Some \<lparr>c_event_id = None, c_action = Some (''pipeline.'' @ nd_kind node @ ''.'' @ outcome),
              c_request_id = Some (pl_id (ei_pipeline i))\<rparr>)
       (Some \<lparr>a_kind = System, a_id = Some (pl_id (ei_pipeline i)),
              a_display = Some (pl_id (ei_pipeline i))\<rparr>))"

lemma rbind_cong [fundef_cong]:
  "r = s \<Longrightarrow> (\<And>x. s = Inr x \<Longrightarrow> f x = g x) \<Longrightarrow> rbind r f = rbind s g"
  by (cases s) simp_all

text \<open>The loop: the current node, and the visited nodes and events so far.\<close>

function execute_loop ::
  "execution_input \<Rightarrow> int \<Rightarrow> string option \<Rightarrow> string list \<Rightarrow> run_event list \<Rightarrow> exc + execution_result"
where
  "execute_loop i limit None visited events =
     Inr \<lparr>ex_status = ''completed'', ex_visited_node_ids = visited, ex_events = events\<rparr>"
| "execute_loop i limit (Some current_id) visited events =
     rbind (ensure (\<not> limit \<le> int (length visited))
       (ValueError ''pipeline execution exceeded max_steps'')) (\<lambda>_.
     rbind (pipeline_get_node (ei_pipeline i) current_id) (\<lambda>node.
     rbind (outcome_for node (ei_outcomes i)) (\<lambda>outcome.
     rbind (pipeline_get_route (ei_pipeline i) (nd_id node) outcome) (\<lambda>route.
     (let aborted = (outcome = ''failure'' \<and> pr_to_node route = None);
          node_status = (if aborted then ''aborted'' else ''completed'') in
      rbind (node_event i node (length events + 1) outcome node_status) (\<lambda>event.
      if aborted
      then Inr \<lparr>ex_status = ''aborted'', ex_visited_node_ids = visited @ [nd_id node],
                ex_events = events @ [event]\<rparr>
      else execute_loop i limit (pr_to_node route) (visited @ [nd_id node]) (events @ [event])))))))"
  by pat_completeness auto

termination
  by (relation "measure (\<lambda>(i, limit, current, visited, events). nat (limit - int (length visited)))") auto

definition execute :: "execution_input \<Rightarrow> int option \<Rightarrow> exc + execution_result" where
  "execute i max_steps =
     (let step_limit = (case max_steps of Some k \<Rightarrow> k
        | None \<Rightarrow> max (int (length (pl_nodes (ei_pipeline i))) * 2) 1) in
      rbind (ensure (\<not> step_limit < 1) (ValueError ''max_steps must be greater than zero'')) (\<lambda>_.
      execute_loop i step_limit (Some (pl_start_node (ei_pipeline i))) [] []))"

section \<open>Accepted pipelines\<close>

definition wf_node :: "pipeline_node \<Rightarrow> bool" where
  "wf_node n \<longleftrightarrow> clean (nd_id n) \<and> nd_kind n \<in> {''sub_agent'', ''team'', ''review_checkpoint''} \<and>
     is_valid_milestone (nd_phase n) (nd_milestone n) \<and>
     (nd_kind n = ''review_checkpoint'' \<longleftrightarrow> nd_review_checkpoint n \<noteq> None)"

lemma make_pipeline_node_wf: "make_pipeline_node raw = Inr n \<Longrightarrow> wf_node n"
  by (auto simp: make_pipeline_node_def rbind_Inr_iff wf_node_def dest!: require_text_clean
      split: if_splits option.splits)

definition wf_route :: "pipeline_route \<Rightarrow> bool" where
  "wf_route r \<longleftrightarrow> clean (pr_from_node r) \<and> pr_outcome r \<in> {''success'', ''failure''} \<and> clean_opt (pr_to_node r)"

lemma make_pipeline_route_wf: "make_pipeline_route raw = Inr r \<Longrightarrow> wf_route r"
  by (auto simp: make_pipeline_route_def rbind_Inr_iff wf_route_def
      dest!: require_text_clean ropt_clean_opt)

definition node_ids :: "pipeline \<Rightarrow> string list" where
  "node_ids p = map nd_id (pl_nodes p)"

definition pipeline_acceptable :: "pipeline \<Rightarrow> bool" where
  "pipeline_acceptable p \<longleftrightarrow>
     strip (pl_id p) \<noteq> [] \<and> distinct (node_ids p) \<and> strip (pl_start_node p) \<noteq> [] \<and>
     strip (pl_start_node p) \<in> set (node_ids p) \<and>
     distinct (map (\<lambda>r. (pr_from_node r, pr_outcome r)) (pl_routes p)) \<and>
     (\<forall>r \<in> set (pl_routes p). pr_from_node r \<in> set (node_ids p) \<and>
        (\<forall>n. pr_to_node r = Some n \<longrightarrow> n \<in> set (node_ids p)))"

lemma index_nodes_Inr:
  "index_nodes ns d = Inr d' \<longleftrightarrow>
     distinct (map nd_id ns) \<and> nd_id ` set ns \<inter> fst ` set d = {} \<and> d' = d @ map (\<lambda>n. (nd_id n, n)) ns"
  by (induction ns arbitrary: d) (auto simp: update_new)

lemma none_or_the_iff: "(v = None \<or> the v \<in> A) \<longleftrightarrow> (\<forall>x. v = Some x \<longrightarrow> x \<in> A)"
  by (cases v) auto

lemma check_routes_Inr:
  "check_routes ids rs keys = Inr () \<longleftrightarrow>
     distinct (map (\<lambda>r. (pr_from_node r, pr_outcome r)) rs) \<and>
     (\<forall>r \<in> set rs. pr_from_node r \<in> ids \<and> (\<forall>n. pr_to_node r = Some n \<longrightarrow> n \<in> ids) \<and>
        (pr_from_node r, pr_outcome r) \<notin> keys)"
  by (induction rs arbitrary: keys) (auto simp: rbind_Inr_iff image_iff none_or_the_iff)

lemma make_pipeline_Inr:
  "make_pipeline raw = Inr p \<longleftrightarrow> pipeline_acceptable raw \<and>
     p = raw\<lparr>pl_id := strip (pl_id raw), pl_start_node := strip (pl_start_node raw)\<rparr>"
  by (auto simp: make_pipeline_def rbind_Inr_iff require_text_Inr_iff index_nodes_Inr check_routes_Inr
      pipeline_acceptable_def node_ids_def image_iff)

section \<open>The walk an execution follows\<close>

definition outcome_of :: "execution_input \<Rightarrow> string \<Rightarrow> string" where
  "outcome_of i n = the (map_of (ei_outcomes i) n)"

definition route_from :: "execution_input \<Rightarrow> string \<Rightarrow> pipeline_route option" where
  "route_from i n = find (\<lambda>r. pr_from_node r = n \<and> pr_outcome r = outcome_of i n) (pl_routes (ei_pipeline i))"

definition follow :: "execution_input \<Rightarrow> string option \<Rightarrow> string option" where
  "follow i current = Option.bind current (\<lambda>n. Option.bind (route_from i n) pr_to_node)"

definition walk :: "execution_input \<Rightarrow> nat \<Rightarrow> string option" where
  "walk i k = (follow i ^^ k) (Some (pl_start_node (ei_pipeline i)))"

text \<open>
  The inputs of an execution that cannot fail but by the step limit: a pipeline of constructed
  nodes and routes, an outcome with a route for every node, and an aware clock.
\<close>

definition input_ok :: "execution_input \<Rightarrow> bool" where
  "input_ok i \<longleftrightarrow> (\<exists>raw. make_pipeline raw = Inr (ei_pipeline i)) \<and>
     (\<forall>n \<in> set (pl_nodes (ei_pipeline i)). wf_node n \<and>
        map_of (ei_outcomes i) (nd_id n) \<in> {Some ''success'', Some ''failure''} \<and> route_from i (nd_id n) \<noteq> None) \<and>
     (\<forall>k. is_aware (ei_clock i k))"

definition events_ok :: "execution_input \<Rightarrow> string list \<Rightarrow> run_event list \<Rightarrow> bool" where
  "events_ok i visited events \<longleftrightarrow> length events = length visited \<and>
     (\<forall>j < length visited. wf_event (events ! j) \<and> e_type (events ! j) = ''run.progress'' \<and>
        e_run_id (events ! j) = ei_run_id i \<and> e_seq (events ! j) = int (Suc j) \<and>
        map_of (e_payload (events ! j)) ''node_id'' = Some (PStr (visited ! j)))"

lemma events_ok_append:
  assumes "events_ok i visited events" "wf_event e" "e_type e = ''run.progress''" "e_run_id e = ei_run_id i"
    "e_seq e = int (Suc (length events))" "map_of (e_payload e) ''node_id'' = Some (PStr n)"
  shows "events_ok i (visited @ [n]) (events @ [e])"
  using assms by (auto simp: events_ok_def nth_append less_Suc_eq)

lemma node_event_ok:
  assumes "wf_node node" "is_aware (ei_clock i (Suc k))"
  obtains e where "node_event i node (Suc k) outcome status = Inr e" "wf_event e"
    "e_type e = ''run.progress''" "e_run_id e = ei_run_id i" "e_seq e = int (Suc k)"
    "map_of (e_payload e) ''node_id'' = Some (PStr (nd_id node))"
proof -
  have "map_of (correlation_payload c) ''node_id'' = None" for c by (simp add: correlation_payload_def)
  then have id: "map_of (node_payload i node outcome status) ''node_id'' = Some (PStr (nd_id node))"
    by (simp add: node_payload_def Let_def map_of_dict_update correlation_payload_keys split: option.split)
  have v: "validate_payload ''run.progress'' (node_payload i node outcome status) = Inr ()"
    by (auto simp: node_payload_def Let_def keys_dict_put_opt keys_dict_update split: option.split)
  obtain e where e: "node_event i node (Suc k) outcome status = Inr e"
    using assms v by (simp add: node_event_def wf_node_def make_event_ok)
  then have "wf_event e" by (auto simp: node_event_def rbind_Inr_iff intro: make_event_wf)
  with e id show thesis by (intro that) (auto simp: node_event_def rbind_Inr_iff make_event_def)
qed

section \<open>An execution follows the walk\<close>

lemma walk_Suc: "walk i (Suc k) = follow i (walk i k)"
  by (simp add: walk_def)

lemma input_ok_pipeline: "input_ok i \<Longrightarrow> pl_start_node (ei_pipeline i) \<in> set (node_ids (ei_pipeline i))"
  and input_ok_routes: "input_ok i \<Longrightarrow> r \<in> set (pl_routes (ei_pipeline i)) \<Longrightarrow> pr_to_node r = Some n \<Longrightarrow>
     n \<in> set (node_ids (ei_pipeline i))"
  by (auto simp: input_ok_def make_pipeline_Inr pipeline_acceptable_def node_ids_def)

lemma walk_stays: "input_ok i \<Longrightarrow> walk i k = Some n \<Longrightarrow> n \<in> set (node_ids (ei_pipeline i))"
proof (induction k arbitrary: n)
  case 0
  then show ?case by (auto simp: walk_def dest: input_ok_pipeline)
next
  case (Suc k)
  then obtain m r where "route_from i m = Some r" "pr_to_node r = Some n"
    by (auto simp: walk_Suc follow_def bind_eq_Some_conv)
  with Suc.prems(1) show ?case using input_ok_routes
    by (auto simp: route_from_def dest: find_SomeD)
qed

lemma input_ok_node:
  assumes "input_ok i" "n \<in> set (node_ids (ei_pipeline i))"
  obtains node r where "pipeline_get_node (ei_pipeline i) n = Inr node" "nd_id node = n" "wf_node node"
    "outcome_for node (ei_outcomes i) = Inr (outcome_of i n)"
    "pipeline_get_route (ei_pipeline i) n (outcome_of i n) = Inr r" "route_from i n = Some r"
proof -
  obtain m where m: "m \<in> set (pl_nodes (ei_pipeline i))" "nd_id m = n"
    using assms(2) by (auto simp: node_ids_def)
  then obtain node where node: "find (\<lambda>x. nd_id x = n) (pl_nodes (ei_pipeline i)) = Some node"
    using find_None_iff [of "\<lambda>x. nd_id x = n" "pl_nodes (ei_pipeline i)"] by blast
  then have n: "node \<in> set (pl_nodes (ei_pipeline i))" "nd_id node = n" by (auto dest: find_SomeD)
  with assms(1) obtain r where wf: "wf_node node" and r: "route_from i n = Some r"
    and out: "map_of (ei_outcomes i) n \<in> {Some ''success'', Some ''failure''}"
    by (fastforce simp: input_ok_def)
  have c: "clean n" "clean (outcome_of i n)"
  proof -
    show "clean n" using wf n(2) by (simp add: wf_node_def)
    have "clean ''success''" "clean ''failure''" by code_simp+
    with out show "clean (outcome_of i n)" by (auto simp: outcome_of_def)
  qed
  show thesis
  proof (rule that)
    show "pipeline_get_node (ei_pipeline i) n = Inr node"
      using node c by (simp add: pipeline_get_node_def)
    show "outcome_for node (ei_outcomes i) = Inr (outcome_of i n)"
      using out n(2) by (auto simp: outcome_for_def outcome_of_def)
    show "pipeline_get_route (ei_pipeline i) n (outcome_of i n) = Inr r"
      using r c by (simp add: pipeline_get_route_def route_from_def)
  qed (fact n wf r)+
qed

definition end_status :: "execution_input \<Rightarrow> string \<Rightarrow> string" where
  "end_status i last_node = (if outcome_of i last_node = ''failure'' then ''aborted'' else ''completed'')"

text \<open>One turn of the loop: the node is visited, its event recorded, and the walk goes on or ends.\<close>

lemma loop_step:
  assumes "input_ok i" "n \<in> set (node_ids (ei_pipeline i))" "int (length visited) < limit"
    "events_ok i visited events"
  obtains e where "events_ok i (visited @ [n]) (events @ [e])"
    "execute_loop i limit (Some n) visited events = (case follow i (Some n) of
       None \<Rightarrow> Inr \<lparr>ex_status = end_status i n, ex_visited_node_ids = visited @ [n],
                   ex_events = events @ [e]\<rparr>
     | Some m \<Rightarrow> execute_loop i limit (Some m) (visited @ [n]) (events @ [e]))"
proof -
  obtain node r where node: "pipeline_get_node (ei_pipeline i) n = Inr node" "nd_id node = n" "wf_node node"
    "outcome_for node (ei_outcomes i) = Inr (outcome_of i n)"
    "pipeline_get_route (ei_pipeline i) n (outcome_of i n) = Inr r" and r: "route_from i n = Some r"
    using input_ok_node [OF assms(1,2)] by metis
  let ?ab = "outcome_of i n = ''failure'' \<and> pr_to_node r = None"
  have "is_aware (ei_clock i (Suc (length events)))" using assms(1) by (simp add: input_ok_def)
  then obtain e where e: "node_event i node (Suc (length events)) (outcome_of i n)
      (if ?ab then ''aborted'' else ''completed'') = Inr e"
    "wf_event e" "e_type e = ''run.progress''" "e_run_id e = ei_run_id i"
    "e_seq e = int (Suc (length events))" "map_of (e_payload e) ''node_id'' = Some (PStr n)"
    using node_event_ok [OF node(3)] node(2) by metis
  have ok: "events_ok i (visited @ [n]) (events @ [e])"
    by (rule events_ok_append) (use assms(4) e in auto)
  have "execute_loop i limit (Some n) visited events = (if ?ab
      then Inr \<lparr>ex_status = ''aborted'', ex_visited_node_ids = visited @ [n], ex_events = events @ [e]\<rparr>
      else execute_loop i limit (pr_to_node r) (visited @ [n]) (events @ [e]))"
    using assms(3) node e(1) by (simp add: Let_def)
  then show thesis
    using that [OF ok] r by (simp add: follow_def end_status_def split: option.split)
qed

definition walked :: "execution_input \<Rightarrow> nat \<Rightarrow> string list" where
  "walked i k = map (\<lambda>j. the (walk i j)) [0..<k]"

text \<open>The walk ends after \<open>m\<close> nodes, before the limit: so does the loop.\<close>

lemma loop_ends:
  assumes "input_ok i" "walk i m = None" "\<forall>j < m. walk i j \<noteq> None" "int m \<le> limit"
  shows "k < m \<Longrightarrow> events_ok i (walked i k) events \<Longrightarrow> \<exists>evs. events_ok i (walked i m) evs \<and>
    execute_loop i limit (walk i k) (walked i k) events =
      Inr \<lparr>ex_status = end_status i (the (walk i (m - 1))), ex_visited_node_ids = walked i m, ex_events = evs\<rparr>"
proof (induction "m - k" arbitrary: k events)
  case (Suc d)
  obtain n where n: "walk i k = Some n" using assms(3) Suc.prems(1) by blast
  have lt: "int (length (walked i k)) < limit" using Suc.prems(1) assms(4) by (simp add: walked_def)
  have w: "walked i (Suc k) = walked i k @ [n]" by (simp add: walked_def n)
  obtain e where e: "events_ok i (walked i (Suc k)) (events @ [e])"
    "execute_loop i limit (walk i k) (walked i k) events = (case walk i (Suc k) of
       None \<Rightarrow> Inr \<lparr>ex_status = end_status i n, ex_visited_node_ids = walked i (Suc k),
                   ex_events = events @ [e]\<rparr>
     | Some m \<Rightarrow> execute_loop i limit (Some m) (walked i (Suc k)) (events @ [e]))"
    using loop_step [OF assms(1) walk_stays [OF assms(1) n] lt Suc.prems(2)] unfolding w walk_Suc n by metis
  show ?case
  proof (cases "walk i (Suc k)")
    case None
    with assms(3) Suc.prems(1) have "m = Suc k" by (metis Suc_lessI)
    with e None n show ?thesis by auto
  next
    case (Some x)
    with assms(2) Suc.prems(1) have "Suc k < m" by (metis Suc_lessI option.distinct(1))
    with Suc.hyps(1) [of "Suc k" "events @ [e]"] Suc.hyps(2) e Some show ?thesis by simp
  qed
qed simp

text \<open>The walk is still going at the limit: the loop is refused there.\<close>

lemma loop_exceeds:
  assumes "input_ok i" "\<forall>j \<le> L. walk i j \<noteq> None"
  shows "k \<le> L \<Longrightarrow> events_ok i (walked i k) events \<Longrightarrow>
    execute_loop i (int L) (walk i k) (walked i k) events =
      Inl (ValueError ''pipeline execution exceeded max_steps'')"
proof (induction "L - k" arbitrary: k events)
  case 0
  with assms(2) obtain n where "walk i k = Some n" by blast
  with 0 show ?case by (simp add: walked_def)
next
  case (Suc d)
  from assms(2) Suc.prems(1) obtain n where n: "walk i k = Some n" by blast
  have lt: "int (length (walked i k)) < int L" using Suc.hyps(2) by (simp add: walked_def)
  have w: "walked i (Suc k) = walked i k @ [n]" by (simp add: walked_def n)
  have k: "Suc k \<le> L" using Suc.hyps(2) by simp
  with assms(2) obtain x where x: "walk i (Suc k) = Some x" by blast
  obtain e where e: "events_ok i (walked i (Suc k)) (events @ [e])"
    "execute_loop i (int L) (walk i k) (walked i k) events =
       execute_loop i (int L) (walk i (Suc k)) (walked i (Suc k)) (events @ [e])"
    using loop_step [OF assms(1) walk_stays [OF assms(1) n] lt Suc.prems(2)]
    unfolding w x walk_Suc [symmetric, of i k, unfolded n] n by (metis option.simps(5))
  with Suc.hyps(1) [of "Suc k" "events @ [e]"] Suc.hyps(2) k show ?case by simp
qed

declare execute_loop.simps(2) [simp del]

section \<open>Termination of the walk decides the execution\<close>

lemma walk_repeats: "walk i a = walk i b \<Longrightarrow> walk i (a + t) = walk i (b + t)"
  by (induction t) (simp_all add: walk_Suc)

lemma walk_first_end:
  assumes "input_ok i" "walk i m = None" "\<forall>j < m. walk i j \<noteq> None"
  shows "distinct (walked i m)" and "m \<le> length (pl_nodes (ei_pipeline i))"
proof -
  have neq: "walk i a \<noteq> walk i b" if "a < b" "b < m" for a b
  proof
    assume "walk i a = walk i b"
    from walk_repeats [OF this, of "m - b"] that assms(2) have "walk i (a + (m - b)) = None" by simp
    moreover have "a + (m - b) < m" using that by simp
    ultimately show False using assms(3) by blast
  qed
  have "the (walk i a) \<noteq> the (walk i b)" if "a < m" "b < m" "a \<noteq> b" for a b
    using neq [of a b] neq [of b a] that assms(3) by (metis option.expand linorder_neqE_nat)
  then show d: "distinct (walked i m)"
    unfolding walked_def distinct_map inj_on_def by (metis atLeastLessThan_iff distinct_upt set_upt)
  have "set (walked i m) \<subseteq> set (node_ids (ei_pipeline i))"
    using walk_stays [OF assms(1)] assms(3) by (force simp: walked_def)
  then have "card (set (walked i m)) \<le> card (set (node_ids (ei_pipeline i)))" by (intro card_mono) auto
  also have "\<dots> \<le> length (pl_nodes (ei_pipeline i))" by (metis card_length length_map node_ids_def)
  finally show "m \<le> length (pl_nodes (ei_pipeline i))" using distinct_card [OF d] by (simp add: walked_def)
qed

lemma walk_end_least: "walk i k = None \<Longrightarrow> \<exists>m \<le> k. walk i m = None \<and> (\<forall>j < m. walk i j \<noteq> None)"
  using ex_least_nat_le [of "\<lambda>k. walk i k = None" k] by blast

lemma walk_goes_on: "walk i k \<noteq> None \<Longrightarrow> j \<le> k \<Longrightarrow> walk i j \<noteq> None"
  by (induction k) (auto simp: walk_Suc follow_def le_Suc_eq bind_eq_Some_conv)

lemma walk_never_ends:
  assumes "input_ok i" "walk i (length (pl_nodes (ei_pipeline i))) \<noteq> None"
  shows "walk i k \<noteq> None"
proof
  assume "walk i k = None"
  then obtain m where m: "walk i m = None" "\<forall>j < m. walk i j \<noteq> None" using walk_end_least by blast
  with walk_first_end(2) [OF assms(1) m] walk_goes_on [OF assms(2)] show False by blast
qed

lemma walk_starts: "walk i 0 = Some (pl_start_node (ei_pipeline i))"
  by (simp add: walk_def)

lemma walked_0: "walked i 0 = []" and events_ok_Nil: "events_ok i [] []"
  by (simp_all add: walked_def events_ok_def)

text \<open>What a completed execution is: the walk from start to end, every node at most once.\<close>

definition full_walk :: "execution_input \<Rightarrow> execution_result \<Rightarrow> bool" where
  "full_walk i res \<longleftrightarrow> (\<exists>m > 0. ex_visited_node_ids res = walked i m \<and> walk i m = None \<and>
     (\<forall>j < m. walk i j \<noteq> None) \<and> ex_status res = end_status i (last (walked i m))) \<and>
     distinct (ex_visited_node_ids res) \<and>
     length (ex_visited_node_ids res) \<le> length (pl_nodes (ei_pipeline i)) \<and>
     events_ok i (ex_visited_node_ids res) (ex_events res)"

lemma loop_from_start:
  assumes "input_ok i" "0 < limit"
  defines "r \<equiv> execute_loop i limit (Some (pl_start_node (ei_pipeline i))) [] []"
  shows "if walk i (nat limit) = None then \<exists>res. r = Inr res \<and> full_walk i res
         else r = Inl (ValueError ''pipeline execution exceeded max_steps'')"
proof (cases "walk i (nat limit) = None")
  case True
  then obtain m where m: "m \<le> nat limit" "walk i m = None" "\<forall>j < m. walk i j \<noteq> None"
    using walk_end_least by blast
  have m0: "0 < m" using m(2) walk_starts by (cases m) auto
  have "int m \<le> limit" using m(1) assms(2) by simp
  from loop_ends [OF assms(1) m(2,3) this m0, of "[]"] obtain evs where evs: "events_ok i (walked i m) evs"
    "r = Inr \<lparr>ex_status = end_status i (the (walk i (m - 1))), ex_visited_node_ids = walked i m, ex_events = evs\<rparr>"
    by (auto simp: walked_0 events_ok_Nil r_def walk_starts)
  have "last (walked i m) = the (walk i (m - 1))" using m0 by (simp add: walked_def last_conv_nth)
  with evs m m0 walk_first_end [OF assms(1) m(2,3)] True show ?thesis
    by (auto simp: full_walk_def walked_def)
next
  case False
  with loop_exceeds [OF assms(1), of "nat limit" 0 "[]"] walk_goes_on [OF False] assms(2) show ?thesis
    by (simp add: walked_0 events_ok_Nil r_def walk_starts)
qed

text \<open>
  C21. With the default step limit, twice the number of nodes, an execution either follows the
  outcome routes from the start node to their end, visiting no node twice and recording one valid
  event per visited node, numbered from 1, and its status is that of the last node; or it is
  refused with the step limit's ValueError, and this happens exactly when the routes would never
  end.
\<close>

theorem execution_ends_or_cycles:
  assumes "input_ok i"
  shows "case execute i None of
      Inr res \<Rightarrow> full_walk i res
    | Inl e \<Rightarrow> e = ValueError ''pipeline execution exceeded max_steps'' \<and> (\<forall>k. walk i k \<noteq> None)"
proof -
  let ?n = "length (pl_nodes (ei_pipeline i))"
  let ?limit = "max (int ?n * 2) 1"
  have ex: "execute i None = execute_loop i ?limit (Some (pl_start_node (ei_pipeline i))) [] []"
    by (simp add: execute_def)
  have "?n \<le> nat ?limit" by simp
  then have "walk i (nat ?limit) \<noteq> None \<Longrightarrow> \<forall>k. walk i k \<noteq> None"
    using walk_never_ends [OF assms] walk_goes_on by blast
  moreover have "0 < ?limit" by simp
  note loop_from_start [OF assms this]
  ultimately show ?thesis unfolding ex by (cases "walk i (nat ?limit) = None") auto
qed

lemma loop_limit_mono:
  "execute_loop i limit current visited events = Inr res \<Longrightarrow> limit \<le> limit' \<Longrightarrow>
   execute_loop i limit' current visited events = Inr res"
proof (induction i limit current visited events rule: execute_loop.induct)
  case (2 i limit current_id visited events)
  from "2.prems" obtain node outcome route event where
    ok: "\<not> limit \<le> int (length visited)" "pipeline_get_node (ei_pipeline i) current_id = Inr node"
      "outcome_for node (ei_outcomes i) = Inr outcome"
      "pipeline_get_route (ei_pipeline i) (nd_id node) outcome = Inr route"
      "node_event i node (length events + 1) outcome
         (if outcome = ''failure'' \<and> pr_to_node route = None then ''aborted'' else ''completed'') = Inr event"
    unfolding execute_loop.simps(2) Let_def rbind_Inr_iff ensure_Inr_iff by metis
  have step: "execute_loop i l (Some current_id) visited events =
      (if outcome = ''failure'' \<and> pr_to_node route = None
       then Inr \<lparr>ex_status = ''aborted'', ex_visited_node_ids = visited @ [nd_id node],
                 ex_events = events @ [event]\<rparr>
       else execute_loop i l (pr_to_node route) (visited @ [nd_id node]) (events @ [event]))"
    if "limit \<le> l" for l
    using ok that by (simp add: execute_loop.simps(2) Let_def)
  show ?case
  proof (cases "outcome = ''failure'' \<and> pr_to_node route = None")
    case True
    with "2.prems" show ?thesis by (simp add: step)
  next
    case False
    have "execute_loop i limit (pr_to_node route) (visited @ [nd_id node]) (events @ [event]) = Inr res"
      using "2.prems"(1) False step [of limit] by (simp split: if_splits)
    then have "execute_loop i limit' (pr_to_node route) (visited @ [nd_id node]) (events @ [event]) = Inr res"
      using "2.IH" [OF _ ok(2,3,4) refl refl ok(5)] ok(1) False "2.prems"(2) by simp
    with False show ?thesis by (simp only: step [OF "2.prems"(2)] if_False)
  qed
qed simp

text \<open>
  An explicit limit only refuses: a limit below 1 is a ValueError, and an execution with a
  limit returns the very result of the default one when the routes end within that many nodes,
  and the step limit's ValueError otherwise.
\<close>

theorem limit_only_refuses:
  assumes "input_ok i"
  shows "execute i (Some limit) =
    (if limit < 1 then Inl (ValueError ''max_steps must be greater than zero'')
     else if walk i (nat limit) = None then execute i None
     else Inl (ValueError ''pipeline execution exceeded max_steps''))"
proof -
  let ?l = "\<lambda>limit. execute_loop i limit (Some (pl_start_node (ei_pipeline i))) [] []"
  let ?n = "length (pl_nodes (ei_pipeline i))"
  let ?default = "max (int ?n * 2) 1"
  have ex: "execute i None = ?l ?default" "1 \<le> limit \<Longrightarrow> execute i (Some limit) = ?l limit"
    by (simp_all add: execute_def)
  consider "limit < 1" | "1 \<le> limit" "walk i (nat limit) \<noteq> None" | "1 \<le> limit" "walk i (nat limit) = None"
    by linarith
  then show ?thesis
  proof cases
    case 1
    then show ?thesis by (simp add: execute_def)
  next
    case 2
    with loop_from_start [OF assms, of limit] show ?thesis by (auto simp: ex)
  next
    case 3
    have "walk i (nat ?default) = None"
      using 3(2) walk_never_ends [OF assms] walk_goes_on [of i "nat ?default" ?n] by fastforce
    moreover have "0 < ?default" by simp
    note loop_from_start [OF assms this]
    ultimately have d: "\<exists>r. ?l ?default = Inr r" by auto
    with 3 loop_from_start [OF assms, of limit] obtain r r' where "?l limit = Inr r" "?l ?default = Inr r'" by auto
    then have "?l limit = ?l ?default" using loop_limit_mono by (metis linear)
    with 3 show ?thesis by (simp add: ex)
  qed
qed

section \<open>A concrete pipeline\<close>

definition demo_node :: "string \<Rightarrow> pipeline_node" where
  "demo_node n = \<lparr>nd_id = n, nd_kind = ''team'', nd_ref_id = ''t'', nd_input_artifact_kind = ''i'',
     nd_output_artifact_kind = ''o'', nd_phase = ''plan'', nd_milestone = ''drafted'', nd_review_checkpoint = None\<rparr>"

definition demo_pipeline :: pipeline where
  "demo_pipeline = \<lparr>pl_id = ''p'', pl_start_node = ''a'', pl_nodes = [demo_node ''a'', demo_node ''b''],
     pl_routes = [\<lparr>pr_from_node = ''a'', pr_outcome = ''success'', pr_to_node = Some ''b''\<rparr>,
       \<lparr>pr_from_node = ''b'', pr_outcome = ''success'', pr_to_node = Some ''a''\<rparr>,
       \<lparr>pr_from_node = ''b'', pr_outcome = ''failure'', pr_to_node = None\<rparr>]\<rparr>"

definition demo_input :: "string \<Rightarrow> execution_input" where
  "demo_input b_outcome = \<lparr>ei_pipeline = demo_pipeline, ei_run_id = ''r'',
     ei_outcomes = [(''a'', ''success''), (''b'', b_outcome)], ei_correlation = None, ei_token_budget = None,
     ei_clock = (\<lambda>_. Aware 0 0), ei_hex = (\<lambda>_. ''h'')\<rparr>"

lemma demo_input_ok: "input_ok (demo_input ''failure'')" "input_ok (demo_input ''success'')"
proof -
  have p: "make_pipeline demo_pipeline = Inr demo_pipeline"
    "\<forall>n \<in> set (pl_nodes demo_pipeline). wf_node n"
    "\<forall>n \<in> set (pl_nodes demo_pipeline). map_of (ei_outcomes (demo_input ''failure'')) (nd_id n) \<in>
       {Some ''success'', Some ''failure''} \<and> route_from (demo_input ''failure'') (nd_id n) \<noteq> None"
    "\<forall>n \<in> set (pl_nodes demo_pipeline). map_of (ei_outcomes (demo_input ''success'')) (nd_id n) \<in>
       {Some ''success'', Some ''failure''} \<and> route_from (demo_input ''success'') (nd_id n) \<noteq> None"
    by code_simp+
  have "ei_pipeline (demo_input x) = demo_pipeline" "ei_clock (demo_input x) = (\<lambda>_. Aware 0 0)" for x
    by (simp_all add: demo_input_def)
  with p show "input_ok (demo_input ''failure'')" "input_ok (demo_input ''success'')"
    unfolding input_ok_def by auto
qed

theorem execution_ends_or_cycles_witness:
  "\<exists>res. execute (demo_input ''failure'') None = Inr res \<and> full_walk (demo_input ''failure'') res"
proof -
  have "\<not> (\<forall>k. walk (demo_input ''failure'') k \<noteq> None)"
  proof -
    have "walk (demo_input ''failure'') 2 = None" by code_simp
    then show ?thesis by blast
  qed
  then show ?thesis using execution_ends_or_cycles [OF demo_input_ok(1)] by (auto split: sum.splits)
qed

theorem limit_only_refuses_witness:
  "execute (demo_input ''success'') (Some 5) = Inl (ValueError ''pipeline execution exceeded max_steps'')"
proof -
  have "walk (demo_input ''success'') (nat 5) \<noteq> None" by code_simp
  then show ?thesis using limit_only_refuses [OF demo_input_ok(2), of 5] by auto
qed

end
