(* ===== verification/EA_Tasks.thy ===== *)
theory EA_Tasks
  imports Approval_Engine Milestones "HOL-Library.Sublist"
begin

text \<open>
  The executive-assistant task service (services/ea_task_service.py): tasks in the durable
  store, their state machine, and the approval checkpoint that routes through the approval
  engine. Every operation is shown to return, with the state it leaves, on a store in order.
\<close>

section \<open>Requests\<close>

record create_task_request =
  cr_session_id :: string
  cr_title :: string
  cr_objective :: string
  cr_acceptance_criteria :: "string list"
  cr_run_id :: "string option"

record transition_task_request =
  tr_task_id :: string
  tr_state :: string
  tr_run_id :: "string option"

record request_approval_request =
  qr_task_id :: string
  qr_run_id :: string
  qr_approval_kind :: string
  qr_summary :: string

record approval_decision_request =
  dr_task_id :: string
  dr_decision :: approval_decision
  dr_run_id :: "string option"
  dr_approval_kind :: string

text \<open>Python's \<open>value or other\<close> on texts.\<close>

definition text_or :: "string option \<Rightarrow> string \<Rightarrow> string" where
  "text_or v other = (case v of None \<Rightarrow> other | Some s \<Rightarrow> if s = [] then other else s)"

section \<open>Helpers\<close>

definition default_run_id :: "string \<Rightarrow> string" where
  "default_run_id session_id = ''ea-'' @ session_id"

definition ea_approval_id :: "string \<Rightarrow> string \<Rightarrow> string \<Rightarrow> string" where
  "ea_approval_id run_id approval_kind task_id =
     ''approval-'' @ run_id @ ''-'' @ approval_kind @ ''-'' @ task_id"

fun catalog_pair_for_state :: "string \<Rightarrow> string \<times> string" where
  "catalog_pair_for_state state =
     (if state = ''planning'' then (''plan'', ''drafted'')
      else if state = ''executing'' then (''plan'', ''ready'')
      else if state = ''waiting_approval'' then (''execute'', ''waiting_approval'')
      else if state = ''completed'' then (''execute'', ''artifact_emitted'')
      else if state \<in> {''failed'', ''cancelled''} then (''review'', ''findings_recorded'')
      else (''intake'', ''accepted''))"

definition task_created_payload :: "string \<Rightarrow> payload" where
  "task_created_payload task_id =
     [(''phase'', PStr ''intake''), (''milestone'', PStr ''accepted''), (''task_id'', PStr task_id),
      (''ea_event'', PStr ''task_created'')]"

definition task_transition_payload :: "string \<Rightarrow> payload" where
  "task_transition_payload state = (let (phase, milestone) = catalog_pair_for_state state in
     [(''phase'', PStr phase), (''milestone'', PStr milestone), (''to_state'', PStr state),
      (''ea_event'', PStr ''task_transitioned'')])"

definition require_task :: "string \<Rightarrow> (world, task) prog" where
  "require_task task_id = bind (task_get task_id) (\<lambda>found. case found of
     None \<Rightarrow> raise (KeyError ''task not found'') | Some t \<Rightarrow> ret t)"

text \<open>How both emitters of the service build and append their event.\<close>

definition ea_append ::
  "string \<Rightarrow> string \<Rightarrow> payload \<Rightarrow> string \<Rightarrow> string \<Rightarrow> (world, run_event) prog" where
  "ea_append id_prefix run_id payload action request_id =
     bind uuid_hex (\<lambda>hex.
     bind (ev_latest_seq run_id) (\<lambda>latest.
     bind now_utc (\<lambda>now.
     bind (lift (make_event (id_prefix @ hex) run_id (latest + 1) ''run.progress'' payload now
        (Some \<lparr>c_event_id = None, c_action = Some action, c_request_id = Some request_id\<rparr>)
        system_actor)) ev_append)))"

definition ea_emit_progress :: "string \<Rightarrow> string \<Rightarrow> payload \<Rightarrow> (world, unit) prog" where
  "ea_emit_progress run_id task_id payload =
     (case (map_of payload ''phase'', map_of payload ''milestone'') of
        (Some (PStr phase), Some (PStr milestone)) \<Rightarrow>
          andthen (require (is_valid_milestone phase milestone) (ValueError ''unknown run.progress milestone''))
          (andthen (ea_append (''evt-'' @ task_id @ ''-progress-'') run_id payload ''ea_task'' task_id) (ret ()))
      | _ \<Rightarrow> raise (ValueError ''run.progress payload requires string phase and milestone''))"

section \<open>Creating a task\<close>

text \<open>
  The loop over \<open>task_id-1\<close>, \<open>task_id-2\<close>, ... until an unused id is found. \<open>fuel\<close> bounds the
  candidates; one more than the number of stored tasks is always enough (\<open>free_task_id_found\<close>).
\<close>

fun free_task_id :: "nat \<Rightarrow> string \<Rightarrow> nat \<Rightarrow> (world, string option) prog" where
  "free_task_id 0 task_id counter = ret None"
| "free_task_id (Suc fuel) task_id counter =
     (let candidate = task_id @ ''-'' @ show_nat counter in
      bind (task_get candidate) (\<lambda>existing. case existing of
        None \<Rightarrow> ret (Some candidate)
      | Some _ \<Rightarrow> free_task_id fuel task_id (counter + 1)))"

definition choose_task_id :: "string \<Rightarrow> (world, string option) prog" where
  "choose_task_id task_id = bind (task_get task_id) (\<lambda>existing. case existing of
     None \<Rightarrow> ret (Some task_id)
   | Some _ \<Rightarrow> bind (gets (\<lambda>w. length (w_tasks w))) (\<lambda>n. free_task_id (Suc n) task_id 1))"

definition create_task :: "create_task_request \<Rightarrow> (world, payload) prog" where
  "create_task req =
     (let run_id = text_or (cr_run_id req) (''ea-'' @ cr_session_id req) in
      bind now_utc (\<lambda>ts.
      bind (choose_task_id (''task-'' @ cr_session_id req)) (\<lambda>found.
      case found of None \<Rightarrow> raise (RuntimeError ''no unused task id'')
      | Some task_id \<Rightarrow>
          bind (lift (make_task task_id (cr_session_id req) (cr_title req) (cr_objective req) ''draft'' ts ts))
            (\<lambda>domain_task.
          andthen (task_save domain_task)
          (andthen (ea_emit_progress run_id task_id (task_created_payload task_id))
          (ret [(''id'', PStr task_id), (''session_id'', PStr (cr_session_id req)),
                (''title'', PStr (cr_title req)), (''objective'', PStr (cr_objective req)),
                (''state'', PStr ''draft'')]))))))"

section \<open>Transitions\<close>

fun allowed_transitions :: "task_state \<Rightarrow> task_state list" where
  "allowed_transitions TDraft = [TPlanning]"
| "allowed_transitions TPlanning = [TExecuting, TCancelled]"
| "allowed_transitions TExecuting = [TWaitingApproval, TFailed, TCompleted]"
| "allowed_transitions TWaitingApproval = [TPlanning, TCancelled, TFailed]"
| "allowed_transitions TCompleted = []"
| "allowed_transitions TFailed = []"
| "allowed_transitions TCancelled = []"

definition with_state :: "task \<Rightarrow> string \<Rightarrow> datetime \<Rightarrow> exc + task" where
  "with_state t state now = make_task (t_id t) (t_session_id t) (t_title t) (t_objective t) state
     (t_created_at t) now"

definition transition_task :: "transition_task_request \<Rightarrow> (world, payload) prog" where
  "transition_task req =
     bind (require_task (tr_task_id req)) (\<lambda>t.
     andthen (require (tr_state req \<in> show_task_state ` set (allowed_transitions (t_state t)))
       (ValueError ''cannot transition''))
     (bind now_utc (\<lambda>now.
     bind (lift (with_state t (tr_state req) now)) (\<lambda>updated.
     andthen (task_save updated)
     (let run_id = text_or (tr_run_id req) (default_run_id (t_session_id t)) in
     andthen (ea_emit_progress run_id (t_id t) (task_transition_payload (tr_state req)))
     (ret [(''id'', PStr (t_id t)), (''state'', PStr (tr_state req)),
           (''session_id'', PStr (t_session_id t))]))))))"

section \<open>Approval checkpoints\<close>

definition request_approval :: "request_approval_request \<Rightarrow> (world, payload) prog" where
  "request_approval req =
     bind (require_task (qr_task_id req)) (\<lambda>t.
     andthen (require (t_state t = TExecuting) (ValueError ''task is not executing''))
     (bind now_utc (\<lambda>now.
     bind (lift (with_state t ''waiting_approval'' now)) (\<lambda>updated.
     andthen (task_save updated)
     (let enriched_kind = qr_approval_kind req @ ''-'' @ qr_task_id req;
          approval_summary = text_or (Some (qr_summary req)) (''Approval checkpoint for '' @ t_title t);
          run_id = text_or (Some (qr_run_id req)) (default_run_id (t_session_id t)) in
     bind (engine_request run_id enriched_kind approval_summary None None (Some (qr_task_id req))) (\<lambda>approval.
     andthen (ea_append (''evt-'' @ qr_task_id req @ ''-approval-annotate-'') run_id
       [(''phase'', PStr ''plan''), (''milestone'', PStr ''approval_requested''),
        (''approval_id'', PStr (ap_id approval)), (''task_id'', PStr (qr_task_id req)),
        (''ea_event'', PStr ''approval_requested'')] ''request_approval'' (ap_id approval))
     (ret [(''task_id'', PStr (qr_task_id req)), (''approval_id'', PStr (ap_id approval)),
           (''approval_kind'', PStr (qr_approval_kind req)), (''state'', PStr ''waiting_approval'')])))))))"

definition resolution_map :: "(string \<times> string) list" where
  "resolution_map = [(''granted'', ''granted''), (''denied_abandon'', ''denied_abandon''),
     (''denied_alternate_path'', ''denied_alternate_path''), (''timeout'', ''timeout'')]"

definition terminal_transitions :: "(string \<times> string) list" where
  "terminal_transitions = [(''denied'', ''cancelled''), (''timeout'', ''failed'')]"

definition get_or :: "('k \<times> 'v) list \<Rightarrow> 'k \<Rightarrow> 'v \<Rightarrow> 'v" where
  "get_or d k other = (case map_of d k of None \<Rightarrow> other | Some v \<Rightarrow> v)"

definition resolve_approval :: "approval_decision_request \<Rightarrow> (world, payload) prog" where
  "resolve_approval req =
     bind (require_task (dr_task_id req)) (\<lambda>t.
     (let run_id = text_or (dr_run_id req) (default_run_id (t_session_id t));
          approval_id = ea_approval_id run_id (dr_approval_kind req) (dr_task_id req) in
     bind (approval_get approval_id) (\<lambda>found. case found of
       None \<Rightarrow> raise (KeyError ''approval not found'')
     | Some approval \<Rightarrow>
         andthen (require (ap_state approval = APending) (ApprovalAlreadyResolvedError (ap_id approval)))
         (andthen (engine_resolve approval_id (dr_decision req))
         (let tag = decision_tag (dr_decision req);
              ea_state = get_or resolution_map tag ''resolved'';
              post_state = get_or terminal_transitions tag (show_task_state (t_state t)) in
         andthen
           (if post_state \<noteq> show_task_state (t_state t) then
              bind now_utc (\<lambda>now. bind (lift (with_state t post_state now)) (\<lambda>updated.
              andthen (task_save updated) (ret ())))
            else ret ())
         (ret [(''task_id'', PStr (dr_task_id req)), (''approval_id'', PStr (ap_id approval)),
               (''state'', PStr ea_state), (''resolved'', PBool True)]))))))"

section \<open>Event ids\<close>

text \<open>
  What the service relies on of \<open>uuid4().hex\<close>: at least 32 characters without a dash, no value
  that ends another one, and none that ends an event id of the log already. (The code's values
  have exactly 32; the model asks for an endless supply.)
\<close>

definition uuid_ok :: "world \<Rightarrow> bool" where
  "uuid_ok w \<longleftrightarrow> (\<forall>n. 32 \<le> length (w_uuid w n) \<and> CHR ''-'' \<notin> set (w_uuid w n)) \<and>
     (\<forall>n k. suffix (w_uuid w n) (w_uuid w k) \<longrightarrow> n = k) \<and>
     (\<forall>n \<ge> w_uuids w. \<forall>e \<in> set (w_events w). \<not> suffix (w_uuid w n) (e_id e))"

abbreviation waiting_event_id :: "string \<Rightarrow> string" where
  "waiting_event_id a \<equiv> ''evt-'' @ a @ ''-waiting''"

lemma suffix_has:
  assumes "suffix u (xs @ c # ys)" "length ys < length u"
  shows "c \<in> set u"
proof -
  from assms(1) obtain zs where z: "xs @ c # ys = zs @ u" by (auto simp: suffix_def)
  have "length xs + Suc (length ys) = length zs + length u" using arg_cong [OF z, of length] by simp
  with assms(2) have "length zs \<le> length xs" by linarith
  with z have "drop (length zs) xs @ c # ys = u" by (metis append_eq_append_conv_if append_eq_conv_conj)
  then show ?thesis by auto
qed

lemma not_uuid_suffix: "uuid_ok w \<Longrightarrow> length ys < 32 \<Longrightarrow> \<not> suffix (w_uuid w n) (xs @ CHR ''-'' # ys)"
  using suffix_has [of "w_uuid w n" xs "CHR ''-''" ys] unfolding uuid_ok_def
  by (meson less_le_trans)

lemma uuid_suffix_iff:
  assumes "uuid_ok w" "pre \<noteq> []" "last pre = CHR ''-''"
  shows "suffix (w_uuid w n) (pre @ w_uuid w k) \<longleftrightarrow> n = k"
proof
  assume s: "suffix (w_uuid w n) (pre @ w_uuid w k)"
  have pre: "pre = butlast pre @ [CHR ''-'']" using assms(2,3) by (metis append_butlast_last_id)
  have "suffix (w_uuid w n) (w_uuid w k)"
  proof (cases "length (w_uuid w n) \<le> length (w_uuid w k)")
    case True
    then show ?thesis using suffix_length_suffix [OF s, of "w_uuid w k"] by (simp add: suffixI)
  next
    case False
    have "pre @ w_uuid w k = butlast pre @ CHR ''-'' # w_uuid w k" by (subst pre) simp
    with s False have "CHR ''-'' \<in> set (w_uuid w n)" by (metis not_le_imp_less suffix_has)
    with assms(1) show ?thesis by (simp add: uuid_ok_def)
  qed
  with assms(1) show "n = k" by (auto simp: uuid_ok_def)
qed (auto simp: suffix_def)

text \<open>The last word of the ids the approval engine uses, behind a dash.\<close>

lemma approval_event_ids:
  obtains xs ys where "waiting_event_id a = xs @ CHR ''-'' # ys" "length ys < 32"
  by (rule that [of "''evt-'' @ a" "''waiting''"]) auto

lemma decision_event_ids:
  obtains xs ys where "decision_event_id a d = xs @ CHR ''-'' # ys" "length ys < 32"
proof (cases d)
  case Granted
  then show thesis by (intro that [of "''evt-'' @ a" "''granted''"]) auto
next
  case (DeniedAbandon x)
  then show thesis by (intro that [of "''evt-'' @ a" "''denied_abandon''"]) auto
next
  case (DeniedAlternatePath x)
  then show thesis by (intro that [of "''evt-'' @ a" "''denied_alternate''"]) auto
next
  case (Timeout x)
  then show thesis
    by (cases x; intro that [of "''evt-'' @ a" "if x then ''timeout_retry'' else ''timeout''"]) auto
qed

lemma decision_not_waiting: "decision_event_id a d \<noteq> waiting_event_id b"
  by (cases d) (auto dest!: arg_cong [where f = last])

lemma decision_event_id_inj: "decision_event_id a d = decision_event_id b d' \<Longrightarrow> a = b"
proof -
  assume eq: "decision_event_id a d = decision_event_id b d'"
  from arg_cong [OF eq, of last] eq show "a = b"
    by (cases d; cases d') (auto split: if_splits)
qed

lemma ea_approval_id_inj: "ea_approval_id r k t = ea_approval_id r k t' \<longleftrightarrow> t = t'"
  by (simp add: ea_approval_id_def)

section \<open>The invariant of the service\<close>

text \<open>Nothing in the store is younger than the clock.\<close>

definition times_ok :: "world \<Rightarrow> bool" where
  "times_ok w \<longleftrightarrow>
     (\<forall>k t. map_of (w_tasks w) k = Some t \<longrightarrow> instant (t_created_at t) \<le> w_clock w (w_ticks w)) \<and>
     (\<forall>k a. map_of (w_approvals w) k = Some a \<longrightarrow> instant (ap_requested_at a) \<le> w_clock w (w_ticks w))"

text \<open>The log speaks of a checkpoint of a task only when the checkpoint is there, and decided.\<close>

definition tracked :: "string \<Rightarrow> string \<Rightarrow> world \<Rightarrow> string \<Rightarrow> bool" where
  "tracked run kind w tid \<longleftrightarrow> (let i = ea_approval_id run kind tid; ids = e_id ` set (w_events w) in
     (map_of (w_tasks w) tid = None \<longrightarrow> map_of (w_approvals w) i = None) \<and>
     (map_of (w_approvals w) i = None \<longrightarrow> waiting_event_id i \<notin> ids) \<and>
     (\<forall>a. map_of (w_approvals w) i = Some a \<longrightarrow> ap_run_id a = run) \<and>
     ((\<forall>a. map_of (w_approvals w) i = Some a \<longrightarrow> ap_state a = APending) \<longrightarrow>
        (\<forall>d. decision_event_id i d \<notin> ids)))"

definition ea_inv :: "string \<Rightarrow> string \<Rightarrow> world \<Rightarrow> bool" where
  "ea_inv run kind w \<longleftrightarrow> world_ok w \<and> \<not> run_terminal w run \<and> uuid_ok w \<and> times_ok w \<and>
     (\<forall>tid. tracked run kind w tid)"

lemma ea_invD:
  assumes "ea_inv run kind w"
  shows "world_ok w" "log_ok (w_events w)" "\<not> run_terminal w run" "uuid_ok w" "times_ok w" "tracked run kind w tid"
  using assms by (auto simp: ea_inv_def world_ok_def)

lemma clock_step: "world_ok w \<Longrightarrow> w_clock w (w_ticks w) \<le> w_clock w (Suc (w_ticks w))"
  by (auto simp: world_ok_def clock_ok_def intro: monoD)

lemma times_ok_tick: "world_ok w \<Longrightarrow> times_ok w \<Longrightarrow> times_ok (w\<lparr>w_ticks := Suc (w_ticks w)\<rparr>)"
  using clock_step [of w] by (fastforce simp: times_ok_def)

lemma ea_inv_tick: "ea_inv run kind w \<Longrightarrow> ea_inv run kind (w\<lparr>w_ticks := Suc (w_ticks w)\<rparr>)"
  by (auto simp: ea_inv_def world_ok_tick times_ok_tick uuid_ok_def tracked_def)

text \<open>An event with a fresh \<open>uuid\<close> at the end of its id changes none of it.\<close>

lemma ea_append_ok:
  assumes inv: "ea_inv run kind w" and p: "validate_payload ''run.progress'' payload = Inr ()"
    and pre: "pre \<noteq> []" "last pre = CHR ''-''"
  shows "\<exists>e. ea_append pre run payload act rid w =
      (Inr e, w\<lparr>w_uuids := Suc (w_uuids w), w_ticks := Suc (w_ticks w), w_events := w_events w @ [e]\<rparr>) \<and>
    ea_inv run kind (w\<lparr>w_uuids := Suc (w_uuids w), w_ticks := Suc (w_ticks w), w_events := w_events w @ [e]\<rparr>) \<and>
    e_run_id e = run \<and> e_payload e = payload \<and> e_type e = ''run.progress''"
proof -
  note d = ea_invD [OF inv]
  let ?u = "w_uuid w (w_uuids w)"
  let ?w1 = "w\<lparr>w_uuids := Suc (w_uuids w), w_ticks := Suc (w_ticks w)\<rparr>"
  let ?e = "\<lparr>e_id = pre @ ?u, e_run_id = run, e_seq = int (length (events_of w run)) + 1,
      e_type = ''run.progress'', e_payload = payload, e_timestamp = Aware (w_clock w (w_ticks w)) 0,
      e_causation = Some \<lparr>c_event_id = None, c_action = Some act, c_request_id = Some rid\<rparr>,
      e_actor = system_actor\<rparr>"
  have fresh: "pre @ ?u \<notin> e_id ` set (w_events w)"
    using d(4) by (auto simp: uuid_ok_def dest!: spec [of _ "w_uuids w"]) (metis suffixI)
  have run: "ea_append pre run payload act rid w = (Inr ?e, ?w1\<lparr>w_events := w_events w @ [?e]\<rparr>)"
    using fresh d(2,3) p
    by (simp add: ea_append_def prog_simps uuid_hex_def ev_latest_seq_def max_seq_log_ok now_utc_def
        make_event_ok ev_append_cases Let_def run_terminal_def get_run_state_def)
  have wf: "wf_event ?e" using p by (simp add: wf_event_def)
  have "keeps world_ok (ea_append pre run payload act rid)"
    unfolding ea_append_def by (intro keep.resp_bind keep.resp_rules keeps_world) (auto dest: make_event_wf)
  from obeysD [OF this run] d(1) have ok: "world_ok (?w1\<lparr>w_events := w_events w @ [?e]\<rparr>)" by simp
  have uuid: "uuid_ok (?w1\<lparr>w_events := w_events w @ [?e]\<rparr>)"
    using d(4) uuid_suffix_iff [OF d(4) pre] by (auto simp: uuid_ok_def)
  have tr: "tracked run kind (?w1\<lparr>w_events := w_events w @ [?e]\<rparr>) tid" for tid
  proof -
    let ?i = "ea_approval_id run kind tid"
    have "waiting_event_id ?i \<noteq> pre @ ?u"
      using approval_event_ids [of ?i] not_uuid_suffix [OF d(4)] by (metis suffixI)
    moreover have "decision_event_id ?i x \<noteq> pre @ ?u" for x
      using decision_event_ids [of ?i x] not_uuid_suffix [OF d(4)] by (metis suffixI)
    ultimately show ?thesis using d(6) [of tid] by (auto simp: tracked_def Let_def)
  qed
  have "times_ok (?w1\<lparr>w_events := w_events w @ [?e]\<rparr>)"
    using times_ok_tick [OF d(1,5)] by (simp add: times_ok_def)
  with ok uuid tr d(3) have "ea_inv run kind (?w1\<lparr>w_events := w_events w @ [?e]\<rparr>)" by (simp add: ea_inv_def)
  with run show ?thesis by (intro exI [of _ ?e]) simp
qed

section \<open>What the operations do to tasks and checkpoints\<close>

text \<open>
  The abstract state: the state of every task, and of the checkpoint of every task. The
  triples below say what each step of the service makes of it.
\<close>

definition ea_view ::
  "string \<Rightarrow> string \<Rightarrow> (string \<Rightarrow> task_state option) \<Rightarrow> (string \<Rightarrow> approval_state option) \<Rightarrow> world \<Rightarrow> bool" where
  "ea_view run kind T A w \<longleftrightarrow> ea_inv run kind w \<and>
     (\<lambda>tid. map_option t_state (map_of (w_tasks w) tid)) = T \<and>
     (\<lambda>tid. map_option ap_state (map_of (w_approvals w) (ea_approval_id run kind tid))) = A"

lemma ea_viewD:
  assumes "ea_view run kind T A w"
  shows "ea_inv run kind w" "world_ok w" "task_get tid w = (Inr (map_of (w_tasks w) tid), w)"
    "approval_get i w = (Inr (map_of (w_approvals w) i), w)"
    "map_option t_state (map_of (w_tasks w) tid) = T tid"
    "map_option ap_state (map_of (w_approvals w) (ea_approval_id run kind tid)) = A tid"
  using assms by (auto simp: ea_view_def dest: ea_invD(1))

lemma returns_ea_append:
  assumes "validate_payload ''run.progress'' payload = Inr ()" "pre \<noteq> []" "last pre = CHR ''-''"
  shows "returns (ea_view run kind T A) (ea_append pre run payload act rid) (\<lambda>_. ea_view run kind T A)"
  unfolding returns_def
proof (intro allI impI)
  fix w assume "ea_view run kind T A w"
  then show "\<exists>x t. ea_append pre run payload act rid w = (Inr x, t) \<and> ea_view run kind T A t"
    using ea_append_ok [of run kind w payload pre act rid] assms by (fastforce simp: ea_view_def)
qed

lemma returns_ea_emit:
  assumes "map_of payload ''phase'' = Some (PStr ph)" "map_of payload ''milestone'' = Some (PStr m)"
    "is_valid_milestone ph m"
  shows "returns (ea_view run kind T A) (ea_emit_progress run tid payload) (\<lambda>_. ea_view run kind T A)"
proof -
  have "k \<in> fst ` set payload" if "map_of payload k = Some v" for k v
    using map_of_SomeD [OF that] by (rule rev_image_eqI) simp
  from this [OF assms(1)] this [OF assms(2)] have v: "validate_payload ''run.progress'' payload = Inr ()" by simp
  show ?thesis
    unfolding ea_emit_progress_def assms(1,2) prod.case option.case pyval.case
    by (rule returns_require_then [OF _ returns_andthen [OF returns_ea_append [OF v] returns_ret]])
      (use assms(3) in auto)
qed

text \<open>A task value that may be saved: well formed and not younger than the clock.\<close>

definition savable :: "task \<Rightarrow> world \<Rightarrow> bool" where
  "savable t w \<longleftrightarrow> wf_task t \<and> instant (t_created_at t) \<le> w_clock w (w_ticks w)"

lemma returns_save:
  "returns (\<lambda>w. ea_view run kind T A w \<and> savable t w) (task_save t)
     (\<lambda>_. ea_view run kind (T(t_id t \<mapsto> t_state t)) A)"
  unfolding returns_def
proof (intro allI impI)
  fix w assume pre: "ea_view run kind T A w \<and> savable t w"
  let ?w = "w\<lparr>w_tasks := AList.update (t_id t) t (w_tasks w)\<rparr>"
  note d = ea_viewD [of run kind T A w] ea_invD [of run kind w]
  have "world_ok ?w" using pre d(2) by (auto simp: savable_def intro: world_ok_tasks)
  moreover have "times_ok ?w" using pre d(1) ea_invD(5) by (fastforce simp: savable_def times_ok_def update_conv')
  moreover have "tracked run kind ?w tid" for tid
    using pre d(1) ea_invD(6) [of run kind w tid] by (auto simp: tracked_def Let_def update_conv' split: if_splits)
  ultimately have "ea_inv run kind ?w" using pre d(1) by (auto simp: ea_inv_def uuid_ok_def)
  then have "ea_view run kind (T(t_id t \<mapsto> t_state t)) A ?w"
    using pre by (auto simp: ea_view_def update_conv' fun_eq_iff)
  then show "\<exists>x u. task_save t w = (Inr x, u) \<and> ea_view run kind (T(t_id t \<mapsto> t_state t)) A u"
    using pre d(2) by (simp add: task_save_ok)
qed

text \<open>The task just read, as it is stored.\<close>

definition stored :: "task \<Rightarrow> world \<Rightarrow> bool" where
  "stored t w \<longleftrightarrow> map_of (w_tasks w) (t_id t) = Some t"

lemma returns_require_task:
  assumes "T tid \<noteq> None"
  shows "returns (ea_view run kind T A) (require_task tid)
    (\<lambda>t w. (t_id t = tid \<and> wf_task t \<and> T tid = Some (t_state t)) \<and> ea_view run kind T A w \<and> stored t w)"
  unfolding returns_def
proof (intro allI impI)
  fix w assume v: "ea_view run kind T A w"
  with assms obtain t where t: "map_of (w_tasks w) tid = Some t" "T tid = Some (t_state t)"
    using ea_viewD(5) [OF v, of tid] by auto
  then show "\<exists>x u. require_task tid w = (Inr x, u) \<and>
      (t_id x = tid \<and> wf_task x \<and> T tid = Some (t_state x)) \<and> ea_view run kind T A u \<and> stored x u"
    using v ea_viewD(2,3) [OF v] world_okD(3) [OF ea_viewD(2) [OF v] t(1)]
    by (auto simp: require_task_def prog_simps stored_def)
qed

lemma with_state_ok:
  assumes "wf_task t" "instant (t_created_at t) \<le> i"
  shows "with_state t (show_task_state s) (Aware i 0) =
    Inr (t\<lparr>t_state := s, t_updated_at := Aware i 0\<rparr>)"
proof -
  have "wf_task (t\<lparr>t_state := s, t_updated_at := Aware i 0\<rparr>)" using assms by (simp add: wf_task_def)
  from reload_task_id [OF this] show ?thesis by (simp add: reload_task_def with_state_def)
qed

text \<open>The pattern of every state change: read the clock, rebuild the task, save it, go on.\<close>

lemma returns_change_state:
  assumes "wf_task t" and "returns (ea_view run kind (T(t_id t \<mapsto> s)) A) n Q"
  shows "returns (\<lambda>w. ea_view run kind T A w \<and> stored t w)
    (bind now_utc (\<lambda>now. bind (lift (with_state t (show_task_state s) now)) (\<lambda>u. andthen (task_save u) n))) Q"
  unfolding returns_def
proof (intro allI impI)
  fix w assume pre: "ea_view run kind T A w \<and> stored t w"
  let ?i = "w_clock w (w_ticks w)"
  let ?u = "t\<lparr>t_state := s, t_updated_at := Aware ?i 0\<rparr>"
  let ?w = "w\<lparr>w_ticks := Suc (w_ticks w)\<rparr>"
  have created: "instant (t_created_at t) \<le> ?i"
    using pre ea_invD(5) [of run kind w] by (auto simp: ea_view_def stored_def times_ok_def)
  have "savable ?u ?w"
    using assms(1) created clock_step [of w] pre by (auto simp: savable_def wf_task_def ea_view_def ea_inv_def)
  moreover have "ea_view run kind T A ?w" using pre by (auto simp: ea_view_def ea_inv_tick)
  ultimately have "\<exists>x v. task_save ?u ?w = (Inr x, v) \<and> ea_view run kind (T(t_id t \<mapsto> s)) A v"
    using returnsD [OF returns_save [of run kind T A ?u], of ?w] by auto
  then show "\<exists>x v. bind now_utc (\<lambda>now. bind (lift (with_state t (show_task_state s) now))
      (\<lambda>u. andthen (task_save u) n)) w = (Inr x, v) \<and> Q x v"
    using returnsD [OF assms(2)] by (auto simp: prog_simps now_utc_def with_state_ok [OF assms(1) created])
qed

lemma catalog_pair_valid: "is_valid_milestone (fst (catalog_pair_for_state s)) (snd (catalog_pair_for_state s))"
  by simp

lemma returns_emit_transition:
  "returns (ea_view run kind T A) (ea_emit_progress run tid (task_transition_payload s)) (\<lambda>_. ea_view run kind T A)"
  by (rule returns_ea_emit [where ph = "fst (catalog_pair_for_state s)" and m = "snd (catalog_pair_for_state s)"])
    (simp_all add: task_transition_payload_def)

text \<open>A transition the table allows.\<close>

lemma returns_transition:
  assumes "T tid = Some s" "s' \<in> set (allowed_transitions s)" "run \<noteq> []"
  shows "returns (ea_view run kind T A)
    (transition_task \<lparr>tr_task_id = tid, tr_state = show_task_state s', tr_run_id = Some run\<rparr>)
    (\<lambda>_. ea_view run kind (T(tid \<mapsto> s')) A)"
  unfolding transition_task_def transition_task_request.simps
proof (rule returns_bind [OF returns_require_task], goal_cases)
  case (2 t)
  show ?case
    by (rule returns_assume, rule returns_require_then)
      (use assms in \<open>auto simp: text_or_def intro!: returns_change_state returns_andthen [OF returns_emit_transition returns_ret]\<close>)
qed (use assms in simp)

section \<open>Unused task ids\<close>

definition numbered_id :: "string \<Rightarrow> nat \<Rightarrow> string" where
  "numbered_id task_id n = task_id @ ''-'' @ show_nat n"

lemma free_task_id_result:
  assumes "world_ok w"
  shows "\<exists>r. free_task_id fuel task_id c w = (Inr r, w) \<and>
    (case r of None \<Rightarrow> \<forall>k < fuel. map_of (w_tasks w) (numbered_id task_id (c + k)) \<noteq> None
     | Some i \<Rightarrow> map_of (w_tasks w) i = None \<and> (\<exists>k. i = numbered_id task_id k))"
proof (induction fuel arbitrary: c)
  case (Suc fuel)
  show ?case
  proof (cases "map_of (w_tasks w) (numbered_id task_id c)")
    case None
    then show ?thesis using assms by (auto simp: Let_def prog_simps numbered_id_def)
  next
    case (Some t)
    from Suc [of "Suc c"] obtain r where r: "free_task_id fuel task_id (Suc c) w = (Inr r, w)"
      "case r of None \<Rightarrow> \<forall>k < fuel. map_of (w_tasks w) (numbered_id task_id (Suc c + k)) \<noteq> None
       | Some i \<Rightarrow> map_of (w_tasks w) i = None \<and> (\<exists>k. i = numbered_id task_id k)" by blast
    have "\<forall>k < Suc fuel. map_of (w_tasks w) (numbered_id task_id (c + k)) \<noteq> None" if "r = None"
      using r(2) that Some by (auto simp: less_Suc_eq_0_disj)
    with r Some assms show ?thesis
      by (intro exI [of _ r]) (auto simp: Let_def prog_simps numbered_id_def split: option.splits)
  qed
qed (simp add: prog_simps)

text \<open>One more candidate than stored tasks: some candidate is unused.\<close>

lemma free_task_id_found:
  assumes "world_ok w"
  shows "\<exists>i k. free_task_id (Suc (length (w_tasks w))) task_id 1 w = (Inr (Some i), w) \<and>
    map_of (w_tasks w) i = None \<and> i = numbered_id task_id k"
proof -
  let ?n = "length (w_tasks w)"
  obtain r where r: "free_task_id (Suc ?n) task_id 1 w = (Inr r, w)"
    "case r of None \<Rightarrow> \<forall>k < Suc ?n. map_of (w_tasks w) (numbered_id task_id (1 + k)) \<noteq> None
     | Some i \<Rightarrow> map_of (w_tasks w) i = None \<and> (\<exists>k. i = numbered_id task_id k)"
    using free_task_id_result [OF assms, of "Suc ?n" task_id 1] by blast
  have "r \<noteq> None"
  proof
    assume "r = None"
    with r(2) have "(\<lambda>k. numbered_id task_id (1 + k)) ` {..< Suc ?n} \<subseteq> fst ` set (w_tasks w)"
      by (auto simp: map_of_eq_None_iff)
    then have "card ((\<lambda>k. numbered_id task_id (1 + k)) ` {..< Suc ?n}) \<le> card (fst ` set (w_tasks w))"
      by (intro card_mono) auto
    also have "\<dots> \<le> ?n" by (metis card_image_le card_length finite_set le_trans)
    finally have "card ((\<lambda>k. numbered_id task_id (1 + k)) ` {..< Suc ?n}) \<le> ?n" .
    moreover have "inj_on (\<lambda>k. numbered_id task_id (1 + k)) {..< Suc ?n}"
      by (auto simp: inj_on_def numbered_id_def dest: show_nat_inj)
    ultimately show False by (simp add: card_image)
  qed
  with r show ?thesis by auto
qed

lemma clean_task_id: "clean s \<Longrightarrow> clean (''task-'' @ s)" "clean s \<Longrightarrow> clean (numbered_id (''task-'' @ s) n)"
proof -
  have t: "clean ''task-''" by code_simp
  then show a: "clean s \<Longrightarrow> clean (''task-'' @ s)" using clean_append [of "''task-''" s "[]"] by simp
  show "clean s \<Longrightarrow> clean (numbered_id (''task-'' @ s) n)"
    unfolding numbered_id_def using a clean_show_nat by (rule clean_append)
qed

lemma ea_view_untracked: "ea_view run kind T A w \<Longrightarrow> T tid = None \<Longrightarrow> A tid = None"
proof -
  assume v: "ea_view run kind T A w" and T: "T tid = None"
  from T ea_viewD(5) [OF v, of tid] have "map_of (w_tasks w) tid = None" by simp
  with ea_invD(6) [OF ea_viewD(1) [OF v], of tid] have
    "map_of (w_approvals w) (ea_approval_id run kind tid) = None" by (simp add: tracked_def Let_def)
  with ea_viewD(6) [OF v, of tid] show "A tid = None" by simp
qed

lemma clean_strip: "strip v \<noteq> [] \<Longrightarrow> clean (strip v)"
  by (simp add: clean_def)

lemma make_draft:
  assumes "clean i" "clean s" "strip ti \<noteq> []" "strip ob \<noteq> []"
  shows "make_task i s ti ob ''draft'' (Aware t 0) (Aware t 0) =
    Inr \<lparr>t_id = i, t_session_id = s, t_title = strip ti, t_objective = strip ob, t_state = TDraft,
         t_created_at = Aware t 0, t_updated_at = Aware t 0\<rparr>"
  using assms normalize_task_state_show [of TDraft] by (simp add: make_task_def require_non_empty_text_def [of _ ti] require_non_empty_text_def [of _ ob])

text \<open>The id search of \<open>create_task\<close>: an unused clean id, and the store as it was.\<close>

lemma create_task_id:
  assumes "world_ok w" "clean s"
  shows "\<exists>i. choose_task_id (''task-'' @ s) w = (Inr (Some i), w) \<and> map_of (w_tasks w) i = None \<and> clean i"
proof (cases "map_of (w_tasks w) (''task-'' @ s)")
  case None
  with assms(1) have "choose_task_id (''task-'' @ s) w = (Inr (Some (''task-'' @ s)), w)"
    by (simp add: choose_task_id_def prog_simps)
  with None clean_task_id(1) [OF assms(2)] show ?thesis by blast
next
  case (Some t)
  with assms(1) have c: "choose_task_id (''task-'' @ s) w = free_task_id (Suc (length (w_tasks w))) (''task-'' @ s) 1 w"
    by (simp add: choose_task_id_def prog_simps del: free_task_id.simps)
  with free_task_id_found [OF assms(1), of "''task-'' @ s"] clean_task_id(2) [OF assms(2)]
  show ?thesis by (metis (no_types))
qed

lemma returns_create:
  assumes "clean s" "strip ti \<noteq> []" "strip ob \<noteq> []" "run \<noteq> []"
  shows "returns (ea_view run kind T A)
    (create_task \<lparr>cr_session_id = s, cr_title = ti, cr_objective = ob, cr_acceptance_criteria = cs,
       cr_run_id = Some run\<rparr>)
    (\<lambda>p w. \<exists>tid. (map_of p ''id'' = Some (PStr tid) \<and> clean tid \<and> T tid = None \<and> A tid = None) \<and>
       ea_view run kind (T(tid \<mapsto> TDraft)) A w)"
  unfolding returns_def
proof (intro allI impI)
  fix w assume v: "ea_view run kind T A w"
  let ?w = "w\<lparr>w_ticks := Suc (w_ticks w)\<rparr>"
  let ?i = "w_clock w (w_ticks w)"
  have v1: "ea_view run kind T A ?w" using v by (auto simp: ea_view_def ea_inv_tick)
  obtain i where i: "map_of (w_tasks w) i = None" "clean i"
    "choose_task_id (''task-'' @ s) ?w = (Inr (Some i), ?w)"
    using create_task_id [OF ea_viewD(2) [OF v1] assms(1)] by auto
  let ?t = "\<lparr>t_id = i, t_session_id = s, t_title = strip ti, t_objective = strip ob, t_state = TDraft,
         t_created_at = Aware ?i 0, t_updated_at = Aware ?i 0\<rparr>"
  have "savable ?t ?w"
    using assms i(2) clock_step [OF ea_viewD(2) [OF v]] by (simp add: savable_def wf_task_def clean_strip)
  with v1 obtain x w2 where w2: "task_save ?t ?w = (Inr x, w2)" "ea_view run kind (T(i \<mapsto> TDraft)) A w2"
    using returnsD [OF returns_save [of run kind T A ?t], of ?w] by auto
  have "returns (ea_view run kind (T(i \<mapsto> TDraft)) A)
      (ea_emit_progress run i (task_created_payload i)) (\<lambda>_. ea_view run kind (T(i \<mapsto> TDraft)) A)"
    by (rule returns_ea_emit [where ph = "''intake''" and m = "''accepted''"])
      (simp_all add: task_created_payload_def)
  with w2(2) obtain y w3 where w3: "ea_emit_progress run i (task_created_payload i) w2 = (Inr y, w3)"
    "ea_view run kind (T(i \<mapsto> TDraft)) A w3" by (blast dest: returnsD)
  have T: "T i = None" using v i(1) by (auto simp: ea_view_def)
  have "create_task \<lparr>cr_session_id = s, cr_title = ti, cr_objective = ob, cr_acceptance_criteria = cs,
       cr_run_id = Some run\<rparr> w =
     (Inr [(''id'', PStr i), (''session_id'', PStr s), (''title'', PStr ti), (''objective'', PStr ob),
           (''state'', PStr ''draft'')], w3)"
    using i(3) w2(1) w3(1) assms(4)
    by (simp add: create_task_def Let_def prog_simps now_utc_def make_draft [OF i(2) assms(1-3)] text_or_def)
  with w3(2) i(2) T ea_view_untracked [OF v T] show "\<exists>x t. create_task
      \<lparr>cr_session_id = s, cr_title = ti, cr_objective = ob, cr_acceptance_criteria = cs, cr_run_id = Some run\<rparr> w =
      (Inr x, t) \<and> (\<exists>tid. (map_of x ''id'' = Some (PStr tid) \<and> clean tid \<and> T tid = None \<and> A tid = None) \<and>
       ea_view run kind (T(tid \<mapsto> TDraft)) A t)"
    by simp
qed

section \<open>Checkpoints\<close>

text \<open>The approval engine's own step, seen from the service.\<close>

lemma returns_engine_request:
  assumes "A tid = None" "T tid \<noteq> None" "request_ok run (kind @ ''-'' @ tid) summary None None"
  shows "returns (ea_view run kind T A) (engine_request run (kind @ ''-'' @ tid) summary None None ck)
    (\<lambda>a w. ap_id a = ea_approval_id run kind tid \<and> ea_view run kind T (A(tid \<mapsto> APending)) w)"
  unfolding returns_def
proof (intro allI impI)
  fix w assume v: "ea_view run kind T A w"
  note inv = ea_viewD(1) [OF v] and ok = ea_viewD(2) [OF v]
  let ?k = "kind @ ''-'' @ tid" and ?i = "ea_approval_id run kind tid"
  define a where "a = pending_approval run ?k summary None None w"
  let ?w1 = "w\<lparr>w_ticks := Suc (w_ticks w), w_approvals := AList.update (ap_id a) a (w_approvals w)\<rparr>"
  have id: "ap_id a = ?i" by (simp add: a_def pending_approval_def approval_id_of_def ea_approval_id_def)
  have st: "ap_state a = APending" "ap_run_id a = run" by (simp_all add: a_def pending_approval_def)
  note steps = engine_request_steps [OF ok assms(3), folded a_def]
  have fresh: "waiting_event_id ?i \<notin> e_id ` set (w_events w)"
    using ea_invD(6) [OF inv, of tid] ea_viewD(6) [OF v, of tid] assms(1) by (simp add: tracked_def Let_def)
  have log: "log_ok (w_events ?w1)" using steps(2) by (simp add: world_ok_def)
  have aw: "is_aware (ap_requested_at a)" by (simp add: a_def pending_approval_def)
  let ?e = "\<lparr>e_id = ''evt-'' @ ap_id a @ ''-waiting'', e_run_id = run,
      e_seq = int (length (events_of ?w1 run)) + 1, e_type = ''run.approval_waiting'',
      e_payload = waiting_payload a ck, e_timestamp = as_utc (ap_requested_at a),
      e_causation = caused_by ''request_approval'', e_actor = system_actor\<rparr>"
  let ?w' = "?w1\<lparr>w_events := w_events w @ [?e]\<rparr>"
  have em: "emit_event (''evt-'' @ ap_id a @ ''-waiting'') run ''run.approval_waiting'' (waiting_payload a ck)
      (ap_requested_at a) (caused_by ''request_approval'') system_actor ?w1 = (Inr ?e, ?w')"
    using fresh ea_invD(3) [OF inv] id
    by (subst emit_event_ok [OF log aw waiting_payload_valid]) (simp add: Let_def)
  have run: "engine_request run ?k summary None None ck w = (Inr a, ?w')"
    by (simp only: steps(1) em sum.case prod.case)
  have "world_ok ?w'" using obeysD [OF keeps_emit em] steps(2) by simp
  moreover have "uuid_ok ?w'"
  proof -
    have "\<not> suffix (w_uuid w n) (e_id ?e)" for n
      using approval_event_ids [of ?i] not_uuid_suffix [OF ea_invD(4) [OF inv]] id
      by (metis run_event.select_convs(1))
    then show ?thesis using ea_invD(4) [OF inv] by (auto simp: uuid_ok_def)
  qed
  moreover have "times_ok ?w'"
    using ea_invD(5) [OF inv] clock_step [OF ok] id
    by (fastforce simp: times_ok_def update_conv' a_def pending_approval_def)
  moreover have "tracked run kind ?w' x" for x
  proof -
    have e: "e_id ?e = waiting_event_id ?i" using id by simp
    have "decision_event_id (ea_approval_id run kind x) y \<noteq> e_id ?e" for y
      unfolding e by (rule decision_not_waiting)
    moreover have "waiting_event_id (ea_approval_id run kind x) \<noteq> e_id ?e" if "x \<noteq> tid"
      unfolding e using that by (simp add: ea_approval_id_inj)
    moreover have "map_of (w_tasks w) tid \<noteq> None" using assms(2) ea_viewD(5) [OF v, of tid] by auto
    moreover have "map_of (w_approvals w) ?i = None" using assms(1) ea_viewD(6) [OF v, of tid] by simp
    ultimately show ?thesis
      using ea_invD(6) [OF inv, of x] id st
      by (cases "x = tid") (simp_all add: tracked_def Let_def update_conv' ea_approval_id_inj del: run_event.simps)
  qed
  ultimately have "ea_inv run kind ?w'" using ea_invD(3) [OF inv] by (simp add: ea_inv_def)
  then have "ea_view run kind T (A(tid \<mapsto> APending)) ?w'"
    using v id st by (auto simp: ea_view_def update_conv' ea_approval_id_inj fun_eq_iff)
  with run id show "\<exists>x t. engine_request run ?k summary None None ck w = (Inr x, t) \<and>
      ap_id x = ?i \<and> ea_view run kind T (A(tid \<mapsto> APending)) t" by blast
qed

lemma returns_engine_resolve:
  assumes "A tid = Some APending"
  shows "returns (\<lambda>w. ea_view run kind T A w \<and> P (w_tasks w)) (engine_resolve (ea_approval_id run kind tid) d)
    (\<lambda>_ w. ea_view run kind T (A(tid \<mapsto> decided_state d)) w \<and> P (w_tasks w))"
  unfolding returns_def
proof (intro allI impI)
  fix w assume pre: "ea_view run kind T A w \<and> P (w_tasks w)"
  then have v: "ea_view run kind T A w" by simp
  note inv = ea_viewD(1) [OF v] and ok = ea_viewD(2) [OF v]
  let ?i = "ea_approval_id run kind tid"
  from ea_viewD(6) [OF v, of tid] assms obtain a where a: "map_of (w_approvals w) ?i = Some a"
    "ap_state a = APending" by auto
  have t: "instant (ap_requested_at a) \<le> w_clock w (w_ticks w)"
    using ea_invD(5) [OF inv] a(1) by (auto simp: times_ok_def)
  let ?a = "a\<lparr>ap_state := decided_state d, ap_decided_at := Some (Aware (w_clock w (w_ticks w)) 0)\<rparr>"
  let ?w1 = "w\<lparr>w_ticks := Suc (w_ticks w), w_approvals := AList.update ?i ?a (w_approvals w)\<rparr>"
  note steps = engine_resolve_steps [OF ok a t, where d = d]
  have id: "ap_id a = ?i" using world_okD(2) [OF ok a(1)] by simp
  have r: "ap_run_id a = run" using ea_invD(6) [OF inv, of tid] a(1) by (simp add: tracked_def Let_def)
  have fresh: "decision_event_id (ap_id a) d \<notin> e_id ` set (w_events ?w1)"
    using ea_invD(6) [OF inv, of tid] a id by (auto simp: tracked_def Let_def)
  have log: "log_ok (w_events ?w1)" using steps(2) by (simp add: world_ok_def)
  have opn: "\<not> run_terminal ?w1 (ap_run_id a)" using ea_invD(3) [OF inv] r by simp
  obtain e where e: "emit_decision a d (Aware (w_clock w (w_ticks w)) 0) ?w1 =
      (Inr e, ?w1\<lparr>w_events := w_events ?w1 @ [e]\<rparr>)" "e_id e = decision_event_id ?i d"
    using emit_decision_ok [OF log _ opn fresh, of "Aware (w_clock w (w_ticks w)) 0"] id by auto
  let ?w' = "?w1\<lparr>w_events := w_events w @ [e]\<rparr>"
  have run: "engine_resolve ?i d w = (Inr e, ?w')" using steps(1) e(1) by simp
  have "world_ok ?w'" using obeysD [OF resolve_keeps run] ok by simp
  moreover have "uuid_ok ?w'"
  proof -
    have "\<not> suffix (w_uuid w n) (e_id e)" for n
      using decision_event_ids [of ?i d] not_uuid_suffix [OF ea_invD(4) [OF inv]] e(2) by metis
    then show ?thesis using ea_invD(4) [OF inv] by (auto simp: uuid_ok_def)
  qed
  moreover have "times_ok ?w'"
    using ea_invD(5) [OF inv] clock_step [OF ok] t by (fastforce simp: times_ok_def update_conv')
  moreover have "tracked run kind ?w' x" for x
  proof -
    have "decision_event_id (ea_approval_id run kind x) y \<noteq> e_id e" if "x \<noteq> tid" for y
      using decision_event_id_inj e(2) that by (metis ea_approval_id_inj)
    moreover have "waiting_event_id (ea_approval_id run kind x) \<noteq> e_id e"
      using decision_not_waiting e(2) by metis
    moreover have "decided_state d \<noteq> APending" by (cases d) simp_all
    ultimately show ?thesis
      using ea_invD(6) [OF inv, of x] a r
      by (cases "x = tid") (auto simp: tracked_def Let_def update_conv' ea_approval_id_inj)
  qed
  ultimately have "ea_inv run kind ?w'" using ea_invD(3) [OF inv] by (simp add: ea_inv_def)
  then have "ea_view run kind T (A(tid \<mapsto> decided_state d)) ?w'"
    using v by (auto simp: ea_view_def update_conv' ea_approval_id_inj fun_eq_iff)
  moreover have "P (w_tasks ?w')" using pre by simp
  ultimately show "\<exists>x t. engine_resolve ?i d w = (Inr x, t) \<and>
      ea_view run kind T (A(tid \<mapsto> decided_state d)) t \<and> P (w_tasks t)" using run by blast
qed

lemma returns_request:
  assumes "T tid = Some TExecuting" "A tid = None" "clean run" "clean kind" "clean tid" "s = [] \<or> clean s"
  shows "returns (ea_view run kind T A)
    (request_approval \<lparr>qr_task_id = tid, qr_run_id = run, qr_approval_kind = kind, qr_summary = s\<rparr>)
    (\<lambda>_. ea_view run kind (T(tid \<mapsto> TWaitingApproval)) (A(tid \<mapsto> APending)))"
  unfolding request_approval_def request_approval_request.simps show_task_state.simps(4) [symmetric]
proof (rule returns_bind [OF returns_require_task], goal_cases)
  case 1
  then show ?case using assms(1) by simp
next
  case (2 t)
  show ?case
  proof (rule returns_assume, rule returns_require_then, goal_cases)
    case 1
    with assms(1) show ?case by simp
  next
    case 2
    let ?summary = "text_or (Some s) (''Approval checkpoint for '' @ t_title t)"
    have run: "run \<noteq> []" using assms(3) by (auto simp: clean_def)
    have "clean ?summary"
    proof (cases "s = []")
      case True
      have "clean ''Approval''" by code_simp
      then have "clean (''Approval'' @ '' checkpoint for '' @ t_title t)" using 2 by (intro clean_append) (auto simp: wf_task_def)
      with True show ?thesis by (simp add: text_or_def)
    qed (use assms(6) in \<open>simp add: text_or_def\<close>)
    moreover have "clean (kind @ ''-'' @ tid)" using assms(4,5) by (rule clean_append)
    ultimately have ok: "request_ok run (kind @ ''-'' @ tid) ?summary None None"
      using assms(3) by (simp add: request_ok_def)
    have req: "returns (ea_view run kind (T(tid \<mapsto> TWaitingApproval)) A)
      (engine_request run (kind @ ''-'' @ tid) ?summary None None (Some tid))
      (\<lambda>a. ea_view run kind (T(tid \<mapsto> TWaitingApproval)) (A(tid \<mapsto> APending)))"
      by (rule returns_post [OF returns_engine_request [where T = "T(tid \<mapsto> TWaitingApproval)" and A = A]])
        (use ok assms(2) in auto)
    have or: "text_or (Some run) x = run" for x using run by (simp add: text_or_def)
    have "returns (ea_view run kind (T(t_id t \<mapsto> TWaitingApproval)) A)
      (bind (engine_request run (kind @ ''-'' @ tid) ?summary None None (Some tid)) (\<lambda>approval.
       andthen (ea_append (''evt-'' @ tid @ ''-approval-annotate-'') run
         [(''phase'', PStr ''plan''), (''milestone'', PStr ''approval_requested''),
          (''approval_id'', PStr (ap_id approval)), (''task_id'', PStr tid),
          (''ea_event'', PStr ''approval_requested'')] ''request_approval'' (ap_id approval))
       (ret [(''task_id'', PStr tid), (''approval_id'', PStr (ap_id approval)),
             (''approval_kind'', PStr kind), (''state'', PStr (show_task_state TWaitingApproval))])))
      (\<lambda>_. ea_view run kind (T(tid \<mapsto> TWaitingApproval)) (A(tid \<mapsto> APending)))"
      by (rule returns_bind, rule returns_pre [OF req], use 2 in simp,
          rule returns_andthen [OF returns_ea_append returns_ret]) simp_all
    with 2 show ?case
      unfolding or Let_def by (intro returns_change_state) auto
  qed
qed

text \<open>Deciding a checkpoint moves the task only when it timed out.\<close>

definition after_decision :: "approval_decision \<Rightarrow> task_state \<Rightarrow> task_state" where
  "after_decision d s = (case d of Timeout _ \<Rightarrow> TFailed | _ \<Rightarrow> s)"

lemma post_state: "get_or terminal_transitions (decision_tag d) (show_task_state s) = show_task_state (after_decision d s)"
  by (cases d) (simp_all add: get_or_def terminal_transitions_def after_decision_def)

lemma returns_resolve:
  assumes "T tid = Some s" "A tid = Some APending" "run \<noteq> []"
  shows "returns (ea_view run kind T A)
    (resolve_approval \<lparr>dr_task_id = tid, dr_decision = d, dr_run_id = Some run, dr_approval_kind = kind\<rparr>)
    (\<lambda>_. ea_view run kind (T(tid \<mapsto> after_decision d s)) (A(tid \<mapsto> decided_state d)))"
  unfolding resolve_approval_def approval_decision_request.simps
proof (rule returns_bind [OF returns_require_task], goal_cases)
  case 1
  then show ?case using assms(1) by simp
next
  case (2 t)
  let ?i = "ea_approval_id run kind tid"
  have run: "text_or (Some run) x = run" for x using assms(3) by (simp add: text_or_def)
  show ?case
  proof (rule returns_assume)
    assume t: "t_id t = tid \<and> wf_task t \<and> T tid = Some (t_state t)"
    have get: "returns (\<lambda>w. ea_view run kind T A w \<and> stored t w) (approval_get ?i)
        (\<lambda>r w. (\<exists>a. r = Some a \<and> ap_state a = APending) \<and> ea_view run kind T A w \<and> stored t w)"
      unfolding returns_def
    proof (intro allI impI)
      fix w assume v: "ea_view run kind T A w \<and> stored t w"
      with ea_viewD(6) [of run kind T A w tid] assms(2) obtain a where
        "map_of (w_approvals w) ?i = Some a" "ap_state a = APending" by auto
      with v ea_viewD(4) [of run kind T A w ?i] show "\<exists>x u. approval_get ?i w = (Inr x, u) \<and>
          (\<exists>a. x = Some a \<and> ap_state a = APending) \<and> ea_view run kind T A u \<and> stored t u" by simp
    qed
    have fin: "returns (\<lambda>w. ea_view run kind T (A(tid \<mapsto> decided_state d)) w \<and> stored t w)
        (andthen (if show_task_state (after_decision d s) \<noteq> show_task_state (t_state t) then
              bind now_utc (\<lambda>now. bind (lift (with_state t (show_task_state (after_decision d s)) now)) (\<lambda>updated.
              andthen (task_save updated) (ret ())))
            else ret ()) (ret p))
        (\<lambda>_. ea_view run kind (T(tid \<mapsto> after_decision d s)) (A(tid \<mapsto> decided_state d)))" for p
    proof (cases "after_decision d s = t_state t")
      case True
      with t have "T(tid \<mapsto> after_decision d s) = T" by auto
      then show ?thesis
        unfolding True simp_thms(6) not_True_eq_False if_False
        by (intro returns_andthen [OF returns_ret [where Q = "\<lambda>_ w. ea_view run kind T (A(tid \<mapsto> decided_state d)) w"] returns_ret])
          simp_all
    next
      case False
      then have neq: "(show_task_state (after_decision d s) \<noteq> show_task_state (t_state t)) = True" by simp
      show ?thesis
        unfolding neq if_True
      proof (rule returns_andthen)
        show "returns (\<lambda>w. ea_view run kind T (A(tid \<mapsto> decided_state d)) w \<and> stored t w)
          (bind now_utc (\<lambda>now. bind (lift (with_state t (show_task_state (after_decision d s)) now)) (\<lambda>updated.
            andthen (task_save updated) (ret ()))))
          (\<lambda>_. ea_view run kind (T(tid \<mapsto> after_decision d s)) (A(tid \<mapsto> decided_state d)))"
          using t by (intro returns_change_state returns_ret) auto
      qed (rule returns_ret)
    qed
    show "returns (\<lambda>w. ea_view run kind T A w \<and> stored t w)
      (let run_id = text_or (Some run) (default_run_id (t_session_id t)); approval_id = ea_approval_id run_id kind tid in
       bind (approval_get approval_id) (\<lambda>found. case found of
         None \<Rightarrow> raise (KeyError ''approval not found'')
       | Some approval \<Rightarrow>
         andthen (require (ap_state approval = APending) (ApprovalAlreadyResolvedError (ap_id approval)))
         (andthen (engine_resolve approval_id d)
         (let tag = decision_tag d; ea_state = get_or resolution_map tag ''resolved'';
              post_state = get_or terminal_transitions tag (show_task_state (t_state t)) in
         andthen
           (if post_state \<noteq> show_task_state (t_state t) then
              bind now_utc (\<lambda>now. bind (lift (with_state t post_state now)) (\<lambda>updated.
              andthen (task_save updated) (ret ())))
            else ret ())
         (ret [(''task_id'', PStr tid), (''approval_id'', PStr (ap_id approval)),
               (''state'', PStr ea_state), (''resolved'', PBool True)])))))
      (\<lambda>_. ea_view run kind (T(tid \<mapsto> after_decision d s)) (A(tid \<mapsto> decided_state d)))"
      unfolding Let_def run post_state
    proof (rule returns_bind [OF get], rule returns_assume, elim exE conjE, goal_cases)
      case (1 r a)
      have s: "t_state t = s" using t assms(1) by simp
      show ?case
        unfolding 1(1) option.case s
        by (rule returns_require_then [OF 1(2)])
          (rule returns_andthen [OF returns_engine_resolve [where A = A and tid = tid and T = T and
              P = "\<lambda>ts. map_of ts (t_id t) = Some t", OF assms(2), folded stored_def] fin [unfolded s]])
    qed
  qed
qed

section \<open>Properties of the service\<close>

lemma transition_refused:
  assumes "ea_view run kind T A w" "\<not> (\<exists>s s'. T tid = Some s \<and> st = show_task_state s' \<and> s' \<in> set (allowed_transitions s))"
  shows "transition_task \<lparr>tr_task_id = tid, tr_state = st, tr_run_id = r\<rparr> w =
    (Inl (if T tid = None then KeyError ''task not found'' else ValueError ''cannot transition''), w)"
proof (cases "map_of (w_tasks w) tid")
  case None
  then show ?thesis using ea_viewD(3,5) [OF assms(1), of tid]
    by (simp add: transition_task_def require_task_def prog_simps)
next
  case (Some t)
  with ea_viewD(5) [OF assms(1), of tid] have T: "T tid = Some (t_state t)" by simp
  with assms(2) have "st \<notin> show_task_state ` set (allowed_transitions (t_state t))" by auto
  with Some T show ?thesis using ea_viewD(3) [OF assms(1), of tid]
    by (simp add: transition_task_def require_task_def prog_simps)
qed

text \<open>
  C33. A task moves exactly along the transition table. A request for an allowed move of a known
  task succeeds, stores the task in the new state and changes the state of no other task and of
  no checkpoint; every other request is refused, with a KeyError for an unknown task and a
  ValueError for a move that is not allowed, and leaves the store as it was.
\<close>

theorem transition_follows_table:
  assumes "ea_view run kind T A w" "run \<noteq> []"
  shows "case transition_task \<lparr>tr_task_id = tid, tr_state = st, tr_run_id = Some run\<rparr> w of
      (Inr p, w') \<Rightarrow> \<exists>s s'. T tid = Some s \<and> s' \<in> set (allowed_transitions s) \<and>
        st = show_task_state s' \<and> ea_view run kind (T(tid \<mapsto> s')) A w'
    | (Inl e, w') \<Rightarrow> w' = w \<and> \<not> (\<exists>s s'. T tid = Some s \<and> s' \<in> set (allowed_transitions s) \<and>
        st = show_task_state s') \<and>
        e = (if T tid = None then KeyError ''task not found'' else ValueError ''cannot transition'')"
proof (cases "\<exists>s s'. T tid = Some s \<and> st = show_task_state s' \<and> s' \<in> set (allowed_transitions s)")
  case True
  then obtain s s' where s: "T tid = Some s" "st = show_task_state s'" "s' \<in> set (allowed_transitions s)" by blast
  from returnsD [OF returns_transition [of T tid s s' run kind A, OF s(1,3) assms(2)] assms(1)] s
  show ?thesis by auto
next
  case False
  from transition_refused [OF assms(1) False] False show ?thesis by auto
qed

text \<open>One checkpoint: requested for an executing task, then decided.\<close>

definition checkpoint_round :: "string \<Rightarrow> string \<Rightarrow> string \<Rightarrow> approval_decision \<Rightarrow> (world, payload) prog" where
  "checkpoint_round run kind tid d =
     andthen (request_approval \<lparr>qr_task_id = tid, qr_run_id = run, qr_approval_kind = kind, qr_summary = []\<rparr>)
       (resolve_approval \<lparr>dr_task_id = tid, dr_decision = d, dr_run_id = Some run, dr_approval_kind = kind\<rparr>)"

lemma returns_round:
  assumes "T tid = Some TExecuting" "A tid = None" "clean run" "clean kind" "clean tid"
  shows "returns (ea_view run kind T A) (checkpoint_round run kind tid d)
    (\<lambda>_. ea_view run kind (T(tid \<mapsto> after_decision d TWaitingApproval)) (A(tid \<mapsto> decided_state d)))"
proof -
  have "run \<noteq> []" using assms(3) by (auto simp: clean_def)
  then have "returns (ea_view run kind (T(tid \<mapsto> TWaitingApproval)) (A(tid \<mapsto> APending)))
      (resolve_approval \<lparr>dr_task_id = tid, dr_decision = d, dr_run_id = Some run, dr_approval_kind = kind\<rparr>)
      (\<lambda>_. ea_view run kind (T(tid \<mapsto> after_decision d TWaitingApproval)) (A(tid \<mapsto> decided_state d)))"
    using returns_resolve [of "T(tid \<mapsto> TWaitingApproval)" tid TWaitingApproval "A(tid \<mapsto> APending)" run kind d]
    by simp
  with assms show ?thesis
    unfolding checkpoint_round_def by (intro returns_andthen [OF returns_request]) auto
qed

text \<open>
  A checkpoint of an executing task always goes through, whatever the decision, and records
  the decision in the approval. The task fails when the approval timed out; in every other case it
  is left waiting for approval, also when the approval was denied for good: the entry
  \<open>denied\<close> of the code's table of terminal transitions matches no decision tag.
\<close>

theorem checkpoint_outcome:
  assumes "T tid = Some TExecuting" "A tid = None" "clean run" "clean kind" "clean tid" "ea_view run kind T A w"
  shows "\<exists>p w'. checkpoint_round run kind tid d w = (Inr p, w') \<and>
    ea_view run kind (T(tid \<mapsto> (case d of Timeout _ \<Rightarrow> TFailed | _ \<Rightarrow> TWaitingApproval)))
      (A(tid \<mapsto> decided_state d)) w'"
  using returnsD [OF returns_round [where d = d and T = T and A = A and tid = tid, OF assms(1-5)] assms(6)] unfolding after_decision_def .

text \<open>
  A decision is applied without looking at the task's state: a completed task whose
  checkpoint is still pending fails when the approval times out, although the transition table
  lets nothing leave \<open>completed\<close>.
\<close>

theorem timeout_fails_completed_task:
  assumes "T tid = Some TCompleted" "A tid = Some APending" "run \<noteq> []" "ea_view run kind T A w"
  shows "allowed_transitions TCompleted = [] \<and> (\<exists>p w'. resolve_approval
      \<lparr>dr_task_id = tid, dr_decision = Timeout r, dr_run_id = Some run, dr_approval_kind = kind\<rparr> w = (Inr p, w') \<and>
    ea_view run kind (T(tid \<mapsto> TFailed)) (A(tid \<mapsto> ATimeout)) w')"
  using returnsD [OF returns_resolve [where d = "Timeout r" and T = T and A = A and tid = tid, OF assms(1-3)] assms(4)]
  by (simp_all add: after_decision_def)

section \<open>A concrete store\<close>

text \<open>Ids that grow to the right of a marker: none ends another.\<close>

definition long_ids :: "nat \<Rightarrow> string" where
  "long_ids n = CHR ''b'' # replicate (n + 32) (CHR ''a'')"

definition ea_world :: world where
  "ea_world = fresh_world\<lparr>w_uuid := long_ids\<rparr>"

lemma long_ids_free: "suffix (long_ids n) (long_ids k) \<Longrightarrow> n = k"
proof -
  assume "suffix (long_ids n) (long_ids k)"
  then obtain zs where z: "long_ids k = zs @ long_ids n" by (auto simp: suffix_def)
  show "n = k"
  proof (cases zs)
    case Nil
    with arg_cong [OF z, of length] show ?thesis by (simp add: long_ids_def)
  next
    case (Cons c cs)
    with z have "replicate (k + 32) (CHR ''a'') = cs @ long_ids n" by (simp add: long_ids_def)
    then have "CHR ''b'' \<in> set (replicate (k + 32) (CHR ''a''))" by (simp add: long_ids_def)
    then show ?thesis by simp
  qed
qed

lemma ea_world_view: "ea_view run kind (\<lambda>_. None) (\<lambda>_. None) ea_world"
proof -
  have "world_ok ea_world" using fresh_world_ok by (simp add: ea_world_def world_ok_def clock_ok_def)
  moreover have "uuid_ok ea_world"
    using long_ids_free by (auto simp: uuid_ok_def ea_world_def long_ids_def fresh_world_def)
  ultimately show ?thesis
    by (simp add: ea_view_def ea_inv_def times_ok_def tracked_def Let_def ea_world_def fresh_world_def
        run_terminal_def get_run_state_def)
qed

text \<open>A task that is executing, reached by the service's own operations.\<close>

definition demo_create :: create_task_request where
  "demo_create = \<lparr>cr_session_id = ''s'', cr_title = ''t'', cr_objective = ''o'',
     cr_acceptance_criteria = [], cr_run_id = Some ''r''\<rparr>"

definition demo_move :: "task_state \<Rightarrow> (world, payload) prog" where
  "demo_move s = transition_task
     \<lparr>tr_task_id = ''task-s'', tr_state = show_task_state s, tr_run_id = Some ''r''\<rparr>"

definition exec_world :: world where
  "exec_world = snd (andthen (create_task demo_create)
     (andthen (demo_move TPlanning) (demo_move TExecuting)) ea_world)"

lemma returns_demo_move:
  assumes "s' \<in> set (allowed_transitions s)"
  shows "returns (ea_view ''r'' kind [''task-s'' \<mapsto> s] A) (demo_move s') (\<lambda>_. ea_view ''r'' kind [''task-s'' \<mapsto> s'] A)"
proof -
  have "returns (ea_view ''r'' kind [''task-s'' \<mapsto> s] A) (demo_move s')
      (\<lambda>_. ea_view ''r'' kind ([''task-s'' \<mapsto> s](''task-s'' \<mapsto> s')) A)"
    unfolding demo_move_def using assms by (intro returns_transition) auto
  then show ?thesis by simp
qed

lemma demo_texts: "clean ''s''" "clean ''t''" "clean ''o''" "clean ''r''" "clean ''k''" "clean ''task-s''"
  by code_simp+

lemma exec_world_view: "ea_view ''r'' kind [''task-s'' \<mapsto> TExecuting] (\<lambda>_. None) exec_world"
proof -
  let ?none = "\<lambda>_. None"
  have first: "fst (create_task demo_create ea_world) =
      Inr [(''id'', PStr ''task-s''), (''session_id'', PStr ''s''), (''title'', PStr ''t''),
           (''objective'', PStr ''o''), (''state'', PStr ''draft'')]"
    by code_simp
  have "returns (ea_view ''r'' kind ?none ?none) (create_task demo_create)
    (\<lambda>p w. \<exists>tid. (map_of p ''id'' = Some (PStr tid) \<and> clean tid \<and> ?none tid = (None :: task_state option) \<and>
       ?none tid = (None :: approval_state option)) \<and> ea_view ''r'' kind [tid \<mapsto> TDraft] ?none w)"
    unfolding demo_create_def using demo_texts by (intro returns_create) (auto simp: clean_def)
  from returnsD [OF this ea_world_view] first obtain w1 where
    w1: "create_task demo_create ea_world = (Inr [(''id'', PStr ''task-s''), (''session_id'', PStr ''s''),
           (''title'', PStr ''t''), (''objective'', PStr ''o''), (''state'', PStr ''draft'')], w1)"
      "ea_view ''r'' kind [''task-s'' \<mapsto> TDraft] ?none w1" by auto
  have "returns (ea_view ''r'' kind [''task-s'' \<mapsto> TDraft] ?none) (andthen (demo_move TPlanning) (demo_move TExecuting))
      (\<lambda>_. ea_view ''r'' kind [''task-s'' \<mapsto> TExecuting] ?none)"
    by (rule returns_andthen [OF returns_demo_move returns_demo_move]) simp_all
  then have "\<exists>x t. andthen (demo_move TPlanning) (demo_move TExecuting) w1 = (Inr x, t) \<and>
      ea_view ''r'' kind [''task-s'' \<mapsto> TExecuting] ?none t" by (rule returnsD) (rule w1(2))
  then obtain x t where "andthen (demo_move TPlanning) (demo_move TExecuting) w1 = (Inr x, t)"
    "ea_view ''r'' kind [''task-s'' \<mapsto> TExecuting] ?none t" by blast
  with w1(1) show ?thesis
    by (simp add: exec_world_def andthen_apply [of "create_task demo_create"])
qed

theorem transition_follows_table_witness:
  "transition_task \<lparr>tr_task_id = ''task-s'', tr_state = ''draft'', tr_run_id = Some ''r''\<rparr> exec_world =
     (Inl (ValueError ''cannot transition''), exec_world)"
  using transition_follows_table [OF exec_world_view [of "''k''"], where tid = "''task-s''" and st = "''draft''"]
  by (auto split: prod.splits sum.splits)

theorem checkpoint_outcome_witness:
  "\<exists>p w'. checkpoint_round ''r'' ''k'' ''task-s'' (DeniedAbandon ''no'') exec_world = (Inr p, w') \<and>
     ea_view ''r'' ''k'' [''task-s'' \<mapsto> TWaitingApproval] [''task-s'' \<mapsto> ADenied] w'"
  using checkpoint_outcome [of "[''task-s'' \<mapsto> TExecuting]" "''task-s''" "\<lambda>_. None" "''r''" "''k''" exec_world
      "DeniedAbandon ''no''"] exec_world_view [of "''k''"] demo_texts by simp

text \<open>
  The completed task of the last property: the checkpoint is requested, and the caller moves the
  task on without waiting for the decision.
\<close>

lemma completed_world:
  "\<exists>w. ea_view ''r'' ''k'' [''task-s'' \<mapsto> TCompleted] [''task-s'' \<mapsto> APending] w"
proof -
  let ?p = "[''task-s'' \<mapsto> APending]"
  have "returns (ea_view ''r'' ''k'' [''task-s'' \<mapsto> TExecuting] (\<lambda>_. None))
    (andthen (request_approval \<lparr>qr_task_id = ''task-s'', qr_run_id = ''r'', qr_approval_kind = ''k'', qr_summary = []\<rparr>)
    (andthen (demo_move TPlanning) (andthen (demo_move TExecuting) (demo_move TCompleted))))
    (\<lambda>_. ea_view ''r'' ''k'' [''task-s'' \<mapsto> TCompleted] ?p)"
  proof (rule returns_andthen)
    show "returns (ea_view ''r'' ''k'' [''task-s'' \<mapsto> TExecuting] (\<lambda>_. None))
      (request_approval \<lparr>qr_task_id = ''task-s'', qr_run_id = ''r'', qr_approval_kind = ''k'', qr_summary = []\<rparr>)
      (\<lambda>_. ea_view ''r'' ''k'' [''task-s'' \<mapsto> TWaitingApproval] ?p)"
      using returns_request [of "[''task-s'' \<mapsto> TExecuting]" "''task-s''" "\<lambda>_. None" "''r''" "''k''" "[]"] demo_texts
      by simp
  qed (rule returns_andthen [OF returns_demo_move returns_andthen [OF returns_demo_move returns_demo_move]]; simp)
  then have "\<exists>x t. andthen (request_approval \<lparr>qr_task_id = ''task-s'', qr_run_id = ''r'', qr_approval_kind = ''k'', qr_summary = []\<rparr>)
    (andthen (demo_move TPlanning) (andthen (demo_move TExecuting) (demo_move TCompleted))) exec_world = (Inr x, t) \<and>
    ea_view ''r'' ''k'' [''task-s'' \<mapsto> TCompleted] ?p t" by (rule returnsD) (rule exec_world_view)
  then show ?thesis by blast
qed

theorem timeout_fails_completed_task_witness:
  "\<exists>w p w'. ea_view ''r'' ''k'' [''task-s'' \<mapsto> TCompleted] [''task-s'' \<mapsto> APending] w \<and>
     resolve_approval \<lparr>dr_task_id = ''task-s'', dr_decision = Timeout True, dr_run_id = Some ''r'',
       dr_approval_kind = ''k''\<rparr> w = (Inr p, w') \<and>
     ea_view ''r'' ''k'' [''task-s'' \<mapsto> TFailed] [''task-s'' \<mapsto> ATimeout] w'"
proof -
  obtain w where w: "ea_view ''r'' ''k'' [''task-s'' \<mapsto> TCompleted] [''task-s'' \<mapsto> APending] w"
    using completed_world by blast
  with timeout_fails_completed_task [of "[''task-s'' \<mapsto> TCompleted]" "''task-s''" "[''task-s'' \<mapsto> APending]"
      "''r''" "''k''" w True] show ?thesis by auto
qed

end
