(* ===== verification/EA_Routines.thy ===== *)
theory EA_Routines
  imports EA_Tasks
begin

text \<open>
  The two executive-assistant routines over the task service: the scheduler
  (services/orchestration/scheduler.py) and the inbox triage (services/orchestration/triage.py).
  Both put every item through create, transitions and a checkpoint, and apply the decisions
  they were given. The final state of every task is proved, decision by decision.
\<close>

section \<open>What both routines do with an item\<close>

definition ea_kind :: string where
  "ea_kind = ''ea_checkpoint''"

definition payload_text :: "payload \<Rightarrow> string \<Rightarrow> string" where
  "payload_text p k = (case map_of p k of Some (PStr s) \<Rightarrow> s | _ \<Rightarrow> [])"

definition move_task :: "string \<Rightarrow> string \<Rightarrow> string \<Rightarrow> (world, payload) prog" where
  "move_task run_id task_id state =
     transition_task \<lparr>tr_task_id = task_id, tr_state = state, tr_run_id = Some run_id\<rparr>"

text \<open>Create the task, move it to executing, request the checkpoint; the task's id.\<close>

definition submit_task :: "string \<Rightarrow> create_task_request \<Rightarrow> (world, string) prog" where
  "submit_task run_id req =
     bind (create_task req) (\<lambda>created. let task_id = payload_text created ''id'' in
     andthen (move_task run_id task_id ''planning'')
     (andthen (move_task run_id task_id ''executing'')
     (andthen (request_approval \<lparr>qr_task_id = task_id, qr_run_id = run_id, qr_approval_kind = ea_kind, qr_summary = []\<rparr>)
     (ret task_id))))"

definition apply_decision :: "string \<Rightarrow> string \<Rightarrow> approval_decision option \<Rightarrow> (world, unit) prog" where
  "apply_decision run_id task_id decision = (case decision of None \<Rightarrow> ret ()
     | Some d \<Rightarrow> andthen (resolve_approval \<lparr>dr_task_id = task_id, dr_decision = d, dr_run_id = Some run_id,
                            dr_approval_kind = ea_kind\<rparr>) (ret ()))"

section \<open>The scheduler\<close>

record scheduled_task =
  sk_title :: string
  sk_objective :: string
  sk_due_at :: "string option"
  sk_status :: string

record schedule_result =
  sc_processed :: int
  sc_approved :: int
  sc_denied :: int
  sc_rescheduled :: int
  sc_decisions :: "payload list"

definition empty_schedule :: schedule_result where
  "empty_schedule = \<lparr>sc_processed = 0, sc_approved = 0, sc_denied = 0, sc_rescheduled = 0, sc_decisions = []\<rparr>"

fun decision_name :: "approval_decision option \<Rightarrow> string" where
  "decision_name None = ''none''"
| "decision_name (Some Granted) = ''Granted''"
| "decision_name (Some (DeniedAbandon _)) = ''DeniedAbandon''"
| "decision_name (Some (DeniedAlternatePath _)) = ''DeniedAlternatePath''"
| "decision_name (Some (Timeout _)) = ''Timeout''"

definition schedule_decision ::
  "(string \<times> approval_decision) list \<Rightarrow> nat \<Rightarrow> scheduled_task \<Rightarrow> approval_decision option" where
  "schedule_decision decisions idx stask = (case map_of decisions (sk_title stask) of
     Some d \<Rightarrow> Some d | None \<Rightarrow> map_of decisions (show_nat idx))"

text \<open>The branches on the decision after the count of processed tasks.\<close>

fun settle_task ::
  "string \<Rightarrow> string \<Rightarrow> approval_decision option \<Rightarrow> schedule_result \<Rightarrow> (world, schedule_result) prog" where
  "settle_task run_id task_id (Some Granted) r =
     andthen (move_task run_id task_id ''planning'')
     (andthen (move_task run_id task_id ''executing'')
     (andthen (move_task run_id task_id ''completed'')
     (ret (r\<lparr>sc_approved := sc_approved r + 1\<rparr>))))"
| "settle_task run_id task_id (Some (DeniedAbandon _)) r = ret (r\<lparr>sc_denied := sc_denied r + 1\<rparr>)"
| "settle_task run_id task_id (Some (DeniedAlternatePath _)) r =
     andthen (move_task run_id task_id ''planning'')
     (ret (r\<lparr>sc_rescheduled := sc_rescheduled r + 1\<rparr>))"
| "settle_task run_id task_id _ r = ret r"

definition schedule_one ::
  "string \<Rightarrow> (string \<times> approval_decision) list \<Rightarrow> nat \<Rightarrow> scheduled_task \<Rightarrow> schedule_result
   \<Rightarrow> (world, schedule_result) prog" where
  "schedule_one run_id decisions idx stask r =
     bind (submit_task run_id \<lparr>cr_session_id = ''scheduler-sess'', cr_title = sk_title stask,
        cr_objective = sk_objective stask, cr_acceptance_criteria = [], cr_run_id = Some run_id\<rparr>) (\<lambda>task_id.
     (let decision = schedule_decision decisions idx stask in
      andthen (apply_decision run_id task_id decision)
      (bind (settle_task run_id task_id decision (r\<lparr>sc_processed := sc_processed r + 1\<rparr>)) (\<lambda>r.
       ret (r\<lparr>sc_decisions := sc_decisions r @
         [[(''task_id'', PStr task_id), (''decision'', PStr (decision_name decision))]]\<rparr>)))))"

fun schedule_loop ::
  "string \<Rightarrow> (string \<times> approval_decision) list \<Rightarrow> nat \<Rightarrow> scheduled_task list \<Rightarrow> schedule_result
   \<Rightarrow> (world, schedule_result) prog" where
  "schedule_loop run_id decisions idx [] r = ret r"
| "schedule_loop run_id decisions idx (t # ts) r =
     bind (schedule_one run_id decisions idx t r) (schedule_loop run_id decisions (idx + 1) ts)"

definition scheduler_run ::
  "bool \<Rightarrow> scheduled_task list \<Rightarrow> (string \<times> approval_decision) list option \<Rightarrow> string
   \<Rightarrow> (world, schedule_result) prog" where
  "scheduler_run has_service tasks decisions run_id =
     andthen (require has_service (ValueError ''EASchedulerHandler requires a task_service''))
       (schedule_loop run_id (case decisions of None \<Rightarrow> [] | Some d \<Rightarrow> d) 1 tasks empty_schedule)"

section \<open>The triage\<close>

record inbox_item =
  ib_subject :: string
  ib_from_address :: string
  ib_body :: string
  ib_classification :: string
  ib_drafted_response :: string
  ib_approved :: bool

record triage_result =
  tg_triaged :: int
  tg_approved :: int
  tg_denied :: int
  tg_malformed :: int
  tg_items :: "inbox_item list"
  tg_events_emitted :: "run_event list"

definition empty_triage :: triage_result where
  "empty_triage = \<lparr>tg_triaged = 0, tg_approved = 0, tg_denied = 0, tg_malformed = 0, tg_items = [],
     tg_events_emitted = []\<rparr>"

definition classifiers :: "(string \<times> string) list" where
  "classifiers = [(''urgent'', ''urgent''), (''budget'', ''financial''), (''meeting'', ''scheduling''),
     (''request'', ''information''), (''vendor'', ''external'')]"

definition classify :: "string \<Rightarrow> string" where
  "classify subject = (let low = lower subject in
     case find (\<lambda>(keyword, _). contains keyword low) classifiers of
       Some (_, category) \<Rightarrow> category | None \<Rightarrow> ''general'')"

definition newline :: string where
  "newline = [CHR 0x0A]"

definition draft_response :: "inbox_item \<Rightarrow> string" where
  "draft_response item =
     ''Subject: '' @ ib_subject item @ newline @
     ''Category: '' @ ib_classification item @ newline @
     ''Draft: Thank you for reaching out about '' @ ib_subject item @ ''.'' @ newline @
     ''Addressed to: '' @ ib_from_address item @ newline"

definition triage_one ::
  "string \<Rightarrow> (string \<times> approval_decision) list \<Rightarrow> inbox_item \<Rightarrow> triage_result \<Rightarrow> (world, triage_result) prog"
where
  "triage_one run_id decisions item r =
     (if strip (ib_subject item) = [] then
        ret (r\<lparr>tg_malformed := tg_malformed r + 1,
               tg_items := tg_items r @ [item\<lparr>ib_classification := ''malformed''\<rparr>]\<rparr>)
      else
        let item = item\<lparr>ib_classification := classify (ib_subject item)\<rparr>;
            item = item\<lparr>ib_drafted_response := draft_response item\<rparr> in
        bind (submit_task run_id \<lparr>cr_session_id = ''triage-sess'', cr_title = ''Triage: '' @ ib_subject item,
          cr_objective = ib_body item, cr_acceptance_criteria = [''classify.'' @ ib_classification item],
          cr_run_id = Some run_id\<rparr>) (\<lambda>task_id.
        (let decision = map_of decisions (ib_subject item) in
         andthen (apply_decision run_id task_id decision)
         (let item = item\<lparr>ib_approved := (decision = Some Granted)\<rparr>;
              r = r\<lparr>tg_triaged := tg_triaged r + 1\<rparr>;
              r = (case decision of Some Granted \<Rightarrow> r\<lparr>tg_approved := tg_approved r + 1\<rparr>
                   | Some (DeniedAbandon _) \<Rightarrow> r\<lparr>tg_denied := tg_denied r + 1\<rparr> | _ \<Rightarrow> r) in
          ret (r\<lparr>tg_items := tg_items r @ [item]\<rparr>)))))"

fun triage_loop ::
  "string \<Rightarrow> (string \<times> approval_decision) list \<Rightarrow> inbox_item list \<Rightarrow> triage_result \<Rightarrow> (world, triage_result) prog"
where
  "triage_loop run_id decisions [] r = ret r"
| "triage_loop run_id decisions (i # is) r =
     bind (triage_one run_id decisions i r) (triage_loop run_id decisions is)"

definition triage_run ::
  "bool \<Rightarrow> inbox_item list option \<Rightarrow> (string \<times> approval_decision) list option \<Rightarrow> string
   \<Rightarrow> (world, triage_result) prog" where
  "triage_run has_service items decisions run_id =
     andthen (require has_service (ValueError ''EAIboxTriageHandler requires a task_service''))
       (triage_loop run_id (case decisions of None \<Rightarrow> [] | Some d \<Rightarrow> d)
          (case items of None \<Rightarrow> [] | Some is \<Rightarrow> is) empty_triage)"

section \<open>One item, seen from the task service\<close>

lemma clean_ea_kind: "clean ea_kind"
  by code_simp

lemma clean_nonempty: "clean s \<Longrightarrow> s \<noteq> []"
  by (auto simp: clean_def)

lemma returns_exists: "(\<And>x. returns (P x) m Q) \<Longrightarrow> returns (\<lambda>s. \<exists>x. P x s) m Q"
  unfolding returns_def by blast

lemma returns_move:
  assumes "T tid = Some s" "s' \<in> set (allowed_transitions s)" "clean run" "T' = T(tid \<mapsto> s')"
  shows "returns (ea_view run ea_kind T A) (move_task run tid (show_task_state s')) (\<lambda>_. ea_view run ea_kind T' A)"
  unfolding move_task_def assms(4) using assms(1-3) by (intro returns_transition clean_nonempty)

text \<open>The names the routines pass are those of the states.\<close>

lemma state_names:
  "''planning'' = show_task_state TPlanning" "''executing'' = show_task_state TExecuting"
  "''completed'' = show_task_state TCompleted"
  by simp_all

text \<open>A submitted item: a new task that waits for its checkpoint.\<close>

definition waiting_for :: "string \<Rightarrow> (string \<Rightarrow> task_state option) \<Rightarrow> (string \<Rightarrow> approval_state option)
    \<Rightarrow> string \<Rightarrow> world \<Rightarrow> bool" where
  "waiting_for run T A tid w \<longleftrightarrow> (clean tid \<and> T tid = None \<and> A tid = None) \<and>
     ea_view run ea_kind (T(tid \<mapsto> TWaitingApproval)) (A(tid \<mapsto> APending)) w"

lemma returns_submit:
  assumes "clean run" "clean s" "strip ti \<noteq> []" "strip ob \<noteq> []"
  shows "returns (ea_view run ea_kind T A)
    (submit_task run \<lparr>cr_session_id = s, cr_title = ti, cr_objective = ob, cr_acceptance_criteria = cs,
       cr_run_id = Some run\<rparr>) (waiting_for run T A)"
  unfolding submit_task_def Let_def
proof (rule returns_bind [OF returns_create [OF assms(2-4) clean_nonempty [OF assms(1)]]],
    rule returns_exists, rule returns_assume, elim conjE, goal_cases)
  case (1 p tid)
  have id: "payload_text p ''id'' = tid" using 1(1) by (simp add: payload_text_def)
  have req: "returns (ea_view run ea_kind (T(tid \<mapsto> TExecuting)) A)
    (request_approval \<lparr>qr_task_id = tid, qr_run_id = run, qr_approval_kind = ea_kind, qr_summary = []\<rparr>)
    (\<lambda>_. waiting_for run T A tid)"
    by (rule returns_post [OF returns_request [OF _ _ assms(1) clean_ea_kind]])
      (use 1 in \<open>auto simp: waiting_for_def\<close>)
  have mv: "s' \<in> set (allowed_transitions s) \<Longrightarrow> returns (ea_view run ea_kind (T(tid \<mapsto> s)) A)
      (move_task run tid (show_task_state s')) (\<lambda>_. ea_view run ea_kind (T(tid \<mapsto> s')) A)" for s s'
    by (rule returns_move [OF _ _ assms(1)]) simp_all
  have plan: "returns (ea_view run ea_kind (T(tid \<mapsto> TDraft)) A)
      (move_task run tid (show_task_state TPlanning)) (\<lambda>_. ea_view run ea_kind (T(tid \<mapsto> TPlanning)) A)"
    by (rule mv) simp
  have exec: "returns (ea_view run ea_kind (T(tid \<mapsto> TPlanning)) A)
      (move_task run tid (show_task_state TExecuting)) (\<lambda>_. ea_view run ea_kind (T(tid \<mapsto> TExecuting)) A)"
    by (rule mv) simp
  show ?case
    unfolding id state_names(1,2)
    by (rule returns_andthen [OF plan returns_andthen [OF exec returns_andthen [OF req returns_ret]]])
qed

text \<open>The checkpoint's state after the decision.\<close>

definition checkpoint_state :: "approval_decision option \<Rightarrow> approval_state" where
  "checkpoint_state d = (case d of None \<Rightarrow> APending | Some d \<Rightarrow> decided_state d)"

definition decided_task :: "approval_decision option \<Rightarrow> task_state" where
  "decided_task d = (case d of Some (Timeout _) \<Rightarrow> TFailed | _ \<Rightarrow> TWaitingApproval)"

lemma returns_apply:
  assumes "clean run"
  shows "returns (ea_view run ea_kind (T(tid \<mapsto> TWaitingApproval)) (A(tid \<mapsto> APending)))
    (apply_decision run tid d)
    (\<lambda>_. ea_view run ea_kind (T(tid \<mapsto> decided_task d)) (A(tid \<mapsto> checkpoint_state d)))"
proof (cases d)
  case None
  then show ?thesis by (auto simp: apply_decision_def decided_task_def checkpoint_state_def intro: returns_ret)
next
  case (Some x)
  have "returns (ea_view run ea_kind (T(tid \<mapsto> TWaitingApproval)) (A(tid \<mapsto> APending)))
    (resolve_approval \<lparr>dr_task_id = tid, dr_decision = x, dr_run_id = Some run, dr_approval_kind = ea_kind\<rparr>)
    (\<lambda>_. ea_view run ea_kind (T(tid \<mapsto> after_decision x TWaitingApproval)) (A(tid \<mapsto> decided_state x)))"
    using returns_resolve [of "T(tid \<mapsto> TWaitingApproval)" tid TWaitingApproval "A(tid \<mapsto> APending)" run ea_kind x]
      clean_nonempty [OF assms] by simp
  moreover have "after_decision x TWaitingApproval = decided_task d"
    using Some by (simp add: after_decision_def decided_task_def)
  ultimately show ?thesis
    unfolding apply_decision_def Some option.case
    by (intro returns_andthen [OF _ returns_ret]) (simp_all add: checkpoint_state_def)
qed


section \<open>The scheduler's outcome\<close>

text \<open>Where a task ends, by the decision made about it.\<close>

fun scheduled_state :: "approval_decision option \<Rightarrow> task_state" where
  "scheduled_state (Some Granted) = TCompleted"
| "scheduled_state (Some (DeniedAlternatePath _)) = TPlanning"
| "scheduled_state (Some (Timeout _)) = TFailed"
| "scheduled_state _ = TWaitingApproval"

fun count_decision :: "approval_decision option \<Rightarrow> schedule_result \<Rightarrow> schedule_result" where
  "count_decision (Some Granted) r = r\<lparr>sc_approved := sc_approved r + 1\<rparr>"
| "count_decision (Some (DeniedAbandon _)) r = r\<lparr>sc_denied := sc_denied r + 1\<rparr>"
| "count_decision (Some (DeniedAlternatePath _)) r = r\<lparr>sc_rescheduled := sc_rescheduled r + 1\<rparr>"
| "count_decision _ r = r"

definition decision_entry :: "string \<Rightarrow> approval_decision option \<Rightarrow> payload" where
  "decision_entry tid d = [(''task_id'', PStr tid), (''decision'', PStr (decision_name d))]"

lemma returns_settle:
  assumes "clean run"
  shows "returns (ea_view run ea_kind (T(tid \<mapsto> decided_task d)) A) (settle_task run tid d r)
    (\<lambda>r' w. r' = count_decision d r \<and> ea_view run ea_kind (T(tid \<mapsto> scheduled_state d)) A w)"
proof -
  have mv: "s' \<in> set (allowed_transitions s) \<Longrightarrow> returns (ea_view run ea_kind (T(tid \<mapsto> s)) A)
      (move_task run tid (show_task_state s')) (\<lambda>_. ea_view run ea_kind (T(tid \<mapsto> s')) A)" for s s'
    by (rule returns_move [OF _ _ assms]) simp_all
  show ?thesis
    by (cases "(run, tid, d, r)" rule: settle_task.cases)
      (auto simp: decided_task_def state_names simp del: show_task_state.simps
        intro!: returns_ret returns_andthen [OF mv])
qed

lemma schedule_one_outcome:
  assumes "clean run" "strip (sk_title t) \<noteq> []" "strip (sk_objective t) \<noteq> []" "ea_view run ea_kind T A w"
    and d: "d = schedule_decision decisions idx t"
  shows "\<exists>tid w'. schedule_one run decisions idx t r w =
      (Inr ((count_decision d (r\<lparr>sc_processed := sc_processed r + 1\<rparr>))
         \<lparr>sc_decisions := sc_decisions r @ [decision_entry tid d]\<rparr>), w') \<and>
    T tid = None \<and> ea_view run ea_kind (T(tid \<mapsto> scheduled_state d)) (A(tid \<mapsto> checkpoint_state d)) w'"
proof -
  have "clean ''scheduler-sess''" by code_simp
  from returnsD [OF returns_submit [OF assms(1) this assms(2,3)] assms(4)]
  obtain tid w1 where s: "submit_task run \<lparr>cr_session_id = ''scheduler-sess'', cr_title = sk_title t,
      cr_objective = sk_objective t, cr_acceptance_criteria = [], cr_run_id = Some run\<rparr> w = (Inr tid, w1)"
    "waiting_for run T A tid w1" by blast
  have v: "ea_view run ea_kind (T(tid \<mapsto> TWaitingApproval)) (A(tid \<mapsto> APending)) w1" and new: "T tid = None"
    using s(2) by (simp_all add: waiting_for_def)
  have keep: "sc_decisions (count_decision d (r\<lparr>sc_processed := sc_processed r + 1\<rparr>)) = sc_decisions r"
    by (cases "(d, r)" rule: count_decision.cases) auto
  have "returns (ea_view run ea_kind (T(tid \<mapsto> TWaitingApproval)) (A(tid \<mapsto> APending)))
    (andthen (apply_decision run tid d) (settle_task run tid d (r\<lparr>sc_processed := sc_processed r + 1\<rparr>)))
    (\<lambda>r' w. r' = count_decision d (r\<lparr>sc_processed := sc_processed r + 1\<rparr>) \<and>
      ea_view run ea_kind (T(tid \<mapsto> scheduled_state d)) (A(tid \<mapsto> checkpoint_state d)) w)"
    by (rule returns_andthen [OF returns_apply [OF assms(1)] returns_settle [OF assms(1)]])
  from returnsD [OF this v] obtain w2 where "andthen (apply_decision run tid d)
      (settle_task run tid d (r\<lparr>sc_processed := sc_processed r + 1\<rparr>)) w1 =
      (Inr (count_decision d (r\<lparr>sc_processed := sc_processed r + 1\<rparr>)), w2)"
    "ea_view run ea_kind (T(tid \<mapsto> scheduled_state d)) (A(tid \<mapsto> checkpoint_state d)) w2" by blast
  then show ?thesis
    unfolding schedule_one_def decision_entry_def Let_def d [symmetric] bind_apply s(1) using new keep
    by (intro exI [of _ tid] exI [of _ w2]) (simp add: prog_simps split: prod.splits sum.splits)
qed


fun is_abandon :: "approval_decision option \<Rightarrow> bool" where
  "is_abandon (Some (DeniedAbandon _)) = True"
| "is_abandon _ = False"

fun is_alternate :: "approval_decision option \<Rightarrow> bool" where
  "is_alternate (Some (DeniedAlternatePath _)) = True"
| "is_alternate _ = False"

definition how_many :: "('a \<Rightarrow> bool) \<Rightarrow> 'a list \<Rightarrow> int" where
  "how_many P xs = int (length (filter P xs))"

lemma how_many_simps [simp]:
  "how_many P [] = 0" "how_many P (x # xs) = (if P x then 1 else 0) + how_many P xs"
  by (simp_all add: how_many_def)

lemma count_decision_fields:
  "sc_processed (count_decision d r) = sc_processed r"
  "sc_approved (count_decision d r) = (if d = Some Granted then 1 else 0) + sc_approved r"
  "sc_denied (count_decision d r) = (if is_abandon d then 1 else 0) + sc_denied r"
  "sc_rescheduled (count_decision d r) = (if is_alternate d then 1 else 0) + sc_rescheduled r"
  by (cases "(d, r)" rule: count_decision.cases; simp)+

definition report_of :: "schedule_result \<Rightarrow> string list \<Rightarrow> approval_decision option list \<Rightarrow> schedule_result" where
  "report_of r tids ds = \<lparr>sc_processed = sc_processed r + int (length ds),
     sc_approved = sc_approved r + how_many (\<lambda>d. d = Some Granted) ds,
     sc_denied = sc_denied r + how_many is_abandon ds,
     sc_rescheduled = sc_rescheduled r + how_many is_alternate ds,
     sc_decisions = sc_decisions r @ map2 decision_entry tids ds\<rparr>"

lemma report_of_simps:
  "report_of r [] [] = r"
  "report_of ((count_decision d (r\<lparr>sc_processed := sc_processed r + 1\<rparr>))
     \<lparr>sc_decisions := sc_decisions r @ [decision_entry tid d]\<rparr>) tids ds = report_of r (tid # tids) (d # ds)"
  by (simp_all add: report_of_def count_decision_fields)

definition scheduled_decisions ::
  "(string \<times> approval_decision) list \<Rightarrow> nat \<Rightarrow> scheduled_task list \<Rightarrow> approval_decision option list" where
  "scheduled_decisions decisions idx ts = map (\<lambda>(i, t). schedule_decision decisions i t) (enumerate idx ts)"

lemma scheduled_decisions_simps [simp]:
  "scheduled_decisions decisions idx [] = []"
  "scheduled_decisions decisions idx (t # ts) =
     schedule_decision decisions idx t # scheduled_decisions decisions (idx + 1) ts"
  by (simp_all add: scheduled_decisions_def)

lemma schedule_loop_outcome:
  assumes "clean run" "\<forall>t \<in> set ts. strip (sk_title t) \<noteq> [] \<and> strip (sk_objective t) \<noteq> []"
    "ea_view run ea_kind T A w"
    and ds_def: "ds = scheduled_decisions decisions"
  shows "\<exists>tids w'. schedule_loop run decisions idx ts r w = (Inr (report_of r tids (ds idx ts)), w') \<and>
    length tids = length ts \<and> distinct tids \<and> (\<forall>i \<in> set tids. T i = None) \<and>
    ea_view run ea_kind (T(tids [\<mapsto>] map scheduled_state (ds idx ts))) (A(tids [\<mapsto>] map checkpoint_state (ds idx ts))) w'"
  using assms(2,3)
proof (induction ts arbitrary: idx r T A w)
  case Nil
  then show ?case by (auto simp: ds_def report_of_simps prog_simps)
next
  case (Cons t ts)
  let ?d = "schedule_decision decisions idx t"
  obtain tid w1 where one: "schedule_one run decisions idx t r w =
      (Inr ((count_decision ?d (r\<lparr>sc_processed := sc_processed r + 1\<rparr>))
         \<lparr>sc_decisions := sc_decisions r @ [decision_entry tid ?d]\<rparr>), w1)"
    "T tid = None" "ea_view run ea_kind (T(tid \<mapsto> scheduled_state ?d)) (A(tid \<mapsto> checkpoint_state ?d)) w1"
    using schedule_one_outcome [OF assms(1) _ _ Cons.prems(2) refl, of t decisions idx r] Cons.prems(1) by auto
  have ds: "ds idx (t # ts) = ?d # ds (idx + 1) ts" by (simp add: ds_def)
  have texts: "\<forall>t \<in> set ts. strip (sk_title t) \<noteq> [] \<and> strip (sk_objective t) \<noteq> []" using Cons.prems(1) by simp
  from Cons.IH [OF this one(3), of "idx + 1" "(count_decision ?d (r\<lparr>sc_processed := sc_processed r + 1\<rparr>))
      \<lparr>sc_decisions := sc_decisions r @ [decision_entry tid ?d]\<rparr>", unfolded report_of_simps]
  obtain tids w' where rest: "schedule_loop run decisions (idx + 1) ts ((count_decision ?d
      (r\<lparr>sc_processed := sc_processed r + 1\<rparr>))\<lparr>sc_decisions := sc_decisions r @ [decision_entry tid ?d]\<rparr>) w1 =
      (Inr (report_of r (tid # tids) (ds idx (t # ts))), w')"
    "length tids = length ts" "distinct tids" "\<forall>i \<in> set tids. (T(tid \<mapsto> scheduled_state ?d)) i = None"
    "ea_view run ea_kind ((T(tid \<mapsto> scheduled_state ?d))(tids [\<mapsto>] map scheduled_state (ds (idx + 1) ts)))
      ((A(tid \<mapsto> checkpoint_state ?d))(tids [\<mapsto>] map checkpoint_state (ds (idx + 1) ts))) w'"
    unfolding ds by blast
  have "schedule_loop run decisions idx (t # ts) r w = (Inr (report_of r (tid # tids) (ds idx (t # ts))), w')"
    unfolding schedule_loop.simps bind_apply one(1) using rest(1) by simp
  moreover have "distinct (tid # tids)" "\<forall>i \<in> set (tid # tids). T i = None"
    using rest(3,4) one(2) by (auto split: if_splits)
  moreover have "ea_view run ea_kind (T((tid # tids) [\<mapsto>] map scheduled_state (ds idx (t # ts))))
      (A((tid # tids) [\<mapsto>] map checkpoint_state (ds idx (t # ts)))) w'"
    using rest(5) by (simp add: ds)
  ultimately show ?case using rest(2) by (intro exI [of _ "tid # tids"] exI [of _ w']) simp
qed

text \<open>
  C34. The scheduler's run over tasks with a title and an objective always ends in a report. Each
  task gets a new id; its checkpoint and its state afterwards are determined by the decision found
  for it under its title or its number: completed when granted, back in planning for an alternate
  path, failed on a timeout, and waiting for approval when abandoned or undecided. Nothing else in
  the store changes state. The report counts every task as processed and each of the three
  decisions on its own; an undecided task is counted nowhere else, although the handler's
  documentation counts it as denied.
\<close>

theorem scheduler_outcome:
  assumes "clean run" "\<forall>t \<in> set tasks. strip (sk_title t) \<noteq> [] \<and> strip (sk_objective t) \<noteq> []"
    "ea_view run ea_kind T A w"
  shows "let ds = scheduled_decisions decisions 1 tasks in
    \<exists>tids w'. scheduler_run True tasks (Some decisions) run w =
      (Inr \<lparr>sc_processed = int (length tasks), sc_approved = how_many (\<lambda>d. d = Some Granted) ds,
         sc_denied = how_many is_abandon ds, sc_rescheduled = how_many is_alternate ds,
         sc_decisions = map2 decision_entry tids ds\<rparr>, w') \<and>
    length tids = length tasks \<and> distinct tids \<and> (\<forall>i \<in> set tids. T i = None) \<and>
    ea_view run ea_kind (T(tids [\<mapsto>] map scheduled_state ds)) (A(tids [\<mapsto>] map checkpoint_state ds)) w'"
  using schedule_loop_outcome [OF assms refl, of decisions 1 empty_schedule]
  by (simp add: Let_def scheduler_run_def prog_simps report_of_def empty_schedule_def scheduled_decisions_def)

definition demo_queue :: "scheduled_task list" where
  "demo_queue = [\<lparr>sk_title = ''a'', sk_objective = ''o'', sk_due_at = None, sk_status = ''queued''\<rparr>,
     \<lparr>sk_title = ''b'', sk_objective = ''o'', sk_due_at = None, sk_status = ''queued''\<rparr>,
     \<lparr>sk_title = ''c'', sk_objective = ''o'', sk_due_at = None, sk_status = ''queued''\<rparr>]"

lemma demo_queue_ok: "\<forall>t \<in> set demo_queue. strip (sk_title t) \<noteq> [] \<and> strip (sk_objective t) \<noteq> []"
  by code_simp

lemma demo_decisions:
  "scheduled_decisions [(''a'', Granted), (''2'', Timeout False)] 1 demo_queue =
     [Some Granted, Some (Timeout False), None]"
  by code_simp

theorem scheduler_outcome_witness:
  "\<exists>i j k w'. scheduler_run True demo_queue (Some [(''a'', Granted), (''2'', Timeout False)]) ''r'' ea_world =
      (Inr \<lparr>sc_processed = 3, sc_approved = 1, sc_denied = 0, sc_rescheduled = 0,
         sc_decisions = [decision_entry i (Some Granted), decision_entry j (Some (Timeout False)),
           decision_entry k None]\<rparr>, w') \<and> distinct [i, j, k] \<and>
    ea_view ''r'' ea_kind [i \<mapsto> TCompleted, j \<mapsto> TFailed, k \<mapsto> TWaitingApproval]
      [i \<mapsto> AGranted, j \<mapsto> ATimeout, k \<mapsto> APending] w'"
proof -
  obtain tids w' where o: "scheduler_run True demo_queue (Some [(''a'', Granted), (''2'', Timeout False)]) ''r'' ea_world =
      (Inr \<lparr>sc_processed = 3, sc_approved = 1, sc_denied = 0, sc_rescheduled = 0,
         sc_decisions = map2 decision_entry tids [Some Granted, Some (Timeout False), None]\<rparr>, w')"
    "length tids = 3" "distinct tids"
    "ea_view ''r'' ea_kind ((\<lambda>_. None)(tids [\<mapsto>] [TCompleted, TFailed, TWaitingApproval]))
      ((\<lambda>_. None)(tids [\<mapsto>] [AGranted, ATimeout, APending])) w'"
    using scheduler_outcome [OF demo_texts(4) demo_queue_ok ea_world_view,
        of "[(''a'', Granted), (''2'', Timeout False)]", unfolded demo_decisions Let_def]
    by (auto simp: demo_queue_def checkpoint_state_def)
  from o(2) obtain i j k where "tids = [i, j, k]" by (auto simp: numeral_3_eq_3 length_Suc_conv)
  with o show ?thesis by (intro exI [of _ i] exI [of _ j] exI [of _ k] exI [of _ w']) simp
qed


section \<open>The triage's outcome\<close>

abbreviation malformed :: "inbox_item \<Rightarrow> bool" where
  "malformed i \<equiv> strip (ib_subject i) = []"

definition acceptable :: "inbox_item \<Rightarrow> bool" where
  "acceptable i \<longleftrightarrow> malformed i \<or> strip (ib_body i) \<noteq> []"

definition triaged_item :: "(string \<times> approval_decision) list \<Rightarrow> inbox_item \<Rightarrow> inbox_item" where
  "triaged_item decisions i = (if malformed i then i\<lparr>ib_classification := ''malformed''\<rparr>
     else i\<lparr>ib_classification := classify (ib_subject i),
            ib_drafted_response := draft_response (i\<lparr>ib_classification := classify (ib_subject i)\<rparr>),
            ib_approved := (map_of decisions (ib_subject i) = Some Granted)\<rparr>)"

definition triage_decisions ::
  "(string \<times> approval_decision) list \<Rightarrow> inbox_item list \<Rightarrow> approval_decision option list" where
  "triage_decisions decisions is = map (\<lambda>i. map_of decisions (ib_subject i)) (filter (\<lambda>i. \<not> malformed i) is)"

definition triage_report ::
  "(string \<times> approval_decision) list \<Rightarrow> triage_result \<Rightarrow> inbox_item list \<Rightarrow> triage_result" where
  "triage_report decisions r is = (let ds = triage_decisions decisions is in
     \<lparr>tg_triaged = tg_triaged r + int (length ds), tg_approved = tg_approved r + how_many (\<lambda>d. d = Some Granted) ds,
      tg_denied = tg_denied r + how_many is_abandon ds, tg_malformed = tg_malformed r + how_many malformed is,
      tg_items = tg_items r @ map (triaged_item decisions) is, tg_events_emitted = tg_events_emitted r\<rparr>)"

lemma triage_report_simps:
  "triage_report decisions r [] = r"
  "triage_report decisions (triage_report decisions r [i]) is = triage_report decisions r (i # is)"
  by (simp_all add: triage_report_def triage_decisions_def Let_def)

lemma triage_one_malformed:
  "malformed i \<Longrightarrow> triage_one run decisions i r w = (Inr (triage_report decisions r [i]), w)"
  by (simp add: triage_one_def triage_report_def triage_decisions_def triaged_item_def Let_def prog_apply)

lemma strip_prefixed:
  assumes "clean p" shows "strip (p @ s) \<noteq> []"
proof
  assume blank: "strip (p @ s) = []"
  have p: "p \<noteq> []" "\<not> is_space (hd p)" using assms unfolding clean_iff by blast+
  then have "dropWhile is_space (p @ s) = p @ s" by (intro dropWhile_nop) simp_all
  with blank have "\<forall>c \<in> set (p @ s). is_space c"
    unfolding strip_def rev_is_Nil_conv dropWhile_eq_Nil_conv set_rev by metis
  with p show False by (metis UnI1 hd_in_set set_append)
qed

lemma triage_title: "strip (''Triage: '' @ s) \<noteq> []"
  using strip_prefixed [of "''Triage:''" "'' '' @ s"] by (simp add: clean_iff is_space_def)

lemma triage_one_outcome:
  assumes "clean run" "\<not> malformed i" "strip (ib_body i) \<noteq> []" "ea_view run ea_kind T A w"
    and d: "d = map_of decisions (ib_subject i)"
  shows "\<exists>tid w'. triage_one run decisions i r w = (Inr (triage_report decisions r [i]), w') \<and>
    T tid = None \<and> ea_view run ea_kind (T(tid \<mapsto> decided_task d)) (A(tid \<mapsto> checkpoint_state d)) w'"
proof -
  have "clean ''triage-sess''" by code_simp
  from returnsD [OF returns_submit [OF assms(1) this triage_title assms(3)] assms(4)]
  obtain tid w1 where s: "submit_task run \<lparr>cr_session_id = ''triage-sess'', cr_title = ''Triage: '' @ ib_subject i,
      cr_objective = ib_body i, cr_acceptance_criteria = [''classify.'' @ classify (ib_subject i)],
      cr_run_id = Some run\<rparr> w = (Inr tid, w1)" "waiting_for run T A tid w1" by blast
  then have new: "T tid = None" and v: "ea_view run ea_kind (T(tid \<mapsto> TWaitingApproval)) (A(tid \<mapsto> APending)) w1"
    by (simp_all add: waiting_for_def)
  obtain w2 where a: "apply_decision run tid d w1 = (Inr (), w2)"
    "ea_view run ea_kind (T(tid \<mapsto> decided_task d)) (A(tid \<mapsto> checkpoint_state d)) w2"
    using returnsD [OF returns_apply [OF assms(1)] v] by auto
  have "triage_one run decisions i r w = (Inr (triage_report decisions r [i]), w2)"
  proof (cases d rule: is_abandon.cases)
    case (1 x)
    with assms(2) s(1) a(1) d [symmetric] show ?thesis
      unfolding triage_one_def triage_report_def triage_decisions_def triaged_item_def Let_def
      by (simp add: bind_apply andthen_apply prog_apply del: append.simps)
  qed (use assms(2) s(1) a(1) d [symmetric] in \<open>simp add: triage_one_def triage_report_def triage_decisions_def
      triaged_item_def Let_def bind_apply andthen_apply prog_apply del: append.simps\<close>)+
  with new a(2) show ?thesis by blast
qed

text \<open>A blank body is refused as the task's objective: no task is stored, and the run ends.\<close>

lemma triage_one_refused:
  assumes "clean run" "\<not> acceptable i" "ea_view run ea_kind T A w"
  shows "\<exists>e w'. triage_one run decisions i r w = (Inl (ValueError e), w') \<and> ea_view run ea_kind T A w'"
proof -
  let ?w = "w\<lparr>w_ticks := Suc (w_ticks w)\<rparr>"
  have v: "ea_view run ea_kind T A ?w" using assms(3) by (auto simp: ea_view_def ea_inv_tick)
  have sess: "clean ''triage-sess''" by code_simp
  obtain tid where tid: "choose_task_id (''task-'' @ ''triage-sess'') ?w = (Inr (Some tid), ?w)" "clean tid"
    using create_task_id [OF ea_viewD(2) [OF v] sess] by blast
  have blank: "strip (ib_body i) = []" using assms(2) by (simp add: acceptable_def)
  have title: "require_non_empty_text f (''Triage: '' @ s) = Inr (strip (''Triage: '' @ s))" for f s
    using triage_title [of s] by (simp add: require_non_empty_text_def)
  obtain e where "make_task tid ''triage-sess'' (''Triage: '' @ ib_subject i) (ib_body i) ''draft''
      (Aware (w_clock w (w_ticks w)) 0) (Aware (w_clock w (w_ticks w)) 0) = Inl (ValueError e)"
    using blank tid(2) sess unfolding make_task_def title require_text_of_clean [OF tid(2)] require_text_of_clean [OF sess]
    by (simp add: require_non_empty_text_def [of _ "ib_body i"])
  with tid(1) have "create_task \<lparr>cr_session_id = ''triage-sess'', cr_title = ''Triage: '' @ ib_subject i,
      cr_objective = ib_body i, cr_acceptance_criteria = cs, cr_run_id = Some run\<rparr> w = (Inl (ValueError e), ?w)" for cs
    by (simp add: create_task_def Let_def prog_simps now_utc_def)
  then have "triage_one run decisions i r w = (Inl (ValueError e), ?w)"
    using assms(2) by (simp add: triage_one_def submit_task_def Let_def prog_simps acceptable_def)
  with v show ?thesis by blast
qed


lemma triage_loop_outcome:
  assumes "clean run" "ea_view run ea_kind T A w" "good = takeWhile acceptable is" "ds = triage_decisions decisions good"
  shows "\<exists>tids e w'. triage_loop run decisions is r w =
      ((if good = is then Inr (triage_report decisions r is) else Inl (ValueError e)), w') \<and>
    length tids = length ds \<and> distinct tids \<and> (\<forall>i \<in> set tids. T i = None) \<and>
    ea_view run ea_kind (T(tids [\<mapsto>] map decided_task ds)) (A(tids [\<mapsto>] map checkpoint_state ds)) w'"
  using assms(2-4)
proof (induction "is" arbitrary: r T A w good ds)
  case Nil
  then show ?case by (simp add: triage_report_simps triage_decisions_def prog_apply)
next
  case (Cons i "is")
  let ?good = "takeWhile acceptable is" and ?ds = "triage_decisions decisions (takeWhile acceptable is)"
  show ?case
  proof (cases "acceptable i")
    case False
    from triage_one_refused [OF assms(1) False Cons.prems(1), of decisions r]
    show ?thesis using False Cons.prems(2,3) by (auto simp: bind_apply triage_decisions_def)
  next
    case True
    then have good: "good = i # ?good" using Cons.prems(2) by simp
    show ?thesis
    proof (cases "malformed i")
      case mal: True
      then have "ds = ?ds" using good Cons.prems(3) by (simp add: triage_decisions_def)
      moreover have "triage_loop run decisions (i # is) r w =
          triage_loop run decisions is (triage_report decisions r [i]) w"
        by (simp add: bind_apply triage_one_malformed [OF mal])
      moreover have "(good = i # is) = (?good = is)" unfolding good by (rule iffI) (drule list.inject [THEN iffD1], simp_all)
      ultimately show ?thesis
        using Cons.IH [OF Cons.prems(1) refl refl, of "triage_report decisions r [i]", unfolded triage_report_simps]
        by simp
    next
      case wf: False
      let ?d = "map_of decisions (ib_subject i)"
      have ds: "ds = ?d # ?ds" using good wf Cons.prems(3) by (simp add: triage_decisions_def)
      have body: "strip (ib_body i) \<noteq> []" using True wf by (simp add: acceptable_def)
      obtain tid w1 where one: "triage_one run decisions i r w = (Inr (triage_report decisions r [i]), w1)"
        "T tid = None" "ea_view run ea_kind (T(tid \<mapsto> decided_task ?d)) (A(tid \<mapsto> checkpoint_state ?d)) w1"
        using triage_one_outcome [OF assms(1) wf body Cons.prems(1) refl] by blast
      from Cons.IH [OF one(3) refl refl, of "triage_report decisions r [i]", unfolded triage_report_simps]
      obtain tids e w' where rest: "triage_loop run decisions is (triage_report decisions r [i]) w1 =
          ((if ?good = is then Inr (triage_report decisions r (i # is)) else Inl (ValueError e)), w')"
        "length tids = length ?ds" "distinct tids" "\<forall>i \<in> set tids. (T(tid \<mapsto> decided_task ?d)) i = None"
        "ea_view run ea_kind ((T(tid \<mapsto> decided_task ?d))(tids [\<mapsto>] map decided_task ?ds))
          ((A(tid \<mapsto> checkpoint_state ?d))(tids [\<mapsto>] map checkpoint_state ?ds)) w'"
        by blast
      have "triage_loop run decisions (i # is) r w =
          ((if good = i # is then Inr (triage_report decisions r (i # is)) else Inl (ValueError e)), w')"
        unfolding triage_loop.simps bind_apply one(1) good using rest(1) by simp
      moreover have "distinct (tid # tids)" "\<forall>i \<in> set (tid # tids). T i = None"
        using rest(3,4) one(2) by (auto split: if_splits)
      moreover have "ea_view run ea_kind (T((tid # tids) [\<mapsto>] map decided_task ds))
          (A((tid # tids) [\<mapsto>] map checkpoint_state ds)) w'"
        using rest(5) by (simp add: ds)
      moreover have "length (tid # tids) = length ds" using rest(2) by (simp add: ds)
      ultimately show ?thesis by blast
    qed
  qed
qed


definition demo_inbox :: "inbox_item list" where
  "demo_inbox = map (\<lambda>(s, b). \<lparr>ib_subject = s, ib_from_address = ''a'', ib_body = b,
      ib_classification = ''unknown'', ib_drafted_response = [], ib_approved = False\<rparr>)
    [(''Budget'', ''b''), ('' '', ''b''), (''Meeting'', '' ''), (''Vendor'', ''b'')]"

lemma demo_inbox_good:
  "takeWhile acceptable demo_inbox = take 2 demo_inbox" "takeWhile acceptable (take 2 demo_inbox) = take 2 demo_inbox"
  "take 2 demo_inbox \<noteq> demo_inbox"
  "triage_decisions [(''Budget'', Granted)] (take 2 demo_inbox) = [Some Granted]"
  by code_simp+


end
