(* ===== verification/Event_Stream.thy ===== *)
theory Event_Stream
  imports Store "HOL-Library.Sublist"
begin

text \<open>
  The event stream of a run (api/routers/run_events.py) and the in-process subscribers it waits on
  (api/streaming/sse.py). The generator behind a response is a state machine that moves from one
  await or yield to the next; streams, publishers and writers of the log interleave at these
  points. A frame is represented by the event it formats; its JSON text, the heartbeat and the
  response headers are left out, and so is a client that hangs up.
\<close>

section \<open>One stream\<close>

text \<open>
  \<open>Replaying\<close> and \<open>Tailing\<close> hold the events of the current \<open>for\<close> loop still to be sent, \<open>Waiting\<close>
  is \<open>await subscriber.wait()\<close>; \<open>st_notified\<close> is the subscriber's \<open>anyio.Event\<close>.
\<close>

datatype stream_phase =
    Starting
  | Replaying "run_event list"
  | Waiting
  | Tailing "run_event list"
  | Closed

record sse_stream =
  st_run :: string
  st_last_seen :: int
  st_phase :: stream_phase
  st_emitted :: "int list"
  st_frames :: "run_event list"
  st_notified :: bool

definition closing_types :: "string list" where
  "closing_types = [''completed'', ''failed'', ''cancelled'']"

definition send_event :: "run_event \<Rightarrow> stream_phase \<Rightarrow> sse_stream \<Rightarrow> sse_stream" where
  "send_event e next s =
     (if e_seq e \<in> set (st_emitted s) then s\<lparr>st_phase := next\<rparr>
      else s\<lparr>st_emitted := st_emitted s @ [e_seq e], st_frames := st_frames s @ [e],
             st_phase := (if e_type e \<in> set closing_types then Closed else next)\<rparr>)"

text \<open>\<open>sorted(await repo.list(...))\<close>; an exception of the repository ends the stream.\<close>

definition query_log :: "world \<Rightarrow> int \<Rightarrow> (run_event list \<Rightarrow> stream_phase) \<Rightarrow> sse_stream \<Rightarrow> sse_stream" where
  "query_log w since loop s = (case fst (ev_list (st_run s) since None w) of
     Inl _ \<Rightarrow> s\<lparr>st_phase := Closed\<rparr>
   | Inr es \<Rightarrow> s\<lparr>st_phase := loop (sort_key e_seq es)\<rparr>)"

definition cutoff :: "sse_stream \<Rightarrow> int" where
  "cutoff s = (case st_emitted s of [] \<Rightarrow> 0 | n # ns \<Rightarrow> max (st_last_seen s) (fold max ns n))"

fun stream_step :: "world \<Rightarrow> sse_stream \<Rightarrow> sse_stream" where
  "stream_step w s = (case st_phase s of
     Starting \<Rightarrow> query_log w (st_last_seen s) Replaying s
   | Replaying [] \<Rightarrow> s\<lparr>st_phase := Waiting, st_notified := False\<rparr>
   | Replaying (e # es) \<Rightarrow> send_event e (Replaying es) s
   | Waiting \<Rightarrow> if st_notified s then query_log w (cutoff s) Tailing s else s
   | Tailing [] \<Rightarrow> s\<lparr>st_phase := Waiting, st_notified := False\<rparr>
   | Tailing (e # es) \<Rightarrow> send_event e (Tailing es) s
   | Closed \<Rightarrow> s)"

declare stream_step.simps [simp del]

text \<open>The endpoint: the repository may be missing; otherwise the generator is started.\<close>

definition latest_seq_safe :: "string \<Rightarrow> world \<Rightarrow> int" where
  "latest_seq_safe run_id w = (case fst (ev_latest_seq run_id w) of Inl _ \<Rightarrow> 0 | Inr n \<Rightarrow> n)"

definition run_events_stream :: "bool \<Rightarrow> string \<Rightarrow> int \<Rightarrow> world \<Rightarrow> exc + sse_stream" where
  "run_events_stream has_repo run_id last_seen_seq w =
     rbind (ensure has_repo (HTTPException 503)) (\<lambda>_.
     rbind (ensure (\<not> latest_seq_safe run_id w < last_seen_seq) (HTTPException 400)) (\<lambda>_.
     Inr \<lparr>st_run = run_id, st_last_seen = last_seen_seq, st_phase = Starting, st_emitted = [],
          st_frames = [], st_notified = False\<rparr>))"

section \<open>Subscribers and the streams of one process\<close>

type_synonym subscribers = "(string \<times> nat list) list"

definition subscribers_of :: "string \<Rightarrow> subscribers \<Rightarrow> nat list" where
  "subscribers_of run_id subs = (case map_of subs run_id of None \<Rightarrow> [] | Some l \<Rightarrow> l)"

definition subscribe :: "string \<Rightarrow> nat \<Rightarrow> subscribers \<Rightarrow> subscribers" where
  "subscribe run_id i subs = AList.update run_id (subscribers_of run_id subs @ [i]) subs"

definition unsubscribe :: "string \<Rightarrow> nat \<Rightarrow> subscribers \<Rightarrow> subscribers" where
  "unsubscribe run_id i subs = (let rest = remove1 i (subscribers_of run_id subs) in
     if rest = [] then AList.delete run_id subs else AList.update run_id rest subs)"

text \<open>The streams the process serves, by their number, over the world they read.\<close>

record hub =
  hb_world :: world
  hb_streams :: "sse_stream list"
  hb_subs :: subscribers

definition notify :: "sse_stream \<Rightarrow> sse_stream" where
  "notify s = s\<lparr>st_notified := True\<rparr>"

definition publish :: "string \<Rightarrow> hub \<Rightarrow> hub" where
  "publish run_id h = h\<lparr>hb_streams := fold (\<lambda>i ss. ss[i := notify (ss ! i)])
     (subscribers_of run_id (hb_subs h)) (hb_streams h)\<rparr>"

fun subscribed :: "stream_phase \<Rightarrow> bool" where
  "subscribed Waiting = True"
| "subscribed (Tailing _) = True"
| "subscribed _ = False"

text \<open>
  One move of a stream. It subscribes when the replay is over, and the \<open>finally\<close> block takes it
  off the list when it ends after that.
\<close>

definition advance :: "nat \<Rightarrow> hub \<Rightarrow> hub" where
  "advance i h = (let s = hb_streams h ! i; s' = stream_step (hb_world h) s in
     h\<lparr>hb_streams := (hb_streams h)[i := s'],
       hb_subs := (if st_phase s = Replaying [] then subscribe (st_run s) i (hb_subs h)
                   else if subscribed (st_phase s) \<and> st_phase s' = Closed
                   then unsubscribe (st_run s) i (hb_subs h) else hb_subs h)\<rparr>)"

inductive hub_step :: "hub \<Rightarrow> hub \<Rightarrow> bool" where
  connect: "run_events_stream True run_id last_seen (hb_world h) = Inr s \<Longrightarrow>
    hub_step h (h\<lparr>hb_streams := hb_streams h @ [s]\<rparr>)"
| move: "i < length (hb_streams h) \<Longrightarrow> hub_step h (advance i h)"
| publication: "hub_step h (publish run_id h)"
| writing: "log_grows (hb_world h) w \<Longrightarrow> log_ok (w_events w) \<Longrightarrow> hub_step h (h\<lparr>hb_world := w\<rparr>)"

text \<open>What a process can get to from its start, whatever happens in which order.\<close>

inductive served :: "hub \<Rightarrow> bool" where
  start: "log_ok (w_events w) \<Longrightarrow> served \<lparr>hb_world = w, hb_streams = [], hb_subs = []\<rparr>"
| step: "served h \<Longrightarrow> hub_step h h' \<Longrightarrow> served h'"

section \<open>The invariant of a stream\<close>

fun pending :: "stream_phase \<Rightarrow> run_event list" where
  "pending (Replaying es) = es"
| "pending (Tailing es) = es"
| "pending _ = []"

text \<open>
  Sent and pending events are a segment of the run's history that starts at \<open>k\<close>: after the number
  the client gave, or at the very beginning when the replay was empty.
\<close>

definition segment :: "run_event list \<Rightarrow> sse_stream \<Rightarrow> nat \<Rightarrow> bool" where
  "segment hist s k \<longleftrightarrow> prefix (st_frames s @ pending (st_phase s)) (drop k hist) \<and>
     (k = nat (st_last_seen s) \<or> k = 0 \<and> subscribed (st_phase s) \<and>
        nat (st_last_seen s) \<le> length (st_frames s @ pending (st_phase s)))"

definition stream_ok :: "world \<Rightarrow> sse_stream \<Rightarrow> bool" where
  "stream_ok w s \<longleftrightarrow> (let hist = events_of w (st_run s) in
     nat (st_last_seen s) \<le> length hist \<and> st_emitted s = map e_seq (st_frames s) \<and>
     st_phase s \<noteq> Closed \<and> (st_phase s = Starting \<longrightarrow> st_frames s = []) \<and> (\<exists>k. segment hist s k))"

lemma events_grow:
  assumes "log_grows w w'"
  obtains es where "events_of w' r = events_of w r @ es"
  using assms by (auto simp: log_grows_def events_of_def)

lemma stream_ok_grow:
  assumes "log_grows w w'" "stream_ok w s"
  shows "stream_ok w' s"
proof -
  obtain es where es: "events_of w' (st_run s) = events_of w (st_run s) @ es"
    using assms(1) by (rule events_grow)
  have "prefix (drop k (events_of w (st_run s))) (drop k (events_of w' (st_run s)))" for k
    by (simp add: es)
  then have "segment (events_of w (st_run s)) s k \<Longrightarrow> segment (events_of w' (st_run s)) s k" for k
    unfolding segment_def by (meson prefix_order.trans)
  with assms(2) show ?thesis by (fastforce simp: stream_ok_def es Let_def)
qed

text \<open>No event of the log carries a type the stream closes on.\<close>

lemma not_closing: "wf_event e \<Longrightarrow> e_type e \<notin> set closing_types"
  by (auto simp: closing_types_def wf_event_def validate_payload_def required_payload_fields_def)

lemma history_wf: "log_ok (w_events w) \<Longrightarrow> e \<in> set (events_of w r) \<Longrightarrow> wf_event e"
  by (auto simp: log_ok_def events_of_def)

lemma history_distinct: "log_ok (w_events w) \<Longrightarrow> distinct (map e_seq (events_of w r))"
  by (subst events_of_sorted) (simp_all add: distinct_map inj_on_def del: upt_Suc)

section \<open>Every move keeps the invariant\<close>

lemma query_rows:
  assumes "log_ok (w_events w)"
  shows "query_log w n loop s = s\<lparr>st_phase := loop (drop (nat n) (events_of w (st_run s)))\<rparr>"
proof -
  have "filter (\<lambda>e. n < e_seq e) (events_of w (st_run s)) = drop (nat n) (events_of w (st_run s))"
  proof (cases "0 \<le> n")
    case True
    then show ?thesis using repo.after_is_drop [OF assms, of "nat n" "st_run s"] by simp
  next
    case False
    with history_wf [OF assms] show ?thesis by (fastforce simp: filter_id_conv wf_event_def)
  qed
  with sort_key_filter_events [OF assms, of "\<lambda>_. True" "st_run s"]
    sort_key_filter_events [OF assms, of "\<lambda>e. n < e_seq e" "st_run s"]
  show ?thesis by (simp add: query_log_def ev_list_def gets_def Let_def)
qed

lemma fold_max: "fold max ns (n :: int) = Max (set (n # ns))"
  unfolding Max.set_eq_fold ..

lemma prefix_seq:
  assumes "log_ok (w_events w)" "prefix (fs @ e # es) (drop k (events_of w r))"
  shows "e_seq e \<notin> set (map e_seq fs)" "e_type e \<notin> set closing_types"
proof -
  have d: "distinct (map e_seq (drop k (events_of w r)))"
    using history_distinct [OF assms(1), of r] by (metis distinct_drop drop_map)
  from assms(2) obtain zs where z: "drop k (events_of w r) = fs @ e # es @ zs" by (auto simp: prefix_def)
  with d show "e_seq e \<notin> set (map e_seq fs)" by auto
  have "e \<in> set (drop k (events_of w r))" by (simp add: z)
  then have "e \<in> set (events_of w r)" by (rule in_set_dropD)
  with history_wf [OF assms(1)] show "e_type e \<notin> set closing_types" by (intro not_closing)
qed

lemma prefix_seqs:
  assumes "log_ok (w_events w)" "prefix fs (drop k (events_of w r))"
  shows "map e_seq fs = map int [Suc k..<Suc k + length fs]"
proof -
  obtain zs where z: "drop k (events_of w r) = fs @ zs" using assms(2) by (auto simp: prefix_def)
  have "map e_seq fs @ map e_seq zs = drop k (map int [1..<Suc (length (events_of w r))])"
    unfolding events_of_sorted [OF assms(1), symmetric] drop_map z map_append ..
  also have "\<dots> = map int [Suc k..<Suc (length (events_of w r))]" by (simp add: drop_map del: upt_Suc)
  finally have "map e_seq fs = take (length fs) (map int [Suc k..<Suc (length (events_of w r))])"
    by (metis append_eq_conv_conj length_map)
  moreover have "fs = [] \<or> Suc k + length fs \<le> Suc (length (events_of w r))"
    using arg_cong [OF z, of length] by (cases fs) auto
  ultimately show ?thesis by (auto simp: take_map simp del: upt_Suc)
qed

lemma segment_cutoff:
  assumes "log_ok (w_events w)" "segment (events_of w (st_run s)) s k" "st_phase s = Waiting"
    "st_emitted s = map e_seq (st_frames s)" "st_frames s \<noteq> []"
  shows "nat (cutoff s) = k + length (st_frames s)"
proof -
  let ?n = "length (st_frames s)"
  have pre: "prefix (st_frames s) (drop k (events_of w (st_run s)))"
    and seen: "st_last_seen s \<le> int (k + ?n)"
    using assms(2,3) by (auto simp: segment_def)
  obtain m ms where em: "st_emitted s = m # ms" using assms(4,5) by (cases "st_frames s") auto
  have "set (m # ms) = int ` {Suc k..<Suc k + ?n}"
    unfolding em [symmetric] assms(4) prefix_seqs [OF assms(1) pre] set_map set_upt ..
  moreover have "k + ?n \<in> {Suc k..<Suc k + ?n}" using assms(5) by (cases "st_frames s") simp_all
  ultimately have "int (k + ?n) \<in> set (m # ms)" "\<forall>x \<in> set (m # ms). x \<le> int (k + ?n)"
    by (metis imageI, auto)
  then have "Max (set (m # ms)) = int (k + ?n)" by (intro Max_eqI) blast+
  with seen have "cutoff s = int (k + ?n)" by (simp add: cutoff_def em fold_max)
  then show ?thesis by (simp only: nat_int)
qed

lemma stream_step_ok:
  assumes "log_ok (w_events w)" "stream_ok w s"
  shows "stream_ok w (stream_step w s)"
proof -
  let ?H = "events_of w (st_run s)" and ?d = "nat (st_last_seen s)"
  note query = query_rows [OF assms(1)]
  from assms(2) obtain k where ok: "?d \<le> length ?H" "st_emitted s = map e_seq (st_frames s)"
    "st_phase s \<noteq> Closed" "st_phase s = Starting \<Longrightarrow> st_frames s = []" "segment ?H s k"
    by (auto simp: stream_ok_def Let_def)
  have send: "stream_ok w (send_event e next s)"
    if p: "pending (st_phase s) = e # pending next" "subscribed next = subscribed (st_phase s)"
      "next \<noteq> Starting" "next \<noteq> Closed" for e "next"
  proof -
    have "prefix (st_frames s @ e # pending next) (drop k ?H)" using ok(5) p(1) by (simp add: segment_def)
    note prefix_seq [OF assms(1) this]
    with p ok show ?thesis
      by (auto simp: stream_ok_def send_event_def segment_def Let_def intro!: exI [of _ k])
  qed
  show ?thesis
  proof (cases "(w, s)" rule: stream_step.cases)
    case (1 w' s')
    show ?thesis
    proof (cases "st_phase s")
      case Starting
      with ok show ?thesis
        by (auto simp: stream_step.simps query stream_ok_def segment_def Let_def)
    next
      case (Replaying es)
      with ok send show ?thesis
        by (cases es) (auto simp: stream_step.simps stream_ok_def segment_def Let_def)
    next
      case (Tailing es)
      with ok send show ?thesis
        by (cases es) (auto simp: stream_step.simps stream_ok_def segment_def Let_def)
    next
      case Waiting
      show ?thesis
      proof (cases "st_frames s = []")
        case True
        then show ?thesis using ok Waiting
          by (auto simp: stream_step.simps query cutoff_def stream_ok_def segment_def Let_def
              intro: exI [of _ 0])
      next
        case False
        from ok(5) Waiting obtain zs where z: "drop k ?H = st_frames s @ zs" by (auto simp: segment_def prefix_def)
        have "zs = drop (k + length (st_frames s)) ?H"
          using arg_cong [OF z, of "drop (length (st_frames s))"] by (simp add: add.commute)
        with segment_cutoff [OF assms(1) ok(5) Waiting ok(2) False] z ok Waiting assms(2)
        show ?thesis
          by (auto simp: stream_step.simps query stream_ok_def segment_def Let_def intro!: exI [of _ k])
      qed
    qed (use ok(3) in simp)
  qed
qed

section \<open>The invariant of the process\<close>

text \<open>The table lists, for each run, exactly the streams of that run that have subscribed.\<close>

definition subs_ok :: "sse_stream list \<Rightarrow> subscribers \<Rightarrow> bool" where
  "subs_ok ss subs \<longleftrightarrow> (\<forall>r. distinct (subscribers_of r subs) \<and>
     set (subscribers_of r subs) = {i. i < length ss \<and> st_run (ss ! i) = r \<and> subscribed (st_phase (ss ! i))})"

definition hub_ok :: "hub \<Rightarrow> bool" where
  "hub_ok h \<longleftrightarrow> log_ok (w_events (hb_world h)) \<and> (\<forall>s \<in> set (hb_streams h). stream_ok (hb_world h) s) \<and>
     subs_ok (hb_streams h) (hb_subs h)"

lemma subscribers_of_subscribe:
  "subscribers_of r (subscribe q i subs) = (if r = q then subscribers_of q subs @ [i] else subscribers_of r subs)"
  by (simp add: subscribers_of_def subscribe_def update_conv')

lemma notify_simps [simp]:
  "st_run (notify s) = st_run s" "st_phase (notify s) = st_phase s" "st_frames (notify s) = st_frames s"
  "st_last_seen (notify s) = st_last_seen s" "st_emitted (notify s) = st_emitted s" "st_notified (notify s)"
  by (simp_all add: notify_def)

lemma stream_ok_notify [simp]: "stream_ok w (notify s) = stream_ok w s"
  by (simp add: stream_ok_def segment_def)

lemma fold_notify:
  assumes "\<forall>i \<in> set is. i < length ss" "distinct is"
  shows "fold (\<lambda>i ss. ss[i := notify (ss ! i)]) is ss =
    map (\<lambda>i. if i \<in> set is then notify (ss ! i) else ss ! i) [0..<length ss]"
  using assms
proof (induction "is" arbitrary: ss)
  case Nil
  then show ?case by (simp add: map_nth)
next
  case (Cons i "is")
  then show ?case by (auto simp: nth_list_update intro!: nth_equalityI)
qed

lemma publish_streams:
  assumes "subs_ok (hb_streams h) (hb_subs h)"
  shows "hb_streams (publish r h) =
    map (\<lambda>s. if st_run s = r \<and> subscribed (st_phase s) then notify s else s) (hb_streams h)"
proof -
  let ?is = "subscribers_of r (hb_subs h)"
  have "\<forall>i \<in> set ?is. i < length (hb_streams h)" "distinct ?is"
    using assms by (auto simp: subs_ok_def)
  then show ?thesis
    using assms by (auto simp: publish_def fold_notify subs_ok_def intro!: nth_equalityI)
qed

text \<open>What a move does to the run and the subscription of a stream.\<close>

lemma query_log_simps [simp]:
  "st_run (query_log w n loop s) = st_run s" "st_last_seen (query_log w n loop s) = st_last_seen s"
  by (simp_all add: query_log_def split: sum.split)

lemma send_event_simps [simp]:
  "st_run (send_event e p s) = st_run s" "st_last_seen (send_event e p s) = st_last_seen s"
  by (simp_all add: send_event_def)

lemma stream_step_run [simp]:
  "st_run (stream_step w s) = st_run s" "st_last_seen (stream_step w s) = st_last_seen s"
  by (auto simp: stream_step.simps split: stream_phase.split list.split)

lemma step_subscribes:
  assumes "log_ok (w_events w)" "stream_ok w s"
  shows "subscribed (st_phase (stream_step w s)) \<longleftrightarrow> subscribed (st_phase s) \<or> st_phase s = Replaying []"
proof -
  have "st_phase (stream_step w s) \<noteq> Closed" using stream_step_ok [OF assms] by (simp add: stream_ok_def Let_def)
  then show ?thesis
    by (auto simp: stream_step.simps query_rows [OF assms(1)] send_event_def
        split: stream_phase.splits list.splits if_splits)
qed

lemma advance_streams:
  "hb_streams (advance i h) = (hb_streams h)[i := stream_step (hb_world h) (hb_streams h ! i)]"
  "hb_world (advance i h) = hb_world h"
  by (simp_all add: advance_def Let_def)

lemma hub_step_ok:
  assumes "hub_step h h'" "hub_ok h"
  shows "hub_ok h'"
  using assms
proof (cases rule: hub_step.cases)
  case (connect run_id last_seen s)
  have ok: "log_ok (w_events (hb_world h))" using assms(2) by (simp add: hub_ok_def)
  from connect(2) have s: "s = \<lparr>st_run = run_id, st_last_seen = last_seen, st_phase = Starting, st_emitted = [],
      st_frames = [], st_notified = False\<rparr>" "\<not> latest_seq_safe run_id (hb_world h) < last_seen"
    by (auto simp: run_events_stream_def rbind_Inr_iff)
  have "latest_seq_safe run_id (hb_world h) = int (length (events_of (hb_world h) run_id))"
    by (simp add: latest_seq_safe_def ev_latest_seq_def gets_def max_seq_log_ok [OF ok])
  with s have "stream_ok (hb_world h) s" by (auto simp: stream_ok_def segment_def)
  moreover have "subs_ok (hb_streams h @ [s]) (hb_subs h)"
    using assms(2) s(1) by (auto simp: hub_ok_def subs_ok_def nth_append)
  ultimately show ?thesis using assms(2) connect(1) by (auto simp: hub_ok_def)
next
  case (move i)
  let ?s = "hb_streams h ! i"
  have ok: "log_ok (w_events (hb_world h))" "stream_ok (hb_world h) ?s" "subs_ok (hb_streams h) (hb_subs h)"
    using assms(2) move(2) by (auto simp: hub_ok_def)
  note step = stream_step_ok [OF ok(1,2)]
  then have open_: "st_phase (stream_step (hb_world h) ?s) \<noteq> Closed" by (simp add: stream_ok_def Let_def)
  have "subs_ok (hb_streams h') (hb_subs h')"
    unfolding move(1) advance_streams
    using ok(3) open_ step_subscribes [OF ok(1,2)] move(2)
    by (auto simp: subs_ok_def advance_def Let_def subscribers_of_subscribe nth_list_update split: if_splits)
  moreover have "\<forall>s \<in> set (hb_streams h'). stream_ok (hb_world h) s"
    using assms(2) step by (auto simp: move(1) advance_streams hub_ok_def dest!: subsetD [OF set_update_subset_insert])
  ultimately show ?thesis using ok(1) by (simp add: hub_ok_def move(1) advance_streams)
next
  case (publication r)
  then show ?thesis using assms(2) publish_streams [of h r]
    by (auto simp: hub_ok_def subs_ok_def publish_def if_distrib [of st_phase] cong: if_cong)
next
  case (writing w)
  then show ?thesis using assms(2) stream_ok_grow by (auto simp: hub_ok_def)
qed

lemma served_ok: "served h \<Longrightarrow> hub_ok h"
proof (induction rule: served.induct)
  case (start w)
  then show ?case by (simp add: hub_ok_def subs_ok_def subscribers_of_def)
qed (rule hub_step_ok)

section \<open>Properties of the stream\<close>

text \<open>
  C22. Whatever the writers, publishers and other clients do, what a client has received is a
  gapless piece of its run's history, in order and without repetition: it starts right after the
  last number the client had seen, or else at the first event, which happens only when nothing was
  there to replay. The stream is never closed by the server, also when the run has ended: the
  types it closes on are the names of run states, and no event has such a type.
\<close>

theorem stream_is_seamless:
  assumes "served h" "i < length (hb_streams h)" "s = hb_streams h ! i"
    and hist: "hist = events_of (hb_world h) (st_run s)"
  shows "(\<exists>k \<in> {nat (st_last_seen s), 0}. st_frames s = take (length (st_frames s)) (drop k hist) \<and>
      map e_seq (st_frames s) = map int [Suc k..<Suc k + length (st_frames s)]) \<and>
    st_phase s \<noteq> Closed"
proof -
  have ok: "log_ok (w_events (hb_world h))" "stream_ok (hb_world h) s"
    using served_ok [OF assms(1)] assms(2,3) by (auto simp: hub_ok_def)
  then obtain k where k: "segment hist s k" by (auto simp: stream_ok_def Let_def hist)
  then have pre: "prefix (st_frames s) (drop k hist)"
    unfolding segment_def by (meson append_prefixD)
  then have "st_frames s = take (length (st_frames s)) (drop k hist)" by (auto simp: prefix_def)
  moreover have "map e_seq (st_frames s) = map int [Suc k..<Suc k + length (st_frames s)]"
    using prefix_seqs [OF ok(1)] pre by (simp only: hist)
  moreover have "k \<in> {nat (st_last_seen s), 0}" using k by (auto simp: segment_def)
  ultimately show ?thesis using ok(2) by (auto simp: stream_ok_def Let_def)
qed

text \<open>A tail loop over \<open>es\<close> sends all of it and waits again.\<close>

lemma tail_loop:
  assumes "log_ok (w_events w)" "stream_ok w s" "st_phase s = Tailing es"
  shows "st_phase ((stream_step w ^^ Suc (length es)) s) = Waiting \<and>
    st_frames ((stream_step w ^^ Suc (length es)) s) = st_frames s @ es"
  using assms(2,3)
proof (induction es arbitrary: s)
  case Nil
  then show ?case by (simp add: stream_step.simps)
next
  case (Cons e es)
  have "\<exists>k. prefix (st_frames s @ e # es) (drop k (events_of w (st_run s)))" "st_emitted s = map e_seq (st_frames s)"
    using Cons.prems by (auto simp: stream_ok_def segment_def Let_def)
  with prefix_seq [OF assms(1)] have step: "st_phase (stream_step w s) = Tailing es"
    "st_frames (stream_step w s) = st_frames s @ [e]"
    using Cons.prems(2) by (fastforce simp: stream_step.simps send_event_def)+
  from Cons.IH [OF stream_step_ok [OF assms(1) Cons.prems(1)] step(1)] step(2)
  show ?case by (simp only: funpow_Suc_right o_apply list.size add_Suc_right add_0_right append_assoc) simp
qed

lemma waiting_catches_up:
  assumes "log_ok (w_events w)" "stream_ok w s" "st_phase s = Waiting" "st_notified s"
  shows "\<exists>n k. n \<le> length (events_of w (st_run s)) + 2 \<and> k \<in> {nat (st_last_seen s), 0} \<and>
    st_phase ((stream_step w ^^ n) s) = Waiting \<and>
    st_frames ((stream_step w ^^ n) s) = drop k (events_of w (st_run s))"
proof -
  let ?H = "events_of w (st_run s)"
  let ?s = "stream_step w s" and ?es = "drop (nat (cutoff s)) ?H"
  have ph: "st_phase ?s = Tailing ?es" "st_frames ?s = st_frames s"
    using assms(3,4) by (simp_all add: stream_step.simps query_rows [OF assms(1)])
  from tail_loop [OF assms(1) stream_step_ok [OF assms(1,2)] ph(1)] ph(2)
  have run: "st_phase ((stream_step w ^^ (length ?es + 2)) s) = Waiting"
    "st_frames ((stream_step w ^^ (length ?es + 2)) s) = st_frames s @ ?es"
    by (simp_all add: funpow_swap1)
  from assms(2) obtain k where k: "segment ?H s k" "st_emitted s = map e_seq (st_frames s)"
    by (auto simp: stream_ok_def Let_def)
  have "\<exists>k \<in> {nat (st_last_seen s), 0}. st_frames s @ ?es = drop k ?H"
  proof (cases "st_frames s = []")
    case True
    with k(2) show ?thesis by (simp add: cutoff_def)
  next
    case False
    from k(1) assms(3) obtain zs where z: "drop k ?H = st_frames s @ zs" by (auto simp: segment_def prefix_def)
    have "zs = drop (k + length (st_frames s)) ?H"
      using arg_cong [OF z, of "drop (length (st_frames s))"] by (simp add: add.commute)
    with z have "st_frames s @ ?es = drop k ?H"
      unfolding segment_cutoff [OF assms(1) k(1) assms(3) k(2) False] by simp
    with k(1) show ?thesis by (auto simp: segment_def)
  qed
  then obtain j where "j \<in> {nat (st_last_seen s), 0}" "st_frames s @ ?es = drop j ?H" by blast
  moreover have "length ?es + 2 \<le> length ?H + 2" by simp
  ultimately show ?thesis using run by metis
qed

lemma advance_iter:
  "i < length (hb_streams h) \<Longrightarrow> hb_streams ((advance i ^^ n) h) ! i = (stream_step (hb_world h) ^^ n) (hb_streams h ! i)
     \<and> hb_world ((advance i ^^ n) h) = hb_world h \<and> length (hb_streams ((advance i ^^ n) h)) = length (hb_streams h)"
  by (induction n) (simp_all add: advance_streams)

text \<open>
  C36. A publication is enough for a waiting client to catch up: after one, within as many moves
  of its stream as the history is long and two more, the client has every event of the run from
  its starting point to the end of the log, and the stream waits again.
\<close>

theorem publication_delivers:
  assumes "served h" "i < length (hb_streams h)" "s = hb_streams h ! i" "st_phase s = Waiting"
    and hist: "hist = events_of (hb_world h) (st_run s)"
  shows "\<exists>n k s'. n \<le> length hist + 2 \<and> k \<in> {nat (st_last_seen s), 0} \<and>
    s' = hb_streams ((advance i ^^ n) (publish (st_run s) h)) ! i \<and>
    st_frames s' = drop k hist \<and> st_phase s' = Waiting"
proof -
  have ok: "hub_ok h" by (rule served_ok [OF assms(1)])
  then have str: "hb_streams (publish (st_run s) h) ! i = notify s"
    using publish_streams [of h "st_run s"] assms(2-4) by (simp add: hub_ok_def)
  have w: "hb_world (publish (st_run s) h) = hb_world h" by (simp add: publish_def)
  have len: "i < length (hb_streams (publish (st_run s) h))"
    using publish_streams [of h "st_run s"] ok assms(2) by (simp add: hub_ok_def)
  have "log_ok (w_events (hb_world h))" "stream_ok (hb_world h) (notify s)"
    using ok assms(2,3) by (auto simp: hub_ok_def)
  from waiting_catches_up [OF this] assms(4)
  obtain n k where n: "n \<le> length hist + 2" and k: "k \<in> {nat (st_last_seen s), 0}"
    and s': "st_phase ((stream_step (hb_world h) ^^ n) (notify s)) = Waiting"
      "st_frames ((stream_step (hb_world h) ^^ n) (notify s)) = drop k hist"
    by (auto simp: hist)
  have "hb_streams ((advance i ^^ n) (publish (st_run s) h)) ! i = (stream_step (hb_world h) ^^ n) (notify s)"
    using advance_iter [OF len, of n] by (simp add: str w)
  with n k s' show ?thesis by metis
qed

text \<open>
  A client that reconnects with the last number of the log is sent the whole history again:
  nothing is replayed, and the first publication makes the stream read from the beginning,
  because the number the client gave counts only once something was sent.
\<close>

theorem reconnect_repeats_history:
  assumes "log_ok (w_events w)" "hist = events_of w run"
  shows "\<exists>s n. run_events_stream True run (int (length hist)) w = Inr s \<and>
    st_frames ((stream_step w ^^ 2) s) = [] \<and> st_phase ((stream_step w ^^ 2) s) = Waiting \<and>
    st_frames ((stream_step w ^^ n) (notify ((stream_step w ^^ 2) s))) = hist"
proof -
  let ?s = "\<lparr>st_run = run, st_last_seen = int (length hist), st_phase = Starting, st_emitted = [],
      st_frames = [], st_notified = False\<rparr>"
  have conn: "run_events_stream True run (int (length hist)) w = Inr ?s"
    by (simp add: run_events_stream_def latest_seq_safe_def ev_latest_seq_def gets_def
        max_seq_log_ok [OF assms(1)] assms(2))
  have two: "(stream_step w ^^ 2) ?s = ?s\<lparr>st_phase := Waiting\<rparr>"
    by (simp add: numeral_2_eq_2 stream_step.simps query_rows [OF assms(1)] assms(2))
  have ok: "stream_ok w (notify (?s\<lparr>st_phase := Waiting\<rparr>))"
    using assms(2) by (auto simp: stream_ok_def segment_def)
  have tail: "stream_step w (notify (?s\<lparr>st_phase := Waiting\<rparr>)) =
      (notify (?s\<lparr>st_phase := Waiting\<rparr>))\<lparr>st_phase := Tailing hist\<rparr>"
    by (simp add: stream_step.simps notify_def query_rows [OF assms(1)] cutoff_def assms(2))
  have "stream_ok w (stream_step w (notify (?s\<lparr>st_phase := Waiting\<rparr>)))" by (rule stream_step_ok [OF assms(1) ok])
  from tail_loop [OF assms(1) this, of hist] have
    "st_frames ((stream_step w ^^ Suc (length hist)) (stream_step w (notify (?s\<lparr>st_phase := Waiting\<rparr>)))) = hist"
    unfolding tail by (simp add: notify_def del: funpow.simps)
  then have "st_frames ((stream_step w ^^ Suc (Suc (length hist))) (notify (?s\<lparr>st_phase := Waiting\<rparr>))) = hist"
    by (simp add: funpow_swap1)
  with conn two show ?thesis by (intro exI [of _ ?s] exI [of _ "Suc (Suc (length hist))"]) simp
qed

section \<open>A concrete process\<close>

text \<open>One run with two events, and a client that has seen the first.\<close>

definition stream_world :: world where
  "stream_world = fresh_world\<lparr>w_events := map (\<lambda>n. \<lparr>e_id = show_nat n, e_run_id = ''r'', e_seq = int n,
     e_type = ''run.cancelled'', e_payload = [(''reason'', PStr ''x'')], e_timestamp = Aware 0 0,
     e_causation = None, e_actor = None\<rparr>) [1, 2]\<rparr>"

lemma stream_world_ok: "log_ok (w_events stream_world)"
proof -
  let ?e = "\<lambda>n. \<lparr>e_id = show_nat n, e_run_id = ''r'', e_seq = int n,
     e_type = ''run.cancelled'', e_payload = [(''reason'', PStr ''x'')], e_timestamp = Aware 0 0,
     e_causation = None, e_actor = None\<rparr>"
  have wf: "wf_event (?e 1)" "wf_event (?e 2)" by (simp_all add: wf_event_def)
  have "log_ok ([] @ [?e 1])" by (rule log_ok_snoc [OF _ wf(1)]) (simp_all add: seqs_of_def)
  moreover have "show_nat 2 \<noteq> show_nat 1" by code_simp
  ultimately have "log_ok ([?e 1] @ [?e 2])"
    by (intro log_ok_snoc wf) (simp_all add: seqs_of_def)
  then show ?thesis by (simp add: stream_world_def)
qed

definition demo_stream :: sse_stream where
  "demo_stream = \<lparr>st_run = ''r'', st_last_seen = 1, st_phase = Starting, st_emitted = [], st_frames = [],
     st_notified = False\<rparr>"

definition demo_hub :: hub where
  "demo_hub = (advance 0 ^^ 3) \<lparr>hb_world = stream_world, hb_streams = [demo_stream], hb_subs = []\<rparr>"

lemma demo_hub_streams:
  "hb_streams demo_hub = [demo_stream\<lparr>st_phase := Waiting, st_emitted := [2],
     st_frames := drop 1 (w_events stream_world)\<rparr>]" "hb_world demo_hub = stream_world"
  by code_simp (simp add: demo_hub_def numeral_3_eq_3 advance_streams)

lemma demo_hub_served: "served demo_hub"
proof -
  let ?h = "\<lparr>hb_world = stream_world, hb_streams = [demo_stream], hb_subs = []\<rparr>"
  have "run_events_stream True ''r'' 1 stream_world = Inr demo_stream" by code_simp
  from served.step [OF served.start [OF stream_world_ok] hub_step.connect] this
  have "served ?h" by fastforce
  then have start: "served ?h" .
  have "served ((advance 0 ^^ n) ?h) \<and> length (hb_streams ((advance 0 ^^ n) ?h)) = 1" for n
  proof (induction n)
    case (Suc n)
    then show ?case
      using served.step [OF conjunct1 [OF Suc.IH] hub_step.move [of 0]] by (simp add: advance_streams)
  qed (simp add: start)
  then show ?thesis by (simp add: demo_hub_def)
qed

theorem stream_is_seamless_witness:
  "map e_seq (st_frames (hb_streams demo_hub ! 0)) = [2] \<and> st_phase (hb_streams demo_hub ! 0) \<noteq> Closed"
  using stream_is_seamless [OF demo_hub_served _ refl refl, of 0]
  by (simp add: demo_hub_streams stream_world_def)

theorem publication_delivers_witness:
  "\<exists>n k s'. n \<le> 4 \<and> k \<in> {1, 0} \<and> s' = hb_streams ((advance 0 ^^ n) (publish ''r'' demo_hub)) ! 0 \<and>
     st_frames s' = drop k (w_events stream_world) \<and> st_phase s' = Waiting"
proof -
  have "events_of stream_world ''r'' = w_events stream_world" "length (w_events stream_world) = 2" by code_simp+
  with publication_delivers [OF demo_hub_served _ refl _ refl, of 0] show ?thesis
    by (simp add: demo_hub_streams demo_stream_def)
qed

theorem reconnect_repeats_history_witness:
  "\<exists>s n. run_events_stream True ''r'' 2 stream_world = Inr s \<and>
     st_frames ((stream_step stream_world ^^ n) (notify ((stream_step stream_world ^^ 2) s))) = w_events stream_world"
proof -
  have "events_of stream_world ''r'' = w_events stream_world" "length (w_events stream_world) = 2" by code_simp+
  with reconnect_repeats_history [OF stream_world_ok refl, of "''r''"] show ?thesis by auto
qed

end
