(* ===== verification/Visibility.thy ===== *)
theory Visibility
  imports Orchestration Till_Done Manifest
begin

text \<open>
  The read-only view of a run (services/visibility.py) and its endpoint (api/routes/run_view.py).
  The dataclass of each kind of record and its pydantic twin have the same fields and are one
  record here; a time is kept as the value whose \<open>isoformat()\<close> the code stores. How Python prints
  a tuple or a dictionary is an argument, and so is the manifest repository.
\<close>

section \<open>Records\<close>

record milestone_record =
  ml_seq :: int
  ml_run_id :: string
  ml_phase :: string
  ml_milestone :: string
  ml_description :: string
  ml_timestamp :: datetime

record artifact_record =
  ar_seq :: int
  ar_run_id :: string
  ar_artifact_kind :: string
  ar_artifact_ref :: string
  ar_label :: "string option"
  ar_timestamp :: datetime

record revision_record =
  rv_seq :: int
  rv_run_id :: string
  rv_version :: int
  rv_artifact_ref :: string
  rv_diff_from_previous :: string
  rv_rationale :: string
  rv_timestamp :: datetime

record manifest_summary =
  ms_run_id :: string
  ms_tool_policy_preset :: string

record pending_record =
  pa_approval_id :: string
  pa_approval_kind :: string
  pa_summary :: string
  pa_requested_at :: datetime
  pa_expires_at :: "datetime option"

record run_snapshot =
  sn_run_state :: string
  sn_milestones :: "milestone_record list"
  sn_artifacts :: "artifact_record list"
  sn_plan_revisions :: "revision_record list"
  sn_pending_approvals :: "pending_record list"
  sn_latest_checkpoint_ref :: "string option"
  sn_manifest_summary :: "manifest_summary option"

section \<open>Reading an event\<close>

definition get_str :: "(pyval \<Rightarrow> string) \<Rightarrow> payload \<Rightarrow> string \<Rightarrow> pyval \<Rightarrow> string" where
  "get_str repr p k other = py_str repr (case map_of p k of None \<Rightarrow> other | Some v \<Rightarrow> v)"

definition milestone_description_map :: "((string \<times> string) \<times> string) list" where
  "milestone_description_map = map (\<lambda>(phase, milestone, description). ((phase, milestone), description)) milestone_catalog"

definition milestone_of :: "(pyval \<Rightarrow> string) \<Rightarrow> string \<Rightarrow> run_event \<Rightarrow> milestone_record" where
  "milestone_of repr run_id ev =
     (let phase = get_str repr (e_payload ev) ''phase'' (PStr []);
          milestone = get_str repr (e_payload ev) ''milestone'' (PStr []);
          description = (case map_of milestone_description_map (phase, milestone) of
            Some d \<Rightarrow> d | None \<Rightarrow> phase @ ''/'' @ milestone) in
      \<lparr>ml_seq = e_seq ev, ml_run_id = run_id, ml_phase = phase, ml_milestone = milestone,
       ml_description = description, ml_timestamp = e_timestamp ev\<rparr>)"

definition revision_of :: "(pyval \<Rightarrow> string) \<Rightarrow> string \<Rightarrow> run_event \<Rightarrow> exc + revision_record" where
  "revision_of repr run_id ev =
     rbind (parse_int (get_str repr (e_payload ev) ''version'' (PInt 0))) (\<lambda>version.
     Inr \<lparr>rv_seq = e_seq ev, rv_run_id = run_id, rv_version = version,
          rv_artifact_ref = get_str repr (e_payload ev) ''artifact_ref'' (PStr []),
          rv_diff_from_previous = get_str repr (e_payload ev) ''diff_from_previous'' (PStr []),
          rv_rationale = get_str repr (e_payload ev) ''rationale'' (PStr []),
          rv_timestamp = e_timestamp ev\<rparr>)"

definition artifact_of :: "(pyval \<Rightarrow> string) \<Rightarrow> string \<Rightarrow> run_event \<Rightarrow> artifact_record" where
  "artifact_of repr run_id ev =
     \<lparr>ar_seq = e_seq ev, ar_run_id = run_id,
      ar_artifact_kind = get_str repr (e_payload ev) ''artifact_kind'' (PStr []),
      ar_artifact_ref = get_str repr (e_payload ev) ''artifact_ref'' (PStr []),
      ar_label = map_option (py_str repr) (map_of (e_payload ev) ''label''),
      ar_timestamp = e_timestamp ev\<rparr>"

text \<open>The loop over the events, with its three lists.\<close>

type_synonym event_lists = "milestone_record list \<times> artifact_record list \<times> revision_record list"

fun read_events :: "(pyval \<Rightarrow> string) \<Rightarrow> string \<Rightarrow> run_event list \<Rightarrow> event_lists \<Rightarrow> exc + event_lists" where
  "read_events repr run_id [] acc = Inr acc"
| "read_events repr run_id (ev # evs) (ms, ars, rvs) =
     (if e_type ev = ''run.progress'' then read_events repr run_id evs (ms @ [milestone_of repr run_id ev], ars, rvs)
      else if e_type ev = ''run.artifact_created'' then
        if get_str repr (e_payload ev) ''artifact_kind'' (PStr []) = ''plan-revision'' then
          rbind (revision_of repr run_id ev) (\<lambda>rv. read_events repr run_id evs (ms, ars, rvs @ [rv]))
        else read_events repr run_id evs (ms, ars @ [artifact_of repr run_id ev], rvs)
      else read_events repr run_id evs (ms, ars, rvs))"

definition pending_of :: "approval \<Rightarrow> pending_record" where
  "pending_of a = \<lparr>pa_approval_id = ap_id a, pa_approval_kind = ap_kind a, pa_summary = ap_summary a,
     pa_requested_at = ap_requested_at a, pa_expires_at = ap_expires_at a\<rparr>"

section \<open>The snapshot\<close>

text \<open>\<open>manifests\<close> is the optional manifest repository: what its \<open>get\<close> answers for a run.\<close>

definition snapshot ::
  "(pyval \<Rightarrow> string) \<Rightarrow> bool \<Rightarrow> (string \<Rightarrow> manifest option) option \<Rightarrow> bool \<Rightarrow> string \<Rightarrow> (world, run_snapshot) prog"
where
  "snapshot repr has_runs manifests has_approvals run_id =
     bind (if has_runs then bind (run_get run_id) (\<lambda>r. ret (case r of None \<Rightarrow> ''unknown'' | Some r \<Rightarrow> show_run_state (r_state r)))
           else ret ''unknown'') (\<lambda>run_state.
     bind (ev_list run_id 0 None) (\<lambda>all_events.
     bind (lift (read_events repr run_id all_events ([], [], []))) (\<lambda>(milestones, artifacts, plan_revisions).
     bind (if has_approvals then bind (approval_list_by_run run_id) (\<lambda>all_approvals.
             ret (map pending_of (filter (\<lambda>a. ap_state a = APending) all_approvals)))
           else ret []) (\<lambda>pending_approvals.
     ret \<lparr>sn_run_state = run_state, sn_milestones = milestones, sn_artifacts = artifacts,
          sn_plan_revisions = plan_revisions, sn_pending_approvals = pending_approvals,
          sn_latest_checkpoint_ref = None,
          sn_manifest_summary = (case manifests of None \<Rightarrow> None
            | Some get \<Rightarrow> map_option (\<lambda>m. \<lparr>ms_run_id = run_id,
                ms_tool_policy_preset = show_preset (tp_preset (mf_tool_policy m))\<rparr>) (get run_id))\<rparr>))))"

definition get_run_view ::
  "(pyval \<Rightarrow> string) \<Rightarrow> bool \<Rightarrow> bool \<Rightarrow> (string \<Rightarrow> manifest option) option \<Rightarrow> bool \<Rightarrow> string
   \<Rightarrow> (world, run_snapshot) prog" where
  "get_run_view repr has_events has_runs manifests has_approvals run_id =
     andthen (require has_events (HTTPException 503))
     (andthen (if has_runs then bind (run_get run_id) (\<lambda>r. require (r \<noteq> None) (HTTPException 404)) else ret ())
     (bind (snapshot repr has_runs manifests has_approvals run_id) (\<lambda>snap.
     andthen (if has_runs then ret ()
              else bind (ev_latest_seq run_id) (\<lambda>latest. require (latest \<noteq> 0) (HTTPException 404)))
     (ret snap))))"

section \<open>What the view shows\<close>

definition is_progress :: "run_event \<Rightarrow> bool" where
  "is_progress ev \<longleftrightarrow> e_type ev = ''run.progress''"

definition is_revision :: "(pyval \<Rightarrow> string) \<Rightarrow> run_event \<Rightarrow> bool" where
  "is_revision repr ev \<longleftrightarrow> e_type ev = ''run.artifact_created'' \<and>
     get_str repr (e_payload ev) ''artifact_kind'' (PStr []) = ''plan-revision''"

definition is_artifact :: "(pyval \<Rightarrow> string) \<Rightarrow> run_event \<Rightarrow> bool" where
  "is_artifact repr ev \<longleftrightarrow> e_type ev = ''run.artifact_created'' \<and> \<not> is_revision repr ev"

lemma read_events_spec:
  "read_events repr run evs (ms, ars, rvs) =
     rbind (rmap (revision_of repr run) (filter (is_revision repr) evs)) (\<lambda>rs.
     Inr (ms @ map (milestone_of repr run) (filter is_progress evs),
          ars @ map (artifact_of repr run) (filter (is_artifact repr) evs), rvs @ rs))"
proof (induction evs arbitrary: ms ars rvs)
  case (Cons ev evs)
  consider "is_progress ev" | "is_revision repr ev" | "is_artifact repr ev"
    | "\<not> is_progress ev" "\<not> is_revision repr ev" "\<not> is_artifact repr ev" by blast
  then show ?case
  proof cases
    case 2
    then have "\<not> is_progress ev" "\<not> is_artifact repr ev"
      by (auto simp: is_progress_def is_revision_def is_artifact_def)
    with 2 2 [unfolded is_revision_def] show ?thesis
      by (cases "revision_of repr run ev"; cases "rmap (revision_of repr run) (filter (is_revision repr) evs)")
        (simp_all add: Cons)
  qed (use Cons in \<open>auto simp: is_progress_def is_revision_def is_artifact_def\<close>)
qed simp

lemma list_approvals:
  assumes "world_ok w"
  shows "approval_list_by_run r w = (Inr (filter (\<lambda>a. ap_run_id a = r) (map snd (w_approvals w))), w)"
proof -
  have same: "\<forall>a \<in> set as. wf_approval a \<Longrightarrow> rmap reload_approval as = Inr as" for as
    by (induction as) (simp_all add: reload_approval_id)
  have "\<forall>a \<in> set (filter (\<lambda>a. ap_run_id a = r) (map snd (w_approvals w))). wf_approval a"
    using assms by (auto simp: world_ok_def rows_ok_def)
  from same [OF this] have "rmap reload_approval (filter (\<lambda>a. ap_run_id a = r) (map snd (w_approvals w))) =
      Inr (filter (\<lambda>a. ap_run_id a = r) (map snd (w_approvals w)))" .
  then show ?thesis by (simp only: approval_list_by_run_def)
qed

lemma list_history: "world_ok w \<Longrightarrow> ev_list r 0 None w = (Inr (events_of w r), w)"
  using repo.listing_all by (simp add: world_ok_def)

lemma snapshot_result:
  assumes "world_ok w"
  shows "snapshot repr has_runs manifests has_approvals run w =
    (rbind (rmap (revision_of repr run) (filter (is_revision repr) (events_of w run))) (\<lambda>revisions.
     Inr \<lparr>sn_run_state = (case map_of (w_runs w) run of Some r \<Rightarrow>
            if has_runs then show_run_state (r_state r) else ''unknown'' | None \<Rightarrow> ''unknown''),
          sn_milestones = map (milestone_of repr run) (filter is_progress (events_of w run)),
          sn_artifacts = map (artifact_of repr run) (filter (is_artifact repr) (events_of w run)),
          sn_plan_revisions = revisions,
          sn_pending_approvals = (if has_approvals then map pending_of (filter (\<lambda>a. ap_run_id a = run \<and>
            ap_state a = APending) (map snd (w_approvals w))) else []),
          sn_latest_checkpoint_ref = None,
          sn_manifest_summary = (case manifests of None \<Rightarrow> None
            | Some get \<Rightarrow> map_option (\<lambda>m. \<lparr>ms_run_id = run,
                ms_tool_policy_preset = show_preset (tp_preset (mf_tool_policy m))\<rparr>) (get run))\<rparr>), w)"
  using assms
  by (cases "rmap (revision_of repr run) (filter (is_revision repr) (events_of w run))")
    (simp_all add: snapshot_def prog_simps list_history list_approvals read_events_spec conj_commute
      split: option.split)

text \<open>
  The snapshot of a run shows its history and changes nothing: every progress event as a
  milestone, every artifact event either as a plan revision or as an artifact, in the order of the
  log, with the run's state and its approvals that are still pending. It fails only when the
  version of some plan revision is not a number.
\<close>

theorem snapshot_shows_history:
  assumes "world_ok w" "get_run_view repr True True manifests True run w = (Inr snap, w')"
  shows "w' = w \<and> (\<exists>r. map_of (w_runs w) run = Some r \<and> sn_run_state snap = show_run_state (r_state r)) \<and>
    map ml_seq (sn_milestones snap) = map e_seq (filter is_progress (events_of w run)) \<and>
    map ar_seq (sn_artifacts snap) = map e_seq (filter (is_artifact repr) (events_of w run)) \<and>
    map Inr (sn_plan_revisions snap) = map (revision_of repr run) (filter (is_revision repr) (events_of w run)) \<and>
    sn_pending_approvals snap = map pending_of (filter (\<lambda>a. ap_run_id a = run \<and> ap_state a = APending)
      (map snd (w_approvals w)))"
proof -
  have rm: "rmap f xs = Inr ys \<longleftrightarrow> map f xs = map Inr ys" for f :: "run_event \<Rightarrow> exc + revision_record" and xs ys
    by (induction xs arbitrary: ys) (auto simp: rbind_Inr_iff Cons_eq_map_conv map_eq_Cons_conv)
  have seqs: "map ml_seq (map (milestone_of repr run) es) = map e_seq es"
    "map ar_seq (map (artifact_of repr run) es) = map e_seq es" for es
    by (simp_all add: milestone_of_def artifact_of_def Let_def)
  obtain r where r: "map_of (w_runs w) run = Some r"
    using assms by (cases "map_of (w_runs w) run") (simp_all add: get_run_view_def prog_simps)
  from assms r have "snapshot repr True manifests True run w = (Inr snap, w')"
    by (cases "snapshot repr True manifests True run w") (auto simp: get_run_view_def prog_simps split: sum.splits)
  with r seqs show ?thesis unfolding snapshot_result [OF assms(1)] by (auto simp: rbind_Inr_iff rm)
qed

text \<open>
  The endpoint refuses with 503 without an event repository and with 404 for a run it does not
  know: one that is not stored, or, when it has no run repository, one without events. In every
  other case it answers with the snapshot, or fails as the snapshot does; the store never changes.
\<close>

theorem run_view_answers:
  assumes "world_ok w"
  shows "get_run_view repr has_events has_runs manifests has_approvals run w =
    (if \<not> has_events then Inl (HTTPException 503)
     else if has_runs \<and> map_of (w_runs w) run = None then Inl (HTTPException 404)
     else rbind (fst (snapshot repr has_runs manifests has_approvals run w)) (\<lambda>snap.
       if \<not> has_runs \<and> events_of w run = [] then Inl (HTTPException 404) else Inr snap), w)"
proof -
  obtain res where res: "snapshot repr has_runs manifests has_approvals run w = (res, w)"
    unfolding snapshot_result [OF assms] by blast
  have "log_ok (w_events w)" using assms by (simp add: world_ok_def)
  then show ?thesis using assms res
    by (cases res; cases has_runs; cases has_events)
      (simp_all add: get_run_view_def prog_simps ev_latest_seq_def max_seq_log_ok)
qed

text \<open>
  What the till-done loop writes about a plan revision comes back unchanged: the event it
  emits is read as a revision with the same version, reference, difference and rationale,
  whatever the version and the texts are.
\<close>

theorem revision_roundtrip:
  assumes "emit_plan_revision_artifact run budget version body diff rationale ref s = (Inr u, s')"
  shows "\<exists>ev. st_events s' = st_events s @ [ev] \<and> is_revision repr ev \<and>
    revision_of repr run ev = Inr \<lparr>rv_seq = int (length (st_events s)) + 1, rv_run_id = run, rv_version = version,
      rv_artifact_ref = ref, rv_diff_from_previous = diff, rv_rationale = rationale,
      rv_timestamp = Aware (st_clock s (st_ticks s)) 0\<rparr>"
proof -
  let ?p = "dict_put_opt ''token_budget'' (map_option PDict (token_budget_payload budget))
            [(''artifact_ref'', PStr ref), (''artifact_kind'', PStr ''plan-revision''),
             (''label'', PStr (''plan-revision-v'' @ show_int version)), (''version'', PInt version),
             (''diff_from_previous'', PStr diff), (''rationale'', PStr rationale), (''body'', PStr body)]"
  from assms obtain ev where ev: "st_events s' = st_events s @ [ev]" "e_type ev = ''run.artifact_created''"
    "e_payload ev = ?p" "e_seq ev = int (length (st_events s)) + 1" "e_timestamp ev = Aware (st_clock s (st_ticks s)) 0"
    by (auto simp: emit_plan_revision_artifact_def prog_simps stream_now_def stream_emit_def make_event_def
        rbind_Inr_iff split: sum.splits)
  have look: "map_of ?p k = map_of [(''artifact_ref'', PStr ref), (''artifact_kind'', PStr ''plan-revision''),
             (''label'', PStr (''plan-revision-v'' @ show_int version)), (''version'', PInt version),
             (''diff_from_previous'', PStr diff), (''rationale'', PStr rationale), (''body'', PStr body)] k"
    if "k \<noteq> ''token_budget''" for k
    using that by (simp add: dict_put_opt_def update_conv' split: option.split)
  have "is_revision repr ev" "revision_of repr run ev = Inr \<lparr>rv_seq = int (length (st_events s)) + 1, rv_run_id = run,
      rv_version = version, rv_artifact_ref = ref, rv_diff_from_previous = diff, rv_rationale = rationale,
      rv_timestamp = Aware (st_clock s (st_ticks s)) 0\<rparr>"
    by (simp_all add: is_revision_def revision_of_def get_str_def ev look parse_int_show)
  with ev(1) show ?thesis by blast
qed

section \<open>Witnesses\<close>

definition no_repr :: "pyval \<Rightarrow> string" where
  "no_repr v = []"

lemma started_view:
  "\<exists>snap. get_run_view repr True True None True ''run-t1'' started_world = (Inr snap, started_world)"
proof -
  have hist: "map e_type (events_of started_world ''run-t1'') = [''run.created'']" by code_simp
  have "filter (is_revision repr) (events_of started_world ''run-t1'') = []"
    using hist by (auto simp: is_revision_def filter_empty_conv map_eq_Cons_conv)
  then show ?thesis
    unfolding get_run_view_def using started_world_runs(1)
    by (simp add: prog_simps started_world_ok snapshot_result [OF started_world_ok])
qed

theorem snapshot_shows_history_witness:
  "\<exists>snap. get_run_view no_repr True True None True ''run-t1'' started_world = (Inr snap, started_world) \<and>
     sn_run_state snap = ''created''"
proof -
  obtain snap where v: "get_run_view no_repr True True None True ''run-t1'' started_world = (Inr snap, started_world)"
    using started_view by blast
  from snapshot_shows_history [OF started_world_ok v] started_world_runs(1) v show ?thesis
    by (auto simp: started_run_def)
qed

theorem run_view_answers_witness:
  "get_run_view no_repr True True None True ''run-t2'' started_world = (Inl (HTTPException 404), started_world)"
proof -
  have "map_of (w_runs started_world) ''run-t2'' = None" by code_simp
  then show ?thesis using run_view_answers [OF started_world_ok, of no_repr True True None True "''run-t2''"] by simp
qed

definition empty_stream :: stream where
  "empty_stream = \<lparr>st_events = [], st_clock = int, st_ticks = 0\<rparr>"

theorem revision_roundtrip_witness:
  "\<exists>s' ev. emit_plan_revision_artifact ''r'' None (- 12) ''b'' ''d'' ''why'' ''a'' empty_stream = (Inr (), s') \<and>
     st_events s' = [ev] \<and> map_sum id rv_version (revision_of no_repr ''r'' ev) = Inr (- 12)"
proof -
  have "map_sum id id (fst (emit_plan_revision_artifact ''r'' None (- 12) ''b'' ''d'' ''why'' ''a'' empty_stream)) = Inr ()"
    by code_simp
  then obtain s' where s': "emit_plan_revision_artifact ''r'' None (- 12) ''b'' ''d'' ''why'' ''a'' empty_stream = (Inr (), s')"
    by (cases "emit_plan_revision_artifact ''r'' None (- 12) ''b'' ''d'' ''why'' ''a'' empty_stream") (auto simp: sum.map_id)
  from revision_roundtrip [OF this, of no_repr] s' show ?thesis by (auto simp: empty_stream_def)
qed

section \<open>The view of a run that went through the pipeline\<close>

lemma milestones_of_trace:
  "map (\<lambda>e. (ml_phase (milestone_of repr run e), ml_milestone (milestone_of repr run e))) (filter is_progress es) =
     map (\<lambda>(i, t, p). (get_str repr p ''phase'' (PStr []), get_str repr p ''milestone'' (PStr [])))
       (filter (\<lambda>(i, t, p). t = ''run.progress'') (trace_of es))"
  by (induction es) (simp_all add: trace_of_def is_progress_def milestone_of_def Let_def)

lemma revisions_of_trace:
  "filter (is_revision repr) es = [] \<longleftrightarrow> filter (\<lambda>(i, t, p). t = ''run.artifact_created'' \<and>
     get_str repr p ''artifact_kind'' (PStr []) = ''plan-revision'') (trace_of es) = []"
  by (induction es) (simp_all add: trace_of_def is_revision_def)

end
