(* ===== verification/Documents.thy ===== *)
theory Documents
  imports Prelude
begin

text \<open>
  What the readers of YAML documents share (assets, profiles, instances): a parsed document is a
  \<open>pyval\<close>, lists and tuples are \<open>PTuple\<close>, and every mapping has text keys. The checks of
  \<open>isinstance\<close> become pattern matches; a value that is not a text, a number, a truth value, null,
  a list or a mapping does not occur.
\<close>

section \<open>Typed access\<close>

definition dict_get :: "payload \<Rightarrow> string \<Rightarrow> pyval" where
  "dict_get d k = (case map_of d k of None \<Rightarrow> PNone | Some v \<Rightarrow> v)"

definition get_default :: "payload \<Rightarrow> string \<Rightarrow> pyval \<Rightarrow> pyval" where
  "get_default d k other = (case map_of d k of None \<Rightarrow> other | Some v \<Rightarrow> v)"

fun text_value :: "string \<Rightarrow> pyval \<Rightarrow> exc + string" where
  "text_value f (PStr s) = Inr s"
| "text_value f _ = Inl (TypeError (f @ '' must be a string''))"

definition nonblank :: "string \<Rightarrow> pyval \<Rightarrow> exc + string" where
  "nonblank f v = rbind (text_value f v) (require_non_empty_text f)"

fun sequence_value :: "string \<Rightarrow> pyval \<Rightarrow> exc + pyval list" where
  "sequence_value f (PTuple vs) = Inr vs"
| "sequence_value f _ = Inl (TypeError (f @ '' must be a sequence''))"

fun mapping_value :: "string \<Rightarrow> pyval \<Rightarrow> exc + payload" where
  "mapping_value f (PDict d) = Inr d"
| "mapping_value f _ = Inl (TypeError (f @ '' must be a mapping''))"

fun truthy :: "pyval \<Rightarrow> bool" where
  "truthy PNone = False"
| "truthy (PBool b) = b"
| "truthy (PInt i) = (i \<noteq> 0)"
| "truthy (PStr s) = (s \<noteq> [])"
| "truthy (PTuple vs) = (vs \<noteq> [])"
| "truthy (PDict d) = (d \<noteq> [])"

text \<open>\<open>select.get(k1) or select.get(k2)\<close>, and what a loop over the value sees.\<close>

definition first_truthy :: "payload \<Rightarrow> string \<Rightarrow> string \<Rightarrow> pyval" where
  "first_truthy d k1 k2 = (if truthy (dict_get d k1) then dict_get d k1 else dict_get d k2)"

definition require_keys :: "string \<Rightarrow> string list \<Rightarrow> payload \<Rightarrow> exc + unit" where
  "require_keys f keys d =
     ensure (set keys \<subseteq> set (dict_keys d)) (ValueError (f @ '' missing required fields''))"

text \<open>A required field, and an optional one with its default.\<close>

definition required_field :: "payload \<Rightarrow> string \<Rightarrow> (pyval \<Rightarrow> exc + 'a) \<Rightarrow> exc + 'a" where
  "required_field d k check = (case map_of d k of None \<Rightarrow> Inl (ValueError (k @ '' field required'')) | Some v \<Rightarrow> check v)"

definition optional_field :: "payload \<Rightarrow> string \<Rightarrow> 'a \<Rightarrow> (pyval \<Rightarrow> exc + 'a) \<Rightarrow> exc + 'a" where
  "optional_field d k other check = (case map_of d k of None \<Rightarrow> Inr other | Some v \<Rightarrow> check v)"

text \<open>A file that was opened: unreadable, not YAML, or the value it holds.\<close>

datatype document = Unreadable string | Unparsable string | Parsed pyval

section \<open>Texts\<close>

fun split_on :: "char \<Rightarrow> string \<Rightarrow> string list" where
  "split_on sep [] = [[]]"
| "split_on sep (c # s) =
     (if c = sep then [] # split_on sep s
      else case split_on sep s of p # ps \<Rightarrow> (c # p) # ps | [] \<Rightarrow> [[c]])"

definition in_range :: "char \<Rightarrow> char \<Rightarrow> char \<Rightarrow> bool" where
  "in_range lo hi c \<longleftrightarrow> (of_char lo :: nat) \<le> of_char c \<and> (of_char c :: nat) \<le> of_char hi"

abbreviation lower_letter :: "char \<Rightarrow> bool" where
  "lower_letter c \<equiv> in_range (CHR ''a'') (CHR ''z'') c"

abbreviation upper_letter :: "char \<Rightarrow> bool" where
  "upper_letter c \<equiv> in_range (CHR ''A'') (CHR ''Z'') c"

abbreviation decimal :: "char \<Rightarrow> bool" where
  "decimal c \<equiv> in_range (CHR ''0'') (CHR ''9'') c"

text \<open>\<open>str.isdigit\<close>: the decimal digits and the three superscripts below code point 256.\<close>

definition is_digits :: "string \<Rightarrow> bool" where
  "is_digits s \<longleftrightarrow> s \<noteq> [] \<and> (\<forall>c \<in> set s. decimal c \<or> (of_char c :: nat) \<in> {178, 179, 185})"

text \<open>The first occurrence of every element, in order (\<open>dict.fromkeys\<close>, or a loop with a \<open>seen\<close> set).\<close>

definition dedupe :: "'a list \<Rightarrow> 'a list" where
  "dedupe xs = rev (remdups (rev xs))"

lemma set_dedupe [simp]: "set (dedupe xs) = set xs"
  by (simp add: dedupe_def)

lemma distinct_dedupe [simp]: "distinct (dedupe xs)"
  by (simp add: dedupe_def)

lemma dedupe_distinct [simp]: "distinct xs \<Longrightarrow> dedupe xs = xs"
  by (simp add: dedupe_def distinct_remdups_id)

text \<open>The texts that occur more than once, sorted.\<close>

definition occurrences :: "'a \<Rightarrow> 'a list \<Rightarrow> nat" where
  "occurrences x xs = length (filter (\<lambda>y. y = x) xs)"

definition repeated :: "string list \<Rightarrow> string list" where
  "repeated ids = sort (filter (\<lambda>i. 1 < occurrences i ids) (dedupe ids))"

lemma repeated_Nil_iff [simp]: "repeated ids = [] \<longleftrightarrow> distinct ids"
proof -
  have "(\<forall>i \<in> set ids. \<not> 1 < occurrences i ids) \<longleftrightarrow> distinct ids"
  proof (induction ids)
    case (Cons a ids)
    have "occurrences i (a # ids) = occurrences i ids" if "i \<noteq> a" for i using that by (simp add: occurrences_def)
    moreover have "1 < occurrences a (a # ids) \<longleftrightarrow> a \<in> set ids" by (auto simp: occurrences_def filter_empty_conv)
    ultimately show ?case using Cons by (metis distinct.simps(2) list.set_intros set_ConsD)
  qed simp
  moreover have "sort xs = [] \<longleftrightarrow> xs = []" for xs :: "string list" by (metis set_empty set_sort)
  ultimately show ?thesis by (simp add: repeated_def filter_empty_conv)
qed

text \<open>Reading texts one by one, refusing one that was seen before.\<close>

fun distinct_texts :: "(pyval \<Rightarrow> exc + string) \<Rightarrow> string list \<Rightarrow> pyval list \<Rightarrow> exc + string list" where
  "distinct_texts norm seen [] = Inr seen"
| "distinct_texts norm seen (v # vs) = rbind (norm v) (\<lambda>s.
     rbind (ensure (s \<notin> set seen) (ValueError ''duplicates'')) (\<lambda>_. distinct_texts norm (seen @ [s]) vs))"

text \<open>
  The registries keyed by the id of what they hold: every key must be the id of its entry. The entries
  come sorted by id.
\<close>

fun keyed_registry :: "('a \<Rightarrow> string) \<Rightarrow> (string \<times> 'a) list \<Rightarrow> (string \<times> 'a) list \<Rightarrow> exc + (string \<times> 'a) list" where
  "keyed_registry ident acc [] = Inr acc"
| "keyed_registry ident acc ((raw_key, x) # rest) =
     rbind (nonblank ''registry key'' (PStr raw_key)) (\<lambda>key.
     rbind (ensure (ident x = key) (ValueError ''registry key must match the id'')) (\<lambda>_.
     rbind (ensure (key \<notin> set (dict_keys acc)) (ValueError ''registry key is duplicated'')) (\<lambda>_.
     keyed_registry ident (acc @ [(key, x)]) rest)))"

definition registry_lookup :: "string \<Rightarrow> (string \<times> 'a) list \<Rightarrow> exc + 'a" where
  "registry_lookup key reg = rbind (nonblank ''registry lookup'' (PStr key)) (\<lambda>k.
     case map_of reg k of None \<Rightarrow> Inl (KeyError k) | Some x \<Rightarrow> Inr x)"

definition by_id :: "('a \<Rightarrow> string) \<Rightarrow> 'a list \<Rightarrow> (string \<times> 'a) list" where
  "by_id ident xs = map (\<lambda>x. (ident x, x)) (sort_key ident xs)"

section \<open>Lemmas on the readers\<close>

lemma text_value_Inr [simp]: "text_value f v = Inr s \<longleftrightarrow> v = PStr s"
  by (cases v) auto

lemma sequence_value_Inr [simp]: "sequence_value f v = Inr vs \<longleftrightarrow> v = PTuple vs"
  by (cases v) auto

lemma mapping_value_Inr [simp]: "mapping_value f v = Inr d \<longleftrightarrow> v = PDict d"
  by (cases v) auto

lemma nonblank_Inr: "nonblank f v = Inr t \<longleftrightarrow> (\<exists>s. v = PStr s \<and> t = strip s \<and> strip s \<noteq> [])"
  by (auto simp: nonblank_def rbind_Inr_iff require_text_Inr_iff)

lemma nonblank_clean: "nonblank f v = Inr t \<Longrightarrow> clean t"
  by (auto simp: nonblank_Inr clean_def)

lemma clean_nonblank: "clean s \<Longrightarrow> nonblank f (PStr s) = Inr s"
  by (auto simp: nonblank_Inr clean_def)

lemma keyed_registry_ok:
  assumes "distinct (map fst (acc @ map (\<lambda>x. (ident x, x)) xs))" "\<forall>x \<in> set xs. clean (ident x)"
  shows "keyed_registry ident acc (map (\<lambda>x. (ident x, x)) xs) = Inr (acc @ map (\<lambda>x. (ident x, x)) xs)"
  using assms
proof (induction xs arbitrary: acc)
  case (Cons x xs)
  moreover have "ident x \<notin> set (dict_keys acc)" using Cons.prems(1) by (auto simp: dict_keys_def)
  ultimately show ?case using Cons.IH [of "acc @ [(ident x, x)]"] by (simp add: clean_nonblank)
qed simp

lemma keyed_registry_built:
  assumes "\<forall>x \<in> set xs. clean (ident x)" "distinct (map ident xs)"
  shows "keyed_registry ident [] (by_id ident xs) = Inr (by_id ident xs)"
proof -
  have "distinct (map ident (sort_key ident xs))" using assms(2) by (simp add: distinct_map)
  then show ?thesis using keyed_registry_ok [of "[]" ident "sort_key ident xs"] assms(1) by (simp add: by_id_def comp_def)
qed

lemma by_id_values: "map snd (by_id ident xs) = sort_key ident xs"
  by (simp add: by_id_def comp_def)

lemma lookup_by_id:
  assumes "distinct (map ident xs)" "x \<in> set xs" "clean (ident x)"
  shows "registry_lookup (ident x) (by_id ident xs) = Inr x"
proof -
  have "map_of (by_id ident xs) (ident x) = Some x"
    using assms(1,2) by (intro map_of_is_SomeI) (auto simp: by_id_def distinct_map comp_def)
  then show ?thesis using assms(3) by (simp add: registry_lookup_def clean_nonblank)
qed

text \<open>Taking a successful chain of checks apart.\<close>

lemma rbind_InrE: "rbind r f = Inr y \<Longrightarrow> (\<And>x. r = Inr x \<Longrightarrow> f x = Inr y \<Longrightarrow> P) \<Longrightarrow> P"
  by (cases r) auto

lemma ensure_InrE: "ensure b e = Inr u \<Longrightarrow> (b \<Longrightarrow> P) \<Longrightarrow> P"
  by simp

lemma required_fieldE:
  "required_field d k c = Inr x \<Longrightarrow> (\<And>v. map_of d k = Some v \<Longrightarrow> c v = Inr x \<Longrightarrow> P) \<Longrightarrow> P"
  by (auto simp: required_field_def split: option.splits)

lemma optional_field_all:
  "optional_field d k other c = Inr x \<Longrightarrow> Q other \<Longrightarrow> (\<And>v. c v = Inr x \<Longrightarrow> Q x) \<Longrightarrow> Q x"
  by (auto simp: optional_field_def split: option.splits)

text \<open>From an evaluated test to the value.\<close>

lemma case_Inr_obtain:
  assumes "case r of Inl _ \<Rightarrow> False | Inr x \<Rightarrow> P x"
  obtains x where "r = Inr x" "P x"
  using assms by (cases r) simp_all

lemma bind_InrE: "bind m f s = (Inr y, t) \<Longrightarrow> (\<And>x u. m s = (Inr x, u) \<Longrightarrow> f x u = (Inr y, t) \<Longrightarrow> P) \<Longrightarrow> P"
  by (auto simp: bind_Inr_iff)

lemmas InrEs = rbind_InrE ensure_InrE

lemma rmap_Inr_ex: "rmap f xs = Inr ys \<Longrightarrow> y \<in> set ys \<Longrightarrow> \<exists>x \<in> set xs. f x = Inr y"
  by (induction xs arbitrary: ys) (auto simp: rbind_Inr_iff)

lemma rmap_Inr_all:
  assumes "rmap f xs = Inr ys" "\<And>x y. x \<in> set xs \<Longrightarrow> f x = Inr y \<Longrightarrow> P y"
  shows "\<forall>y \<in> set ys. P y"
  using rmap_Inr_ex [OF assms(1)] assms(2) by blast

lemma rmap_nonblank_clean: "rmap (nonblank f) vs = Inr ts \<Longrightarrow> \<forall>t \<in> set ts. clean t"
  by (erule rmap_Inr_all) (rule nonblank_clean)

lemma distinct_texts_ok:
  assumes "distinct_texts norm seen vs = Inr ss" "distinct seen" "\<forall>s \<in> set seen. P s"
    "\<And>v s. norm v = Inr s \<Longrightarrow> P s"
  shows "distinct ss \<and> (\<forall>s \<in> set ss. P s)"
  using assms by (induction norm seen vs rule: distinct_texts.induct) (auto simp: rbind_Inr_iff)

lemma rmap_length: "rmap f xs = Inr ys \<Longrightarrow> length ys = length xs"
  by (induction xs arbitrary: ys) (auto simp: rbind_Inr_iff)

lemma split_on_not_Nil [simp]: "split_on sep s \<noteq> []"
  by (induction s) (auto split: list.split)

lemma join_split: "join [sep] (split_on sep s) = s"
proof (induction s)
  case (Cons c s)
  then show ?case
    by (cases "split_on sep s" rule: list.exhaust; cases "tl (split_on sep s)") (auto split: list.splits)
qed simp

lemma split_on_join:
  "\<forall>p \<in> set ps. sep \<notin> set p \<Longrightarrow> ps \<noteq> [] \<Longrightarrow> split_on sep (join [sep] ps) = ps"
proof (induction ps)
  case (Cons x ps)
  have more: "split_on sep (x @ sep # r) = x # split_on sep r" and last: "split_on sep x = [x]" for r
    using Cons.prems(1) by (induction x) auto
  show ?case using Cons more last by (cases ps) auto
qed simp

text \<open>Writing new keys into a dictionary.\<close>

lemma update_fresh: "k \<notin> fst ` set xs \<Longrightarrow> AList.update k v xs = xs @ [(k, v)]"
  by (induction xs) auto

lemma dict_update_fresh:
  "distinct (map fst e) \<Longrightarrow> fst ` set d \<inter> fst ` set e = {} \<Longrightarrow> dict_update d e = d @ e"
proof (induction e arbitrary: d)
  case (Cons x e)
  have "dict_update d (x # e) = dict_update (AList.update (fst x) (snd x) d) e"
    by (simp add: dict_update_def split_beta)
  also have "\<dots> = dict_update (d @ [x]) e" using Cons.prems by (simp add: update_fresh)
  also have "\<dots> = d @ x # e" using Cons.prems by (subst Cons.IH) auto
  finally show ?case .
qed simp

section \<open>Lower case\<close>

lemma lower_char_cases:
  "lower_char c = c \<or> (of_char (lower_char c) = (of_char c + 32 :: nat) \<and>
     ((65 \<le> (of_char c :: nat) \<and> (of_char c :: nat) \<le> 90) \<or> (192 \<le> (of_char c :: nat) \<and> (of_char c :: nat) \<le> 222)))"
  by (auto simp: lower_char_def Let_def)

lemma lower_char_space [simp]: "is_space (lower_char c) = is_space c"
  using lower_char_cases [of c] by (auto simp: is_space_def Let_def)

lemma lower_char_idem [simp]: "lower_char (lower_char c) = lower_char c"
  using lower_char_cases [of c] by (elim disjE) (simp, simp add: lower_char_def [of "lower_char c"] Let_def, linarith?)

lemma lower_idem [simp]: "lower (lower s) = lower s"
  by (simp add: lower_def)

lemma clean_lower [simp]: "clean (lower s) = clean s"
  by (cases "s = []") (simp_all add: clean_iff lower_def hd_map last_map)

lemma lower_strip_Nil [simp]: "lower s = [] \<longleftrightarrow> s = []"
  by (simp add: lower_def)

lemma strip_lower_strip [simp]: "strip (lower (strip s)) = lower (strip s)"
proof (cases "strip s = []")
  case False
  then have "clean (strip s)" by (simp add: clean_def)
  then have "clean (lower (strip s))" by (simp only: clean_lower)
  then show ?thesis by (simp add: clean_def)
qed (simp add: lower_def)

end
