(* ===== verification/Assets_Schema.thy ===== *)
theory Assets_Schema
  imports Documents
begin

text \<open>
  The metadata schema of shared assets (assets/schema.py): the validators of every field, the kinds
  with their own fields (routine, team, pipeline, workflow), the reference checks of teams and
  pipelines, and the check for duplicate ids. What pydantic does on its own is the argument
  \<open>declared\<close>: whether the fields without a validator have their declared types, and whether no
  field is unknown. Pydantic collects the errors of all fields; here the first one counts.
\<close>

section \<open>Records\<close>

record routine_fields =
  rt_milestones :: "payload list"
  rt_emits_events :: pyval
  rt_documentation_refs :: "string list"

record route_fields =
  rf_from_agent :: string
  rf_output_name :: string
  rf_to_agent :: string
  rf_artifact_kind :: string

record team_fields =
  tf_input_artifact_kind :: string
  tf_output_artifact_kind :: string
  tf_dispatcher :: string
  tf_specialists :: "string list"
  tf_handoff_routes :: "route_fields list"
  tf_fallback_agent :: "string option"

record review_fields =
  vf_input_artifact_kind :: string
  vf_passed_output_artifact_kind :: string
  vf_failed_output_artifact_kind :: string

record node_fields =
  nf_id :: string
  nf_kind :: string
  nf_ref_id :: string
  nf_input_artifact_kind :: string
  nf_output_artifact_kind :: string
  nf_phase :: string
  nf_milestone :: string
  nf_review_checkpoint :: "review_fields option"

record edge_fields =
  ef_from_node :: string
  ef_outcome :: string
  ef_to_node :: "string option"

record pipeline_fields =
  pf_stages :: pyval
  pf_timeout_seconds :: pyval
  pf_start_node :: string
  pf_nodes :: "node_fields list"
  pf_routes :: "edge_fields list"

record handoff_fields =
  hf_artifact_kind :: string
  hf_label :: string
  hf_output_name :: string

record workflow_fields =
  wk_dispatcher :: string
  wk_team_ref :: string
  wk_pipeline_ref :: string
  wk_handoff_artifact :: handoff_fields
  wk_expected_outputs :: "string list"

text \<open>The kinds whose own fields have no validator keep them as they were given.\<close>

datatype asset_details =
    RoutineDetails routine_fields
  | TeamDetails team_fields
  | PipelineDetails pipeline_fields
  | WorkflowDetails workflow_fields
  | PlainDetails payload

record asset =
  as_id :: string
  as_kind :: string
  as_version :: string
  as_description :: string
  as_tags :: "string list"
  as_required_providers :: "string list"
  as_profile_filter :: "payload list"
  as_details :: asset_details

section \<open>The common fields\<close>

definition known_asset_kinds :: "string list" where
  "known_asset_kinds = [''routine'', ''widget'', ''command'', ''prompt'', ''tool'', ''skill'', ''agent'', ''team'',
     ''pipeline'', ''workflow'', ''policy'', ''theme'', ''context_provider'', ''profile_overlay'']"

definition normalize_id :: "pyval \<Rightarrow> exc + string" where
  "normalize_id v = rbind (text_value ''id'' v) (\<lambda>s. require_non_empty_text ''id'' (lower (strip s)))"

definition normalize_kind :: "pyval \<Rightarrow> exc + string" where
  "normalize_kind v = rbind (text_value ''kind'' v) (\<lambda>s. let normalized = lower (strip s) in
     rbind (ensure (normalized \<in> set known_asset_kinds) (ValueError ''kind must be one of the known kinds'')) (\<lambda>_.
     Inr normalized))"

definition coerce_version :: "pyval \<Rightarrow> exc + string" where
  "coerce_version v = rbind (text_value ''version'' v) (\<lambda>s.
     rbind (require_non_empty_text ''version'' s) (\<lambda>normalized.
     let parts = split_on (CHR ''.'') normalized in
     Inr (if (\<forall>p \<in> set parts. is_digits p) \<and> length parts \<le> 3
          then join ''.'' (parts @ replicate (3 - length parts) ''0'') else normalized)))"

text \<open>A single text stands for a list of one.\<close>

definition one_or_many :: "pyval \<Rightarrow> pyval" where
  "one_or_many v = (case v of PStr s \<Rightarrow> PTuple [PStr s] | _ \<Rightarrow> v)"

definition normalize_tags :: "pyval \<Rightarrow> exc + string list" where
  "normalize_tags v = rbind (sequence_value ''tags'' (one_or_many v)) (\<lambda>vs.
     rbind (rmap (text_value ''tags'') vs) (\<lambda>ss. Inr (dedupe (filter (\<lambda>s. s \<noteq> []) (map strip ss)))))"

definition normalize_required_providers :: "pyval \<Rightarrow> exc + string list" where
  "normalize_required_providers v = rbind (sequence_value ''required_providers'' (one_or_many v)) (\<lambda>vs.
     rbind (rmap (text_value ''required_providers'') vs) (\<lambda>ss.
     Inr (dedupe (filter (\<lambda>s. s \<noteq> []) (map (\<lambda>s. lower (strip s)) ss)))))"

definition normalize_profile_filter :: "pyval \<Rightarrow> exc + payload list" where
  "normalize_profile_filter v = (case v of PNone \<Rightarrow> Inr []
     | _ \<Rightarrow> rbind (sequence_value ''profile_filter'' v) (rmap (mapping_value ''profile_filter'')))"

definition valid_ops :: "string list" where
  "valid_ops = [''include'', ''exclude'']"

definition validate_profile_filter_ops :: "payload list \<Rightarrow> exc + unit" where
  "validate_profile_filter_ops entries = reach (\<lambda>entry. case map_of entry ''op'' of
       None \<Rightarrow> Inl (ValueError ''profile_filter missing required op field'')
     | Some op \<Rightarrow> ensure (op \<in> PStr ` set valid_ops) (ValueError ''profile_filter op must be one of exclude, include''))
     entries"

text \<open>The \<open>Field\<close> declarations of the common fields.\<close>

definition id_chars :: "string \<Rightarrow> bool" where
  "id_chars s \<longleftrightarrow> (\<forall>c \<in> set s. lower_letter c \<or> decimal c \<or> c = CHR ''_'' \<or> c = CHR ''-'')"

definition id_pattern :: "string \<Rightarrow> bool" where
  "id_pattern s \<longleftrightarrow> s \<noteq> [] \<and> lower_letter (hd s) \<and> id_chars s"

definition length_between :: "nat \<Rightarrow> nat \<Rightarrow> string \<Rightarrow> bool" where
  "length_between lo hi s \<longleftrightarrow> lo \<le> length s \<and> length s \<le> hi"

definition declared_field :: "bool \<Rightarrow> exc + unit" where
  "declared_field b = ensure b (ValueError ''field does not match its declaration'')"

section \<open>Routines\<close>

definition normalize_milestones :: "pyval \<Rightarrow> exc + payload list" where
  "normalize_milestones v = (case v of PNone \<Rightarrow> Inr []
     | _ \<Rightarrow> rbind (sequence_value ''milestones'' v) (rmap (mapping_value ''milestones'')))"

definition normalize_documentation_refs :: "pyval \<Rightarrow> exc + string list" where
  "normalize_documentation_refs v = (case v of PNone \<Rightarrow> Inr []
     | _ \<Rightarrow> rbind (sequence_value ''documentation_refs'' (one_or_many v)) (\<lambda>vs.
         rbind (rmap (nonblank ''documentation_refs'') vs) (\<lambda>refs. Inr (dedupe refs))))"

definition routine_of :: "payload \<Rightarrow> exc + routine_fields" where
  "routine_of d =
     rbind (optional_field d ''milestones'' [] normalize_milestones) (\<lambda>ms.
     rbind (optional_field d ''documentation_refs'' [] normalize_documentation_refs) (\<lambda>refs.
     Inr \<lparr>rt_milestones = ms, rt_emits_events = dict_get d ''emits_events'', rt_documentation_refs = refs\<rparr>))"

section \<open>Teams\<close>

definition normalize_specialists :: "pyval \<Rightarrow> exc + string list" where
  "normalize_specialists v = rbind (sequence_value ''specialists'' v) (\<lambda>vs.
     rbind (rmap (nonblank ''specialists'') vs) (\<lambda>result.
     rbind (ensure (result \<noteq> []) (ValueError ''specialists must not be empty'')) (\<lambda>_.
     rbind (ensure (distinct result) (ValueError ''specialists must not contain duplicates'')) (\<lambda>_.
     Inr result))))"

definition route_keys :: "string list" where
  "route_keys = [''from_agent'', ''output_name'', ''to_agent'', ''artifact_kind'']"

definition route_of :: "pyval \<Rightarrow> exc + route_fields" where
  "route_of v = rbind (mapping_value ''handoff_routes'' v) (\<lambda>d.
     rbind (require_keys ''handoff_routes'' route_keys d) (\<lambda>_.
     rbind (nonblank ''from_agent'' (dict_get d ''from_agent'')) (\<lambda>from_agent.
     rbind (nonblank ''output_name'' (dict_get d ''output_name'')) (\<lambda>output_name.
     rbind (nonblank ''to_agent'' (dict_get d ''to_agent'')) (\<lambda>to_agent.
     rbind (nonblank ''artifact_kind'' (dict_get d ''artifact_kind'')) (\<lambda>artifact_kind.
     Inr \<lparr>rf_from_agent = from_agent, rf_output_name = output_name, rf_to_agent = to_agent,
          rf_artifact_kind = artifact_kind\<rparr>))))))"

definition normalize_handoff_routes :: "pyval \<Rightarrow> exc + route_fields list" where
  "normalize_handoff_routes v = (case v of PNone \<Rightarrow> Inr []
     | _ \<Rightarrow> rbind (sequence_value ''handoff_routes'' v) (rmap route_of))"

definition normalize_fallback_agent :: "pyval \<Rightarrow> exc + string option" where
  "normalize_fallback_agent v = (case v of PNone \<Rightarrow> Inr None
     | _ \<Rightarrow> rbind (nonblank ''fallback_agent'' v) (\<lambda>s. Inr (Some s)))"

definition validate_team_references :: "team_fields \<Rightarrow> exc + unit" where
  "validate_team_references t =
     rbind (ensure (tf_dispatcher t \<notin> set (tf_specialists t)) (ValueError ''dispatcher must not also be a specialist'')) (\<lambda>_.
     let member_ids = insert (tf_dispatcher t) (set (tf_specialists t)) in
     rbind (reach (\<lambda>r.
       rbind (ensure (rf_from_agent r \<in> member_ids) (ValueError ''from_agent references unknown member'')) (\<lambda>_.
       ensure (rf_to_agent r \<in> member_ids) (ValueError ''to_agent references unknown member''))) (tf_handoff_routes t)) (\<lambda>_.
     ensure (case tf_fallback_agent t of None \<Rightarrow> True | Some a \<Rightarrow> a \<in> set (tf_specialists t))
       (ValueError ''fallback_agent must reference a specialist'')))"

definition team_of :: "payload \<Rightarrow> exc + team_fields" where
  "team_of d =
     rbind (required_field d ''input_artifact_kind'' (nonblank ''input_artifact_kind'')) (\<lambda>ik.
     rbind (required_field d ''output_artifact_kind'' (nonblank ''output_artifact_kind'')) (\<lambda>ok.
     rbind (required_field d ''dispatcher'' (nonblank ''dispatcher'')) (\<lambda>dispatcher.
     rbind (required_field d ''specialists'' normalize_specialists) (\<lambda>specialists.
     rbind (optional_field d ''handoff_routes'' [] normalize_handoff_routes) (\<lambda>routes.
     rbind (optional_field d ''fallback_agent'' None normalize_fallback_agent) (\<lambda>fallback.
     let t = \<lparr>tf_input_artifact_kind = ik, tf_output_artifact_kind = ok, tf_dispatcher = dispatcher,
              tf_specialists = specialists, tf_handoff_routes = routes, tf_fallback_agent = fallback\<rparr> in
     rbind (validate_team_references t) (\<lambda>_. Inr t)))))))"

section \<open>Pipelines\<close>

definition normalize_start_node :: "pyval \<Rightarrow> exc + string" where
  "normalize_start_node v = (case v of PNone \<Rightarrow> Inr []
     | _ \<Rightarrow> rbind (text_value ''start_node'' v) (\<lambda>s. Inr (strip s)))"

definition review_keys :: "string list" where
  "review_keys = [''input_artifact_kind'', ''passed_output_artifact_kind'', ''failed_output_artifact_kind'']"

definition normalize_review_checkpoint :: "payload \<Rightarrow> exc + review_fields" where
  "normalize_review_checkpoint d =
     rbind (require_keys ''review_checkpoint'' review_keys d) (\<lambda>_.
     rbind (nonblank ''input_artifact_kind'' (dict_get d ''input_artifact_kind'')) (\<lambda>i.
     rbind (nonblank ''passed_output_artifact_kind'' (dict_get d ''passed_output_artifact_kind'')) (\<lambda>p.
     rbind (nonblank ''failed_output_artifact_kind'' (dict_get d ''failed_output_artifact_kind'')) (\<lambda>f.
     Inr \<lparr>vf_input_artifact_kind = i, vf_passed_output_artifact_kind = p, vf_failed_output_artifact_kind = f\<rparr>))))"

definition node_keys :: "string list" where
  "node_keys = [''id'', ''kind'', ''ref_id'', ''input_artifact_kind'', ''output_artifact_kind'', ''phase'', ''milestone'']"

definition review_of :: "string \<Rightarrow> pyval \<Rightarrow> exc + review_fields option" where
  "review_of kind v =
     (if kind = ''review_checkpoint'' then
        rbind (mapping_value ''review_checkpoint'' v) (\<lambda>d.
        rbind (normalize_review_checkpoint d) (\<lambda>r. Inr (Some r)))
      else if v \<noteq> PNone then Inl (ValueError ''review_checkpoint is only valid for review_checkpoint nodes'')
      else Inr None)"

definition node_of :: "pyval \<Rightarrow> exc + node_fields" where
  "node_of v = rbind (mapping_value ''nodes'' v) (\<lambda>d.
     rbind (require_keys ''nodes'' node_keys d) (\<lambda>_.
     rbind (nonblank ''id'' (dict_get d ''id'')) (\<lambda>i.
     rbind (nonblank ''kind'' (dict_get d ''kind'')) (\<lambda>kind.
     rbind (nonblank ''ref_id'' (dict_get d ''ref_id'')) (\<lambda>ref_id.
     rbind (nonblank ''input_artifact_kind'' (dict_get d ''input_artifact_kind'')) (\<lambda>ik.
     rbind (nonblank ''output_artifact_kind'' (dict_get d ''output_artifact_kind'')) (\<lambda>ok.
     rbind (nonblank ''phase'' (dict_get d ''phase'')) (\<lambda>ph.
     rbind (nonblank ''milestone'' (dict_get d ''milestone'')) (\<lambda>ms.
     rbind (ensure (kind \<in> {''sub_agent'', ''team'', ''review_checkpoint''})
              (ValueError ''kind must be one of sub_agent, team, review_checkpoint'')) (\<lambda>_.
     rbind (review_of kind (dict_get d ''review_checkpoint'')) (\<lambda>review.
     Inr \<lparr>nf_id = i, nf_kind = kind, nf_ref_id = ref_id, nf_input_artifact_kind = ik,
          nf_output_artifact_kind = ok, nf_phase = ph, nf_milestone = ms,
          nf_review_checkpoint = review\<rparr>)))))))))))"

definition normalize_nodes :: "pyval \<Rightarrow> exc + node_fields list" where
  "normalize_nodes v = (case v of PNone \<Rightarrow> Inr [] | _ \<Rightarrow> rbind (sequence_value ''nodes'' v) (rmap node_of))"

definition target_of :: "pyval \<Rightarrow> exc + string option" where
  "target_of v = (case v of PNone \<Rightarrow> Inr None
     | PStr s \<Rightarrow> (if strip s = [] then Inl (TypeError ''to_node must be a string or null'') else Inr (Some (strip s)))
     | _ \<Rightarrow> Inl (TypeError ''to_node must be a string or null''))"

definition edge_of :: "pyval \<Rightarrow> exc + edge_fields" where
  "edge_of v = rbind (mapping_value ''routes'' v) (\<lambda>d.
     rbind (require_keys ''routes'' [''from_node'', ''outcome'', ''to_node''] d) (\<lambda>_.
     rbind (nonblank ''from_node'' (dict_get d ''from_node'')) (\<lambda>from_node.
     rbind (nonblank ''outcome'' (dict_get d ''outcome'')) (\<lambda>outcome.
     rbind (ensure (outcome \<in> {''success'', ''failure''}) (ValueError ''outcome must be one of success, failure'')) (\<lambda>_.
     rbind (target_of (dict_get d ''to_node'')) (\<lambda>to_node.
     Inr \<lparr>ef_from_node = from_node, ef_outcome = outcome, ef_to_node = to_node\<rparr>))))))"

definition normalize_routes :: "pyval \<Rightarrow> exc + edge_fields list" where
  "normalize_routes v = (case v of PNone \<Rightarrow> Inr [] | _ \<Rightarrow> rbind (sequence_value ''routes'' v) (rmap edge_of))"

text \<open>The loop over the routes, with the outcomes seen so far.\<close>

fun check_edges :: "string list \<Rightarrow> (string \<times> string) list \<Rightarrow> edge_fields list \<Rightarrow> exc + unit" where
  "check_edges ids seen [] = Inr ()"
| "check_edges ids seen (r # rs) =
     rbind (ensure (ef_from_node r \<in> set ids) (ValueError ''from_node references unknown node'')) (\<lambda>_.
     rbind (ensure (case ef_to_node r of None \<Rightarrow> True | Some n \<Rightarrow> n \<in> set ids)
       (ValueError ''to_node references unknown node'')) (\<lambda>_.
     rbind (ensure ((ef_from_node r, ef_outcome r) \<notin> set seen)
       (ValueError ''routes must not contain duplicate node outcomes'')) (\<lambda>_.
     check_edges ids ((ef_from_node r, ef_outcome r) # seen) rs)))"

definition validate_pipeline_references :: "pipeline_fields \<Rightarrow> exc + unit" where
  "validate_pipeline_references p =
     (if pf_nodes p = [] then Inr ()
      else let ids = map nf_id (pf_nodes p) in
        rbind (ensure (pf_start_node p \<noteq> []) (ValueError ''start_node is required when nodes are declared'')) (\<lambda>_.
        rbind (ensure (distinct ids) (ValueError ''nodes must not contain duplicate ids'')) (\<lambda>_.
        rbind (ensure (pf_start_node p \<in> set ids) (ValueError ''start_node references unknown node'')) (\<lambda>_.
        check_edges ids [] (pf_routes p)))))"

definition pipeline_of :: "payload \<Rightarrow> exc + pipeline_fields" where
  "pipeline_of d =
     rbind (optional_field d ''start_node'' [] normalize_start_node) (\<lambda>start.
     rbind (optional_field d ''nodes'' [] normalize_nodes) (\<lambda>nodes.
     rbind (optional_field d ''routes'' [] normalize_routes) (\<lambda>routes.
     let p = \<lparr>pf_stages = dict_get d ''stages'', pf_timeout_seconds = dict_get d ''timeout_seconds'',
              pf_start_node = start, pf_nodes = nodes, pf_routes = routes\<rparr> in
     rbind (validate_pipeline_references p) (\<lambda>_. Inr p))))"

section \<open>Workflows\<close>

definition handoff_of :: "pyval \<Rightarrow> exc + handoff_fields" where
  "handoff_of v = rbind (mapping_value ''handoff_artifact'' v) (\<lambda>d.
     rbind (declared_field (set (dict_keys d) \<subseteq> {''artifact_kind'', ''label'', ''output_name''})) (\<lambda>_.
     rbind (required_field d ''artifact_kind'' (nonblank ''artifact_kind'')) (\<lambda>kind.
     rbind (required_field d ''label'' (nonblank ''label'')) (\<lambda>label.
     rbind (required_field d ''output_name'' (nonblank ''output_name'')) (\<lambda>output_name.
     Inr \<lparr>hf_artifact_kind = kind, hf_label = label, hf_output_name = output_name\<rparr>)))))"

definition normalize_expected_outputs :: "pyval \<Rightarrow> exc + string list" where
  "normalize_expected_outputs v = (case v of PNone \<Rightarrow> Inr []
     | _ \<Rightarrow> rbind (sequence_value ''expected_outputs'' v) (distinct_texts (nonblank ''expected_outputs'') []))"

definition workflow_of :: "payload \<Rightarrow> exc + workflow_fields" where
  "workflow_of d =
     rbind (optional_field d ''workflow_type'' () (\<lambda>v. declared_field (v = PStr ''dispatcher''))) (\<lambda>_.
     rbind (required_field d ''dispatcher'' (nonblank ''dispatcher'')) (\<lambda>dispatcher.
     rbind (required_field d ''team_ref'' (nonblank ''team_ref'')) (\<lambda>team_ref.
     rbind (required_field d ''pipeline_ref'' (nonblank ''pipeline_ref'')) (\<lambda>pipeline_ref.
     rbind (required_field d ''handoff_artifact'' handoff_of) (\<lambda>handoff.
     rbind (optional_field d ''expected_outputs'' [] normalize_expected_outputs) (\<lambda>outputs.
     Inr \<lparr>wk_dispatcher = dispatcher, wk_team_ref = team_ref, wk_pipeline_ref = pipeline_ref,
          wk_handoff_artifact = handoff, wk_expected_outputs = outputs\<rparr>))))))"

section \<open>An asset from its document\<close>

text \<open>The model of the document's kind; a document without a known kind is refused by the base model.\<close>

definition asset_model_for_kind :: "pyval \<Rightarrow> string option" where
  "asset_model_for_kind v = (case v of PStr s \<Rightarrow>
     (if lower (strip s) \<in> set known_asset_kinds then Some (lower (strip s)) else None) | _ \<Rightarrow> None)"

definition details_of :: "string option \<Rightarrow> payload \<Rightarrow> exc + asset_details" where
  "details_of model d =
     (if model = Some ''routine'' then rbind (routine_of d) (\<lambda>r. Inr (RoutineDetails r))
      else if model = Some ''team'' then rbind (team_of d) (\<lambda>t. Inr (TeamDetails t))
      else if model = Some ''pipeline'' then rbind (pipeline_of d) (\<lambda>p. Inr (PipelineDetails p))
      else if model = Some ''workflow'' then rbind (workflow_of d) (\<lambda>w. Inr (WorkflowDetails w))
      else Inr (PlainDetails d))"

definition build_asset :: "(payload \<Rightarrow> bool) \<Rightarrow> payload \<Rightarrow> exc + asset" where
  "build_asset declared d =
     rbind (required_field d ''id'' normalize_id) (\<lambda>i.
     rbind (declared_field (id_pattern i \<and> length_between 1 128 i)) (\<lambda>_.
     rbind (required_field d ''kind'' normalize_kind) (\<lambda>kind.
     rbind (required_field d ''version'' coerce_version) (\<lambda>version.
     rbind (declared_field (length_between 5 64 version)) (\<lambda>_.
     rbind (required_field d ''description'' (text_value ''description'')) (\<lambda>description.
     rbind (declared_field (length_between 1 4096 description)) (\<lambda>_.
     rbind (optional_field d ''tags'' [] normalize_tags) (\<lambda>tags.
     rbind (optional_field d ''required_providers'' [] normalize_required_providers) (\<lambda>providers.
     rbind (optional_field d ''profile_filter'' [] normalize_profile_filter) (\<lambda>filters.
     rbind (declared_field (declared d)) (\<lambda>_.
     rbind (validate_profile_filter_ops filters) (\<lambda>_.
     rbind (details_of (asset_model_for_kind (dict_get d ''kind'')) d) (\<lambda>details.
     Inr \<lparr>as_id = i, as_kind = kind, as_version = version, as_description = description, as_tags = tags,
          as_required_providers = providers, as_profile_filter = filters, as_details = details\<rparr>)))))))))))))"

definition asset_from_dict :: "(payload \<Rightarrow> bool) \<Rightarrow> payload \<Rightarrow> exc + asset" where
  "asset_from_dict declared d = (case build_asset declared d of
     Inl e \<Rightarrow> Inl (AssetValidationError ''Asset validation failed'') | Inr a \<Rightarrow> Inr a)"

section \<open>Across assets\<close>

text \<open>One message for each id that several assets declare, in order of the ids.\<close>

definition validate_unique_ids :: "asset list \<Rightarrow> string list" where
  "validate_unique_ids assets = (let ids = map as_id assets in
     map (\<lambda>i. ''asset id '' @ i @ '' is declared in '' @ show_nat (occurrences i ids) @ '' assets'') (repeated ids))"

section \<open>What an accepted asset looks like\<close>

definition known_text :: "string \<Rightarrow> bool" where
  "known_text s \<longleftrightarrow> clean s \<and> lower s = s"

definition wf_route :: "string set \<Rightarrow> route_fields \<Rightarrow> bool" where
  "wf_route members r \<longleftrightarrow> clean (rf_output_name r) \<and> clean (rf_artifact_kind r) \<and>
     rf_from_agent r \<in> members \<and> rf_to_agent r \<in> members"

definition wf_team_fields :: "team_fields \<Rightarrow> bool" where
  "wf_team_fields t \<longleftrightarrow> clean (tf_input_artifact_kind t) \<and> clean (tf_output_artifact_kind t) \<and>
     clean (tf_dispatcher t) \<and> tf_specialists t \<noteq> [] \<and> distinct (tf_dispatcher t # tf_specialists t) \<and>
     (\<forall>s \<in> set (tf_specialists t). clean s) \<and>
     (\<forall>r \<in> set (tf_handoff_routes t). wf_route (insert (tf_dispatcher t) (set (tf_specialists t))) r) \<and>
     (\<forall>a. tf_fallback_agent t = Some a \<longrightarrow> a \<in> set (tf_specialists t))"

definition wf_node_fields :: "node_fields \<Rightarrow> bool" where
  "wf_node_fields n \<longleftrightarrow> clean (nf_id n) \<and> clean (nf_ref_id n) \<and> nf_kind n \<in> {''sub_agent'', ''team'', ''review_checkpoint''} \<and>
     (nf_review_checkpoint n \<noteq> None \<longleftrightarrow> nf_kind n = ''review_checkpoint'')"

definition wf_pipeline_fields :: "pipeline_fields \<Rightarrow> bool" where
  "wf_pipeline_fields p \<longleftrightarrow> (\<forall>n \<in> set (pf_nodes p). wf_node_fields n) \<and>
     (\<forall>r \<in> set (pf_routes p). ef_outcome r \<in> {''success'', ''failure''}) \<and>
     (pf_nodes p \<noteq> [] \<longrightarrow> (let ids = map nf_id (pf_nodes p) in
        distinct ids \<and> pf_start_node p \<in> set ids \<and>
        distinct (map (\<lambda>r. (ef_from_node r, ef_outcome r)) (pf_routes p)) \<and>
        (\<forall>r \<in> set (pf_routes p). ef_from_node r \<in> set ids \<and> (\<forall>n. ef_to_node r = Some n \<longrightarrow> n \<in> set ids))))"

definition wf_workflow_fields :: "workflow_fields \<Rightarrow> bool" where
  "wf_workflow_fields w \<longleftrightarrow> clean (wk_dispatcher w) \<and> clean (wk_team_ref w) \<and> clean (wk_pipeline_ref w) \<and>
     clean (hf_artifact_kind (wk_handoff_artifact w)) \<and> clean (hf_label (wk_handoff_artifact w)) \<and>
     clean (hf_output_name (wk_handoff_artifact w)) \<and> distinct (wk_expected_outputs w) \<and>
     (\<forall>s \<in> set (wk_expected_outputs w). clean s)"

fun wf_details :: "string \<Rightarrow> asset_details \<Rightarrow> bool" where
  "wf_details kind (RoutineDetails r) \<longleftrightarrow> kind = ''routine'' \<and> distinct (rt_documentation_refs r) \<and>
     (\<forall>s \<in> set (rt_documentation_refs r). clean s)"
| "wf_details kind (TeamDetails t) \<longleftrightarrow> kind = ''team'' \<and> wf_team_fields t"
| "wf_details kind (PipelineDetails p) \<longleftrightarrow> kind = ''pipeline'' \<and> wf_pipeline_fields p"
| "wf_details kind (WorkflowDetails w) \<longleftrightarrow> kind = ''workflow'' \<and> wf_workflow_fields w"
| "wf_details kind (PlainDetails d) \<longleftrightarrow> kind \<notin> {''routine'', ''team'', ''pipeline'', ''workflow''}"

definition wf_asset :: "asset \<Rightarrow> bool" where
  "wf_asset a \<longleftrightarrow> id_pattern (as_id a) \<and> length (as_id a) \<le> 128 \<and> as_kind a \<in> set known_asset_kinds \<and>
     length_between 5 64 (as_version a) \<and> length_between 1 4096 (as_description a) \<and>
     distinct (as_tags a) \<and> (\<forall>t \<in> set (as_tags a). clean t) \<and>
     distinct (as_required_providers a) \<and> (\<forall>p \<in> set (as_required_providers a). known_text p) \<and>
     (\<forall>f \<in> set (as_profile_filter a). map_of f ''op'' \<in> Some ` PStr ` set valid_ops) \<and>
     wf_details (as_kind a) (as_details a)"

text \<open>What each validator returns.\<close>

lemma require_text_clean_iff: "require_non_empty_text f s = Inr t \<Longrightarrow> clean t \<and> t = strip s"
  by (auto simp: require_text_Inr_iff clean_def)

lemma normalize_tags_ok: "normalize_tags v = Inr ts \<Longrightarrow> distinct ts \<and> (\<forall>t \<in> set ts. clean t)"
  by (auto simp: normalize_tags_def rbind_Inr_iff clean_def)

lemma normalize_required_providers_ok:
  "normalize_required_providers v = Inr ps \<Longrightarrow> distinct ps \<and> (\<forall>p \<in> set ps. known_text p)"
  by (auto simp: normalize_required_providers_def rbind_Inr_iff known_text_def) (simp add: clean_def)

lemma normalize_kind_ok: "normalize_kind v = Inr k \<Longrightarrow> k \<in> set known_asset_kinds \<and> asset_model_for_kind v = Some k"
  by (auto simp: normalize_kind_def rbind_Inr_iff asset_model_for_kind_def Let_def)

lemma filter_ops_ok:
  "validate_profile_filter_ops fs = Inr u \<Longrightarrow> \<forall>f \<in> set fs. map_of f ''op'' \<in> Some ` PStr ` set valid_ops"
  unfolding validate_profile_filter_ops_def
  by (induction fs) (auto simp: rbind_Inr_iff split: option.splits)

lemma reach_Inr [simp]: "reach f xs = Inr u \<longleftrightarrow> (\<forall>x \<in> set xs. f x = Inr ())"
  by (induction xs) (auto simp: rbind_Inr_iff)

lemma documentation_refs_ok:
  assumes "normalize_documentation_refs v = Inr refs"
  shows "distinct refs \<and> (\<forall>s \<in> set refs. clean s)"
proof (cases "v = PNone")
  case False
  with assms obtain vs rs where "rmap (nonblank ''documentation_refs'') vs = Inr rs" "refs = dedupe rs"
    by (cases v) (auto simp: normalize_documentation_refs_def elim!: rbind_InrE)
  with rmap_nonblank_clean [OF this(1)] show ?thesis by simp
qed (use assms in \<open>simp add: normalize_documentation_refs_def\<close>)

lemma routine_ok: "routine_of d = Inr r \<Longrightarrow> wf_details ''routine'' (RoutineDetails r)"
  unfolding routine_of_def
proof (elim rbind_InrE, goal_cases)
  case (1 ms refs)
  have "distinct refs \<and> (\<forall>s \<in> set refs. clean s)"
    by (rule optional_field_all [OF \<open>optional_field d ''documentation_refs'' _ _ = Inr refs\<close>]) (simp, rule documentation_refs_ok)
  with 1 show ?case by auto
qed

lemma specialists_ok:
  assumes "normalize_specialists v = Inr ss"
  shows "ss \<noteq> [] \<and> distinct ss \<and> (\<forall>s \<in> set ss. clean s)"
  using assms unfolding normalize_specialists_def
proof (elim InrEs, goal_cases)
  case (1 vs rs)
  then have "rs = ss" "rs \<noteq> []" "distinct rs" "rmap (nonblank ''specialists'') vs = Inr rs" by simp_all
  then show ?case using rmap_nonblank_clean by blast
qed

lemma route_ok: "route_of v = Inr r \<Longrightarrow> clean (rf_output_name r) \<and> clean (rf_artifact_kind r)"
  unfolding route_of_def by (elim rbind_InrE) (auto dest: nonblank_clean)

lemma handoff_routes_ok:
  assumes "normalize_handoff_routes v = Inr rs"
  shows "\<forall>r \<in> set rs. clean (rf_output_name r) \<and> clean (rf_artifact_kind r)"
  using assms rmap_Inr_all [of route_of _ rs "\<lambda>r. clean (rf_output_name r) \<and> clean (rf_artifact_kind r)", OF _ route_ok]
  by (cases v) (auto simp: normalize_handoff_routes_def)

lemma team_ok: "team_of d = Inr t \<Longrightarrow> wf_team_fields t"
  unfolding team_of_def Let_def
proof (elim rbind_InrE required_fieldE, goal_cases)
  case (1 ik ok dispatcher specialists routes fallback u v1 v2 v3 v4)
  have t: "t = \<lparr>tf_input_artifact_kind = ik, tf_output_artifact_kind = ok, tf_dispatcher = dispatcher,
      tf_specialists = specialists, tf_handoff_routes = routes, tf_fallback_agent = fallback\<rparr>" using 1 by simp
  have "clean ik" "clean ok" "clean dispatcher" using 1 nonblank_clean by blast+
  moreover have "specialists \<noteq> [] \<and> distinct specialists \<and> (\<forall>s \<in> set specialists. clean s)"
    using 1 specialists_ok by blast
  moreover have "\<forall>r \<in> set routes. clean (rf_output_name r) \<and> clean (rf_artifact_kind r)"
    by (rule optional_field_all [OF \<open>optional_field d ''handoff_routes'' _ _ = Inr routes\<close>]) (simp, rule handoff_routes_ok)
  moreover have "validate_team_references t = Inr ()" using 1 by simp
  then have "dispatcher \<notin> set specialists"
    "\<forall>r \<in> set routes. rf_from_agent r \<in> insert dispatcher (set specialists) \<and>
       rf_to_agent r \<in> insert dispatcher (set specialists)"
    "\<forall>a. fallback = Some a \<longrightarrow> a \<in> set specialists"
    unfolding t validate_team_references_def Let_def team_fields.simps
    by (elim rbind_InrE ensure_InrE; simp add: rbind_Inr_iff split: option.splits)+
  ultimately show ?case by (simp add: t wf_team_fields_def wf_route_def)
qed

lemma node_ok: "node_of v = Inr n \<Longrightarrow> wf_node_fields n"
  unfolding node_of_def
proof (elim InrEs, goal_cases)
  case (1 d u i kind ref_id ik ok ph ms u' review)
  have "clean i" "clean ref_id" using 1 nonblank_clean by blast+
  moreover have "review \<noteq> None \<longleftrightarrow> kind = ''review_checkpoint''"
    using \<open>review_of kind _ = Inr review\<close> by (auto simp: review_of_def elim!: rbind_InrE split: if_splits)
  moreover have "n = \<lparr>nf_id = i, nf_kind = kind, nf_ref_id = ref_id, nf_input_artifact_kind = ik,
      nf_output_artifact_kind = ok, nf_phase = ph, nf_milestone = ms, nf_review_checkpoint = review\<rparr>" using 1 by simp
  moreover have "kind \<in> {''sub_agent'', ''team'', ''review_checkpoint''}" using 1 by blast
  ultimately show ?case by (simp add: wf_node_fields_def)
qed

lemma edge_ok: "edge_of v = Inr e \<Longrightarrow> ef_outcome e \<in> {''success'', ''failure''}"
  unfolding edge_of_def by (elim InrEs) auto

lemma check_edges_ok:
  assumes "check_edges ids seen rs = Inr u"
  shows "distinct (map (\<lambda>r. (ef_from_node r, ef_outcome r)) rs) \<and>
    set (map (\<lambda>r. (ef_from_node r, ef_outcome r)) rs) \<inter> set seen = {} \<and>
    (\<forall>r \<in> set rs. ef_from_node r \<in> set ids \<and> (\<forall>n. ef_to_node r = Some n \<longrightarrow> n \<in> set ids))"
  using assms by (induction ids seen rs rule: check_edges.induct) (auto simp: rbind_Inr_iff split: option.splits)

lemma pipeline_ok:
  assumes "pipeline_of d = Inr p"
  shows "wf_pipeline_fields p"
proof -
  have nodes: "\<forall>n \<in> set ns. wf_node_fields n" if "normalize_nodes v = Inr ns" for v ns
    using that rmap_Inr_all [of node_of _ _ wf_node_fields, OF _ node_ok] by (cases v) (auto simp: normalize_nodes_def)
  have edges: "\<forall>e \<in> set es. ef_outcome e \<in> {''success'', ''failure''}" if "normalize_routes v = Inr es" for v es
    using that rmap_Inr_all [of edge_of _ _ "\<lambda>e. ef_outcome e \<in> {''success'', ''failure''}", OF _ edge_ok]
    by (cases v) (auto simp: normalize_routes_def)
  obtain start where n: "optional_field d ''nodes'' [] normalize_nodes = Inr (pf_nodes p)"
    and e: "optional_field d ''routes'' [] normalize_routes = Inr (pf_routes p)"
    and v: "validate_pipeline_references p = Inr ()"
    using assms unfolding pipeline_of_def Let_def by (elim rbind_InrE) auto
  have "\<forall>n \<in> set (pf_nodes p). wf_node_fields n"
    by (rule optional_field_all [OF n]) (simp, rule nodes)
  moreover have "\<forall>e \<in> set (pf_routes p). ef_outcome e \<in> {''success'', ''failure''}"
    by (rule optional_field_all [OF e]) (simp, rule edges)
  moreover have "pf_nodes p \<noteq> [] \<Longrightarrow> check_edges (map nf_id (pf_nodes p)) [] (pf_routes p) = Inr () \<and>
      distinct (map nf_id (pf_nodes p)) \<and> pf_start_node p \<in> set (map nf_id (pf_nodes p))"
    using v by (auto simp: validate_pipeline_references_def rbind_Inr_iff Let_def)
  ultimately show ?thesis using check_edges_ok by (fastforce simp: wf_pipeline_fields_def Let_def)
qed

lemma expected_outputs_ok:
  "normalize_expected_outputs v = Inr os \<Longrightarrow> distinct os \<and> (\<forall>s \<in> set os. clean s)"
  using distinct_texts_ok [of "nonblank ''expected_outputs''" "[]" _ os clean] nonblank_clean by (cases v) (auto simp: normalize_expected_outputs_def)

lemma handoff_ok: "handoff_of v = Inr h \<Longrightarrow> clean (hf_artifact_kind h) \<and> clean (hf_label h) \<and> clean (hf_output_name h)"
  unfolding handoff_of_def by (elim rbind_InrE required_fieldE) (auto dest: nonblank_clean)

lemma workflow_ok: "workflow_of d = Inr w \<Longrightarrow> wf_workflow_fields w"
  unfolding workflow_of_def
proof (elim rbind_InrE required_fieldE, goal_cases)
  case (1 u dispatcher team_ref pipeline_ref handoff outputs v1 v2 v3 v4)
  have "clean dispatcher" "clean team_ref" "clean pipeline_ref" using 1 nonblank_clean by blast+
  moreover have "clean (hf_artifact_kind handoff) \<and> clean (hf_label handoff) \<and> clean (hf_output_name handoff)"
    using 1 handoff_ok by blast
  moreover have "distinct outputs \<and> (\<forall>s \<in> set outputs. clean s)"
    by (rule optional_field_all [OF \<open>optional_field d ''expected_outputs'' _ _ = Inr outputs\<close>]) (simp, rule expected_outputs_ok)
  ultimately show ?case using 1 by (auto simp: wf_workflow_fields_def)
qed

lemma details_ok:
  assumes "details_of (Some kind) d = Inr x"
  shows "wf_details kind x"
  using assms routine_ok team_ok pipeline_ok workflow_ok
  by (auto simp: details_of_def rbind_Inr_iff split: if_splits)

lemma accepted_wf:
  assumes "asset_from_dict declared d = Inr a"
  shows "wf_asset a"
proof -
  have "build_asset declared d = Inr a" using assms by (simp add: asset_from_dict_def split: sum.splits)
  then obtain v where kind: "map_of d ''kind'' = Some v" "normalize_kind v = Inr (as_kind a)"
    and det: "details_of (asset_model_for_kind (dict_get d ''kind'')) d = Inr (as_details a)"
    and base: "id_pattern (as_id a)" "length_between 1 128 (as_id a)" "length_between 5 64 (as_version a)"
      "length_between 1 4096 (as_description a)"
      "distinct (as_tags a) \<and> (\<forall>t \<in> set (as_tags a). clean t)"
      "distinct (as_required_providers a) \<and> (\<forall>p \<in> set (as_required_providers a). known_text p)"
      "validate_profile_filter_ops (as_profile_filter a) = Inr ()"
    using normalize_tags_ok normalize_required_providers_ok
    by (auto simp: build_asset_def rbind_Inr_iff required_field_def optional_field_def declared_field_def
        split: option.splits)
  from kind have "dict_get d ''kind'' = v" by (simp add: dict_get_def)
  with det normalize_kind_ok [OF kind(2)] have "wf_details (as_kind a) (as_details a)" "as_kind a \<in> set known_asset_kinds"
    using details_ok by auto
  with base filter_ops_ok [OF base(7)] show ?thesis by (simp add: wf_asset_def length_between_def)
qed

text \<open>
  C23. Metadata that is accepted is well formed, whatever the document was: a slug as its id, a known
  kind and the details of that kind, tags and providers without duplicates or blanks, filter entries
  with a known operation; the references of a team lead to its members and those of a pipeline to its
  nodes, with one route for every node and outcome.
\<close>

theorem accepted_asset_wf: "asset_from_dict declared d = Inr a \<Longrightarrow> wf_asset a"
  by (rule accepted_wf)

definition demo_document :: payload where
  "demo_document = [(''id'', PStr '' Inbox-Triage ''), (''kind'', PStr ''Team''), (''version'', PStr ''1''),
     (''description'', PStr ''Sorts the inbox''), (''tags'', PStr ''mail''),
     (''required_providers'', PTuple [PStr ''Model'', PStr ''model'']),
     (''input_artifact_kind'', PStr ''request''), (''output_artifact_kind'', PStr ''summary''),
     (''dispatcher'', PStr ''lead''), (''specialists'', PTuple [PStr ''reader'', PStr ''writer'']),
     (''handoff_routes'', PTuple [PDict [(''from_agent'', PStr ''lead''), (''output_name'', PStr ''brief''),
        (''to_agent'', PStr ''reader''), (''artifact_kind'', PStr ''request'')]]),
     (''fallback_agent'', PStr ''writer'')]"

theorem accepted_asset_wf_witness:
  "\<exists>a. asset_from_dict (\<lambda>_. True) demo_document = Inr a \<and> as_id a = ''inbox-triage'' \<and>
     as_version a = ''1.0.0'' \<and> as_required_providers a = [''model''] \<and> wf_asset a"
proof -
  have "case asset_from_dict (\<lambda>_. True) demo_document of Inl _ \<Rightarrow> False | Inr a \<Rightarrow> as_id a = ''inbox-triage'' \<and>
      as_version a = ''1.0.0'' \<and> as_required_providers a = [''model'']"
    by code_simp
  then show ?thesis using accepted_asset_wf by (auto split: sum.splits)
qed

text \<open>
  Numeric versions become \<open>X.Y.Z\<close>, any other text of five to 64 characters passes, and a version
  that was read is read again unchanged.
\<close>

lemma is_digits_chars: "is_digits p \<Longrightarrow> c \<in> set p \<Longrightarrow> c \<noteq> CHR ''.'' \<and> \<not> is_space c"
  by (auto simp: is_digits_def in_range_def is_space_def Let_def)

lemma join_chars: "c \<in> set (join [sep] ps) \<Longrightarrow> c = sep \<or> (\<exists>p \<in> set ps. c \<in> set p)"
  by (induction "[sep]" ps rule: join.induct) auto

lemma coerce_version_digits:
  assumes "\<forall>p \<in> set ps. is_digits p" "ps \<noteq> []" "length ps \<le> 3"
  shows "coerce_version (PStr (join ''.'' ps)) = Inr (join ''.'' (ps @ replicate (3 - length ps) ''0''))"
proof -
  let ?s = "join ''.'' ps"
  have split: "split_on (CHR ''.'') ?s = ps" using assms is_digits_chars by (intro split_on_join) auto
  then have "?s \<noteq> []" using assms by (cases ps) (auto simp: is_digits_def)
  moreover have "\<forall>c \<in> set ?s. \<not> is_space c" using assms(1) is_digits_chars join_chars by (fastforce simp: is_space_def Let_def)
  ultimately have "clean ?s" by (simp add: clean_iff)
  then have "require_non_empty_text ''version'' ?s = Inr ?s" by (simp add: require_text_Inr_iff clean_def)
  then show ?thesis using assms split by (simp add: coerce_version_def Let_def)
qed

lemma coerce_version_idem:
  assumes "coerce_version v = Inr w"
  shows "coerce_version (PStr w) = Inr w"
proof -
  from assms obtain s where s: "clean s" and w: "w = (let parts = split_on (CHR ''.'') s in
      if (\<forall>p \<in> set parts. is_digits p) \<and> length parts \<le> 3
      then join ''.'' (parts @ replicate (3 - length parts) ''0'') else s)"
    unfolding coerce_version_def by (elim rbind_InrE) (auto simp: Let_def dest: require_text_clean_iff)
  show ?thesis
  proof (cases "(\<forall>p \<in> set (split_on (CHR ''.'') s). is_digits p) \<and> length (split_on (CHR ''.'') s) \<le> 3")
    case True
    let ?ps = "split_on (CHR ''.'') s @ replicate (3 - length (split_on (CHR ''.'') s)) ''0''"
    have "is_digits ''0''" by (simp add: is_digits_def in_range_def)
    with True have "\<forall>p \<in> set ?ps. is_digits p" "length ?ps = 3" by auto
    then have "coerce_version (PStr (join ''.'' ?ps)) = Inr (join ''.'' ?ps)"
      using coerce_version_digits [of ?ps] by simp
    with w True show ?thesis by (simp add: Let_def)
  next
    case False
    with w have "w = s" by (auto simp: Let_def)
    with False s show ?thesis by (auto simp: coerce_version_def require_text_Inr_iff clean_def rbind_Inr_iff Let_def)
  qed
qed

lemma any_long_version_accepted: "coerce_version (PStr ''latest'') = Inr ''latest''"
  by code_simp

text \<open>
  The check across assets reports nothing exactly when every id is declared once: assets of
  different kinds may not share an id either.
\<close>

theorem unique_ids_iff: "validate_unique_ids assets = [] \<longleftrightarrow> distinct (map as_id assets)"
  by (simp add: validate_unique_ids_def Let_def)

end
