(* ===== verification/Asset_Registry.thy ===== *)
theory Asset_Registry
  imports Assets_Schema
begin

text \<open>
  The asset registry and its filters (assets/loader.py). The files below the assets directory are an
  argument: what \<open>glob\<close> found, in sorted order, each with what reading and parsing it gave. An
  unreadable or invalid file leaves one message, as \<open>asset_from_dict\<close> leaves one error.
\<close>

section \<open>Filter expressions\<close>

record filter_expression =
  fx_op :: string
  fx_select :: payload

definition filter_ops :: "string list" where
  "filter_ops = [''include'', ''exclude'', ''by_tag'', ''by_required_provider'']"

definition filter_from_dict :: "payload \<Rightarrow> exc + filter_expression" where
  "filter_from_dict d = (case map_of d ''op'' of
       None \<Rightarrow> Inl (FilterError ''filter expression missing op field'')
     | Some (PStr s) \<Rightarrow> let op = lower (strip s) in
         rbind (ensure (op \<in> set filter_ops) (FilterError ''unknown filter operation'')) (\<lambda>_.
         Inr \<lparr>fx_op = op, fx_select = filter (\<lambda>(k, v). k \<noteq> ''op'' \<and> v \<noteq> PNone) d\<rparr>)
     | Some _ \<Rightarrow> Inl (AttributeError ''strip''))"

text \<open>Membership in a set of texts; lists and mappings are not hashable.\<close>

fun member :: "string set \<Rightarrow> pyval \<Rightarrow> exc + bool" where
  "member A (PStr s) = Inr (s \<in> A)"
| "member A (PTuple vs) = Inl (TypeError ''unhashable type'')"
| "member A (PDict d) = Inl (TypeError ''unhashable type'')"
| "member A v = Inr False"

fun all_members :: "string set \<Rightarrow> pyval list \<Rightarrow> exc + bool" where
  "all_members A [] = Inr True"
| "all_members A (v # vs) = rbind (member A v) (\<lambda>b. if b then all_members A vs else Inr False)"

fun any_member :: "string set \<Rightarrow> pyval list \<Rightarrow> exc + bool" where
  "any_member A [] = Inr False"
| "any_member A (v # vs) = rbind (member A v) (\<lambda>b. if b then Inr True else any_member A vs)"

fun items_of :: "pyval \<Rightarrow> exc + pyval list" where
  "items_of (PStr s) = Inr [PStr s]"
| "items_of (PTuple vs) = Inr vs"
| "items_of (PDict d) = Inr (map (\<lambda>(k, _). PStr k) d)"
| "items_of v = Inl (TypeError ''object is not iterable'')"

fun wrap_items :: "pyval \<Rightarrow> pyval list" where
  "wrap_items (PTuple vs) = vs"
| "wrap_items v = [v]"

definition match_include :: "payload \<Rightarrow> asset \<Rightarrow> exc + bool" where
  "match_include select a =
     rbind (case map_of select ''tags'' of None \<Rightarrow> Inr True
       | Some v \<Rightarrow> all_members (set (as_tags a)) (wrap_items v)) (\<lambda>tags_ok.
     if \<not> tags_ok then Inr False
     else case map_of select ''required_providers'' of None \<Rightarrow> Inr True
       | Some v \<Rightarrow> all_members (set (as_required_providers a)) (wrap_items v))"

definition match_by_tag :: "payload \<Rightarrow> asset \<Rightarrow> exc + bool" where
  "match_by_tag select a = (let required = first_truthy select ''tags'' ''tag'' in
     if required = PNone then Inr False
     else rbind (items_of required) (all_members (set (as_tags a))))"

definition match_by_required_provider :: "payload \<Rightarrow> asset \<Rightarrow> exc + bool" where
  "match_by_required_provider select a = (let providers = first_truthy select ''providers'' ''provider'' in
     if providers = PNone then Inr False
     else rbind (items_of providers) (any_member (set (as_required_providers a))))"

definition matches :: "filter_expression \<Rightarrow> asset \<Rightarrow> exc + bool" where
  "matches f a =
     (if fx_op f \<in> {''include'', ''exclude''}
        then (if fx_select f = [] then Inr True else match_include (fx_select f) a)
      else if fx_op f = ''by_tag'' then match_by_tag (fx_select f) a
      else if fx_op f = ''by_required_provider'' then match_by_required_provider (fx_select f) a
      else Inr False)"

fun select_where :: "('a \<Rightarrow> exc + bool) \<Rightarrow> 'a list \<Rightarrow> exc + 'a list" where
  "select_where p [] = Inr []"
| "select_where p (x # xs) = rbind (p x) (\<lambda>b. rbind (select_where p xs) (\<lambda>ys. Inr (if b then x # ys else ys)))"

definition evaluate :: "filter_expression \<Rightarrow> asset list \<Rightarrow> exc + asset list" where
  "evaluate f assets =
     (if fx_op f \<in> {''include'', ''by_tag'', ''by_required_provider''} then select_where (matches f) assets
      else if fx_op f = ''exclude'' then select_where (\<lambda>a. rbind (matches f a) (\<lambda>b. Inr (\<not> b))) assets
      else Inr assets)"

definition filter_to_dict :: "filter_expression \<Rightarrow> payload" where
  "filter_to_dict f = dict_update [(''op'', PStr (fx_op f))] (fx_select f)"

section \<open>The registry\<close>

record asset_registry =
  ar_assets_by_key :: "((string \<times> string) \<times> asset) list"
  ar_seen_ids :: "(string \<times> asset list) list"
  ar_errors :: "string list"

definition empty_registry :: asset_registry where
  "empty_registry = \<lparr>ar_assets_by_key = [], ar_seen_ids = [], ar_errors = []\<rparr>"

definition note_error :: "string \<Rightarrow> asset_registry \<Rightarrow> asset_registry" where
  "note_error msg reg = reg\<lparr>ar_errors := ar_errors reg @ [msg]\<rparr>"

definition seen_with :: "asset_registry \<Rightarrow> string \<Rightarrow> asset list" where
  "seen_with reg i = (case map_of (ar_seen_ids reg) i of None \<Rightarrow> [] | Some xs \<Rightarrow> xs)"

definition register_asset :: "asset \<Rightarrow> asset_registry \<Rightarrow> asset_registry" where
  "register_asset a reg = reg\<lparr>ar_assets_by_key := AList.update (as_id a, as_kind a) a (ar_assets_by_key reg),
     ar_seen_ids := AList.update (as_id a) (seen_with reg (as_id a) @ [a]) (ar_seen_ids reg)\<rparr>"

definition load_single :: "(payload \<Rightarrow> bool) \<Rightarrow> string \<times> document \<Rightarrow> asset_registry \<Rightarrow> asset_registry" where
  "load_single declared file reg = (case snd file of
       Unreadable why \<Rightarrow> note_error (fst file @ '': unable to read: '' @ why) reg
     | Unparsable why \<Rightarrow> note_error (fst file @ '': YAML parse error: '' @ why) reg
     | Parsed (PDict d) \<Rightarrow> (case asset_from_dict declared d of
         Inl _ \<Rightarrow> note_error ''Asset validation failed'' reg
       | Inr a \<Rightarrow> let key = (as_id a, as_kind a) in
           if key \<in> set (dict_keys (ar_assets_by_key reg)) then note_error (''Duplicate asset key in '' @ fst file) reg
           else register_asset a reg)
     | Parsed _ \<Rightarrow> note_error (fst file @ '': expected a mapping of asset settings'') reg)"

text \<open>\<open>None\<close> is a root that is not a directory.\<close>

definition load_from_dir ::
  "(payload \<Rightarrow> bool) \<Rightarrow> (string \<times> document) list option \<Rightarrow> asset_registry \<Rightarrow> asset_registry" where
  "load_from_dir declared files reg = (case files of
       None \<Rightarrow> note_error ''not a directory'' reg
     | Some [] \<Rightarrow> note_error ''no asset.yaml files found'' reg
     | Some fs \<Rightarrow> fold (load_single declared) fs reg)"

definition is_valid :: "asset_registry \<Rightarrow> bool" where
  "is_valid reg \<longleftrightarrow> length (ar_errors reg) = 0"

definition all_assets :: "asset_registry \<Rightarrow> asset list" where
  "all_assets reg = map snd (ar_assets_by_key reg)"

definition get_asset :: "string \<Rightarrow> string \<Rightarrow> asset_registry \<Rightarrow> exc + asset" where
  "get_asset i kind reg = (case map_of (ar_assets_by_key reg) (i, kind) of
     None \<Rightarrow> Inl (AssetNotFoundError i kind) | Some a \<Rightarrow> Inr a)"

definition get_by_kind :: "string \<Rightarrow> asset_registry \<Rightarrow> asset list" where
  "get_by_kind kind reg = map snd (filter (\<lambda>((_, ak), _). ak = kind) (ar_assets_by_key reg))"

definition get_by_id :: "string \<Rightarrow> asset_registry \<Rightarrow> asset list" where
  "get_by_id i reg = seen_with reg i"

fun run_filters :: "payload list \<Rightarrow> asset list \<Rightarrow> exc + asset list" where
  "run_filters [] assets = Inr assets"
| "run_filters (d # ds) assets = rbind (filter_from_dict d) (\<lambda>f. rbind (evaluate f assets) (run_filters ds))"

definition apply_filters :: "payload list \<Rightarrow> asset_registry \<Rightarrow> exc + asset list" where
  "apply_filters filters reg = run_filters filters (all_assets reg)"

definition load_and_filter ::
  "(payload \<Rightarrow> bool) \<Rightarrow> (string \<times> document) list option \<Rightarrow> payload list \<Rightarrow> asset_registry \<Rightarrow>
     (exc + asset list) \<times> asset_registry" where
  "load_and_filter declared files filters reg = (let reg' = load_from_dir declared files reg in
     (if \<not> is_valid reg' then Inl (AssetLoadError (ar_errors reg')) else apply_filters filters reg', reg'))"

section \<open>What the filters keep\<close>

definition filter_keeps :: "filter_expression \<Rightarrow> asset \<Rightarrow> bool" where
  "filter_keeps f a \<longleftrightarrow> matches f a = Inr (fx_op f \<noteq> ''exclude'')"

lemma select_where_filter:
  "select_where p xs = Inr ys \<Longrightarrow> ys = filter (\<lambda>x. p x = Inr True) xs \<and> (\<forall>x \<in> set xs. \<exists>b. p x = Inr b)"
  by (induction xs arbitrary: ys) (auto simp: rbind_Inr_iff)

lemma filter_from_dict_op: "filter_from_dict d = Inr f \<Longrightarrow> fx_op f \<in> set filter_ops"
  by (auto simp: filter_from_dict_def rbind_Inr_iff Let_def split: option.splits pyval.splits)

lemma filter_from_dict_Inl:
  "filter_from_dict d = Inl e \<Longrightarrow> (\<exists>m. e = FilterError m) \<or> (\<exists>m. e = AttributeError m)"
  by (auto simp: filter_from_dict_def rbind_Inl_iff ensure_def Let_def split: option.splits pyval.splits if_splits)

lemma evaluate_keeps:
  assumes "evaluate f xs = Inr ys" "fx_op f \<in> set filter_ops"
  shows "ys = filter (filter_keeps f) xs"
proof (cases "fx_op f = ''exclude''")
  case True
  then have "select_where (\<lambda>a. rbind (matches f a) (\<lambda>b. Inr (\<not> b))) xs = Inr ys"
    using assms(1) by (simp add: evaluate_def)
  from select_where_filter [OF this] True show ?thesis
    by (auto simp: filter_keeps_def rbind_Inr_iff intro!: filter_cong)
next
  case False
  with assms have "select_where (matches f) xs = Inr ys" by (auto simp: evaluate_def filter_ops_def split: if_splits)
  from select_where_filter [OF this] False show ?thesis by (simp add: filter_keeps_def [abs_def])
qed

lemma run_filters_keeps:
  "run_filters ds xs = Inr ys \<Longrightarrow>
     \<exists>fs. rmap filter_from_dict ds = Inr fs \<and> ys = filter (\<lambda>a. \<forall>f \<in> set fs. filter_keeps f a) xs"
proof (induction ds arbitrary: xs)
  case (Cons d ds)
  then obtain f zs where f: "filter_from_dict d = Inr f" "evaluate f xs = Inr zs" "run_filters ds zs = Inr ys"
    by (auto simp: rbind_Inr_iff)
  from Cons.IH [OF f(3)] obtain fs where
    fs: "rmap filter_from_dict ds = Inr fs" "ys = filter (\<lambda>a. \<forall>f \<in> set fs. filter_keeps f a) zs" by blast
  have "zs = filter (filter_keeps f) xs" using evaluate_keeps [OF f(2)] filter_from_dict_op [OF f(1)] by blast
  with fs f(1) show ?case by (auto simp: conj_commute)
qed simp

text \<open>
  Filters that succeed leave exactly the registered assets that every one of them keeps, in the
  order of the registry: an include the assets that match, an exclude those that do not.
\<close>

theorem filters_keep_matching:
  assumes "apply_filters ds reg = Inr out"
  shows "\<exists>fs. rmap filter_from_dict ds = Inr fs \<and> out = filter (\<lambda>a. \<forall>f \<in> set fs. filter_keeps f a) (all_assets reg)"
  using run_filters_keeps assms unfolding apply_filters_def by blast

lemma rmap_set: "rmap f xs = Inr ys \<Longrightarrow> set ys = {y. \<exists>x \<in> set xs. f x = Inr y}"
  by (induction xs arbitrary: ys) (auto simp: rbind_Inr_iff)

text \<open>
  The order in which filters are applied and their repetition change nothing but whether an error
  is met: two lists of the same filters that both succeed give the same assets.
\<close>

theorem filter_order_irrelevant:
  assumes "apply_filters ds reg = Inr out" "apply_filters ds' reg = Inr out'" "set ds = set ds'"
  shows "out = out'"
proof -
  note keep = run_filters_keeps [of _ "all_assets reg", folded apply_filters_def]
  from keep [OF assms(1)] keep [OF assms(2)] obtain fs fs' where
    "rmap filter_from_dict ds = Inr fs" "out = filter (\<lambda>a. \<forall>f \<in> set fs. filter_keeps f a) (all_assets reg)"
    "rmap filter_from_dict ds' = Inr fs'" "out' = filter (\<lambda>a. \<forall>f \<in> set fs'. filter_keeps f a) (all_assets reg)" by blast
  then show ?thesis using rmap_set [of filter_from_dict] assms(3) by simp
qed

text \<open>A filter that selects by other keys than these two matches every asset.\<close>

lemma other_keys_match_all:
  "map_of select ''tags'' = None \<Longrightarrow> map_of select ''required_providers'' = None \<Longrightarrow> match_include select a = Inr True"
  by (simp add: match_include_def)

text \<open>
  A filter written out as a mapping is read back as the same filter.
\<close>

theorem filter_roundtrip:
  assumes "filter_from_dict d = Inr f" "distinct (dict_keys d)"
  shows "filter_from_dict (filter_to_dict f) = Inr f"
proof -
  from assms(1) obtain s where f: "fx_op f = lower (strip s)" "fx_op f \<in> set filter_ops"
    "fx_select f = filter (\<lambda>(k, v). k \<noteq> ''op'' \<and> v \<noteq> PNone) d"
    by (auto simp: filter_from_dict_def rbind_Inr_iff Let_def split: option.splits pyval.splits)
  have fresh: "distinct (map fst (fx_select f))" "''op'' \<notin> fst ` set (fx_select f)"
    using assms(2) by (auto simp: f(3) dict_keys_def distinct_map_filter)
  have "filter_to_dict f = (''op'', PStr (fx_op f)) # fx_select f"
    using dict_update_fresh [of "fx_select f" "[(''op'', PStr (fx_op f))]"] fresh by (simp add: filter_to_dict_def)
  moreover have "filter (\<lambda>(k, v). k \<noteq> ''op'' \<and> v \<noteq> PNone) (fx_select f) = fx_select f" by (simp add: f(3) filter_id_conv)
  moreover have "lower (strip (fx_op f)) = fx_op f" by (simp add: f(1))
  ultimately show ?thesis using f(2) by (simp add: filter_from_dict_def Let_def)
qed

section \<open>What the registry holds\<close>

definition registry_ok :: "asset_registry \<Rightarrow> bool" where
  "registry_ok reg \<longleftrightarrow> distinct (map fst (ar_assets_by_key reg)) \<and>
     (\<forall>(key, a) \<in> set (ar_assets_by_key reg). key = (as_id a, as_kind a) \<and> wf_asset a) \<and>
     (\<forall>i. get_by_id i reg = filter (\<lambda>a. as_id a = i) (all_assets reg))"

lemma empty_registry_ok: "registry_ok empty_registry"
  by (simp add: registry_ok_def empty_registry_def get_by_id_def seen_with_def all_assets_def)

lemma note_error_ok [simp]: "registry_ok (note_error m reg) = registry_ok reg"
  by (simp add: registry_ok_def note_error_def get_by_id_def seen_with_def all_assets_def)

lemma seen_with_update:
  "seen_with (register_asset a reg) i = (if i = as_id a then seen_with reg i @ [a] else seen_with reg i)"
  by (simp add: seen_with_def register_asset_def AList.update_conv' split: option.split)

lemma register_asset_all:
  "(as_id a, as_kind a) \<notin> set (dict_keys (ar_assets_by_key reg)) \<Longrightarrow>
     all_assets (register_asset a reg) = all_assets reg @ [a]"
  by (simp add: all_assets_def register_asset_def update_fresh dict_keys_def)

lemma register_asset_ok:
  assumes "registry_ok reg" "wf_asset a" "(as_id a, as_kind a) \<notin> set (dict_keys (ar_assets_by_key reg))"
  shows "registry_ok (register_asset a reg)"
proof -
  have "ar_assets_by_key (register_asset a reg) = ar_assets_by_key reg @ [((as_id a, as_kind a), a)]"
    using assms(3) by (simp add: register_asset_def update_fresh dict_keys_def)
  then show ?thesis using assms register_asset_all [OF assms(3)]
    by (auto simp: registry_ok_def get_by_id_def seen_with_update dict_keys_def)
qed

lemma load_single_ok: "registry_ok reg \<Longrightarrow> registry_ok (load_single declared file reg)"
  using register_asset_ok accepted_wf
  by (auto simp: load_single_def Let_def split: document.splits pyval.splits sum.splits)

lemma load_files_ok: "registry_ok reg \<Longrightarrow> registry_ok (fold (load_single declared) fs reg)"
  by (induction fs arbitrary: reg) (simp_all add: load_single_ok)

text \<open>
  C30. Whatever the files hold, loading keeps the registry consistent: one asset under every id and
  kind, each well formed and found under its own id and kind, and the assets listed for an id are
  exactly the registered ones with that id, in order.
\<close>

theorem loading_keeps_registry:
  assumes "registry_ok reg"
  shows "registry_ok (load_from_dir declared files reg)"
  using assms by (simp add: load_from_dir_def load_files_ok load_single_ok split: option.split list.split)

section \<open>A load that succeeds\<close>

lemma load_single_cases:
  "(\<exists>d a. snd file = Parsed (PDict d) \<and> asset_from_dict declared d = Inr a \<and>
      ar_errors (load_single declared file reg) = ar_errors reg \<and>
      all_assets (load_single declared file reg) = all_assets reg @ [a]) \<or>
   (\<exists>m. load_single declared file reg = note_error m reg)"
  using register_asset_all
  by (cases "snd file")
     (auto simp: load_single_def Let_def register_asset_def split: pyval.split sum.split)

lemma errors_grow: "\<exists>ms. ar_errors (fold (load_single declared) fs reg) = ar_errors reg @ ms"
proof (induction fs arbitrary: reg)
  case (Cons f fs)
  from Cons.IH [of "load_single declared f reg"] load_single_cases [of f declared reg]
  show ?case by (auto simp: note_error_def)
qed simp

definition read_as :: "(payload \<Rightarrow> bool) \<Rightarrow> string \<times> document \<Rightarrow> asset \<Rightarrow> bool" where
  "read_as declared file a \<longleftrightarrow> (\<exists>d. snd file = Parsed (PDict d) \<and> asset_from_dict declared d = Inr a)"

lemma valid_load:
  "ar_errors (fold (load_single declared) fs reg) = [] \<Longrightarrow>
     \<exists>as. list_all2 (read_as declared) fs as \<and> all_assets (fold (load_single declared) fs reg) = all_assets reg @ as"
proof (induction fs arbitrary: reg)
  case (Cons f fs)
  let ?reg = "load_single declared f reg"
  have "ar_errors ?reg = []" using errors_grow [of declared fs ?reg] Cons.prems by auto
  then obtain a where a: "read_as declared f a" "all_assets ?reg = all_assets reg @ [a]"
    using load_single_cases [of f declared reg] by (auto simp: note_error_def read_as_def)
  from Cons.IH [of ?reg] Cons.prems obtain as where
    "list_all2 (read_as declared) fs as" "all_assets (fold (load_single declared) fs ?reg) = all_assets ?reg @ as" by auto
  with a have "list_all2 (read_as declared) (f # fs) (a # as) \<and>
    all_assets (fold (load_single declared) (f # fs) reg) = all_assets reg @ a # as" by simp
  then show ?case by blast
qed simp

lemma registered_found:
  assumes "registry_ok reg" "a \<in> set (all_assets reg)"
  shows "get_asset (as_id a) (as_kind a) reg = Inr a"
proof -
  from assms have "((as_id a, as_kind a), a) \<in> set (ar_assets_by_key reg)"
    by (auto simp: registry_ok_def all_assets_def)
  then show ?thesis using assms(1) by (simp add: get_asset_def registry_ok_def)
qed

text \<open>
  C16. A load into an empty registry that succeeds has skipped nothing: there is at least one file,
  every file holds the mapping of an accepted asset, these are the registered assets in order of the
  files, each is found under its id and kind, and the result is what the filters keep of them.
\<close>

theorem load_is_complete:
  assumes "load_and_filter declared files ds empty_registry = (Inr out, reg)"
  shows "\<exists>fs as. files = Some fs \<and> fs \<noteq> [] \<and> list_all2 (read_as declared) fs as \<and> all_assets reg = as \<and>
      (\<forall>a \<in> set as. get_asset (as_id a) (as_kind a) reg = Inr a) \<and> apply_filters ds reg = Inr out"
proof -
  have ok: "registry_ok (fold (load_single declared) fs empty_registry)" for fs
    by (rule load_files_ok [OF empty_registry_ok])
  from assms have reg: "reg = load_from_dir declared files empty_registry" "ar_errors reg = []" "apply_filters ds reg = Inr out"
    by (auto simp: load_and_filter_def Let_def is_valid_def split: if_splits)
  then obtain fs where fs: "files = Some fs" "fs \<noteq> []" "reg = fold (load_single declared) fs empty_registry"
    by (auto simp: load_from_dir_def note_error_def split: option.splits list.splits)
  with valid_load [of declared fs empty_registry] reg have "list_all2 (read_as declared) fs (all_assets reg)"
    by (auto simp: empty_registry_def all_assets_def)
  moreover have "\<forall>a \<in> set (all_assets reg). get_asset (as_id a) (as_kind a) reg = Inr a"
    using registered_found ok fs(3) by blast
  ultimately show ?thesis using fs(1,2) reg(3) by (intro exI [of _ fs] exI [of _ "all_assets reg"]) simp
qed

section \<open>Concrete inputs\<close>

definition demo_files :: "(string \<times> document) list" where
  "demo_files = [(''teams/triage/asset.yaml'', Parsed (PDict demo_document)),
     (''widgets/clock/asset.yaml'', Parsed (PDict [(''id'', PStr ''clock''), (''kind'', PStr ''widget''),
        (''version'', PStr ''1.2''), (''description'', PStr ''A clock''), (''tags'', PTuple [PStr ''ui'', PStr ''mail''])]))]"

definition demo_assets :: asset_registry where
  "demo_assets = load_from_dir (\<lambda>_. True) (Some demo_files) empty_registry"

definition by_mail_tag :: payload where
  "by_mail_tag = [(''op'', PStr '' By_Tag''), (''tag'', PStr ''mail'')]"

definition without_ui :: payload where
  "without_ui = [(''op'', PStr ''exclude''), (''tags'', PTuple [PStr ''ui''])]"

definition ids_of :: "exc + asset list \<Rightarrow> string list" where
  "ids_of r = (case r of Inl _ \<Rightarrow> [] | Inr out \<Rightarrow> map as_id out)"

lemma demo_filtered: "ids_of (apply_filters [by_mail_tag, without_ui] demo_assets) = [''inbox-triage'']"
  by code_simp

lemma demo_filters_succeed:
  "\<exists>out. apply_filters [by_mail_tag, without_ui] demo_assets = Inr out \<and> map as_id out = [''inbox-triage'']"
  "\<exists>out. apply_filters [without_ui, by_mail_tag, without_ui] demo_assets = Inr out"
proof -
  show "\<exists>out. apply_filters [by_mail_tag, without_ui] demo_assets = Inr out \<and> map as_id out = [''inbox-triage'']"
    using demo_filtered by (auto simp: ids_of_def split: sum.splits)
  have "ids_of (apply_filters [without_ui, by_mail_tag, without_ui] demo_assets) = [''inbox-triage'']" by code_simp
  then show "\<exists>out. apply_filters [without_ui, by_mail_tag, without_ui] demo_assets = Inr out"
    by (auto simp: ids_of_def split: sum.splits)
qed

theorem filters_keep_matching_witness:
  "\<exists>fs. rmap filter_from_dict [by_mail_tag, without_ui] = Inr fs \<and>
     map as_id (filter (\<lambda>a. \<forall>f \<in> set fs. filter_keeps f a) (all_assets demo_assets)) = [''inbox-triage'']"
proof -
  obtain out where out: "apply_filters [by_mail_tag, without_ui] demo_assets = Inr out" "map as_id out = [''inbox-triage'']"
    using demo_filters_succeed(1) by (elim exE conjE)
  from filters_keep_matching [OF out(1)] obtain fs where fs: "rmap filter_from_dict [by_mail_tag, without_ui] = Inr fs"
    "out = filter (\<lambda>a. \<forall>f \<in> set fs. filter_keeps f a) (all_assets demo_assets)" by (elim exE conjE)
  from out(2) [unfolded fs(2)] fs(1) show ?thesis by (intro exI [of _ fs] conjI)
qed

theorem filter_order_irrelevant_witness:
  "\<exists>out. apply_filters [by_mail_tag, without_ui] demo_assets = Inr out \<and>
     apply_filters [without_ui, by_mail_tag, without_ui] demo_assets = Inr out"
proof -
  from demo_filters_succeed obtain out out' where
    "apply_filters [by_mail_tag, without_ui] demo_assets = Inr out"
    "apply_filters [without_ui, by_mail_tag, without_ui] demo_assets = Inr out'" by blast
  with filter_order_irrelevant [OF this] show ?thesis by auto
qed

theorem filter_roundtrip_witness:
  "\<exists>f. filter_from_dict by_mail_tag = Inr f \<and> filter_from_dict (filter_to_dict f) = Inr f"
proof -
  have d: "distinct (dict_keys by_mail_tag)" by code_simp
  have "case filter_from_dict by_mail_tag of Inl _ \<Rightarrow> False | Inr _ \<Rightarrow> True" by code_simp
  then show ?thesis using filter_roundtrip [OF _ d] by (auto split: sum.splits)
qed

theorem loading_keeps_registry_witness:
  "registry_ok demo_assets \<and> map as_id (get_by_id ''clock'' demo_assets) = [''clock'']"
proof -
  have "registry_ok demo_assets"
    unfolding demo_assets_def by (rule loading_keeps_registry) (rule empty_registry_ok)
  moreover have "map as_id (get_by_id ''clock'' demo_assets) = [''clock'']" by code_simp
  ultimately show ?thesis ..
qed

theorem load_is_complete_witness:
  "\<exists>reg out. load_and_filter (\<lambda>_. True) (Some demo_files) [by_mail_tag, without_ui] empty_registry = (Inr out, reg) \<and>
     list_all2 (read_as (\<lambda>_. True)) demo_files (all_assets reg)"
proof -
  have "is_valid demo_assets" by code_simp
  with demo_filters_succeed(1) obtain out where
    "load_and_filter (\<lambda>_. True) (Some demo_files) [by_mail_tag, without_ui] empty_registry = (Inr out, demo_assets)"
    by (auto simp: load_and_filter_def demo_assets_def Let_def)
  from this load_is_complete [OF this] show ?thesis by auto
qed

text \<open>
  Two assets of different kinds may carry the same id and still load without an error: the check
  across assets is not part of the loading.
\<close>

lemma shared_id_loads:
  "let reg = load_from_dir (\<lambda>_. True) (Some (demo_files @ [(''tools/clock/asset.yaml'',
        Parsed (PDict [(''id'', PStr ''clock''), (''kind'', PStr ''tool''), (''version'', PStr ''1''),
          (''description'', PStr ''Reads the time'')]))])) empty_registry in
     is_valid reg \<and> validate_unique_ids (all_assets reg) \<noteq> []"
  by code_simp

end
