(* ===== verification/Profiles.thy ===== *)
theory Profiles
  imports Documents
begin

text \<open>
  Profile packs (domain/profile.py), the extension registry (extensions/) and the loader that checks
  one against the other (profiles/loader.py). A profile document is a \<open>pyval\<close>; the files are an
  argument, what \<open>glob\<close> found in sorted order with what reading and parsing each gave. The
  factories and validators of extensions are arguments too.
\<close>

section \<open>Text patterns\<close>

definition ident_char :: "char \<Rightarrow> bool" where
  "ident_char c \<longleftrightarrow> decimal c \<or> upper_letter c \<or> lower_letter c \<or> c = CHR ''-''"

definition ident_list :: "string \<Rightarrow> bool" where
  "ident_list s \<longleftrightarrow> (\<forall>p \<in> set (split_on (CHR ''.'') s). p \<noteq> [] \<and> (\<forall>c \<in> set p. ident_char c))"

definition version_number :: "string \<Rightarrow> bool" where
  "version_number s \<longleftrightarrow> s \<noteq> [] \<and> (\<forall>c \<in> set s. decimal c) \<and> (s = ''0'' \<or> hd s \<noteq> CHR ''0'')"

definition version_core :: "string \<Rightarrow> bool" where
  "version_core s \<longleftrightarrow> (let ps = split_on (CHR ''.'') s in length ps = 3 \<and> (\<forall>p \<in> set ps. version_number p))"

text \<open>A core, then \<open>-\<close> with a list of identifiers, then \<open>+\<close> with another.\<close>

definition semver_pattern :: "string \<Rightarrow> bool" where
  "semver_pattern s \<longleftrightarrow> (let main = takeWhile (\<lambda>c. c \<noteq> CHR ''+'') s; build = dropWhile (\<lambda>c. c \<noteq> CHR ''+'') s;
     core = takeWhile (\<lambda>c. c \<noteq> CHR ''-'') main; pre = dropWhile (\<lambda>c. c \<noteq> CHR ''-'') main in
     version_core core \<and> (pre = [] \<or> ident_list (tl pre)) \<and> (build = [] \<or> ident_list (tl build)))"

definition word_char :: "char \<Rightarrow> bool" where
  "word_char c \<longleftrightarrow> lower_letter c \<or> decimal c \<or> c = CHR ''_''"

definition profile_extension_pattern :: "string \<Rightarrow> bool" where
  "profile_extension_pattern s \<longleftrightarrow> s \<noteq> [] \<and> lower_letter (hd s) \<and>
     (\<forall>p \<in> set (split_on (CHR ''-'') s). p \<noteq> [] \<and> (\<forall>c \<in> set p. word_char c))"

definition provider_name :: "string \<Rightarrow> bool" where
  "provider_name s \<longleftrightarrow> s \<noteq> [] \<and> lower_letter (hd s) \<and> (\<forall>c \<in> set s. word_char c \<or> c = CHR ''-'')"

definition provider_version :: "string \<Rightarrow> bool" where
  "provider_version s \<longleftrightarrow> s \<noteq> [] \<and> (\<forall>c \<in> set s. ident_char c \<or> c \<in> {CHR ''.'', CHR ''_'', CHR ''*'', CHR ''+''})"

text \<open>The groups of the pattern, when it matches the whole text.\<close>

definition provider_ref_pattern :: "string \<Rightarrow> (string \<times> string option) option" where
  "provider_ref_pattern s = (case split_on (CHR ''@'') s of
       [n] \<Rightarrow> if provider_name n then Some (n, None) else None
     | [n, v] \<Rightarrow> if provider_name n \<and> provider_version v then Some (n, Some v) else None
     | _ \<Rightarrow> None)"

section \<open>Profile descriptors\<close>

text \<open>What a \<open>for\<close> loop or \<open>list\<close> sees of a value.\<close>

fun iterate :: "pyval \<Rightarrow> exc + pyval list" where
  "iterate (PStr s) = Inr (map (\<lambda>c. PStr [c]) s)"
| "iterate (PTuple vs) = Inr vs"
| "iterate (PDict d) = Inr (map (\<lambda>(k, _). PStr k) d)"
| "iterate v = Inl (TypeError ''object is not iterable'')"

text \<open>\<open>value.strip()\<close> without a check of the type.\<close>

fun stripped :: "string \<Rightarrow> pyval \<Rightarrow> exc + string" where
  "stripped f (PStr s) = require_non_empty_text f s"
| "stripped f _ = Inl (AttributeError ''strip'')"

definition normalize_provider_ref :: "string \<Rightarrow> pyval \<Rightarrow> exc + string" where
  "normalize_provider_ref f v = rbind (nonblank f v) (\<lambda>s.
     rbind (ensure (provider_ref_pattern s \<noteq> None) (ValueError (f @ '' must use name or name@version format''))) (\<lambda>_.
     Inr s))"

definition normalize_provider_ref_list :: "string \<Rightarrow> pyval \<Rightarrow> exc + string list" where
  "normalize_provider_ref_list f v = (case v of PStr _ \<Rightarrow> Inl (TypeError (f @ '' must be a sequence of strings''))
     | _ \<Rightarrow> rbind (iterate v) (distinct_texts (normalize_provider_ref f) []))"

record required_providers =
  rp_model :: string
  rp_memory :: string
  rp_knowledge :: string
  rp_tool :: "string list"
  rp_channel :: "string list"
  rp_tracer :: string

text \<open>A call with keyword arguments: no unknown name, every required one.\<close>

definition check_kwargs :: "string list \<Rightarrow> string list \<Rightarrow> payload \<Rightarrow> exc + unit" where
  "check_kwargs required optional d =
     rbind (ensure (set (dict_keys d) \<subseteq> set (required @ optional)) (TypeError ''got an unexpected keyword argument'')) (\<lambda>_.
     ensure (set required \<subseteq> set (dict_keys d)) (TypeError ''missing required arguments''))"

definition required_providers_of :: "payload \<Rightarrow> exc + required_providers" where
  "required_providers_of d =
     rbind (check_kwargs [''model'', ''memory'', ''knowledge''] [''tool'', ''channel'', ''tracer''] d) (\<lambda>_.
     rbind (normalize_provider_ref ''model'' (dict_get d ''model'')) (\<lambda>model.
     rbind (normalize_provider_ref ''memory'' (dict_get d ''memory'')) (\<lambda>memory.
     rbind (normalize_provider_ref ''knowledge'' (dict_get d ''knowledge'')) (\<lambda>knowledge.
     rbind (optional_field d ''tool'' [] (normalize_provider_ref_list ''tool'')) (\<lambda>tool.
     rbind (optional_field d ''channel'' [] (normalize_provider_ref_list ''channel'')) (\<lambda>channel.
     rbind (optional_field d ''tracer'' ''noop'' (normalize_provider_ref ''tracer'')) (\<lambda>tracer.
     Inr \<lparr>rp_model = model, rp_memory = memory, rp_knowledge = knowledge, rp_tool = tool,
          rp_channel = channel, rp_tracer = tracer\<rparr>)))))))"

definition indexed :: "string \<Rightarrow> string list \<Rightarrow> (string \<times> string) list" where
  "indexed name refs = map (\<lambda>(i, r). (name @ ''['' @ show_nat i @ '']'', r)) (zip [0..<length refs] refs)"

definition iter_provider_slots :: "required_providers \<Rightarrow> (string \<times> string) list" where
  "iter_provider_slots rp = [(''model'', rp_model rp), (''memory'', rp_memory rp), (''knowledge'', rp_knowledge rp)] @
     indexed ''tool'' (rp_tool rp) @ indexed ''channel'' (rp_channel rp) @ [(''tracer'', rp_tracer rp)]"

definition parse_provider_ref :: "string \<Rightarrow> exc + string \<times> string option" where
  "parse_provider_ref ref = rbind (normalize_provider_ref ''provider reference'' (PStr ref)) (\<lambda>s.
     case provider_ref_pattern s of None \<Rightarrow> Inl (ValueError ''provider reference must use name or name@version format'')
     | Some groups \<Rightarrow> Inr groups)"

record profile_descriptor =
  pd_id :: string
  pd_display_name :: string
  pd_version :: string
  pd_supported_extensions :: "string list"
  pd_required_providers :: required_providers

definition normalize_version :: "pyval \<Rightarrow> exc + string" where
  "normalize_version v = rbind (nonblank ''version'' v) (\<lambda>s.
     rbind (ensure (semver_pattern s) (ValueError ''version must be a semantic version like 1.0.0'')) (\<lambda>_. Inr s))"

definition normalize_extension :: "pyval \<Rightarrow> exc + string" where
  "normalize_extension v = rbind (nonblank ''supported_extensions'' v) (\<lambda>s.
     rbind (ensure (profile_extension_pattern s) (ValueError ''supported_extensions must be a lowercase extension slug'')) (\<lambda>_.
     Inr s))"

definition normalize_supported_extensions :: "pyval list \<Rightarrow> exc + string list" where
  "normalize_supported_extensions vs = rbind (distinct_texts normalize_extension [] vs) (\<lambda>ss.
     rbind (ensure (ss \<noteq> []) (ValueError ''supported_extensions must contain at least one extension'')) (\<lambda>_. Inr ss))"

text \<open>The constructor of a descriptor, given what the keywords hold.\<close>

definition make_descriptor ::
  "pyval \<Rightarrow> pyval \<Rightarrow> pyval \<Rightarrow> pyval \<Rightarrow> required_providers \<Rightarrow> exc + profile_descriptor" where
  "make_descriptor i name version exts rp =
     rbind (nonblank ''id'' i) (\<lambda>i'.
     rbind (stripped ''display_name'' name) (\<lambda>name'.
     rbind (normalize_version version) (\<lambda>version'.
     rbind (iterate exts) (\<lambda>vs. rbind (normalize_supported_extensions vs) (\<lambda>exts'.
     Inr \<lparr>pd_id = i', pd_display_name = name', pd_version = version', pd_supported_extensions = exts',
          pd_required_providers = rp\<rparr>)))))"

section \<open>The profile registry\<close>

type_synonym profile_registry = "(string \<times> profile_descriptor) list"

definition make_registry :: "profile_registry \<Rightarrow> exc + profile_registry" where
  "make_registry descriptors = keyed_registry pd_id [] descriptors"

definition profile_lookup :: "string \<Rightarrow> profile_registry \<Rightarrow> exc + profile_descriptor" where
  "profile_lookup key reg = registry_lookup key reg"

definition list_profiles :: "profile_registry \<Rightarrow> profile_descriptor list" where
  "list_profiles reg = map snd reg"

section \<open>The extension registry\<close>

record extension =
  ex_name :: string
  ex_version :: string
  ex_capabilities :: "string set"

type_synonym extension_registry = "(string \<times> extension) list"

definition register :: "extension \<Rightarrow> extension_registry \<Rightarrow> (exc + unit) \<times> extension_registry" where
  "register ext reg = (case map_of reg (ex_name ext) of
       Some existing \<Rightarrow> (if ex_version existing \<noteq> ex_version ext
         then Inl (DuplicateExtensionError ''already registered with another version'') else Inr (), reg)
     | None \<Rightarrow> (Inr (), AList.update (ex_name ext) ext reg))"

definition get_extension :: "string \<Rightarrow> extension_registry \<Rightarrow> exc + extension" where
  "get_extension name reg = (case map_of reg name of
     None \<Rightarrow> Inl (UnknownExtensionError name) | Some ext \<Rightarrow> Inr ext)"

record extension_decl =
  xd_name :: string
  xd_config :: payload
  xd_factory :: "(payload \<Rightarrow> exc + extension) option"

definition make_extension :: "extension_decl \<Rightarrow> exc + extension" where
  "make_extension decl = (case xd_factory decl of Some factory \<Rightarrow> factory (xd_config decl)
     | None \<Rightarrow> Inl (NotImplementedError ''No factory provided for extension''))"

fun startup_errors :: "string \<Rightarrow> exc \<Rightarrow> string list" where
  "startup_errors name (ExtensionStartupError es) = es"
| "startup_errors name (ExtensionConfigError m) = [name @ '': '' @ m]"
| "startup_errors name _ = [name @ '': unexpected error'']"

definition load_decl ::
  "(extension \<Rightarrow> payload \<Rightarrow> exc + unit) \<Rightarrow> extension_decl \<Rightarrow> string list \<times> extension_registry \<Rightarrow> string list \<times> extension_registry" where
  "load_decl validate decl st = (case st of (errors, reg) \<Rightarrow>
     case rbind (make_extension decl) (\<lambda>ext. rbind (validate ext (xd_config decl)) (\<lambda>_. Inr ext)) of
       Inl e \<Rightarrow> (errors @ startup_errors (xd_name decl) e, reg)
     | Inr ext \<Rightarrow> (case register ext reg of
         (Inl e, reg') \<Rightarrow> (errors @ startup_errors (xd_name decl) e, reg') | (Inr _, reg') \<Rightarrow> (errors, reg')))"

definition load_declared ::
  "(extension \<Rightarrow> payload \<Rightarrow> exc + unit) \<Rightarrow> extension_decl list \<Rightarrow> extension_registry \<Rightarrow> (exc + unit) \<times> extension_registry" where
  "load_declared validate declared reg = (case fold (load_decl validate) declared ([], reg) of (errors, reg') \<Rightarrow>
     (if errors \<noteq> [] then Inl (ExtensionStartupError errors) else Inr (), reg'))"

section \<open>Checking the providers of the profiles\<close>

definition required_capabilities_for_slot :: "string \<Rightarrow> exc + string set" where
  "required_capabilities_for_slot slot =
     (if starts_with slot ''tool['' then Inr {''tool''}
      else if starts_with slot ''channel['' then Inr {''channel''}
      else if slot \<in> {''model'', ''memory'', ''knowledge'', ''tracer''} then Inr {slot}
      else Inl (ValueError ''unsupported provider slot''))"

definition slot_errors :: "extension_registry \<Rightarrow> string \<Rightarrow> string \<times> string \<Rightarrow> exc + string list" where
  "slot_errors exts pid slot_ref = (case slot_ref of (slot, ref) \<Rightarrow>
     rbind (parse_provider_ref ref) (\<lambda>(name, version_spec).
     case get_extension name exts of
       Inl _ \<Rightarrow> Inr [pid @ '' '' @ slot @ '': unknown provider'']
     | Inr ext \<Rightarrow> rbind (required_capabilities_for_slot slot) (\<lambda>required.
         Inr ((if required - ex_capabilities ext \<noteq> {} then [pid @ '' '' @ slot @ '': missing capabilities''] else []) @
              (case version_spec of None \<Rightarrow> []
               | Some v \<Rightarrow> if ex_version ext \<noteq> v then [pid @ '' '' @ slot @ '': version does not satisfy''] else [])))))"

definition profile_errors :: "extension_registry \<Rightarrow> profile_descriptor \<Rightarrow> exc + string list" where
  "profile_errors exts p = rbind (rmap (slot_errors exts (pd_id p)) (iter_provider_slots (pd_required_providers p)))
     (\<lambda>ess. Inr (concat ess))"

definition validate_profile_startup :: "profile_registry \<Rightarrow> extension_registry \<Rightarrow> exc + unit" where
  "validate_profile_startup profiles exts =
     rbind (rmap (profile_errors exts) (list_profiles profiles)) (\<lambda>ess.
     ensure (concat ess = []) (ProfileStartupError (concat ess)))"

section \<open>Loading the profiles\<close>

text \<open>Adding a descriptor, or the message of why there is none. Other exceptions end the loading.\<close>

definition load_profile_descriptor :: "string \<times> document \<Rightarrow> exc + string + profile_descriptor" where
  "load_profile_descriptor file = (case snd file of
       Unreadable why \<Rightarrow> Inr (Inl (fst file @ '': unable to read file: '' @ why))
     | Unparsable why \<Rightarrow> Inr (Inl (fst file @ '': YAML parse error: '' @ why))
     | Parsed (PDict d) \<Rightarrow> (case dict_get d ''required_providers'' of
         PDict raw \<Rightarrow> (case
             rbind (required_providers_of raw) (\<lambda>rp.
             rbind (check_kwargs [''id'', ''display_name'', ''version'', ''supported_extensions'', ''required_providers''] []
               (AList.delete ''asset_filters'' d)) (\<lambda>_.
             make_descriptor (dict_get d ''id'') (dict_get d ''display_name'') (dict_get d ''version'')
               (dict_get d ''supported_extensions'') rp)) of
           Inl (TypeError m) \<Rightarrow> Inr (Inl (fst file @ '': '' @ m))
         | Inl (ValueError m) \<Rightarrow> Inr (Inl (fst file @ '': '' @ m))
         | Inl e \<Rightarrow> Inl e
         | Inr p \<Rightarrow> Inr (Inr p))
       | _ \<Rightarrow> Inr (Inl (fst file @ '': required_providers must be a mapping'')))
     | Parsed _ \<Rightarrow> Inr (Inl (fst file @ '': expected a mapping of profile settings'')))"

definition lefts :: "('a + 'b) list \<Rightarrow> 'a list" where
  "lefts xs = concat (map (case_sum (\<lambda>a. [a]) (\<lambda>_. [])) xs)"

definition rights :: "('a + 'b) list \<Rightarrow> 'b list" where
  "rights xs = concat (map (case_sum (\<lambda>_. []) (\<lambda>b. [b])) xs)"

definition duplicate_id_errors :: "string \<Rightarrow> string list \<Rightarrow> string list" where
  "duplicate_id_errors what ids = map (\<lambda>i. what @ i @ '' is declared more than once'') (repeated ids)"

text \<open>The directory is \<open>None\<close> when there is none.\<close>

definition load_profiles ::
  "(string \<times> document) list option \<Rightarrow> extension_registry option \<Rightarrow> exc + profile_registry" where
  "load_profiles files exts = (case files of
       None \<Rightarrow> Inl (ProfileLoadError [''profiles directory not found''])
     | Some fs \<Rightarrow> rbind (rmap load_profile_descriptor fs) (\<lambda>results.
         let errors = lefts results @ duplicate_id_errors ''profile id '' (map pd_id (rights results)) in
         rbind (ensure (errors = []) (ProfileLoadError errors)) (\<lambda>_.
         rbind (make_registry (by_id pd_id (rights results))) (\<lambda>reg.
         rbind (case exts of None \<Rightarrow> Inr () | Some es \<Rightarrow> validate_profile_startup reg es) (\<lambda>_.
         Inr reg)))))"


section \<open>What an accepted descriptor looks like\<close>

definition wf_provider_ref :: "string \<Rightarrow> bool" where
  "wf_provider_ref s \<longleftrightarrow> clean s \<and> provider_ref_pattern s \<noteq> None"

definition wf_required_providers :: "required_providers \<Rightarrow> bool" where
  "wf_required_providers rp \<longleftrightarrow> (\<forall>(slot, ref) \<in> set (iter_provider_slots rp). wf_provider_ref ref) \<and>
     distinct (rp_tool rp) \<and> distinct (rp_channel rp)"

definition wf_profile :: "profile_descriptor \<Rightarrow> bool" where
  "wf_profile p \<longleftrightarrow> clean (pd_id p) \<and> clean (pd_display_name p) \<and> semver_pattern (pd_version p) \<and>
     pd_supported_extensions p \<noteq> [] \<and> distinct (pd_supported_extensions p) \<and>
     (\<forall>e \<in> set (pd_supported_extensions p). profile_extension_pattern e) \<and>
     wf_required_providers (pd_required_providers p)"

lemma set_indexed: "snd ` set (indexed name refs) = set refs"
  by (force simp: indexed_def set_zip in_set_conv_nth)

lemma slots_refs: "snd ` set (iter_provider_slots rp) =
    {rp_model rp, rp_memory rp, rp_knowledge rp, rp_tracer rp} \<union> set (rp_tool rp) \<union> set (rp_channel rp)"
  by (auto simp: iter_provider_slots_def image_Un set_indexed)

lemma wf_slots: "(\<forall>(slot, ref) \<in> set (iter_provider_slots rp). P ref) \<longleftrightarrow>
    (\<forall>ref \<in> {rp_model rp, rp_memory rp, rp_knowledge rp, rp_tracer rp} \<union> set (rp_tool rp) \<union> set (rp_channel rp). P ref)"
  unfolding slots_refs [symmetric] by auto

lemma normalize_provider_ref_ok: "normalize_provider_ref f v = Inr s \<Longrightarrow> wf_provider_ref s"
  by (auto simp: normalize_provider_ref_def rbind_Inr_iff wf_provider_ref_def dest: nonblank_clean)

lemma normalize_provider_ref_list_ok:
  "normalize_provider_ref_list f v = Inr ss \<Longrightarrow> distinct ss \<and> (\<forall>s \<in> set ss. wf_provider_ref s)"
  using distinct_texts_ok [of "normalize_provider_ref f" "[]" _ ss wf_provider_ref] normalize_provider_ref_ok
  by (cases v) (auto simp: normalize_provider_ref_list_def rbind_Inr_iff)

lemma wf_noop: "wf_provider_ref ''noop''"
  by code_simp

lemma required_providers_ok: "required_providers_of d = Inr rp \<Longrightarrow> wf_required_providers rp"
  unfolding required_providers_of_def
proof (elim rbind_InrE, goal_cases)
  case (1 u model memory knowledge tool channel tracer)
  have "distinct tool \<and> (\<forall>s \<in> set tool. wf_provider_ref s)" "distinct channel \<and> (\<forall>s \<in> set channel. wf_provider_ref s)"
    by (rule optional_field_all [OF \<open>optional_field d ''tool'' _ _ = _\<close>] optional_field_all [OF \<open>optional_field d ''channel'' _ _ = _\<close>],
        simp, erule normalize_provider_ref_list_ok)+
  moreover have "wf_provider_ref tracer"
    by (rule optional_field_all [OF \<open>optional_field d ''tracer'' _ _ = _\<close>]) (rule wf_noop, erule normalize_provider_ref_ok)
  moreover have "wf_provider_ref model" "wf_provider_ref memory" "wf_provider_ref knowledge"
    using 1 normalize_provider_ref_ok by blast+
  ultimately show ?case using 1 by (auto simp: wf_required_providers_def wf_slots)
qed

lemma stripped_clean: "stripped f v = Inr s \<Longrightarrow> clean s"
  by (cases v) (auto simp: require_text_Inr_iff clean_def)

lemma normalize_extension_ok: "normalize_extension v = Inr s \<Longrightarrow> profile_extension_pattern s"
  by (auto simp: normalize_extension_def rbind_Inr_iff)

lemma make_descriptor_ok:
  "make_descriptor i name version exts rp = Inr p \<Longrightarrow> wf_required_providers rp \<Longrightarrow> wf_profile p"
  unfolding make_descriptor_def normalize_version_def normalize_supported_extensions_def
proof (elim InrEs, goal_cases)
  case (1 i' name' version' u ss vs exts' u' )
  then show ?case
    using distinct_texts_ok [of normalize_extension "[]" _ exts' profile_extension_pattern] normalize_extension_ok
    by (auto simp: wf_profile_def dest: nonblank_clean stripped_clean)
qed


section \<open>Provider references\<close>

lemma wf_ref_parses:
  "wf_provider_ref s \<Longrightarrow> \<exists>name v. parse_provider_ref s = Inr (name, v) \<and> provider_ref_pattern s = Some (name, v)"
  by (auto simp: parse_provider_ref_def normalize_provider_ref_def nonblank_def wf_provider_ref_def clean_def
      require_non_empty_text_def)

text \<open>The reference with this name and version.\<close>

fun provider_ref :: "string \<Rightarrow> string option \<Rightarrow> string" where
  "provider_ref name None = name"
| "provider_ref name (Some v) = name @ CHR ''@'' # v"

definition provider_groups :: "string \<Rightarrow> string option \<Rightarrow> bool" where
  "provider_groups name v \<longleftrightarrow> provider_name name \<and> (case v of None \<Rightarrow> True | Some w \<Rightarrow> provider_version w)"

lemma provider_ref_pattern_iff: "provider_ref_pattern s = Some (name, v) \<longleftrightarrow> s = provider_ref name v \<and> provider_groups name v"
proof
  assume p: "provider_ref_pattern s = Some (name, v)"
  have j: "s = join [CHR ''@''] (split_on (CHR ''@'') s)" by (simp add: join_split)
  from p consider "split_on (CHR ''@'') s = [name]" "v = None" "provider_name name"
    | w where "split_on (CHR ''@'') s = [name, w]" "v = Some w" "provider_name name" "provider_version w"
    by (auto simp: provider_ref_pattern_def split: list.splits if_splits)
  then show "s = provider_ref name v \<and> provider_groups name v"
    using j by cases (auto simp: provider_groups_def)
next
  assume "s = provider_ref name v \<and> provider_groups name v"
  moreover have "CHR ''@'' \<notin> set name" if "provider_name name"
    using that by (force simp: provider_name_def word_char_def in_range_def)
  moreover have "CHR ''@'' \<notin> set w" if "provider_version w" for w
    using that by (force simp: provider_version_def ident_char_def in_range_def)
  ultimately show "provider_ref_pattern s = Some (name, v)"
    using split_on_join [of "[name]" "CHR ''@''"] split_on_join [of "[name, the v]" "CHR ''@''"]
    by (cases v) (auto simp: provider_ref_pattern_def provider_groups_def)
qed

lemma provider_ref_clean:
  assumes "provider_groups name v"
  shows "clean (provider_ref name v)"
proof -
  have "\<not> is_space c" if "c \<in> set (provider_ref name v)" for c
    using that assms
    by (cases v) (auto simp: provider_groups_def provider_name_def provider_version_def word_char_def ident_char_def
        in_range_def is_space_def Let_def)
  moreover have "provider_ref name v \<noteq> []" using assms by (cases v) (auto simp: provider_groups_def provider_name_def)
  ultimately show ?thesis by (simp add: clean_iff)
qed

text \<open>
  Reading a provider reference inverts writing it: the name and the version of a reference come
  back, and every reference that is read is, up to surrounding blanks, the one written from its parts.
\<close>

theorem provider_ref_roundtrip:
  "parse_provider_ref s = Inr (name, v) \<longleftrightarrow> strip s = provider_ref name v \<and> provider_groups name v"
proof -
  have "provider_ref_pattern [] = None" by (simp add: provider_ref_pattern_def provider_name_def)
  then show ?thesis using provider_ref_clean
    by (auto simp: parse_provider_ref_def normalize_provider_ref_def nonblank_Inr rbind_Inr_iff clean_def
      provider_ref_pattern_iff [symmetric] split: option.splits)
qed

section \<open>What the startup check shows\<close>

definition slot_satisfied :: "extension_registry \<Rightarrow> string \<Rightarrow> string \<Rightarrow> bool" where
  "slot_satisfied exts slot ref \<longleftrightarrow> (\<exists>name v ext required. parse_provider_ref ref = Inr (name, v) \<and>
     map_of exts name = Some ext \<and> required_capabilities_for_slot slot = Inr required \<and>
     required \<subseteq> ex_capabilities ext \<and> (v = None \<or> v = Some (ex_version ext)))"

lemma slot_errors_Nil: "slot_errors exts pid (slot, ref) = Inr [] \<longleftrightarrow> slot_satisfied exts slot ref"
proof (cases "parse_provider_ref ref")
  case (Inr groups)
  obtain name v where g: "groups = (name, v)" by (cases groups)
  show ?thesis
    by (cases "map_of exts name"; cases "required_capabilities_for_slot slot"; cases v)
       (auto simp: Inr g slot_errors_def get_extension_def slot_satisfied_def)
qed (simp add: slot_errors_def slot_satisfied_def)

lemma rmap_concat_Nil: "rmap f xs = Inr yss \<Longrightarrow> concat yss = [] \<longleftrightarrow> (\<forall>x \<in> set xs. f x = Inr [])"
  by (induction xs arbitrary: yss) (auto simp: rbind_Inr_iff)

lemma rmap_all_Nil: "\<forall>x \<in> set xs. f x = Inr [] \<Longrightarrow> rmap f xs = Inr (replicate (length xs) [])"
  by (induction xs) auto

lemma rmap_concat_iff: "rbind (rmap f xs) (\<lambda>ess. Inr (concat ess)) = Inr [] \<longleftrightarrow> (\<forall>x \<in> set xs. f x = Inr [])"
  using rmap_concat_Nil [of f xs] rmap_all_Nil [of xs f]
  by (auto simp: rbind_Inr_iff simp del: concat_eq_Nil_conv)

lemma profile_errors_Nil:
  "profile_errors exts p = Inr [] \<longleftrightarrow>
     (\<forall>(slot, ref) \<in> set (iter_provider_slots (pd_required_providers p)). slot_satisfied exts slot ref)"
  unfolding profile_errors_def rmap_concat_iff by (auto simp: slot_errors_Nil)

lemma startup_passes:
  "validate_profile_startup profiles exts = Inr () \<longleftrightarrow>
     (\<forall>p \<in> set (list_profiles profiles). \<forall>(slot, ref) \<in> set (iter_provider_slots (pd_required_providers p)).
        slot_satisfied exts slot ref)"
proof -
  have "validate_profile_startup profiles exts = Inr () \<longleftrightarrow>
      rbind (rmap (profile_errors exts) (list_profiles profiles)) (\<lambda>ess. Inr (concat ess)) = Inr []"
    by (auto simp: validate_profile_startup_def rbind_Inr_iff)
  then show ?thesis by (simp add: rmap_concat_iff profile_errors_Nil)
qed

text \<open>
  The startup check passes exactly when every provider that a profile asks for is registered, has
  the capability of its slot, and has the version that the reference names.
\<close>

theorem startup_iff:
  "validate_profile_startup profiles exts = Inr () \<longleftrightarrow>
     (\<forall>p \<in> set (list_profiles profiles). \<forall>(slot, ref) \<in> set (iter_provider_slots (pd_required_providers p)).
        slot_satisfied exts slot ref)"
  by (rule startup_passes)

section \<open>What loading the profiles shows\<close>

lemma load_profile_descriptor_ok: "load_profile_descriptor file = Inr (Inr p) \<Longrightarrow> wf_profile p"
  unfolding load_profile_descriptor_def
  by (auto simp: rbind_Inr_iff split: document.splits pyval.splits sum.splits exc.splits
      dest!: required_providers_ok intro: make_descriptor_ok)

lemma lefts_rights [simp]:
  "lefts [] = []" "lefts (Inl a # xs) = a # lefts xs" "lefts (Inr b # xs) = lefts xs"
  "rights [] = []" "rights (Inl a # xs) = rights xs" "rights (Inr b # xs) = b # rights xs"
  by (simp_all add: lefts_def rights_def)

lemma no_lefts: "lefts xs = [] \<Longrightarrow> xs = map Inr (rights xs)"
proof (induction xs)
  case (Cons x xs)
  then show ?case by (cases x) auto
qed simp

lemma loaded_descriptors:
  assumes "rmap load_profile_descriptor fs = Inr results" "lefts results = []"
  shows "rmap load_profile_descriptor fs = Inr (map Inr (rights results)) \<and> (\<forall>p \<in> set (rights results). wf_profile p)"
proof -
  have r: "results = map Inr (rights results)" using no_lefts [OF assms(2)] .
  have "wf_profile p" if "p \<in> set (rights results)" for p
  proof -
    have "Inr p \<in> set results" using that by (subst r) simp
    then show ?thesis using rmap_Inr_ex [OF assms(1)] load_profile_descriptor_ok by blast
  qed
  with assms(1) r show ?thesis by simp
qed

text \<open>
  C17. Loading that succeeds has accepted every file: each gives a well-formed profile, the ids are
  distinct, the registry lists the profiles in order of their ids and finds each under its id; when
  extensions were given, every provider that a profile asks for is there with its capability and
  version.
\<close>

theorem load_profiles_complete:
  assumes "load_profiles files exts = Inr reg"
  shows "\<exists>fs ps. files = Some fs \<and> rmap load_profile_descriptor fs = Inr (map Inr ps) \<and>
    (\<forall>p \<in> set ps. wf_profile p \<and> profile_lookup (pd_id p) reg = Inr p) \<and> distinct (map pd_id ps) \<and>
    list_profiles reg = sort_key pd_id ps \<and>
    (\<forall>es. exts = Some es \<longrightarrow> (\<forall>p \<in> set ps. \<forall>(slot, ref) \<in> set (iter_provider_slots (pd_required_providers p)).
       slot_satisfied es slot ref))"
proof -
  from assms obtain fs results where fs: "files = Some fs" "rmap load_profile_descriptor fs = Inr results"
    and none: "lefts results = []" "distinct (map pd_id (rights results))"
    and made: "make_registry (by_id pd_id (rights results)) = Inr reg"
    and startup: "(case exts of None \<Rightarrow> Inr () | Some es \<Rightarrow> validate_profile_startup reg es) = Inr ()"
    unfolding load_profiles_def Let_def
    by (auto simp: duplicate_id_errors_def elim!: InrEs split: option.splits)
  let ?ps = "rights results"
  note ps = loaded_descriptors [OF fs(2) none(1)]
  then have cl: "\<forall>p \<in> set ?ps. clean (pd_id p)" by (simp add: wf_profile_def)
  have reg: "reg = by_id pd_id ?ps" using made keyed_registry_built [OF cl none(2)] by (simp add: make_registry_def)
  then have l: "list_profiles reg = sort_key pd_id ?ps" by (simp add: list_profiles_def by_id_values)
  have "\<forall>es. exts = Some es \<longrightarrow> (\<forall>p \<in> set ?ps. \<forall>(slot, ref) \<in> set (iter_provider_slots (pd_required_providers p)).
       slot_satisfied es slot ref)"
    using startup by (cases exts) (simp_all add: startup_passes l)
  moreover have "\<forall>p \<in> set ?ps. wf_profile p \<and> profile_lookup (pd_id p) reg = Inr p"
    using ps cl lookup_by_id [OF none(2)] reg by (simp add: profile_lookup_def)
  ultimately show ?thesis using fs(1) ps none(2) l by blast
qed


section \<open>Which exceptions reach the caller\<close>

definition checked :: "exc + 'a \<Rightarrow> bool" where
  "checked r \<longleftrightarrow> (\<forall>e. r = Inl e \<longrightarrow> (\<exists>m. e = TypeError m \<or> e = ValueError m))"

lemma checked_basic [simp, intro]:
  "checked (Inr x)" "checked (Inl (TypeError m))" "checked (Inl (ValueError m))"
  "checked (ensure b (TypeError m))" "checked (ensure b (ValueError m))"
  by (auto simp: checked_def ensure_def)

lemma checked_rbind [intro]: "checked r \<Longrightarrow> (\<And>x. r = Inr x \<Longrightarrow> checked (f x)) \<Longrightarrow> checked (rbind r f)"
  by (cases r) (auto simp: checked_def)

lemma checked_require_text [simp, intro]: "checked (require_non_empty_text f s)"
  by (auto simp: checked_def require_non_empty_text_def Let_def ensure_def split: if_splits)

lemma checked_nonblank [simp, intro]: "checked (nonblank f v)"
  unfolding nonblank_def by (cases v) auto

lemma checked_iterate [simp, intro]: "checked (iterate v)"
  by (cases v) auto

lemma checked_optional [intro]: "(\<And>v. checked (c v)) \<Longrightarrow> checked (optional_field d k x c)"
  by (auto simp: optional_field_def split: option.split)

lemma checked_distinct_texts: "(\<And>v. checked (norm v)) \<Longrightarrow> checked (distinct_texts norm seen vs)"
  by (induction norm seen vs rule: distinct_texts.induct) auto

lemma checked_provider_ref [simp, intro]: "checked (normalize_provider_ref f v)"
  unfolding normalize_provider_ref_def by auto

lemma checked_provider_ref_list [simp, intro]: "checked (normalize_provider_ref_list f v)"
  unfolding normalize_provider_ref_list_def by (cases v) (auto intro!: checked_distinct_texts)

lemma checked_required_providers [simp, intro]: "checked (required_providers_of d)"
  unfolding required_providers_of_def check_kwargs_def by (intro checked_rbind checked_optional) auto

lemma checked_extensions [simp, intro]: "checked (normalize_supported_extensions vs)"
  unfolding normalize_supported_extensions_def normalize_extension_def by (auto intro!: checked_distinct_texts)

lemma checked_make_descriptor: "checked (make_descriptor i (PStr name) version exts rp)"
  unfolding make_descriptor_def normalize_version_def stripped.simps by (intro checked_rbind) auto

text \<open>A display name that is not a text is the one thing the loader does not turn into a message.\<close>

definition text_display_name :: "document \<Rightarrow> bool" where
  "text_display_name doc \<longleftrightarrow> (case doc of
     Parsed (PDict d) \<Rightarrow> (case map_of d ''display_name'' of Some (PStr _) \<Rightarrow> True | None \<Rightarrow> True | _ \<Rightarrow> False) | _ \<Rightarrow> True)"

lemma load_profile_descriptor_reports:
  assumes "text_display_name (snd file)"
  shows "\<exists>r. load_profile_descriptor file = Inr r"
proof (cases "snd file")
  case (Parsed v)
  show ?thesis
  proof (cases v)
    case (PDict d)
    show ?thesis
    proof (cases "dict_get d ''required_providers''")
      case (PDict raw)
      let ?r = "rbind (required_providers_of raw) (\<lambda>rp.
        rbind (check_kwargs [''id'', ''display_name'', ''version'', ''supported_extensions'', ''required_providers''] []
          (AList.delete ''asset_filters'' d)) (\<lambda>_.
        make_descriptor (dict_get d ''id'') (dict_get d ''display_name'') (dict_get d ''version'')
          (dict_get d ''supported_extensions'') rp))"
      have "checked ?r"
      proof (intro checked_rbind, goal_cases)
        case (3 rp u)
        then have "''display_name'' \<in> set (dict_keys d)"
          by (auto simp: check_kwargs_def rbind_Inr_iff dict_keys_def AList.delete_keys)
        then obtain w where "map_of d ''display_name'' = Some w" by (auto simp: dict_keys_def map_of_eq_None_iff dest: weak_map_of_SomeI)
        with assms Parsed \<open>v = PDict d\<close> obtain name where "dict_get d ''display_name'' = PStr name"
          by (auto simp: text_display_name_def dict_get_def split: pyval.splits)
        then show ?case by (simp add: checked_make_descriptor)
      qed (auto simp: check_kwargs_def)
      then show ?thesis using Parsed \<open>v = PDict d\<close> PDict
        by (cases ?r) (auto simp: load_profile_descriptor_def checked_def)
    qed (auto simp: load_profile_descriptor_def Parsed PDict)
  qed (auto simp: load_profile_descriptor_def Parsed)
qed (auto simp: load_profile_descriptor_def)


lemma indexed_slot: "(slot, ref) \<in> set (indexed name refs) \<Longrightarrow> starts_with slot (name @ ''['')"
proof -
  have "starts_with (p @ q @ r) (p @ q)" for p q r :: string
    by (induction p) (simp, induction q, simp_all)
  then have "starts_with (name @ ''['' @ show_nat i @ '']'') (name @ ''['')" for i .
  moreover assume "(slot, ref) \<in> set (indexed name refs)"
  then obtain i where "slot = name @ ''['' @ show_nat i @ '']''" by (auto simp: indexed_def)
  ultimately show "starts_with slot (name @ ''['')" by (simp only:)
qed

lemma slot_has_capability:
  assumes "(slot, ref) \<in> set (iter_provider_slots rp)"
  shows "\<exists>c. required_capabilities_for_slot slot = Inr c"
proof -
  have "slot \<in> {''model'', ''memory'', ''knowledge'', ''tracer''} \<or> starts_with slot ''tool['' \<or> starts_with slot ''channel[''"
    using assms indexed_slot [of slot ref "''tool''"] indexed_slot [of slot ref "''channel''"]
    by (simp add: iter_provider_slots_def) blast
  then show ?thesis by (auto simp: required_capabilities_for_slot_def simp del: starts_with.simps)
qed

lemma slot_errors_total:
  "(slot, ref) \<in> set (iter_provider_slots rp) \<Longrightarrow> wf_required_providers rp \<Longrightarrow> \<exists>es. slot_errors exts pid (slot, ref) = Inr es"
proof -
  assume s: "(slot, ref) \<in> set (iter_provider_slots rp)" and wf: "wf_required_providers rp"
  then obtain name v c where "parse_provider_ref ref = Inr (name, v)" "required_capabilities_for_slot slot = Inr c"
    using wf_ref_parses slot_has_capability unfolding wf_required_providers_def by fast
  then show ?thesis by (simp add: slot_errors_def get_extension_def split: option.split)
qed

lemma rmap_total: "(\<And>x. x \<in> set xs \<Longrightarrow> \<exists>y. f x = Inr y) \<Longrightarrow> \<exists>ys. rmap f xs = Inr ys"
proof (induction xs)
  case (Cons x xs)
  then obtain y ys where "f x = Inr y" "rmap f xs = Inr ys" by (meson list.set_intros)
  then show ?case by simp
qed simp

lemma startup_reports:
  assumes "\<forall>p \<in> set (list_profiles profiles). wf_profile p" "validate_profile_startup profiles exts = Inl e"
  shows "\<exists>es. e = ProfileStartupError es"
proof -
  have "\<exists>es. profile_errors exts p = Inr es" if "wf_profile p" for p
  proof -
    have "\<exists>ess. rmap (slot_errors exts (pd_id p)) (iter_provider_slots (pd_required_providers p)) = Inr ess"
      using that slot_errors_total unfolding wf_profile_def by (intro rmap_total) auto
    then show ?thesis by (auto simp: profile_errors_def)
  qed
  with assms(1) obtain ess where "rmap (profile_errors exts) (list_profiles profiles) = Inr ess"
    using rmap_total [of "list_profiles profiles" "profile_errors exts"] by blast
  with assms(2) show ?thesis by (auto simp: validate_profile_startup_def ensure_def split: if_splits)
qed

text \<open>
  Whatever the files hold, a load that fails reports it as one of the two load errors, provided
  every display name is a text: no other exception of a validator or of the registry escapes.
\<close>

theorem load_profiles_reports:
  assumes "load_profiles (Some fs) exts = Inl e" "\<forall>file \<in> set fs. text_display_name (snd file)"
  shows "(\<exists>es. e = ProfileLoadError es) \<or> (\<exists>es. e = ProfileStartupError es)"
proof -
  obtain results where r: "rmap load_profile_descriptor fs = Inr results"
    using rmap_total [of fs load_profile_descriptor] load_profile_descriptor_reports assms(2) by blast
  show ?thesis
  proof (cases "lefts results = [] \<and> distinct (map pd_id (rights results))")
    case True
    then have ps: "\<forall>p \<in> set (rights results). wf_profile p" using loaded_descriptors [OF r] by blast
    then have "make_registry (by_id pd_id (rights results)) = Inr (by_id pd_id (rights results))"
      using True keyed_registry_built [of "rights results" pd_id] by (simp add: make_registry_def wf_profile_def)
    with assms(1) r True have "(case exts of None \<Rightarrow> Inr () | Some es \<Rightarrow> validate_profile_startup (by_id pd_id (rights results)) es) = Inl e"
      by (auto simp: load_profiles_def Let_def duplicate_id_errors_def rbind_Inl_iff)
    moreover have "\<forall>p \<in> set (list_profiles (by_id pd_id (rights results))). wf_profile p"
      using ps by (simp add: list_profiles_def by_id_values)
    ultimately show ?thesis using startup_reports by (auto split: option.splits)
  next
    case False
    with assms(1) r show ?thesis
      by (auto simp: load_profiles_def Let_def duplicate_id_errors_def ensure_def split: if_splits)
  qed
qed

definition demo_profile :: "string \<Rightarrow> pyval \<Rightarrow> payload" where
  "demo_profile i name = [(''id'', PStr i), (''display_name'', name), (''version'', PStr ''1.0.0''),
     (''asset_filters'', PTuple []), (''supported_extensions'', PTuple [PStr ''skill'', PStr ''profile_overlay'']),
     (''required_providers'', PDict [(''model'', PStr ''fake-model@1.0.0''), (''memory'', PStr ''fake-memory''),
        (''knowledge'', PStr ''fake-knowledge''), (''tool'', PTuple [PStr ''fake-tool''])])]"

definition demo_profiles :: "(string \<times> document) list" where
  "demo_profiles = [(''profiles/coding/profile.yaml'', Parsed (PDict (demo_profile ''coding'' (PStr ''Coding'')))),
     (''profiles/ea/profile.yaml'', Parsed (PDict (demo_profile ''ea'' (PStr ''Assistant''))))]"

definition demo_extension :: "string \<Rightarrow> string \<Rightarrow> string \<Rightarrow> string \<times> extension" where
  "demo_extension name version capability =
     (name, \<lparr>ex_name = name, ex_version = version, ex_capabilities = {capability}\<rparr>)"

definition demo_extensions :: extension_registry where
  "demo_extensions = [demo_extension ''fake-model'' ''1.0.0'' ''model'', demo_extension ''fake-memory'' ''1'' ''memory'',
     demo_extension ''fake-knowledge'' ''1'' ''knowledge'', demo_extension ''fake-tool'' ''2'' ''tool'',
     demo_extension ''noop'' ''1'' ''tracer'']"

theorem load_profiles_complete_witness:
  "\<exists>reg. load_profiles (Some demo_profiles) (Some demo_extensions) = Inr reg \<and>
     map pd_id (list_profiles reg) = [''coding'', ''ea''] \<and>
     (\<exists>ps. rmap load_profile_descriptor demo_profiles = Inr (map Inr ps) \<and>
        (\<forall>p \<in> set ps. profile_lookup (pd_id p) reg = Inr p))"
proof -
  have "case load_profiles (Some demo_profiles) (Some demo_extensions) of Inl _ \<Rightarrow> False
      | Inr reg \<Rightarrow> map pd_id (list_profiles reg) = [''coding'', ''ea'']" by code_simp
  then obtain reg where "load_profiles (Some demo_profiles) (Some demo_extensions) = Inr reg"
    "map pd_id (list_profiles reg) = [''coding'', ''ea'']" by (rule case_Inr_obtain)
  with load_profiles_complete [OF this(1)] show ?thesis by (elim exE conjE, intro exI conjI) (assumption | simp)+
qed

theorem load_profiles_reports_witness:
  "\<exists>es. load_profiles (Some demo_profiles) (Some []) = Inl (ProfileStartupError es)"
proof -
  have f: "case load_profiles (Some demo_profiles) (Some []) of Inl (ProfileLoadError _) \<Rightarrow> False | Inl _ \<Rightarrow> True | Inr _ \<Rightarrow> False"
    by code_simp
  then obtain e where e: "load_profiles (Some demo_profiles) (Some []) = Inl e"
    by (cases "load_profiles (Some demo_profiles) (Some [])") simp_all
  have "\<forall>file \<in> set demo_profiles. text_display_name (snd file)" by code_simp
  from load_profiles_reports [OF e this] f [unfolded e] e show ?thesis by (elim disjE exE) simp_all
qed

text \<open>A number as display name, and extensions given as one text.\<close>

lemma numeric_display_name_escapes:
  "load_profiles (Some [(''profiles/x/profile.yaml'', Parsed (PDict (demo_profile ''x'' (PInt 5))))]) None =
     Inl (AttributeError ''strip'')"
  by code_simp

lemma text_as_extensions: "rbind (iterate (PStr ''team'')) normalize_supported_extensions = Inr [''t'', ''e'', ''a'', ''m'']"
  by code_simp

section \<open>What the extension registry keeps\<close>

definition extensions_ok :: "extension_registry \<Rightarrow> bool" where
  "extensions_ok reg \<longleftrightarrow> distinct (map fst reg) \<and> (\<forall>(name, ext) \<in> set reg. ex_name ext = name)"

definition extends :: "extension_registry \<Rightarrow> extension_registry \<Rightarrow> bool" where
  "extends reg reg' \<longleftrightarrow> (\<forall>name ext. map_of reg name = Some ext \<longrightarrow> map_of reg' name = Some ext)"

lemma register_cases:
  "(map_of reg (ex_name ext) = None \<and> register ext reg = (Inr (), reg @ [(ex_name ext, ext)])) \<or>
   (\<exists>old. map_of reg (ex_name ext) = Some old \<and> snd (register ext reg) = reg \<and>
      (fst (register ext reg) = Inr () \<longleftrightarrow> ex_version old = ex_version ext))"
proof (cases "map_of reg (ex_name ext)")
  case None
  then have "ex_name ext \<notin> fst ` set reg" by (simp add: map_of_eq_None_iff)
  with None show ?thesis by (simp add: register_def update_fresh)
qed (simp add: register_def)

lemma register_keeps:
  "extensions_ok reg \<Longrightarrow> extensions_ok (snd (register ext reg)) \<and> extends reg (snd (register ext reg))"
  using register_cases [of reg ext]
proof (elim disjE exE conjE, goal_cases)
  case 1
  then have "ex_name ext \<notin> fst ` set reg" by (simp add: map_of_eq_None_iff)
  with 1 show ?case by (simp add: extensions_ok_def extends_def map_add_def split: option.split)
next
  case (2 old)
  then show ?case by (simp add: extends_def)
qed

lemma extends_trans: "extends a b \<Longrightarrow> extends b c \<Longrightarrow> extends a c"
  by (simp add: extends_def)


lemma load_decl_keeps:
  "extensions_ok reg \<Longrightarrow> load_decl validate d (es, reg) = (es', reg') \<Longrightarrow>
     extensions_ok reg' \<and> extends reg reg' \<and> (\<exists>more. es' = es @ more)"
  using register_keeps [of reg]
  by (auto simp: load_decl_def extends_def split: sum.splits prod.splits) (metis snd_conv)+

lemma load_decls_keep:
  "extensions_ok reg \<Longrightarrow> fold (load_decl validate) ds (es, reg) = (es', reg') \<Longrightarrow>
     extensions_ok reg' \<and> extends reg reg' \<and> (\<exists>more. es' = es @ more)"
proof (induction ds arbitrary: es reg)
  case (Cons d ds)
  obtain es1 reg1 where one: "load_decl validate d (es, reg) = (es1, reg1)" by fastforce
  with Cons.prems(2) have two: "fold (load_decl validate) ds (es1, reg1) = (es', reg')" by simp
  from load_decl_keeps [OF Cons.prems(1) one] Cons.IH [OF _ two] show ?case
    by (auto intro: extends_trans)
qed (simp add: extends_def)

definition decl_loaded :: "(extension \<Rightarrow> payload \<Rightarrow> exc + unit) \<Rightarrow> extension_registry \<Rightarrow> extension_decl \<Rightarrow> bool" where
  "decl_loaded validate reg d \<longleftrightarrow> (\<exists>ext found. make_extension d = Inr ext \<and> validate ext (xd_config d) = Inr () \<and>
     get_extension (ex_name ext) reg = Inr found \<and> ex_name found = ex_name ext \<and> ex_version found = ex_version ext)"

lemma decl_loaded_extends: "decl_loaded validate reg d \<Longrightarrow> extends reg reg' \<Longrightarrow> decl_loaded validate reg' d"
  unfolding decl_loaded_def extends_def get_extension_def by (fastforce split: option.splits)

lemma startup_errors_Nil: "startup_errors name e = [] \<longleftrightarrow> e = ExtensionStartupError []"
  by (cases e) auto

text \<open>An error without messages would be lost, so no factory and no validator may raise one.\<close>

definition speaks :: "exc + 'a \<Rightarrow> bool" where
  "speaks r \<longleftrightarrow> r \<noteq> Inl (ExtensionStartupError [])"

lemma load_decl_silent:
  assumes "extensions_ok reg" "load_decl validate d (es, reg) = (es, reg')"
    "\<forall>ext c. speaks (validate ext c)" "speaks (make_extension d)"
  shows "decl_loaded validate reg' d"
proof -
  from assms(2-4) obtain ext where ext: "make_extension d = Inr ext" "validate ext (xd_config d) = Inr ()"
    by (auto simp: load_decl_def startup_errors_Nil rbind_Inl_iff rbind_Inr_iff speaks_def split: sum.splits)
  with assms(2) have r: "register ext reg = (Inr (), reg')"
    by (auto simp: load_decl_def startup_errors_Nil register_def split: sum.splits prod.splits option.splits if_splits)
  have "\<exists>found. map_of reg' (ex_name ext) = Some found \<and> ex_name found = ex_name ext \<and> ex_version found = ex_version ext"
    using register_cases [of reg ext]
  proof (elim disjE exE conjE, goal_cases)
    case 1
    then have "reg' = reg @ [(ex_name ext, ext)]" using r by simp
    with 1 show ?case by (simp add: map_add_def)
  next
    case (2 old)
    with r map_of_SomeD [OF 2(1)] assms(1) show ?case by (auto simp: extensions_ok_def)
  qed
  then show ?thesis using ext by (auto simp: decl_loaded_def get_extension_def)
qed

lemma load_decls_silent:
  assumes "extensions_ok reg" "fold (load_decl validate) ds ([], reg) = ([], reg')"
    "\<forall>ext c. speaks (validate ext c)" "\<forall>d \<in> set ds. speaks (make_extension d)"
  shows "\<forall>d \<in> set ds. decl_loaded validate reg' d"
  using assms
proof (induction ds arbitrary: reg)
  case (Cons d ds)
  obtain es1 reg1 where one: "load_decl validate d ([], reg) = (es1, reg1)" by fastforce
  with Cons.prems(2) have two: "fold (load_decl validate) ds (es1, reg1) = ([], reg')" by simp
  note keep = load_decl_keeps [OF Cons.prems(1) one]
  from load_decls_keep [OF _ two] keep have "es1 = []" and ext: "extends reg1 reg'" by auto
  then have "decl_loaded validate reg1 d" using one Cons.prems by (intro load_decl_silent) auto
  moreover have "\<forall>d \<in> set ds. decl_loaded validate reg' d"
    using Cons.IH [of reg1] two keep Cons.prems(3,4) \<open>es1 = []\<close> by auto
  ultimately show ?case using decl_loaded_extends ext by auto
qed simp

text \<open>
  Loading declared extensions never replaces a registered one: the registry stays consistent and
  keeps every entry, whether the load succeeds or not; when it succeeds, every declaration was built
  and validated, and its name is registered with the version it declares.
\<close>

theorem load_declared_keeps:
  assumes "extensions_ok reg" "load_declared validate ds reg = (r, reg')"
    "\<forall>ext c. speaks (validate ext c)" "\<forall>d \<in> set ds. speaks (make_extension d)"
  shows "extensions_ok reg' \<and> extends reg reg' \<and> (r = Inr () \<longrightarrow> (\<forall>d \<in> set ds. decl_loaded validate reg' d))"
proof -
  obtain es reg1 where f: "fold (load_decl validate) ds ([], reg) = (es, reg1)" by fastforce
  with assms(2) have r: "reg1 = reg'" "r = (if es \<noteq> [] then Inl (ExtensionStartupError es) else Inr ())"
    by (simp_all add: load_declared_def)
  have "\<forall>d \<in> set ds. decl_loaded validate reg' d" if "r = Inr ()"
    using that r f load_decls_silent [OF assms(1) _ assms(3,4)] by (auto split: if_splits)
  with load_decls_keep [OF assms(1) f] r show ?thesis by simp
qed

definition demo_decl :: "string \<Rightarrow> string \<Rightarrow> extension_decl" where
  "demo_decl name version = \<lparr>xd_name = name, xd_config = [],
     xd_factory = Some (\<lambda>c. Inr \<lparr>ex_name = name, ex_version = version, ex_capabilities = {''tool''}\<rparr>)\<rparr>"

theorem load_declared_keeps_witness:
  "\<exists>reg'. load_declared (\<lambda>ext c. Inr ()) [demo_decl ''fake-tool'' ''2'', demo_decl ''search'' ''1''] demo_extensions = (Inr (), reg') \<and>
     extends demo_extensions reg' \<and> decl_loaded (\<lambda>ext c. Inr ()) reg' (demo_decl ''search'' ''1'')"
proof -
  let ?ds = "[demo_decl ''fake-tool'' ''2'', demo_decl ''search'' ''1'']"
  let ?r = "load_declared (\<lambda>ext c. Inr ()) ?ds demo_extensions"
  have ok: "extensions_ok demo_extensions" by code_simp
  have "fst ?r = Inr ()" by code_simp
  then have r: "?r = (Inr (), snd ?r)" by (metis prod.collapse)
  have "\<forall>ext c. speaks ((\<lambda>ext c. Inr ()) ext c :: exc + unit)" "\<forall>d \<in> set ?ds. speaks (make_extension d)"
    by (simp_all add: speaks_def make_extension_def demo_decl_def)
  from load_declared_keeps [OF ok r this] r show ?thesis by (intro exI [of _ "snd ?r"] conjI) simp_all
qed

end
