(* ===== verification/Profile_Hydration.thy ===== *)
theory Profile_Hydration
  imports Profiles Asset_Registry
begin

text \<open>
  Hydration of the two checked-in profiles (profiles/ea/hydrate.py, profiles/coding/hydrate.py). The
  state of a call is its list of errors; the assistant's hydration also has the cache of coroutines
  that were run, keyed by \<open>id\<close>, a number the interpreter chooses and may choose again. The profile
  file, the asset files and the event loop that loads them are arguments.
\<close>

section \<open>State\<close>

record hydration =
  hy_errors :: "string list"
  hy_run_cache :: "nat set"

type_synonym 'a hydrating = "(hydration, 'a) prog"

definition add_errors :: "string list \<Rightarrow> unit hydrating" where
  "add_errors es = modify (\<lambda>s. s\<lparr>hy_errors := hy_errors s @ es\<rparr>)"

record profile_view =
  pv_descriptor :: profile_descriptor
  pv_asset_filters :: pyval
  pv_resolved_assets :: "asset list"

section \<open>Shared steps\<close>

definition load_raw_profile :: "document \<Rightarrow> payload hydrating" where
  "load_raw_profile doc = (case doc of
       Unreadable why \<Rightarrow> andthen (add_errors [''read error: '' @ why]) (ret [])
     | Unparsable why \<Rightarrow> raise (YAMLError why)
     | Parsed (PDict d) \<Rightarrow> ret d
     | Parsed _ \<Rightarrow> andthen (add_errors [''expected a mapping of profile settings'']) (ret []))"

text \<open>\<open>RequiredProviders(**raw.get(''required_providers'', {}))\<close>.\<close>

definition raw_required_providers :: "payload \<Rightarrow> exc + required_providers" where
  "raw_required_providers raw = (case get_default raw ''required_providers'' (PDict []) of
     PDict d \<Rightarrow> required_providers_of d | _ \<Rightarrow> Inl (TypeError ''argument after ** must be a mapping''))"

definition descriptor_from_raw ::
  "string \<Rightarrow> string \<Rightarrow> payload \<Rightarrow> pyval \<Rightarrow> required_providers \<Rightarrow> exc + profile_registry" where
  "descriptor_from_raw noop_id noop_name raw exts rp =
     rbind (iterate exts) (\<lambda>vs.
     rbind (make_descriptor (get_default raw ''id'' (PStr noop_id)) (get_default raw ''display_name'' (PStr noop_name))
       (get_default raw ''version'' (PStr ''0.0.0'')) (PTuple vs) rp) (\<lambda>p.
     make_registry [(pd_id p, p)]))"

text \<open>A filter that is no mapping fails in the test for its operation or in the access to it.\<close>

fun filter_mapping :: "pyval \<Rightarrow> exc + payload" where
  "filter_mapping (PDict d) = Inr d"
| "filter_mapping (PStr s) = Inl (if contains ''op'' s then TypeError ''string indices must be integers''
     else FilterError ''filter expression missing op field'')"
| "filter_mapping (PTuple vs) = Inl (if PStr ''op'' \<in> set vs then TypeError ''list indices must be integers''
     else FilterError ''filter expression missing op field'')"
| "filter_mapping _ = Inl (TypeError ''argument is not iterable'')"

fun run_filter_values :: "pyval list \<Rightarrow> asset list \<Rightarrow> exc + asset list" where
  "run_filter_values [] assets = Inr assets"
| "run_filter_values (v # vs) assets =
     rbind (filter_mapping v) (\<lambda>d. rbind (run_filters [d] assets) (run_filter_values vs))"

definition resolve_assets :: "pyval \<Rightarrow> asset_registry \<Rightarrow> exc + asset list" where
  "resolve_assets filters reg = (if truthy filters \<and> is_valid reg
     then rbind (iterate filters) (\<lambda>vs. run_filter_values vs (all_assets reg)) else Inr [])"

definition get_descriptor :: "string \<Rightarrow> (string list \<Rightarrow> exc) \<Rightarrow> profile_registry \<Rightarrow> profile_descriptor hydrating" where
  "get_descriptor name failure reg = (case profile_lookup name reg of
       Inr d \<Rightarrow> ret d
     | Inl (KeyError _) \<Rightarrow> andthen (add_errors [name @ '' not found in profile registry''])
         (bind (gets hy_errors) (\<lambda>es. raise (failure es)))
     | Inl e \<Rightarrow> raise e)"

definition view_of :: "profile_descriptor \<Rightarrow> pyval \<Rightarrow> asset list \<Rightarrow> profile_view" where
  "view_of d filters assets = \<lparr>pv_descriptor = d,
     pv_asset_filters = (if truthy filters then filters else PTuple []), pv_resolved_assets = assets\<rparr>"

section \<open>The assistant's profile\<close>

definition asyncio_run_once :: "nat \<Rightarrow> asset_registry \<Rightarrow> asset_registry \<Rightarrow> asset_registry hydrating" where
  "asyncio_run_once key before after s =
     (if key \<in> hy_run_cache s then (Inr before, s)
      else (Inr after, s\<lparr>hy_run_cache := insert key (hy_run_cache s)\<rparr>))"

definition build_ea_registry :: "payload \<Rightarrow> profile_registry hydrating" where
  "build_ea_registry raw =
     bind (case raw_required_providers raw of
         Inr rp \<Rightarrow> ret rp
       | Inl e \<Rightarrow> andthen (add_errors [''required_providers'']) (lift (required_providers_of
           [(''model'', PStr []), (''memory'', PStr []), (''knowledge'', PStr []), (''tracer'', PStr [])]))) (\<lambda>rp.
     lift (descriptor_from_raw ''ea-noop'' ''EA No-Op'' raw (get_default raw ''supported_extensions'' (PTuple [])) rp))"

definition check_ea_providers :: "profile_descriptor \<Rightarrow> extension_registry option \<Rightarrow> unit hydrating" where
  "check_ea_providers d exts = (case exts of None \<Rightarrow> ret ()
     | Some es \<Rightarrow> (case rbind (make_registry [(''ea'', d)]) (\<lambda>reg. validate_profile_startup reg es) of
         Inr _ \<Rightarrow> ret () | Inl (ProfileStartupError msgs) \<Rightarrow> add_errors msgs | Inl e \<Rightarrow> raise e))"

definition zero_asset_errors :: "pyval \<Rightarrow> asset list \<Rightarrow> string list \<Rightarrow> string list" where
  "zero_asset_errors filters resolved errors =
     (if \<not> truthy filters \<and> errors = [] then [''EA profile has no asset_filters'']
      else if truthy filters \<and> resolved = [] \<and> errors = [] then [''EA profile has asset_filters but resolved zero assets'']
      else [])"

text \<open>The call: the profile file, the registries that were passed, the coroutine's number and the
  asset files it would load.\<close>

definition hydrate_ea_profile ::
  "(payload \<Rightarrow> bool) \<Rightarrow> document \<Rightarrow> profile_registry option \<Rightarrow> asset_registry option \<Rightarrow> extension_registry option \<Rightarrow>
     nat \<Rightarrow> (string \<times> document) list option \<Rightarrow> profile_view hydrating" where
  "hydrate_ea_profile declared doc profiles assets exts coroutine files =
     bind (load_raw_profile doc) (\<lambda>raw.
     bind (case profiles of Some reg \<Rightarrow> ret reg | None \<Rightarrow> build_ea_registry raw) (\<lambda>profile_registry.
     bind (get_descriptor ''ea'' ProfileHydrationError profile_registry) (\<lambda>descriptor.
     bind (check_ea_providers descriptor exts) (\<lambda>_.
     let filters = get_default raw ''asset_filters'' (PTuple []) in
     bind (case assets of Some reg \<Rightarrow> ret reg
       | None \<Rightarrow> asyncio_run_once coroutine empty_registry (load_from_dir declared files empty_registry)) (\<lambda>asset_reg.
     bind (lift (resolve_assets filters asset_reg)) (\<lambda>resolved.
     bind (add_errors (ar_errors asset_reg)) (\<lambda>_.
     bind (gets hy_errors) (\<lambda>errors.
     bind (add_errors (zero_asset_errors filters resolved errors)) (\<lambda>_.
     bind (gets hy_errors) (\<lambda>errors.
     andthen (require (errors = []) (ProfileHydrationError errors))
     (ret (view_of descriptor filters resolved))))))))))))"

section \<open>The coding profile\<close>

definition stub_providers :: payload where
  "stub_providers = [(''model'', PStr ''stub''), (''memory'', PStr ''stub''), (''knowledge'', PStr ''stub''),
     (''tracer'', PStr ''noop'')]"

definition build_coding_registry :: "payload \<Rightarrow> profile_registry hydrating" where
  "build_coding_registry raw = (case raw_required_providers raw of
       Inr rp \<Rightarrow> lift (descriptor_from_raw ''coding-noop'' ''Coding No-Op'' raw
         (get_default raw ''supported_extensions'' (PTuple [])) rp)
     | Inl e \<Rightarrow>
         bind (lift (required_providers_of stub_providers)) (\<lambda>rp.
         let exts = dict_get raw ''supported_extensions'' in
         bind (lift (descriptor_from_raw ''coding-noop'' ''Coding No-Op'' raw
           (if truthy exts then exts else PTuple [PStr ''noop'']) rp)) (\<lambda>reg.
         andthen (add_errors [''required_providers'']) (ret reg))))"

definition hydrate_coding_profile ::
  "(payload \<Rightarrow> bool) \<Rightarrow> document \<Rightarrow> profile_registry option \<Rightarrow> asset_registry option \<Rightarrow>
     (string \<times> document) list option \<Rightarrow> profile_view hydrating" where
  "hydrate_coding_profile declared doc profiles assets files =
     bind (load_raw_profile doc) (\<lambda>raw.
     bind (case profiles of Some reg \<Rightarrow> ret reg | None \<Rightarrow> build_coding_registry raw) (\<lambda>profile_registry.
     bind (get_descriptor ''coding'' CodingProfileHydrationError profile_registry) (\<lambda>descriptor.
     let filters = get_default raw ''asset_filters'' (PTuple []);
         asset_reg = (case assets of Some reg \<Rightarrow> reg | None \<Rightarrow> load_from_dir declared files empty_registry) in
     bind (lift (resolve_assets filters asset_reg)) (\<lambda>resolved.
     bind (add_errors (ar_errors asset_reg)) (\<lambda>_.
     bind (gets hy_errors) (\<lambda>errors.
     andthen (require (errors = []) (CodingProfileHydrationError errors))
     (ret (view_of descriptor filters resolved))))))))"


section \<open>Properties\<close>

lemma add_errors_apply [prog_simps]: "add_errors es s = (Inr (), s\<lparr>hy_errors := hy_errors s @ es\<rparr>)"
  by (simp add: add_errors_def prog_simps)

lemma run_filter_values_run:
  "run_filter_values vs xs = Inr ys \<Longrightarrow> \<exists>ds. vs = map PDict ds \<and> run_filters ds xs = Inr ys"
proof (induction vs arbitrary: xs)
  case (Cons v vs)
  then obtain d zs where d: "v = PDict d" "run_filters [d] xs = Inr zs" "run_filter_values vs zs = Inr ys"
    by (cases v) (auto simp: rbind_Inr_iff)
  from Cons.IH [OF d(3)] obtain ds where "vs = map PDict ds" "run_filters ds zs = Inr ys" by blast
  with d show ?case by (intro exI [of _ "d # ds"]) (auto simp: rbind_Inr_iff)
qed simp

text \<open>What the filters of a view select.\<close>

definition selected_by :: "pyval \<Rightarrow> asset \<Rightarrow> bool" where
  "selected_by filters a \<longleftrightarrow> (\<exists>ds fs. filters = PTuple (map PDict ds) \<and> rmap filter_from_dict ds = Inr fs \<and>
     (\<forall>f \<in> set fs. filter_keeps f a))"

lemma iterate_mappings: "iterate v = Inr (map PDict ds) \<Longrightarrow> truthy v \<Longrightarrow> v = PTuple (map PDict ds)"
  by (cases v; cases ds) auto

lemma resolved_selected:
  assumes "resolve_assets filters reg = Inr out" "a \<in> set out"
  shows "a \<in> set (all_assets reg) \<and> selected_by filters a"
proof -
  from assms obtain vs where t: "truthy filters" "iterate filters = Inr vs" "run_filter_values vs (all_assets reg) = Inr out"
    by (auto simp: resolve_assets_def rbind_Inr_iff split: if_splits)
  from run_filter_values_run [OF t(3)] obtain ds where ds: "vs = map PDict ds" "run_filters ds (all_assets reg) = Inr out"
    by blast
  from run_filters_keeps [OF ds(2)] obtain fs where
    "rmap filter_from_dict ds = Inr fs" "out = filter (\<lambda>a. \<forall>f \<in> set fs. filter_keeps f a) (all_assets reg)" by blast
  with assms(2) iterate_mappings t ds(1) show ?thesis by (auto simp: selected_by_def)
qed

definition profiles_ok :: "profile_registry \<Rightarrow> bool" where
  "profiles_ok reg \<longleftrightarrow> (\<forall>(key, p) \<in> set reg. key = pd_id p)"

lemma lookup_id:
  assumes "profile_lookup name reg = Inr d" "profiles_ok reg" "clean name"
  shows "pd_id d = name"
proof -
  have "map_of reg name = Some d"
    using assms(1,3) by (auto simp: profile_lookup_def registry_lookup_def clean_nonblank split: option.splits)
  then show ?thesis using assms(2) by (auto simp: profiles_ok_def dest: map_of_SomeD)
qed

lemma get_descriptor_Inr: "get_descriptor name f reg s = (Inr d, t) \<longleftrightarrow> profile_lookup name reg = Inr d \<and> t = s"
  by (auto simp: get_descriptor_def prog_simps split: sum.splits exc.splits)

lemma descriptor_from_raw_ok: "descriptor_from_raw i n raw exts rp = Inr reg \<Longrightarrow> profiles_ok reg"
  by (auto simp: descriptor_from_raw_def rbind_Inr_iff make_registry_def profiles_ok_def)

lemma build_ea_ok: "build_ea_registry raw s = (Inr reg, t) \<Longrightarrow> profiles_ok reg"
  by (auto simp: build_ea_registry_def bind_Inr_iff lift_def dest: descriptor_from_raw_ok)

lemma checked_rmap: "(\<And>x. x \<in> set xs \<Longrightarrow> checked (f x)) \<Longrightarrow> checked (rmap f xs)"
  by (induction xs) auto

lemma checked_profile_errors: "checked (profile_errors exts p)"
proof -
  have "checked (slot_errors exts pid sr)" for pid sr
    unfolding slot_errors_def parse_provider_ref_def required_capabilities_for_slot_def
    by (auto split: prod.split option.split sum.split intro!: checked_rbind)
  then show ?thesis unfolding profile_errors_def by (intro checked_rbind checked_rmap) auto
qed

lemma startup_error_nonempty: "validate_profile_startup profiles es = Inl (ProfileStartupError msgs) \<Longrightarrow> msgs \<noteq> []"
  using checked_rmap [of "list_profiles profiles" "profile_errors es"] checked_profile_errors [of es]
  by (auto simp: validate_profile_startup_def rbind_Inl_iff checked_def ensure_def split: if_splits)

lemma check_ea_ok:
  assumes "check_ea_providers d (Some es) s = (Inr u, t)" "hy_errors t = []" "pd_id d = ''ea''"
  shows "\<forall>(slot, ref) \<in> set (iter_provider_slots (pd_required_providers d)). slot_satisfied es slot ref"
proof -
  have "make_registry [(''ea'', d)] = Inr [(''ea'', d)]"
    using keyed_registry_ok [of "[]" pd_id "[d]"] assms(3) by (simp add: make_registry_def clean_def strip_def is_space_def Let_def)
  with assms(1,2) have "validate_profile_startup [(''ea'', d)] es = Inr ()"
    using startup_error_nonempty [of "[(''ea'', d)]" es]
    by (cases "validate_profile_startup [(''ea'', d)] es")
       (auto simp: check_ea_providers_def prog_simps split: exc.splits)
  then show ?thesis by (simp add: startup_passes list_profiles_def)
qed


text \<open>
  A hydrated assistant profile is complete: its descriptor is the one named ea, it has at least one
  asset, every asset is one that all its filters keep, nothing was reported, and, when extensions were
  given, each of its providers is registered with its capability and version.
\<close>

theorem ea_view_complete:
  assumes "hydrate_ea_profile declared doc profiles assets exts coroutine files s = (Inr view, t)"
    "\<forall>reg. profiles = Some reg \<longrightarrow> profiles_ok reg"
  shows "pd_id (pv_descriptor view) = ''ea'' \<and> pv_resolved_assets view \<noteq> [] \<and>
    (\<forall>a \<in> set (pv_resolved_assets view). selected_by (pv_asset_filters view) a) \<and> hy_errors t = [] \<and>
    (\<forall>es. exts = Some es \<longrightarrow> (\<forall>(slot, ref) \<in> set (iter_provider_slots (pd_required_providers (pv_descriptor view))).
       slot_satisfied es slot ref))"
proof -
  from assms(1) obtain preg d filters areg resolved s1 s2 s3 raw where
    preg: "(case profiles of Some reg \<Rightarrow> ret reg | None \<Rightarrow> build_ea_registry raw) s1 = (Inr preg, s2)"
    and d: "profile_lookup ''ea'' preg = Inr d"
    and check: "check_ea_providers d exts s2 = (Inr (), s3)"
    and resolved: "resolve_assets filters areg = Inr resolved"
    and errors: "hy_errors s3 = []" "zero_asset_errors filters resolved [] = []" "hy_errors t = []"
    and view: "view = view_of d filters resolved"
    unfolding hydrate_ea_profile_def Let_def andthen_def
  proof (elim bind_InrE, goal_cases)
    case (1 raw s1 preg s2 d s3 u s4 areg s5 resolved s6 v s7 errors s8 w s9 errors' s10 x s11)
    let ?F = "get_default raw ''asset_filters'' (PTuple [])"
    have d: "profile_lookup ''ea'' preg = Inr d" "s3 = s2" using 1 by (simp_all add: get_descriptor_Inr)
    have cached: "hy_errors s5 = hy_errors s4"
      using 1 by (auto simp: asyncio_run_once_def ret_def split: option.splits if_splits)
    have resolved: "resolve_assets ?F areg = Inr resolved" "s6 = s5" using 1 by (simp_all add: lift_def)
    have grown: "hy_errors s7 = hy_errors s6 @ ar_errors areg" "errors = hy_errors s7" "s8 = s7"
      "hy_errors s9 = hy_errors s8 @ zero_asset_errors ?F resolved errors"
      using 1 by (auto simp: add_errors_apply gets_def)
    have ended: "s9 = s10" "s10 = s11" "s11 = t" "hy_errors s10 = []" "view = view_of d ?F resolved" using 1
      by (simp_all add: prog_simps split: if_splits)
    have none: "hy_errors s4 = []" "errors = []" "zero_asset_errors ?F resolved errors = []"
      using grown ended(1,4) cached resolved(2) by auto
    have "check_ea_providers d exts s2 = (Inr (), s4)" "hy_errors t = []" using 1 d(2) ended by simp_all
    with none d(1) resolved(1) ended(5) show thesis by (intro 1(1) [OF 1(3)]) simp_all
  qed
  have "profiles_ok preg"
    using preg assms(2) build_ea_ok by (auto simp: ret_def split: option.splits)
  then have "pd_id d = ''ea''" using d by (intro lookup_id) (simp_all add: clean_def strip_def is_space_def Let_def)
  moreover have "resolved \<noteq> []" "truthy filters"
    using errors by (auto simp: zero_asset_errors_def split: if_splits)
  moreover have "\<forall>a \<in> set resolved. selected_by filters a" using resolved_selected [OF resolved] by blast
  moreover have "\<forall>(slot, ref) \<in> set (iter_provider_slots (pd_required_providers d)). slot_satisfied es slot ref"
    if "exts = Some es" for es
    using check_ea_ok [of d es s2 "()" s3] that check errors \<open>pd_id d = ''ea''\<close> by auto
  ultimately show ?thesis using view errors(3) by (simp add: view_of_def)
qed


lemma cached_steps:
  "Prelude.keeps (\<lambda>s. k \<in> hy_run_cache s) (load_raw_profile doc)"
  "Prelude.keeps (\<lambda>s. k \<in> hy_run_cache s) (build_ea_registry raw)"
  "Prelude.keeps (\<lambda>s. k \<in> hy_run_cache s) (check_ea_providers d exts)"
  by (auto simp: obeys_def load_raw_profile_def build_ea_registry_def check_ea_providers_def prog_simps
      split: document.split pyval.split sum.split exc.split option.split prod.split)

text \<open>
  A coroutine whose number was used before is not run: with such a number no call that has to load
  the assets itself returns a profile, whatever the files hold.
\<close>

theorem reused_number_never_hydrates:
  assumes "coroutine \<in> hy_run_cache s"
  shows "\<nexists>view t. hydrate_ea_profile declared doc profiles None exts coroutine files s = (Inr view, t)"
proof
  assume "\<exists>view t. hydrate_ea_profile declared doc profiles None exts coroutine files s = (Inr view, t)"
  then obtain view t where h: "hydrate_ea_profile declared doc profiles None exts coroutine files s = (Inr view, t)" by blast
  then show False
    unfolding hydrate_ea_profile_def Let_def andthen_def
  proof (elim bind_InrE, goal_cases)
    case (1 raw s1 preg s2 d s3 u s4 areg s5 resolved s6 v s7 errors s8 w s9 errors' s10 x s11)
    let ?F = "get_default raw ''asset_filters'' (PTuple [])"
    have "coroutine \<in> hy_run_cache s1" using obeysD [OF cached_steps(1)] 1(1) assms by blast
    then have "coroutine \<in> hy_run_cache s2"
      using obeysD [OF cached_steps(2)] 1(2) by (auto simp: ret_def split: option.splits)
    moreover have "s3 = s2" using 1 by (simp add: get_descriptor_Inr)
    ultimately have "coroutine \<in> hy_run_cache s4" using obeysD [OF cached_steps(3)] 1(4) by blast
    then have "areg = empty_registry" using 1(5) by (simp add: asyncio_run_once_def)
    moreover have "resolve_assets ?F areg = Inr resolved" using 1(6) by (simp add: lift_def)
    ultimately have "a \<notin> set resolved" for a
      using resolved_selected [of ?F areg resolved a] by (auto simp: all_assets_def empty_registry_def)
    then have "resolved = []" by (cases resolved) auto
    moreover have "zero_asset_errors ?F resolved errors = [] \<and> errors = []"
      using 1 by (auto simp: add_errors_apply gets_def prog_simps split: if_splits)
    ultimately show False by (simp add: zero_asset_errors_def split: if_splits)
  qed
qed

text \<open>
  A profile file that cannot be read is reported as a hydration error for the coding profile only:
  the assistant's fallback for providers that are refused is refused itself, so the call ends in a
  \<open>ValueError\<close> and the collected messages are lost.
\<close>

theorem unreadable_profile:
  "(\<exists>m t. hydrate_ea_profile declared (Unreadable why) None assets exts coroutine files s = (Inl (ValueError m), t)) \<and>
   (\<exists>es t. hydrate_coding_profile declared (Unreadable why) None assets files s = (Inl (CodingProfileHydrationError es), t))"
proof
  have "case raw_required_providers [] of Inl _ \<Rightarrow> True | Inr _ \<Rightarrow> False" by code_simp
  then obtain e where none: "raw_required_providers [] = Inl e" by (auto split: sum.splits)
  have "case required_providers_of [(''model'', PStr []), (''memory'', PStr []), (''knowledge'', PStr []), (''tracer'', PStr [])]
      of Inl (ValueError _) \<Rightarrow> True | _ \<Rightarrow> False" by code_simp
  then obtain m where fallback: "required_providers_of [(''model'', PStr []), (''memory'', PStr []),
      (''knowledge'', PStr []), (''tracer'', PStr [])] = Inl (ValueError m)" by (auto split: sum.splits exc.splits)
  show "\<exists>m t. hydrate_ea_profile declared (Unreadable why) None assets exts coroutine files s = (Inl (ValueError m), t)"
    by (simp add: hydrate_ea_profile_def load_raw_profile_def build_ea_registry_def none fallback prog_simps)
  have "case rbind (required_providers_of stub_providers)
      (descriptor_from_raw ''coding-noop'' ''Coding No-Op'' [] (PTuple [PStr ''noop''])) of
      Inl _ \<Rightarrow> False | Inr reg \<Rightarrow> profile_lookup ''coding'' reg = Inl (KeyError ''coding'')" by code_simp
  then obtain rp reg where "required_providers_of stub_providers = Inr rp"
    "descriptor_from_raw ''coding-noop'' ''Coding No-Op'' [] (PTuple [PStr ''noop'']) rp = Inr reg"
    "profile_lookup ''coding'' reg = Inl (KeyError ''coding'')" by (auto simp: rbind_Inr_iff elim!: case_Inr_obtain)
  then show "\<exists>es t. hydrate_coding_profile declared (Unreadable why) None assets files s = (Inl (CodingProfileHydrationError es), t)"
    by (simp add: hydrate_coding_profile_def load_raw_profile_def build_coding_registry_def none dict_get_def
        get_descriptor_def prog_simps Let_def)
qed

section \<open>Concrete inputs\<close>

definition demo_ea_document :: document where
  "demo_ea_document = Parsed (PDict ((''asset_filters'', PTuple [PDict by_mail_tag, PDict without_ui]) #
     AList.delete ''asset_filters'' (demo_profile ''ea'' (PStr ''Assistant''))))"

definition fresh_hydration :: hydration where
  "fresh_hydration = \<lparr>hy_errors = [], hy_run_cache = {}\<rparr>"

theorem ea_view_complete_witness:
  "\<exists>view t. hydrate_ea_profile (\<lambda>_. True) demo_ea_document None None (Some demo_extensions) 7 (Some demo_files)
       fresh_hydration = (Inr view, t) \<and>
     map as_id (pv_resolved_assets view) = [''inbox-triage''] \<and>
     (\<forall>a \<in> set (pv_resolved_assets view). selected_by (pv_asset_filters view) a)"
proof -
  let ?r = "hydrate_ea_profile (\<lambda>_. True) demo_ea_document None None (Some demo_extensions) 7 (Some demo_files) fresh_hydration"
  have "case fst ?r of Inl _ \<Rightarrow> False | Inr view \<Rightarrow> map as_id (pv_resolved_assets view) = [''inbox-triage'']" by code_simp
  then obtain view where view: "fst ?r = Inr view" "map as_id (pv_resolved_assets view) = [''inbox-triage'']"
    by (elim case_Inr_obtain)
  have r: "?r = (Inr view, snd ?r)" using view(1) by (metis prod.collapse)
  from ea_view_complete [OF r] view(2) r show ?thesis by (intro exI [of _ view] exI [of _ "snd ?r"] conjI) simp_all
qed

theorem reused_number_never_hydrates_witness:
  "\<exists>view s. hydrate_ea_profile (\<lambda>_. True) demo_ea_document None None None 7 (Some demo_files) fresh_hydration = (Inr view, s) \<and>
     (\<nexists>view' t. hydrate_ea_profile (\<lambda>_. True) demo_ea_document None None None 7 (Some demo_files) s = (Inr view', t))"
proof -
  let ?r = "hydrate_ea_profile (\<lambda>_. True) demo_ea_document None None None 7 (Some demo_files) fresh_hydration"
  have "7 \<in> hy_run_cache (snd ?r) \<and> (case fst ?r of Inl _ \<Rightarrow> False | Inr _ \<Rightarrow> True)" by code_simp
  then obtain view where c: "7 \<in> hy_run_cache (snd ?r)" "fst ?r = Inr view" by (elim conjE case_Inr_obtain)
  then have "?r = (Inr view, snd ?r)" by (metis prod.collapse)
  with reused_number_never_hydrates [OF c(1)] show ?thesis by blast
qed

text \<open>The coding profile is accepted without any asset, and its providers are never looked up.\<close>

lemma coding_profile_without_assets:
  "case fst (hydrate_coding_profile (\<lambda>_. True) (Parsed (PDict (demo_profile ''coding'' (PStr ''Coding'')))) None None
     (Some demo_files) fresh_hydration) of Inl _ \<Rightarrow> False | Inr view \<Rightarrow> pv_resolved_assets view = []"
  by code_simp

end
