(* ===== verification/Instances.thy ===== *)
theory Instances
  imports Profiles
begin

text \<open>
  Instances of profiles (config/instances.py, domain/instance.py, domain/channel_binding.py). A load
  collects its errors in a list, the state here. The manifest, the overlay files and the profile files
  are arguments: \<open>None\<close> is a path without a file, and a path is the text it was given as.
\<close>

section \<open>Channel bindings\<close>

record channel_binding =
  cb_channel_name :: string
  cb_transport :: string
  cb_path :: pyval
  cb_enabled :: pyval

definition valid_transports :: "string list" where
  "valid_transports = [''http'', ''sse'', ''cli'']"

text \<open>The providers that registered themselves.\<close>

definition register_channel_provider :: "string \<Rightarrow> string set \<Rightarrow> string set" where
  "register_channel_provider name reg = insert name reg"

definition check_transport :: "pyval \<Rightarrow> exc + string" where
  "check_transport v = (case v of
       PStr s \<Rightarrow> if s \<in> set valid_transports then Inr s else Inl (ValueError ''transport must be one of cli, http, sse'')
     | PTuple _ \<Rightarrow> Inl (TypeError ''unhashable type'')
     | PDict _ \<Rightarrow> Inl (TypeError ''unhashable type'')
     | _ \<Rightarrow> Inl (ValueError ''transport must be one of cli, http, sse''))"

definition make_binding :: "pyval \<Rightarrow> pyval \<Rightarrow> pyval \<Rightarrow> pyval \<Rightarrow> exc + channel_binding" where
  "make_binding name transport path enabled =
     rbind (stripped ''channel_name'' name) (\<lambda>n.
     rbind (check_transport transport) (\<lambda>tr.
     Inr \<lparr>cb_channel_name = n, cb_transport = tr, cb_path = path, cb_enabled = enabled\<rparr>))"

text \<open>\<open>d[k]\<close>.\<close>

definition item_of :: "payload \<Rightarrow> string \<Rightarrow> exc + pyval" where
  "item_of d k = (case map_of d k of None \<Rightarrow> Inl (KeyError k) | Some v \<Rightarrow> Inr v)"

definition binding_of :: "payload \<Rightarrow> exc + channel_binding" where
  "binding_of d =
     rbind (item_of d ''channel_name'') (\<lambda>name.
     rbind (item_of d ''transport'') (\<lambda>transport.
     make_binding name transport (dict_get d ''path'') (get_default d ''enabled'' (PBool True))))"

section \<open>Descriptors and configurations\<close>

record instance_descriptor =
  in_id :: string
  in_display_name :: string
  in_profile_id :: string
  in_config_path :: string
  in_channels :: "channel_binding list"

type_synonym instance_registry = "(string \<times> instance_descriptor) list"

record instance_config =
  ic_env :: "(string \<times> string) list"
  ic_overrides :: payload

definition config_path_of :: "pyval \<Rightarrow> exc + string" where
  "config_path_of v = (case v of PStr s \<Rightarrow> require_non_empty_text ''config_path'' s
     | _ \<Rightarrow> Inl (TypeError ''config_path must be a path-like string or Path''))"

text \<open>The channels of the manifest are accepted as they are and replaced by those of the overlay.\<close>

definition descriptor_of :: "payload \<Rightarrow> exc + instance_descriptor" where
  "descriptor_of d =
     rbind (check_kwargs [''id'', ''display_name'', ''profile_id'', ''config_path''] [''channels''] d) (\<lambda>_.
     rbind (nonblank ''id'' (dict_get d ''id'')) (\<lambda>i.
     rbind (stripped ''display_name'' (dict_get d ''display_name'')) (\<lambda>name.
     rbind (stripped ''profile_id'' (dict_get d ''profile_id'')) (\<lambda>pid.
     rbind (config_path_of (dict_get d ''config_path'')) (\<lambda>path.
     Inr \<lparr>in_id = i, in_display_name = name, in_profile_id = pid, in_config_path = path, in_channels = []\<rparr>)))))"

fun make_config :: "(string \<times> string) list \<Rightarrow> (string \<times> string) list \<Rightarrow> exc + (string \<times> string) list" where
  "make_config acc [] = Inr acc"
| "make_config acc ((key, value) # rest) =
     rbind (require_non_empty_text ''env key'' key) (\<lambda>k. make_config (AList.update k value acc) rest)"

section \<open>Reading one overlay\<close>

type_synonym 'a loading = "(string list, 'a) prog"

definition complain :: "string \<Rightarrow> unit loading" where
  "complain msg = modify (\<lambda>es. es @ [msg])"

definition read_yaml_mapping :: "string \<Rightarrow> document \<Rightarrow> string \<Rightarrow> payload option loading" where
  "read_yaml_mapping path doc label = (case doc of
       Unreadable why \<Rightarrow> andthen (complain (path @ '': unable to read file: '' @ why)) (ret None)
     | Unparsable why \<Rightarrow> andthen (complain (path @ '': YAML parse error: '' @ why)) (ret None)
     | Parsed (PDict d) \<Rightarrow> ret (Some d)
     | Parsed _ \<Rightarrow> andthen (complain (path @ '': expected a mapping of '' @ label @ '' settings'')) (ret None))"

definition mapping_field :: "payload \<Rightarrow> string \<Rightarrow> string \<Rightarrow> payload loading" where
  "mapping_field content field_name path = (case get_default content field_name (PDict []) of
       PDict d \<Rightarrow> ret d
     | _ \<Rightarrow> andthen (complain (path @ '': field '' @ field_name @ '' must be a mapping'')) (ret []))"

fun text_values :: "payload \<Rightarrow> (string \<times> string) list option" where
  "text_values [] = Some []"
| "text_values ((k, PStr v) # rest) = map_option (\<lambda>vs. (k, v) # vs) (text_values rest)"
| "text_values ((k, v) # rest) = None"

definition string_mapping_field :: "payload \<Rightarrow> string \<Rightarrow> string \<Rightarrow> (string \<times> string) list loading" where
  "string_mapping_field content field_name path = bind (mapping_field content field_name path) (\<lambda>raw.
     case text_values raw of Some vs \<Rightarrow> ret vs
     | None \<Rightarrow> andthen (complain (path @ '': field '' @ field_name @ '' values must be strings'')) (ret []))"

definition load_instance_config :: "string \<Rightarrow> document \<Rightarrow> instance_config option loading" where
  "load_instance_config path doc = bind (read_yaml_mapping path doc ''instance config'') (\<lambda>content.
     case content of None \<Rightarrow> ret None
     | Some d \<Rightarrow>
         bind (string_mapping_field d ''env'' path) (\<lambda>env.
         bind (mapping_field d ''overrides'' path) (\<lambda>overrides.
         case make_config [] env of
           Inl _ \<Rightarrow> andthen (complain (path @ '': env key must not be blank'')) (ret None)
         | Inr env' \<Rightarrow> ret (Some \<lparr>ic_env = env', ic_overrides = overrides\<rparr>))))"

type_synonym pairs = "(string \<times> pyval) list"

text \<open>One channel definition, \<open>None\<close> when it was reported and skipped.\<close>

definition accept_binding :: "string set \<Rightarrow> string \<Rightarrow> pyval \<Rightarrow> channel_binding option loading" where
  "accept_binding registry path v = (case v of
       PDict d \<Rightarrow> (case binding_of d of
         Inl (TypeError m) \<Rightarrow> andthen (complain (path @ '': '' @ m)) (ret None)
       | Inl (ValueError m) \<Rightarrow> andthen (complain (path @ '': '' @ m)) (ret None)
       | Inl (KeyError m) \<Rightarrow> andthen (complain (path @ '': '' @ m)) (ret None)
       | Inl e \<Rightarrow> raise e
       | Inr b \<Rightarrow>
           if registry \<noteq> {} \<and> cb_channel_name b \<notin> registry
           then andthen (complain (path @ '': unknown channel '' @ cb_channel_name b)) (ret None)
           else ret (Some b))
     | _ \<Rightarrow> andthen (complain (path @ '': expected a channel definition mapping'')) (ret None))"

text \<open>The loop over the channel definitions, with the transport and path pairs accepted so far.\<close>

definition endpoint :: "channel_binding \<Rightarrow> string \<times> pyval" where
  "endpoint b = (cb_transport b, cb_path b)"

fun load_bindings :: "string set \<Rightarrow> string \<Rightarrow> pairs \<Rightarrow> pyval list \<Rightarrow> channel_binding list loading" where
  "load_bindings registry path pairs [] = ret []"
| "load_bindings registry path pairs (v # vs) = bind (accept_binding registry path v) (\<lambda>accepted.
     case accepted of
       None \<Rightarrow> load_bindings registry path pairs vs
     | Some b \<Rightarrow>
         andthen (if endpoint b \<in> set pairs then complain (path @ '': duplicate (transport, path) pair'') else ret ())
         (bind (load_bindings registry path (pairs @ [endpoint b]) vs) (\<lambda>bs. ret (b # bs))))"

definition load_channels :: "string set \<Rightarrow> string \<Rightarrow> document \<Rightarrow> payload option \<Rightarrow> channel_binding list loading" where
  "load_channels registry path doc content =
     bind (case content of Some d \<Rightarrow> ret (Some d) | None \<Rightarrow> read_yaml_mapping path doc ''instance config'') (\<lambda>content.
     case content of None \<Rightarrow> ret []
     | Some d \<Rightarrow> (case get_default d ''overrides'' (PDict []) of
         PDict overrides \<Rightarrow> (case dict_get overrides ''channels'' of
             PNone \<Rightarrow> ret []
           | PTuple vs \<Rightarrow> load_bindings registry path [] vs
           | _ \<Rightarrow> andthen (complain (path @ '': field overrides.channels must be a list'')) (ret []))
       | _ \<Rightarrow> andthen (complain (path @ '': field overrides must be a mapping'')) (ret [])))"

section \<open>Loading the instances\<close>

text \<open>
  One entry of the manifest. After the overlay was read the descriptor is built a second time from its
  own fields, which passed the checks before, and the channels.
\<close>

definition load_descriptor ::
  "string set \<Rightarrow> (string \<Rightarrow> document option) \<Rightarrow> profile_registry \<Rightarrow> pyval \<Rightarrow> instance_descriptor option loading" where
  "load_descriptor registry overlays profiles raw = (case raw of
       PDict d \<Rightarrow> (case descriptor_of d of
           Inl (TypeError m) \<Rightarrow> andthen (complain m) (ret None)
         | Inl (ValueError m) \<Rightarrow> andthen (complain m) (ret None)
         | Inl e \<Rightarrow> raise e
         | Inr desc \<Rightarrow>
             andthen (if profile_lookup (in_profile_id desc) profiles = Inl (KeyError (in_profile_id desc))
               then complain (''profile_id '' @ in_profile_id desc @ '' does not match any checked-in profile'') else ret ())
             (case overlays (in_config_path desc) of
               None \<Rightarrow> andthen (complain (''config_path '' @ in_config_path desc @ '' does not exist'')) (ret (Some desc))
             | Some doc \<Rightarrow>
                 andthen (load_instance_config (in_config_path desc) doc)
                 (bind (read_yaml_mapping (in_config_path desc) doc ''instance config'') (\<lambda>content.
                  bind (load_channels registry (in_config_path desc) doc content) (\<lambda>channels.
                  ret (Some (desc\<lparr>in_channels := channels\<rparr>)))))))
     | _ \<Rightarrow> andthen (complain ''expected a mapping of instance settings'') (ret None))"

definition present :: "'a option list \<Rightarrow> 'a list" where
  "present xs = concat (map (case_option [] (\<lambda>x. [x])) xs)"

definition fail_with_errors :: "'a loading" where
  "fail_with_errors = bind (gets (\<lambda>es. es)) (\<lambda>es. raise (InstanceLoadError es))"

definition load_entries ::
  "string set \<Rightarrow> (string \<Rightarrow> document option) \<Rightarrow> profile_registry \<Rightarrow> pyval list \<Rightarrow> instance_registry loading" where
  "load_entries registry overlays profiles raws =
     bind (for_each (load_descriptor registry overlays profiles) raws) (\<lambda>found.
     let descriptors = present found in
     bind (modify (\<lambda>es. es @ duplicate_id_errors ''instance id '' (map in_id descriptors))) (\<lambda>_.
     bind (gets (\<lambda>es. es)) (\<lambda>es.
     andthen (if es \<noteq> [] then fail_with_errors else ret ())
     (lift (keyed_registry in_id [] (by_id in_id descriptors))))))"

definition load_instances ::
  "string set \<Rightarrow> (string \<times> document) list option \<Rightarrow> document option \<Rightarrow> (string \<Rightarrow> document option) \<Rightarrow> instance_registry loading" where
  "load_instances registry profile_files manifest overlays = (case load_profiles profile_files None of
       Inl (ProfileLoadError es) \<Rightarrow>
         raise (InstanceLoadError (map (\<lambda>e. ''profile validation prerequisite failed: '' @ e) es))
     | Inl e \<Rightarrow> raise e
     | Inr profiles \<Rightarrow> (case manifest of
         None \<Rightarrow> raise (InstanceLoadError [''required instance manifest not found''])
       | Some doc \<Rightarrow> bind (read_yaml_mapping ''instances.yaml'' doc ''instance manifest'') (\<lambda>content.
           case content of None \<Rightarrow> fail_with_errors
           | Some d \<Rightarrow> (case dict_get d ''instances'' of
               PTuple raws \<Rightarrow> load_entries registry overlays profiles raws
             | _ \<Rightarrow> andthen (complain ''field instances must be a list of instances'') fail_with_errors))))"


section \<open>Errors are only added\<close>

definition reports_more :: "string list \<Rightarrow> string list \<Rightarrow> bool" where
  "reports_more s t \<longleftrightarrow> (\<exists>es. t = s @ es)"

interpretation loading: step_relation reports_more
  by unfold_locales (auto simp: reports_more_def)

lemma complain_apply [prog_simps]: "complain m s = (Inr (), s @ [m])"
  by (simp add: complain_def prog_simps)

lemma loading_complain [intro]: "obeys reports_more (complain m)"
  by (auto simp: obeys_def reports_more_def prog_simps)

lemmas loading_rules = loading.resp_pure loading.resp_andthen loading.resp_bind loading_complain

lemma quiet:
  assumes "obeys reports_more m" "m s = (r, [])"
  shows "s = []"
  using obeysD [OF assms] by (simp add: reports_more_def)

lemma read_yaml_more: "obeys reports_more (read_yaml_mapping path doc label)"
  unfolding read_yaml_mapping_def by (cases doc) (auto intro: loading_rules split: pyval.split)

lemma mapping_field_more: "obeys reports_more (mapping_field c f path)"
  unfolding mapping_field_def by (auto intro!: loading_rules split: pyval.split)

lemma string_mapping_more: "obeys reports_more (string_mapping_field c f path)"
  unfolding string_mapping_field_def
  by (auto intro!: loading_rules mapping_field_more split: option.split)

lemma load_config_more: "obeys reports_more (load_instance_config path doc)"
  unfolding load_instance_config_def
  by (auto intro!: loading_rules mapping_field_more read_yaml_more string_mapping_more split: option.split sum.split)

lemma accept_binding_more: "obeys reports_more (accept_binding registry path v)"
  unfolding accept_binding_def by (auto split: pyval.split sum.split exc.split intro: loading_rules)

lemma load_bindings_more: "obeys reports_more (load_bindings registry path pairs vs)"
proof (induction vs arbitrary: pairs)
  case (Cons v vs)
  then show ?case by (auto split: option.split intro!: loading_rules accept_binding_more)
qed (simp add: loading.resp_pure)

lemma load_channels_more: "obeys reports_more (load_channels registry path doc content)"
  unfolding load_channels_def
  by (auto intro!: loading_rules read_yaml_more load_bindings_more split: option.split pyval.split)

lemma load_descriptor_more: "obeys reports_more (load_descriptor registry overlays profiles raw)"
  unfolding load_descriptor_def
  by (auto intro!: loading_rules read_yaml_more load_config_more load_channels_more
      split: option.split pyval.split sum.split exc.split)

section \<open>What a load that succeeds has checked\<close>

definition wf_binding :: "string set \<Rightarrow> channel_binding \<Rightarrow> bool" where
  "wf_binding registry b \<longleftrightarrow> clean (cb_channel_name b) \<and> cb_transport b \<in> set valid_transports \<and>
     (registry = {} \<or> cb_channel_name b \<in> registry)"

lemma binding_of_ok: "binding_of d = Inr b \<Longrightarrow> clean (cb_channel_name b) \<and> cb_transport b \<in> set valid_transports"
  unfolding binding_of_def make_binding_def
  by (elim rbind_InrE) (auto simp: check_transport_def dest: stripped_clean split: pyval.splits if_splits)

lemma accept_binding_ok:
  assumes "accept_binding registry path v s = (Inr r, [])"
  shows "s = [] \<and> (\<exists>b. r = Some b \<and> wf_binding registry b)"
proof -
  have "s = []" using quiet [OF accept_binding_more assms] .
  with assms show ?thesis
    by (auto simp: accept_binding_def prog_simps wf_binding_def dest: binding_of_ok
        split: pyval.splits sum.splits exc.splits if_splits)
qed

lemma load_bindings_ok:
  "load_bindings registry path pairs vs s = (Inr bs, []) \<Longrightarrow>
     (\<forall>b \<in> set bs. wf_binding registry b) \<and> distinct (map endpoint bs) \<and> set (map endpoint bs) \<inter> set pairs = {}"
proof (induction vs arbitrary: pairs s bs)
  case (Cons v vs)
  let ?rest = "\<lambda>r. case r of None \<Rightarrow> load_bindings registry path pairs vs
     | Some b \<Rightarrow> andthen (if endpoint b \<in> set pairs then complain (path @ '': duplicate (transport, path) pair'') else ret ())
         (bind (load_bindings registry path (pairs @ [endpoint b]) vs) (\<lambda>bs. ret (b # bs)))"
  from Cons.prems obtain r u where acc: "accept_binding registry path v s = (Inr r, u)"
    and rest: "?rest r u = (Inr bs, [])" by (auto simp: bind_Inr_iff)
  have "obeys reports_more (?rest r)" by (auto split: option.split intro!: loading_rules load_bindings_more)
  from quiet [OF this rest] have "u = []" .
  with accept_binding_ok [of registry path v s r] acc obtain b where b: "r = Some b" "wf_binding registry b" by auto
  from rest b(1) obtain w bs' where w: "load_bindings registry path (pairs @ [endpoint b]) vs w = (Inr bs', [])" "bs = b # bs'"
    and dup: "w = (if endpoint b \<in> set pairs then u @ [path @ '': duplicate (transport, path) pair''] else u)"
    by (auto simp: andthen_def bind_Inr_iff ret_def complain_apply split: if_splits)
  have "w = []" using quiet [OF load_bindings_more w(1)] .
  with dup have "endpoint b \<notin> set pairs" by (auto split: if_splits)
  with Cons.IH [OF w(1)] b(2) w(2) show ?case by auto
qed (simp add: prog_simps)


lemma load_channels_ok:
  assumes "load_channels registry path doc (Some d) s = (Inr bs, [])"
  shows "(\<forall>b \<in> set bs. wf_binding registry b) \<and> distinct (map endpoint bs)"
proof -
  let ?rest = "\<lambda>overrides. case dict_get overrides ''channels'' of PNone \<Rightarrow> ret []
    | PTuple vs \<Rightarrow> load_bindings registry path [] vs
    | _ \<Rightarrow> andthen (complain (path @ '': field overrides.channels must be a list'')) (ret [])"
  from assms obtain overrides where "?rest overrides s = (Inr bs, [])"
    by (auto simp: load_channels_def prog_simps split: pyval.splits)
  then have "bs = [] \<or> (\<exists>vs. load_bindings registry path [] vs s = (Inr bs, []))"
    by (auto simp: prog_simps split: pyval.splits)
  then show ?thesis using load_bindings_ok by fastforce
qed

definition readable_mapping :: "document option \<Rightarrow> bool" where
  "readable_mapping doc \<longleftrightarrow> (case doc of Some (Parsed (PDict d)) \<Rightarrow> True | _ \<Rightarrow> False)"

definition instance_ok ::
  "string set \<Rightarrow> (string \<Rightarrow> document option) \<Rightarrow> profile_registry \<Rightarrow> instance_descriptor \<Rightarrow> bool" where
  "instance_ok registry overlays profiles d \<longleftrightarrow> clean (in_id d) \<and> clean (in_display_name d) \<and>
     in_profile_id d \<in> set (dict_keys profiles) \<and> readable_mapping (overlays (in_config_path d)) \<and>
     (\<forall>b \<in> set (in_channels d). wf_binding registry b) \<and> distinct (map endpoint (in_channels d))"

lemma descriptor_of_clean:
  "descriptor_of d = Inr desc \<Longrightarrow> clean (in_id desc) \<and> clean (in_display_name desc) \<and> clean (in_profile_id desc)"
  unfolding descriptor_of_def by (elim rbind_InrE) (auto dest: nonblank_clean stripped_clean)

lemma lookup_known:
  "clean pid \<Longrightarrow> profile_lookup pid profiles \<noteq> Inl (KeyError pid) \<Longrightarrow> pid \<in> set (dict_keys profiles)"
  by (auto simp: profile_lookup_def registry_lookup_def clean_nonblank dict_keys_def split: option.splits dest: map_of_SomeD)
     (force simp: map_of_eq_None_iff dest: map_of_SomeD)+

lemma read_yaml_quiet:
  "read_yaml_mapping path doc label s = (Inr r, []) \<Longrightarrow> \<exists>d. doc = Parsed (PDict d) \<and> r = Some d"
  by (auto simp: read_yaml_mapping_def prog_simps split: document.splits pyval.splits)

lemma load_descriptor_ok:
  assumes "load_descriptor registry overlays profiles raw s = (Inr r, [])"
  shows "\<exists>d. r = Some d \<and> instance_ok registry overlays profiles d"
proof -
  have "s = []" using quiet [OF load_descriptor_more assms] .
  with assms obtain d desc where desc: "raw = PDict d" "descriptor_of d = Inr desc"
    by (auto simp: load_descriptor_def prog_simps split: pyval.splits sum.splits exc.splits)
  let ?path = "in_config_path desc"
  let ?known = "if profile_lookup (in_profile_id desc) profiles = Inl (KeyError (in_profile_id desc))
    then complain (''profile_id '' @ in_profile_id desc @ '' does not match any checked-in profile'') else ret ()"
  from assms desc obtain doc u1 u2 u3 cfg content channels where
    known: "?known s = (Inr (), u1)" and doc: "overlays ?path = Some doc"
    and cfg: "load_instance_config ?path doc u1 = (Inr cfg, u2)"
    and content: "read_yaml_mapping ?path doc ''instance config'' u2 = (Inr content, u3)"
    and channels: "load_channels registry ?path doc content u3 = (Inr channels, [])"
    and r: "r = Some (desc\<lparr>in_channels := channels\<rparr>)"
    unfolding load_descriptor_def
    by (auto simp: andthen_def bind_Inr_iff ret_def complain_apply split: option.splits if_splits)
  have "u3 = []" using quiet [OF load_channels_more channels] .
  with content obtain c where c: "doc = Parsed (PDict c)" "content = Some c" using read_yaml_quiet by blast
  have "u2 = []" using quiet [OF read_yaml_more] content \<open>u3 = []\<close> by blast
  then have "u1 = []" using quiet [OF load_config_more] cfg by blast
  with known have "profile_lookup (in_profile_id desc) profiles \<noteq> Inl (KeyError (in_profile_id desc))"
    by (auto simp: complain_apply split: if_splits)
  then have "in_profile_id desc \<in> set (dict_keys profiles)"
    using lookup_known descriptor_of_clean [OF desc(2)] by blast
  then show ?thesis
    using r c doc descriptor_of_clean [OF desc(2)] load_channels_ok [of registry ?path doc c u3 channels] channels
    by (auto simp: instance_ok_def readable_mapping_def)
qed

lemma present_simps [simp]: "present [] = []" "present (Some x # xs) = x # present xs" "present (None # xs) = present xs"
  by (simp_all add: present_def)

lemma load_all_ok:
  "for_each (load_descriptor registry overlays profiles) raws s = (Inr found, []) \<Longrightarrow>
     found = map Some (present found) \<and> length found = length raws \<and>
     (\<forall>d \<in> set (present found). instance_ok registry overlays profiles d)"
proof (induction raws arbitrary: s found)
  case (Cons raw raws)
  from Cons.prems obtain r u found' where r: "load_descriptor registry overlays profiles raw s = (Inr r, u)"
    and rest: "for_each (load_descriptor registry overlays profiles) raws u = (Inr found', [])" "found = r # found'"
    by (auto simp: bind_Inr_iff ret_def)
  have "u = []" using quiet [OF loading.resp_for_each [OF load_descriptor_more] rest(1)] .
  with r obtain d where "r = Some d" "instance_ok registry overlays profiles d" using load_descriptor_ok by blast
  with Cons.IH [OF rest(1)] rest(2) show ?case by simp
qed (simp add: prog_simps)

text \<open>
  C9. Instances that load are complete and consistent with the profiles: the profiles loaded, every
  entry of the manifest gives one instance, the ids are distinct, each instance is found under its id and
  in order of the ids, its profile is a loaded one, its overlay is a mapping, and its channels are known,
  use a known transport and never share transport and path.
\<close>

theorem load_instances_complete:
  assumes "load_instances registry profile_files manifest overlays s = (Inr reg, t)" 
  shows "\<exists>profiles d raws ds. load_profiles profile_files None = Inr profiles \<and>
    manifest = Some (Parsed (PDict d)) \<and> dict_get d ''instances'' = PTuple raws \<and> length ds = length raws \<and>
    distinct (map in_id ds) \<and> map snd reg = sort_key in_id ds \<and>
    (\<forall>i \<in> set ds. instance_ok registry overlays profiles i \<and> registry_lookup (in_id i) reg = Inr i)"
proof -
  from assms obtain profiles doc where p: "load_profiles profile_files None = Inr profiles" "manifest = Some doc"
    by (auto simp: load_instances_def prog_simps split: sum.splits exc.splits option.splits)
  with assms obtain d raws u where d: "doc = Parsed (PDict d)" "dict_get d ''instances'' = PTuple raws"
    and entries: "load_entries registry overlays profiles raws u = (Inr reg, t)"
    by (auto simp: load_instances_def read_yaml_mapping_def fail_with_errors_def prog_simps
        split: document.splits pyval.splits)
  from entries obtain found w where f: "for_each (load_descriptor registry overlays profiles) raws u = (Inr found, w)"
    and ok: "w @ duplicate_id_errors ''instance id '' (map in_id (present found)) = []"
    and made: "keyed_registry in_id [] (by_id in_id (present found)) = Inr reg"
    by (auto simp: load_entries_def Let_def andthen_def bind_Inr_iff gets_def modify_def lift_def ret_def
        fail_with_errors_def raise_def split: if_splits)
  from ok have "w = []" "distinct (map in_id (present found))" by (simp_all add: duplicate_id_errors_def)
  note all = load_all_ok [OF f [unfolded \<open>w = []\<close>]]
  then have cl: "\<forall>i \<in> set (present found). clean (in_id i)" by (simp add: instance_ok_def)
  have reg: "reg = by_id in_id (present found)"
    using made keyed_registry_built [OF cl \<open>distinct _\<close>] by simp
  have "length (present found) = length raws" using all by (metis length_map)
  moreover have "\<forall>i \<in> set (present found). registry_lookup (in_id i) reg = Inr i"
    using lookup_by_id [OF \<open>distinct _\<close>] cl reg by blast
  ultimately show ?thesis
    using p d all \<open>distinct _\<close> reg by_id_values [of in_id "present found"]
    by (intro exI [of _ profiles] exI [of _ d] exI [of _ raws] exI [of _ "present found"]) simp
qed

text \<open>
  An overlay that cannot be read is opened three times, and the same message is reported three
  times, although its content is meant to be parsed once and shared.
\<close>

theorem unreadable_overlay_reported_thrice:
  assumes "overlays (in_config_path desc) = Some (Unreadable why)" "descriptor_of d = Inr desc"
    "profile_lookup (in_profile_id desc) profiles = Inr p"
  shows "\<exists>m r. load_descriptor registry overlays profiles (PDict d) s = (Inr r, s @ [m, m, m])"
  using assms
  by (simp add: load_descriptor_def load_instance_config_def read_yaml_mapping_def load_channels_def prog_simps)


section \<open>Concrete inputs\<close>

definition demo_manifest :: document where
  "demo_manifest = Parsed (PDict [(''instances'', PTuple [
     PDict [(''id'', PStr ''work''), (''display_name'', PStr ''Work''), (''profile_id'', PStr ''ea''),
       (''config_path'', PStr ''work.yaml'')],
     PDict [(''id'', PStr ''code''), (''display_name'', PStr ''Code''), (''profile_id'', PStr ''coding''),
       (''config_path'', PStr ''code.yaml'')]])])"

definition demo_overlays :: "string \<Rightarrow> document option" where
  "demo_overlays path = (if path = ''work.yaml'' then Some (Parsed (PDict [(''env'', PDict [(''TZ'', PStr ''UTC'')]),
       (''overrides'', PDict [(''channels'', PTuple [
          PDict [(''channel_name'', PStr ''web''), (''transport'', PStr ''http''), (''path'', PStr ''/chat'')],
          PDict [(''channel_name'', PStr ''shell''), (''transport'', PStr ''cli'')]])])]))
     else if path = ''code.yaml'' then Some (Parsed (PDict [])) else None)"

theorem load_instances_complete_witness:
  "\<exists>reg t. load_instances {} (Some demo_profiles) (Some demo_manifest) demo_overlays [] = (Inr reg, t) \<and>
     map fst reg = [''code'', ''work''] \<and> (\<exists>ds. map snd reg = sort_key in_id ds \<and> length ds = 2)"
proof -
  let ?r = "load_instances {} (Some demo_profiles) (Some demo_manifest) demo_overlays []"
  have "case fst ?r of Inl _ \<Rightarrow> False | Inr reg \<Rightarrow> map fst reg = [''code'', ''work'']" by code_simp
  then obtain reg where reg: "fst ?r = Inr reg" "map fst reg = [''code'', ''work'']" by (elim case_Inr_obtain)
  then have r: "?r = (Inr reg, snd ?r)" by (metis prod.collapse)
  from load_instances_complete [OF r] obtain d raws ds where
    "demo_manifest = Parsed (PDict d)" "dict_get d ''instances'' = PTuple raws" "length ds = length raws"
    "map snd reg = sort_key in_id ds" by (elim exE conjE) simp
  moreover from this have "length ds = 2" by (auto simp: demo_manifest_def dict_get_def)
  ultimately show ?thesis using r reg(2) by (intro exI [of _ reg] exI [of _ "snd ?r"] conjI exI [of _ ds])
qed

definition demo_entry :: payload where
  "demo_entry = [(''id'', PStr ''work''), (''display_name'', PStr ''Work''), (''profile_id'', PStr ''ea''),
     (''config_path'', PStr ''work.yaml'')]"

definition demo_pd :: profile_descriptor where
  "demo_pd = \<lparr>pd_id = ''ea'', pd_display_name = ''Assistant'', pd_version = ''1.0.0'', pd_supported_extensions = [''skill''],
     pd_required_providers = \<lparr>rp_model = ''m'', rp_memory = ''m'', rp_knowledge = ''k'', rp_tool = [], rp_channel = [],
       rp_tracer = ''noop''\<rparr>\<rparr>"

theorem unreadable_overlay_reported_thrice_witness:
  "\<exists>m r. load_descriptor {} (\<lambda>_. Some (Unreadable ''denied'')) [(''ea'', demo_pd)] (PDict demo_entry) [] = (Inr r, [m, m, m])"
proof -
  have "case descriptor_of demo_entry of Inl _ \<Rightarrow> False | Inr desc \<Rightarrow> in_profile_id desc = ''ea''" by code_simp
  then obtain desc where desc: "descriptor_of demo_entry = Inr desc" "in_profile_id desc = ''ea''" by (elim case_Inr_obtain)
  have "profile_lookup ''ea'' [(''ea'', demo_pd)] = Inr demo_pd"
    by (simp add: profile_lookup_def registry_lookup_def clean_nonblank clean_def strip_def is_space_def Let_def)
  with unreadable_overlay_reported_thrice [of "\<lambda>_. Some (Unreadable ''denied'')" desc "''denied''" demo_entry "[(''ea'', demo_pd)]"
      demo_pd "{}" "[]"] desc show ?thesis by simp
qed

end
