(* ===== verification/Adversarial_Review.thy ===== *)
theory Adversarial_Review
  imports EA_Tasks Handoff Documents
begin

text \<open>
  The review at a pipeline checkpoint (services/orchestration/adversarial_review.py): detectors on the
  handed-back artifact, the tool policy's answer to each finding, the gate, the approval it asks for and
  the events it appends. \<open>repr\<close> prints the containers inside \<open>str(value)\<close>; the routine's clock is the
  one of the store.
\<close>

section \<open>Types\<close>

datatype finding_class = PromptInjection | ApprovalBoundaryMisuse | MalformedMemoryKnowledge | DestructiveToolMisuse

fun show_class :: "finding_class \<Rightarrow> string" where
  "show_class PromptInjection = ''prompt_injection''"
| "show_class ApprovalBoundaryMisuse = ''approval_boundary_misuse''"
| "show_class MalformedMemoryKnowledge = ''malformed_memory_knowledge''"
| "show_class DestructiveToolMisuse = ''destructive_tool_misuse''"

datatype gate = Continue | Abort | Branch

fun show_gate :: "gate \<Rightarrow> string" where
  "show_gate Continue = ''continue''"
| "show_gate Abort = ''abort''"
| "show_gate Branch = ''branch''"

record finding =
  fd_class :: finding_class
  fd_severity :: string
  fd_summary :: string
  fd_evidence_refs :: "string list"

record review_input =
  ri_run_id :: string
  ri_pipeline_id :: string
  ri_node_id :: string
  ri_input_artifact_ref :: string
  ri_input_artifact_kind :: string
  ri_handback_text :: string
  ri_tool_calls :: "payload list"
  ri_memory_items :: "payload list"
  ri_knowledge_items :: "payload list"
  ri_token_budget :: "token_budget option"

record approval_explanation =
  ax_gate_decision :: gate
  ax_approval_ids :: "string list"
  ax_policy_preset :: string
  ax_policy_decisions :: "(finding_class \<times> tool_decision) list"
  ax_rationale :: string

definition explanation_payload :: "approval_explanation \<Rightarrow> payload" where
  "explanation_payload x =
     [(''gate_decision'', PStr (show_gate (ax_gate_decision x))),
      (''approval_ids'', PTuple (map PStr (ax_approval_ids x))),
      (''policy_preset'', PStr (ax_policy_preset x)),
      (''policy_decisions'', PDict (map (\<lambda>(c, d). (show_class c, PStr (show_tool_decision d))) (ax_policy_decisions x))),
      (''rationale'', PStr (ax_rationale x))]"

record review_result =
  rr_findings :: "finding list"
  rr_gate_decision :: gate
  rr_pipeline_outcome :: string
  rr_status :: string
  rr_approval_explanation :: approval_explanation
  rr_events :: "run_event list"
  rr_handback_metadata :: payload

section \<open>Detectors\<close>

definition has_prompt_injection :: "string \<Rightarrow> bool" where
  "has_prompt_injection text \<longleftrightarrow> (let lowered = lower text in
     list_ex (\<lambda>needle. contains needle lowered)
       [''ignore previous instructions'', ''ignore all previous instructions'', ''reveal system prompt'',
        ''developer message'', ''system message''])"

definition has_approval_boundary_misuse :: "string \<Rightarrow> bool" where
  "has_approval_boundary_misuse text \<longleftrightarrow> (let lowered = lower text in
     list_ex (\<lambda>needle. contains needle lowered)
       [''auto-approve'', ''self-approve'', ''bypass approval'', ''skip approval'', ''without approval''])"

fun non_empty_str :: "pyval \<Rightarrow> bool" where
  "non_empty_str (PStr s) = (strip s \<noteq> [])"
| "non_empty_str v = False"

text \<open>The references of the items with a property, by position.\<close>

definition item_refs :: "string \<Rightarrow> string \<Rightarrow> (payload \<Rightarrow> bool) \<Rightarrow> payload list \<Rightarrow> string list" where
  "item_refs ref name bad items =
     map (\<lambda>(i, item). ref @ ''#'' @ name @ ''['' @ show_nat i @ '']'')
       (filter (\<lambda>(i, item). bad item) (zip [0..<length items] items))"

definition malformed_memory_knowledge_refs :: "review_input \<Rightarrow> string list" where
  "malformed_memory_knowledge_refs inp =
     item_refs (ri_input_artifact_ref inp) ''memory''
       (\<lambda>item. \<not> non_empty_str (dict_get item ''id'') \<or> \<not> non_empty_str (dict_get item ''content'')) (ri_memory_items inp) @
     item_refs (ri_input_artifact_ref inp) ''knowledge''
       (\<lambda>item. \<not> non_empty_str (dict_get item ''id'') \<or> \<not> non_empty_str (dict_get item ''source'')) (ri_knowledge_items inp)"

definition lowered_field :: "(pyval \<Rightarrow> string) \<Rightarrow> payload \<Rightarrow> string \<Rightarrow> string" where
  "lowered_field repr call k = lower (py_str repr (get_default call k (PStr [])))"

definition destructive_call :: "(pyval \<Rightarrow> string) \<Rightarrow> payload \<Rightarrow> bool" where
  "destructive_call repr call \<longleftrightarrow>
     list_ex (\<lambda>token. contains token (lowered_field repr call ''command''))
       [''rm -rf'', ''mkfs'', ''diskutil erase'', ''format '', ''git reset --hard'', ''shutdown''] \<or>
     lowered_field repr call ''action'' \<in> {''delete'', ''destroy'', ''format''}"

definition destructive_tool_refs :: "(pyval \<Rightarrow> string) \<Rightarrow> review_input \<Rightarrow> string list" where
  "destructive_tool_refs repr inp = item_refs (ri_input_artifact_ref inp) ''tool_calls'' (destructive_call repr) (ri_tool_calls inp)"

definition detect :: "(pyval \<Rightarrow> string) \<Rightarrow> review_input \<Rightarrow> finding list" where
  "detect repr inp =
     (let handback = [ri_input_artifact_ref inp @ ''#handback''] in
      (if has_prompt_injection (ri_handback_text inp) then
         [\<lparr>fd_class = PromptInjection, fd_severity = ''high'',
           fd_summary = ''Handback attempts to override instructions or reveal hidden prompts.'',
           fd_evidence_refs = handback\<rparr>] else []) @
      (if has_approval_boundary_misuse (ri_handback_text inp) then
         [\<lparr>fd_class = ApprovalBoundaryMisuse, fd_severity = ''high'',
           fd_summary = ''Handback attempts to bypass or self-grant an approval boundary.'',
           fd_evidence_refs = handback\<rparr>] else []) @
      (let refs = malformed_memory_knowledge_refs inp in if refs \<noteq> [] then
         [\<lparr>fd_class = MalformedMemoryKnowledge, fd_severity = ''medium'',
           fd_summary = ''Memory or knowledge input is missing required reference fields.'',
           fd_evidence_refs = refs\<rparr>] else []) @
      (let refs = destructive_tool_refs repr inp in if refs \<noteq> [] then
         [\<lparr>fd_class = DestructiveToolMisuse, fd_severity = ''critical'',
           fd_summary = ''Tool call attempts destructive filesystem or system mutation.'',
           fd_evidence_refs = refs\<rparr>] else []))"

section \<open>Policy and gate\<close>

fun first_decision :: "string \<Rightarrow> tool_rule list \<Rightarrow> tool_decision option" where
  "first_decision action [] = None"
| "first_decision action (rule # rules) =
     (if tr_tool rule \<noteq> ''adversarial_review'' then first_decision action rules
      else if tr_action rule \<noteq> None \<and> tr_action rule \<noteq> Some action then first_decision action rules
      else Some (tr_decision rule))"

definition policy_decision_for :: "tool_policy \<Rightarrow> finding \<Rightarrow> tool_decision" where
  "policy_decision_for policy f = (case first_decision (show_class (fd_class f)) (tp_rules policy) of
       Some d \<Rightarrow> d
     | None \<Rightarrow> if fd_class f = DestructiveToolMisuse then Forbidden else tp_default_decision policy)"

definition policy_decisions :: "tool_policy \<Rightarrow> finding list \<Rightarrow> (finding_class \<times> tool_decision) list" where
  "policy_decisions policy fs = map (\<lambda>f. (fd_class f, policy_decision_for policy f)) fs"

definition gate_decision :: "finding list \<Rightarrow> (finding_class \<times> tool_decision) list \<Rightarrow> gate" where
  "gate_decision fs decisions =
     (if fs = [] then Continue
      else if list_ex (\<lambda>f. fd_class f = DestructiveToolMisuse \<or> map_of decisions (fd_class f) = Some Forbidden) fs then Abort
      else Branch)"

definition rationale :: "finding list \<Rightarrow> gate \<Rightarrow> string" where
  "rationale fs g = (if fs = [] then ''No adversarial findings detected; checkpoint may continue.''
     else ''Detected '' @ join '', '' (map (\<lambda>f. show_class (fd_class f)) fs) @ ''; checkpoint gate decision is '' @
       show_gate g @ ''.'')"

section \<open>Approval\<close>

definition requested_capability :: "finding list \<Rightarrow> string" where
  "requested_capability fs = (case fs of [f] \<Rightarrow> ''adversarial_review.'' @ show_class (fd_class f)
     | _ \<Rightarrow> ''adversarial_review.multiple'')"

definition review_summary :: "finding list \<Rightarrow> gate \<Rightarrow> string" where
  "review_summary fs g = ''Adversarial review '' @ show_gate g @ '': '' @ join '', '' (map (\<lambda>f. show_class (fd_class f)) fs)"

definition request_review_approval :: "review_input \<Rightarrow> finding list \<Rightarrow> gate \<Rightarrow> (world, string list) prog" where
  "request_review_approval inp fs g =
     (if fs = [] then ret []
      else bind (engine_request (ri_run_id inp) ''adversarial_review'' (review_summary fs g)
             (Some (requested_capability fs)) None (Some (ri_pipeline_id inp @ '':'' @ ri_node_id inp)))
           (\<lambda>approval. ret [ap_id approval]))"

section \<open>Tool actions\<close>

definition infer_side_effect_class :: "(pyval \<Rightarrow> string) \<Rightarrow> payload \<Rightarrow> string" where
  "infer_side_effect_class repr call =
     (let action = lowered_field repr call ''action''; command = lowered_field repr call ''command'' in
      if action \<in> {''read'', ''list'', ''inspect'', ''search''} then ''read-only''
      else if list_ex (\<lambda>token. contains token command) [''rm -rf'', ''git reset --hard'', ''mv '', ''cp '', ''touch '']
        then ''workspace-mutating''
      else if action \<in> {''insert'', ''update'', ''delete'', ''migrate''} then ''DB-mutating''
      else if action \<in> {''deploy'', ''publish'', ''send'', ''post''} then ''external-write''
      else if action \<in> {''configure'', ''provision'', ''mutate_provider''} then ''provider-mutating''
      else ''unknown/high-risk'')"

text \<open>\<open>str(a or b).strip()\<close>.\<close>

definition stripped_or :: "(pyval \<Rightarrow> string) \<Rightarrow> pyval \<Rightarrow> string \<Rightarrow> string" where
  "stripped_or repr v other = strip (py_str repr (if truthy v then v else PStr other))"

definition declared_class :: "(pyval \<Rightarrow> string) \<Rightarrow> payload \<Rightarrow> string" where
  "declared_class repr call = stripped_or repr (dict_get call ''side_effect_class'') (infer_side_effect_class repr call)"

definition declared_action :: "(pyval \<Rightarrow> string) \<Rightarrow> payload \<Rightarrow> string" where
  "declared_action repr call = stripped_or repr (dict_get call ''action'') ''unknown''"

definition declared_reason :: "(pyval \<Rightarrow> string) \<Rightarrow> payload \<Rightarrow> string" where
  "declared_reason repr call = stripped_or repr (dict_get call ''side_effect_rationale'')
     (''Classified from tool call action '' @ repr (PStr (declared_action repr call)) @ ''.'')"

definition tool_action_of :: "(pyval \<Rightarrow> string) \<Rightarrow> payload \<Rightarrow> payload \<Rightarrow> exc + tool_action" where
  "tool_action_of repr approval_payload call =
     (let tool_id = stripped_or repr (first_truthy call ''tool_id'' ''tool'') ''unknown'';
          action = declared_action repr call;
          reason = declared_reason repr call in
      rbind (make_side_effect (declared_class repr call) reason) (\<lambda>effect.
      make_tool_action (if tool_id = [] then ''unknown'' else tool_id) (if action = [] then ''unknown'' else action)
        effect approval_payload))"

definition tool_action_metadata :: "(pyval \<Rightarrow> string) \<Rightarrow> review_input \<Rightarrow> approval_explanation \<Rightarrow> exc + tool_action list" where
  "tool_action_metadata repr inp x = rmap (tool_action_of repr (explanation_payload x)) (ri_tool_calls inp)"

section \<open>Events\<close>

definition metadata_fields :: "review_input \<Rightarrow> tool_action list \<Rightarrow> payload" where
  "metadata_fields inp actions =
     (case token_budget_payload (ri_token_budget inp) of None \<Rightarrow> [] | Some p \<Rightarrow> [(''token_budget'', PDict p)]) @
     (case tool_actions_payload (Some actions) of None \<Rightarrow> [] | Some ps \<Rightarrow> [(''tool_actions'', PTuple (map PDict ps))])"

definition finding_payload ::
  "review_input \<Rightarrow> finding option \<Rightarrow> approval_explanation \<Rightarrow> tool_action list \<Rightarrow> payload" where
  "finding_payload inp f x actions =
     (let base = [(''phase'', PStr ''review''), (''milestone'', PStr ''findings_recorded''),
        (''milestone_ref'', PStr ''review.findings_recorded''), (''run_id'', PStr (ri_run_id inp)),
        (''pipeline_id'', PStr (ri_pipeline_id inp)), (''node_id'', PStr (ri_node_id inp)),
        (''input_artifact_ref'', PStr (ri_input_artifact_ref inp)),
        (''input_artifact_kind'', PStr (ri_input_artifact_kind inp)), (''finding_class'', PStr ''none''),
        (''finding_count'', PInt (int (length (ax_policy_decisions x)))),
        (''gate_decision'', PStr (show_gate (ax_gate_decision x))),
        (''approval_explanation'', PDict (explanation_payload x))] @ metadata_fields inp actions in
      case f of None \<Rightarrow> base
      | Some g \<Rightarrow> dict_update base
          [(''finding_class'', PStr (show_class (fd_class g))), (''severity'', PStr (fd_severity g)),
           (''summary'', PStr (fd_summary g)), (''evidence_refs'', PTuple (map PStr (fd_evidence_refs g))),
           (''policy_decision'', PStr (case map_of (ax_policy_decisions x) (fd_class g) of None \<Rightarrow> []
              | Some d \<Rightarrow> show_tool_decision d))])"

definition append_finding_event ::
  "review_input \<Rightarrow> approval_explanation \<Rightarrow> tool_action list \<Rightarrow> finding option \<Rightarrow> (world, run_event) prog" where
  "append_finding_event inp x actions f =
     bind (ev_latest_seq (ri_run_id inp)) (\<lambda>last_seq.
     bind uuid_hex (\<lambda>u.
     bind now_utc (\<lambda>now.
     bind (lift (make_event (''evt-'' @ ri_run_id inp @ ''-adversarial-'' @ u) (ri_run_id inp) (last_seq + 1) ''run.progress''
       (finding_payload inp f x actions) now
       (Some \<lparr>c_event_id = None, c_action = Some ''adversarial_review.findings_recorded'',
              c_request_id = Some (ri_pipeline_id inp)\<rparr>)
       (Some \<lparr>a_kind = PolicyEngine, a_id = Some ''adversarial-review'', a_display = Some ''adversarial-review''\<rparr>)))
     ev_append)))"

definition emit_finding_events ::
  "review_input \<Rightarrow> finding list \<Rightarrow> approval_explanation \<Rightarrow> tool_action list \<Rightarrow> (world, run_event list) prog" where
  "emit_finding_events inp fs x actions =
     (if fs = [] then bind (append_finding_event inp x actions None) (\<lambda>e. ret [e])
      else for_each (\<lambda>f. append_finding_event inp x actions (Some f)) fs)"

section \<open>The review\<close>

definition review :: "(pyval \<Rightarrow> string) \<Rightarrow> tool_policy \<Rightarrow> review_input \<Rightarrow> (world, review_result) prog" where
  "review repr policy inp =
     (let fs = detect repr inp; decisions = policy_decisions policy fs; g = gate_decision fs decisions in
      bind (request_review_approval inp fs g) (\<lambda>approval_ids.
      let x = \<lparr>ax_gate_decision = g, ax_approval_ids = approval_ids, ax_policy_preset = show_preset (tp_preset policy),
               ax_policy_decisions = decisions, ax_rationale = rationale fs g\<rparr> in
      bind (lift (tool_action_metadata repr inp x)) (\<lambda>actions.
      bind (emit_finding_events inp fs x actions) (\<lambda>events.
      ret \<lparr>rr_findings = fs, rr_gate_decision = g,
           rr_pipeline_outcome = (if g = Continue then ''success'' else ''failure''),
           rr_status = (if g = Abort then ''aborted'' else ''completed''),
           rr_approval_explanation = x, rr_events = events,
           rr_handback_metadata = [(''input_artifact_ref'', PStr (ri_input_artifact_ref inp)),
             (''input_artifact_kind'', PStr (ri_input_artifact_kind inp)),
             (''approval_explanation'', PDict (explanation_payload x))] @ metadata_fields inp actions\<rparr>))))"


section \<open>The gate\<close>

lemma first_decision_filter:
  "first_decision action rules =
     (case filter (rule_matches ''adversarial_review'' action) rules of [] \<Rightarrow> None | r # _ \<Rightarrow> Some (tr_decision r))"
  by (induction rules) (auto simp: rule_matches_def)

lemma policy_decision_for_eq:
  "policy_decision_for policy f =
     policy_decision (if fd_class f = DestructiveToolMisuse then policy\<lparr>tp_default_decision := Forbidden\<rparr> else policy)
       ''adversarial_review'' (show_class (fd_class f))"
  by (simp add: policy_decision_for_def first_decision_filter policy_decision_def split: list.split)

text \<open>What each class stands for in the input.\<close>

fun detects :: "(pyval \<Rightarrow> string) \<Rightarrow> review_input \<Rightarrow> finding_class \<Rightarrow> bool" where
  "detects repr inp PromptInjection = has_prompt_injection (ri_handback_text inp)"
| "detects repr inp ApprovalBoundaryMisuse = has_approval_boundary_misuse (ri_handback_text inp)"
| "detects repr inp MalformedMemoryKnowledge =
     ((\<exists>m \<in> set (ri_memory_items inp). \<not> non_empty_str (dict_get m ''id'') \<or> \<not> non_empty_str (dict_get m ''content'')) \<or>
      (\<exists>k \<in> set (ri_knowledge_items inp). \<not> non_empty_str (dict_get k ''id'') \<or> \<not> non_empty_str (dict_get k ''source'')))"
| "detects repr inp DestructiveToolMisuse = (\<exists>c \<in> set (ri_tool_calls inp). destructive_call repr c)"

lemma item_refs_Nil: "item_refs ref name bad items = [] \<longleftrightarrow> (\<forall>x \<in> set items. \<not> bad x)"
proof -
  have "snd ` set (zip [0..<length items] items) = set items" by (metis length_upt map_snd_zip minus_nat.diff_0 set_map)
  then have "set items = {x. \<exists>i. (i, x) \<in> set (zip [0..<length items] items)}" by force
  then show ?thesis by (auto simp: item_refs_def filter_empty_conv)
qed

lemma detect_classes: "c \<in> fd_class ` set (detect repr inp) \<longleftrightarrow> detects repr inp c"
proof -
  have "map fd_class (detect repr inp) =
      (if detects repr inp PromptInjection then [PromptInjection] else []) @
      (if detects repr inp ApprovalBoundaryMisuse then [ApprovalBoundaryMisuse] else []) @
      (if detects repr inp MalformedMemoryKnowledge then [MalformedMemoryKnowledge] else []) @
      (if detects repr inp DestructiveToolMisuse then [DestructiveToolMisuse] else [])"
    by (simp add: detect_def Let_def malformed_memory_knowledge_refs_def destructive_tool_refs_def item_refs_Nil)
  then have "c \<in> set (map fd_class (detect repr inp)) \<longleftrightarrow> detects repr inp c" by (cases c) (simp_all del: detects.simps)
  then show ?thesis by simp
qed

lemma detect_distinct: "distinct (map fd_class (detect repr inp))"
  by (simp add: detect_def Let_def)

lemma decisions_lookup:
  assumes "distinct (map fd_class fs)" "f \<in> set fs"
  shows "map_of (policy_decisions policy fs) (fd_class f) = Some (policy_decision_for policy f)"
  using assms by (intro map_of_is_SomeI) (auto simp: policy_decisions_def comp_def)

lemma review_gate:
  "gate_decision (detect repr inp) (policy_decisions policy (detect repr inp)) =
     (if \<forall>c. \<not> detects repr inp c then Continue
      else if detects repr inp DestructiveToolMisuse \<or>
        (\<exists>c. detects repr inp c \<and> policy_decision policy ''adversarial_review'' (show_class c) = Forbidden) then Abort
      else Branch)"
proof -
  let ?fs = "detect repr inp"
  have none: "?fs = [] \<longleftrightarrow> (\<forall>c. \<not> detects repr inp c)"
    unfolding detect_classes [symmetric] by (cases ?fs) auto
  have "list_ex (\<lambda>f. fd_class f = DestructiveToolMisuse \<or> map_of (policy_decisions policy ?fs) (fd_class f) = Some Forbidden) ?fs
     \<longleftrightarrow> (\<exists>f \<in> set ?fs. fd_class f = DestructiveToolMisuse \<or> policy_decision_for policy f = Forbidden)"
    using decisions_lookup [OF detect_distinct] by (auto simp: list_ex_iff)
  also have "\<dots> \<longleftrightarrow> DestructiveToolMisuse \<in> fd_class ` set ?fs \<or>
      (\<exists>c \<in> fd_class ` set ?fs. policy_decision policy ''adversarial_review'' (show_class c) = Forbidden)"
  proof -
    have "fd_class f = DestructiveToolMisuse \<or> policy_decision_for policy f = Forbidden \<longleftrightarrow>
        fd_class f = DestructiveToolMisuse \<or> policy_decision policy ''adversarial_review'' (show_class (fd_class f)) = Forbidden" for f
      by (auto simp: policy_decision_for_eq)
    moreover have "DestructiveToolMisuse \<in> fd_class ` set ?fs \<longleftrightarrow> (\<exists>f \<in> set ?fs. fd_class f = DestructiveToolMisuse)" by force
    ultimately show ?thesis by (simp only: bex_simps) blast
  qed
  also have "\<dots> \<longleftrightarrow> detects repr inp DestructiveToolMisuse \<or>
      (\<exists>c. detects repr inp c \<and> policy_decision policy ''adversarial_review'' (show_class c) = Forbidden)"
    by (auto simp: detect_classes [symmetric])
  finally show ?thesis using none by (simp add: gate_decision_def)
qed

text \<open>
  C29. The gate of a review follows from its input and the policy alone: it lets the checkpoint continue
  exactly when no detector fires, aborts when a tool call is destructive or the policy's first rule for a
  detected class (or its default) forbids it, and branches in every other case. A destructive call aborts
  whatever the policy permits; the runbook (adversarial-review-checklist.md) excepts an operation that a
  preset permits and asks for the abort only when the policy says forbidden.
\<close>

theorem gate_follows_policy:
  "gate_decision (detect repr inp) (policy_decisions policy (detect repr inp)) =
     (if \<forall>c. \<not> detects repr inp c then Continue
      else if detects repr inp DestructiveToolMisuse \<or>
        (\<exists>c. detects repr inp c \<and> policy_decision policy ''adversarial_review'' (show_class c) = Forbidden) then Abort
      else Branch)"
  by (rule review_gate)

section \<open>What a review does to the log\<close>

definition review_ready :: "string \<Rightarrow> world \<Rightarrow> bool" where
  "review_ready run w \<longleftrightarrow> world_ok w \<and> \<not> run_terminal w run \<and> uuid_ok w"

lemma finding_payload_ok:
  "validate_payload ''run.progress'' (finding_payload inp f x actions) = Inr ()"
  "map_of (finding_payload inp f x actions) ''gate_decision'' = Some (PStr (show_gate (ax_gate_decision x)))"
  "map_of (finding_payload inp f x actions) ''finding_class'' =
     Some (PStr (case f of None \<Rightarrow> ''none'' | Some g \<Rightarrow> show_class (fd_class g)))"
  by (cases f; simp add: finding_payload_def Let_def map_of_dict_update keys_dict_update)+

lemma append_finding_ok:
  assumes ready: "review_ready (ri_run_id inp) w"
  shows "\<exists>e. append_finding_event inp x actions f w =
      (Inr e, w\<lparr>w_uuids := Suc (w_uuids w), w_ticks := Suc (w_ticks w), w_events := w_events w @ [e]\<rparr>) \<and>
    review_ready (ri_run_id inp) (w\<lparr>w_uuids := Suc (w_uuids w), w_ticks := Suc (w_ticks w), w_events := w_events w @ [e]\<rparr>) \<and>
    e_run_id e = ri_run_id inp \<and> e_payload e = finding_payload inp f x actions \<and> e_type e = ''run.progress''"
proof -
  let ?run = "ri_run_id inp" and ?u = "w_uuid w (w_uuids w)" and ?p = "finding_payload inp f x actions"
  let ?pre = "''evt-'' @ ?run @ ''-adversarial-''"
  let ?w1 = "w\<lparr>w_uuids := Suc (w_uuids w), w_ticks := Suc (w_ticks w)\<rparr>"
  let ?e = "\<lparr>e_id = ?pre @ ?u, e_run_id = ?run, e_seq = int (length (events_of w ?run)) + 1,
      e_type = ''run.progress'', e_payload = ?p, e_timestamp = Aware (w_clock w (w_ticks w)) 0,
      e_causation = Some \<lparr>c_event_id = None, c_action = Some ''adversarial_review.findings_recorded'',
        c_request_id = Some (ri_pipeline_id inp)\<rparr>,
      e_actor = Some \<lparr>a_kind = PolicyEngine, a_id = Some ''adversarial-review'', a_display = Some ''adversarial-review''\<rparr>\<rparr>"
  have d: "world_ok w" "log_ok (w_events w)" "\<not> run_terminal w ?run" "uuid_ok w"
    using ready by (auto simp: review_ready_def world_ok_def)
  have pre: "?pre \<noteq> []" "last ?pre = CHR ''-''" by simp_all
  have fresh: "?pre @ ?u \<notin> e_id ` set (w_events w)"
    using d(4) by (auto simp: uuid_ok_def dest!: spec [of _ "w_uuids w"]) (metis append.assoc append_Cons append_Nil suffixI)
  have run: "append_finding_event inp x actions f w = (Inr ?e, ?w1\<lparr>w_events := w_events w @ [?e]\<rparr>)"
    using fresh d(2,3) finding_payload_ok(1) [of inp f x actions]
    by (simp add: append_finding_event_def prog_simps uuid_hex_def ev_latest_seq_def max_seq_log_ok now_utc_def
        make_event_ok ev_append_cases Let_def run_terminal_def get_run_state_def)
  have "keeps world_ok (append_finding_event inp x actions f)"
    unfolding append_finding_event_def by (intro keep.resp_bind keep.resp_rules keeps_world) (auto dest: make_event_wf)
  from obeysD [OF this run] d(1) have ok: "world_ok (?w1\<lparr>w_events := w_events w @ [?e]\<rparr>)" by simp
  have "uuid_ok (?w1\<lparr>w_events := w_events w @ [?e]\<rparr>)"
    using d(4) uuid_suffix_iff [OF d(4) pre] by (auto simp: uuid_ok_def)
  with ok d(3) have "review_ready ?run (?w1\<lparr>w_events := w_events w @ [?e]\<rparr>)" by (simp add: review_ready_def)
  with run show ?thesis by (intro exI [of _ ?e]) simp
qed


lemma for_each_findings:
  "review_ready (ri_run_id inp) w \<Longrightarrow>
     \<exists>es w'. for_each (\<lambda>f. append_finding_event inp x actions (g f)) fs w = (Inr es, w') \<and> review_ready (ri_run_id inp) w' \<and>
       events_of w' (ri_run_id inp) = events_of w (ri_run_id inp) @ es \<and> w_approvals w' = w_approvals w \<and>
       map e_payload es = map (\<lambda>f. finding_payload inp (g f) x actions) fs \<and> (\<forall>e \<in> set es. e_type e = ''run.progress'')"
proof (induction fs arbitrary: w)
  case (Cons f fs)
  from append_finding_ok [OF Cons.prems, of x actions "g f"] obtain e where
    run: "append_finding_event inp x actions (g f) w =
      (Inr e, w\<lparr>w_uuids := Suc (w_uuids w), w_ticks := Suc (w_ticks w), w_events := w_events w @ [e]\<rparr>)"
    and ready: "review_ready (ri_run_id inp) (w\<lparr>w_uuids := Suc (w_uuids w), w_ticks := Suc (w_ticks w), w_events := w_events w @ [e]\<rparr>)"
    and e: "e_run_id e = ri_run_id inp" "e_payload e = finding_payload inp (g f) x actions" "e_type e = ''run.progress''"
    by blast
  from Cons.IH [OF ready] obtain es w' where
    "for_each (\<lambda>f. append_finding_event inp x actions (g f)) fs
       (w\<lparr>w_uuids := Suc (w_uuids w), w_ticks := Suc (w_ticks w), w_events := w_events w @ [e]\<rparr>) = (Inr es, w')"
    "review_ready (ri_run_id inp) w'"
    "events_of w' (ri_run_id inp) = events_of w (ri_run_id inp) @ e # es" "w_approvals w' = w_approvals w"
    "map e_payload es = map (\<lambda>f. finding_payload inp (g f) x actions) fs" "\<forall>e \<in> set es. e_type e = ''run.progress''"
    using e(1) by (auto simp: events_of_def)
  with run e(2,3) show ?case by (intro exI [of _ "e # es"] exI [of _ w']) (simp add: prog_simps)
qed (simp add: prog_simps)

definition reported :: "finding list \<Rightarrow> finding option list" where
  "reported fs = (if fs = [] then [None] else map Some fs)"

lemma emit_findings_ok:
  assumes "review_ready (ri_run_id inp) w"
  shows "\<exists>es w'. emit_finding_events inp fs x actions w = (Inr es, w') \<and> review_ready (ri_run_id inp) w' \<and>
       events_of w' (ri_run_id inp) = events_of w (ri_run_id inp) @ es \<and> w_approvals w' = w_approvals w \<and>
       map e_payload es = map (\<lambda>f. finding_payload inp f x actions) (reported fs) \<and> (\<forall>e \<in> set es. e_type e = ''run.progress'')"
proof (cases "fs = []")
  case True
  then have "emit_finding_events inp fs x actions = for_each (\<lambda>f. append_finding_event inp x actions f) [None]"
    by (simp add: emit_finding_events_def fun_eq_iff prog_simps split: prod.split sum.split)
  with for_each_findings [OF assms, of x actions "\<lambda>f. f" "[None]"] True show ?thesis by (simp add: reported_def)
next
  case False
  with for_each_findings [OF assms, of x actions Some fs] show ?thesis
    by (simp add: emit_finding_events_def reported_def comp_def)
qed

lemma last_join: "xs \<noteq> [] \<Longrightarrow> last xs \<noteq> [] \<Longrightarrow> join sep xs \<noteq> [] \<and> last (join sep xs) = last (last xs)"
  by (induction sep xs rule: join.induct) auto

lemma review_request_ok:
  assumes "clean (ri_run_id inp)" "fs \<noteq> []"
  shows "request_ok (ri_run_id inp) ''adversarial_review'' (review_summary fs g) (Some (requested_capability fs)) None"
proof -
  let ?cs = "map (\<lambda>f. show_class (fd_class f)) fs"
  have c: "show_class k \<noteq> [] \<and> \<not> is_space (last (show_class k))" for k by (cases k) (simp_all add: is_space_def Let_def)
  have "last ?cs = show_class (fd_class (last fs))" using assms(2) by (simp add: last_map)
  with last_join [of ?cs "'', ''"] c assms(2) have "join '', '' ?cs \<noteq> []" "\<not> is_space (last (join '', '' ?cs))" by auto
  then have "clean (review_summary fs g)" by (cases g) (simp_all add: review_summary_def clean_iff is_space_def Let_def)
  moreover have "clean (requested_capability fs)"
    using c by (auto simp: requested_capability_def clean_iff is_space_def Let_def split: list.split)
  moreover have "clean ''adversarial_review''" by (simp add: clean_iff is_space_def Let_def)
  ultimately show ?thesis using assms(1) by (simp add: request_ok_def)
qed

abbreviation review_approval :: "review_input \<Rightarrow> string" where
  "review_approval inp \<equiv> approval_id_of (ri_run_id inp) ''adversarial_review''"

lemma request_review_approval_ok:
  assumes ready: "review_ready (ri_run_id inp) w" and "clean (ri_run_id inp)" "fs \<noteq> []"
    and fresh: "waiting_event_id (review_approval inp) \<notin> e_id ` set (w_events w)"
  shows "\<exists>e w'. request_review_approval inp fs g w = (Inr [review_approval inp], w') \<and> review_ready (ri_run_id inp) w' \<and>
    events_of w' (ri_run_id inp) = events_of w (ri_run_id inp) @ [e] \<and> e_type e = ''run.approval_waiting'' \<and>
    (\<exists>a. map_of (w_approvals w') (review_approval inp) = Some a \<and> ap_state a = APending)"
proof -
  let ?r = "ri_run_id inp" and ?cap = "Some (requested_capability fs)"
  have d: "world_ok w" "\<not> run_terminal w ?r" "uuid_ok w" using ready by (auto simp: review_ready_def)
  from request_effect [OF d(1) review_request_ok [OF assms(2,3), of g] d(2) fresh,
      of "Some (ri_pipeline_id inp @ '':'' @ ri_node_id inp)"] obtain w' e where
    req: "engine_request ?r ''adversarial_review'' (review_summary fs g) ?cap None (Some (ri_pipeline_id inp @ '':'' @ ri_node_id inp)) w
      = (Inr (pending_approval ?r ''adversarial_review'' (review_summary fs g) ?cap None w), w')"
    and w': "w' = w\<lparr>w_ticks := Suc (w_ticks w), w_approvals := AList.update (review_approval inp)
      (pending_approval ?r ''adversarial_review'' (review_summary fs g) ?cap None w) (w_approvals w), w_events := w_events w @ [e]\<rparr>"
    and e: "e_id e = waiting_event_id (review_approval inp)" "e_run_id e = ?r" "e_type e = ''run.approval_waiting''"
    and ok: "world_ok w'" by (elim exE conjE)
  have "\<not> suffix (w_uuid w n) (e_id e)" for n
    using approval_event_ids [of "review_approval inp"] not_uuid_suffix [OF d(3)] unfolding e(1) by metis
  then have "uuid_ok w'" using d(3) w' by (auto simp: uuid_ok_def)
  moreover have "\<not> run_terminal w' ?r" using d(2) w' by simp
  ultimately have "review_ready ?r w'" using ok by (simp add: review_ready_def)
  moreover have "request_review_approval inp fs g w = (Inr [review_approval inp], w')"
    using req assms(3) by (simp add: request_review_approval_def prog_simps pending_approval_def)
  ultimately show ?thesis using w' e by (auto simp: update_conv' pending_approval_def events_of_def)
qed

text \<open>A tool call the metadata accepts.\<close>

definition supported_call :: "(pyval \<Rightarrow> string) \<Rightarrow> payload \<Rightarrow> bool" where
  "supported_call repr call \<longleftrightarrow> declared_class repr call \<in> set side_effect_classes \<and> declared_reason repr call \<noteq> []"

lemma stripped_or_strip: "strip (stripped_or repr v other) = stripped_or repr v other"
  by (simp add: stripped_or_def)

lemma declared_action_strip: "strip (declared_action repr call) = declared_action repr call"
  by (simp add: declared_action_def stripped_or_strip)

lemma tool_action_of_iff: "(\<exists>a. tool_action_of repr p call = Inr a) \<longleftrightarrow> supported_call repr call"
proof -
  have effect: "(\<exists>s. make_side_effect (declared_class repr call) (declared_reason repr call) = Inr s) \<longleftrightarrow> supported_call repr call"
    by (auto simp: make_side_effect_def rbind_Inr_iff require_text_Inr_iff supported_call_def declared_class_def
        declared_reason_def stripped_or_strip side_effect_classes_def)
  have "\<exists>a. make_tool_action (if s = [] then ''unknown'' else s) (if t = [] then ''unknown'' else t) eff p = Inr a"
    if "strip s = s" "strip t = t" for s t eff
  proof -
    have "clean ''unknown''" by (simp add: clean_iff is_space_def Let_def)
    then have "clean (if s = [] then ''unknown'' else s)" if "strip s = s" for s using that by (simp add: clean_def)
    from this [OF \<open>strip s = s\<close>] this [OF \<open>strip t = t\<close>] show ?thesis
      unfolding make_tool_action_def clean_text_eq by (simp add: require_text_clean)
  qed
  from this [of "stripped_or repr (first_truthy call ''tool_id'' ''tool'') ''unknown''" "declared_action repr call"]
  have "(\<exists>a. tool_action_of repr p call = Inr a) \<longleftrightarrow>
      (\<exists>s. make_side_effect (declared_class repr call) (declared_reason repr call) = Inr s)"
    by (cases "make_side_effect (declared_class repr call) (declared_reason repr call)")
       (simp_all add: tool_action_of_def Let_def stripped_or_strip declared_action_strip split del: if_split)
  with effect show ?thesis by simp
qed

lemma tool_action_of_Inl: "tool_action_of repr p call = Inl e \<Longrightarrow> \<exists>m. e = ValueError m"
  by (auto simp: tool_action_of_def Let_def rbind_Inl_iff make_side_effect_def make_tool_action_def ensure_def
      require_non_empty_text_def split: if_splits)

lemma metadata_iff: "(\<exists>as. tool_action_metadata repr inp x = Inr as) \<longleftrightarrow> (\<forall>call \<in> set (ri_tool_calls inp). supported_call repr call)"
proof -
  have "(\<exists>ys. rmap f xs = Inr ys) \<longleftrightarrow> (\<forall>x \<in> set xs. \<exists>y. f x = Inr y)" for f :: "payload \<Rightarrow> exc + tool_action" and xs
    by (induction xs) (auto simp: rbind_Inr_iff)
  then show ?thesis by (simp add: tool_action_metadata_def tool_action_of_iff)
qed

lemma metadata_Inl: "tool_action_metadata repr inp x = Inl e \<Longrightarrow> \<exists>m. e = ValueError m"
proof -
  have "rmap f xs = Inl e \<Longrightarrow> \<exists>x \<in> set xs. f x = Inl e" for f :: "payload \<Rightarrow> exc + tool_action" and xs
    by (induction xs) (auto simp: rbind_Inl_iff)
  then show "tool_action_metadata repr inp x = Inl e \<Longrightarrow> \<exists>m. e = ValueError m"
    using tool_action_of_Inl by (fastforce simp: tool_action_metadata_def)
qed


lemma no_findings: "detect repr inp = [] \<longleftrightarrow> (\<forall>c. \<not> detects repr inp c)"
  unfolding detect_classes [symmetric] by (cases "detect repr inp") auto

abbreviation review_gate_of :: "(pyval \<Rightarrow> string) \<Rightarrow> tool_policy \<Rightarrow> review_input \<Rightarrow> gate" where
  "review_gate_of repr policy inp \<equiv> gate_decision (detect repr inp) (policy_decisions policy (detect repr inp))"

text \<open>
  C4. A review of an open run, the first one that asks for its approval and with tool calls the metadata
  accepts, returns the findings of the detectors and their gate. Without findings it appends one event and
  asks nobody; else it stores a pending approval, announces it, and then appends one event for each
  finding, in order, each with the gate's decision. The pipeline goes on exactly when the gate says so.
\<close>

theorem review_records_findings:
  assumes "review_ready (ri_run_id inp) w" "clean (ri_run_id inp)"
    "waiting_event_id (review_approval inp) \<notin> e_id ` set (w_events w)"
    "\<forall>call \<in> set (ri_tool_calls inp). supported_call repr call"
  shows "\<exists>res w' asked. review repr policy inp w = (Inr res, w') \<and> review_ready (ri_run_id inp) w' \<and>
    rr_findings res = detect repr inp \<and> rr_gate_decision res = review_gate_of repr policy inp \<and>
    (rr_pipeline_outcome res = ''success'' \<longleftrightarrow> review_gate_of repr policy inp = Continue) \<and>
    events_of w' (ri_run_id inp) = events_of w (ri_run_id inp) @ asked @ rr_events res \<and>
    map e_type asked = (if detect repr inp = [] then [] else [''run.approval_waiting'']) \<and>
    map (\<lambda>e. map_of (e_payload e) ''finding_class'') (rr_events res) =
      map (\<lambda>f. Some (PStr (case f of None \<Rightarrow> ''none'' | Some g \<Rightarrow> show_class (fd_class g)))) (reported (detect repr inp)) \<and>
    (\<forall>e \<in> set (rr_events res). map_of (e_payload e) ''gate_decision'' = Some (PStr (show_gate (review_gate_of repr policy inp)))) \<and>
    (detect repr inp \<noteq> [] \<longrightarrow>
       (\<exists>a. map_of (w_approvals w') (review_approval inp) = Some a \<and> ap_state a = APending))"
proof -
  let ?fs = "detect repr inp" and ?g = "review_gate_of repr policy inp" and ?r = "ri_run_id inp"
  obtain ids w1 asked where req: "request_review_approval inp ?fs ?g w = (Inr ids, w1)" "review_ready ?r w1"
    "events_of w1 ?r = events_of w ?r @ asked" "map e_type asked = (if ?fs = [] then [] else [''run.approval_waiting''])"
    "?fs \<noteq> [] \<longrightarrow> (\<exists>a. map_of (w_approvals w1) (review_approval inp) = Some a \<and> ap_state a = APending)"
  proof (cases "?fs = []")
    case True
    with assms(1) show thesis by (intro that [of "[]" w "[]"]) (simp_all add: request_review_approval_def prog_simps)
  next
    case False
    from request_review_approval_ok [OF assms(1,2) False assms(3), of ?g] obtain e w' where
      "request_review_approval inp ?fs ?g w = (Inr [review_approval inp], w')" "review_ready ?r w'"
      "events_of w' ?r = events_of w ?r @ [e]" "e_type e = ''run.approval_waiting''"
      "\<exists>a. map_of (w_approvals w') (review_approval inp) = Some a \<and> ap_state a = APending" by (elim exE conjE) blast
    with False show thesis by (intro that [of "[review_approval inp]" w' "[e]"]) simp_all
  qed
  define x where "x = \<lparr>ax_gate_decision = ?g, ax_approval_ids = ids, ax_policy_preset = show_preset (tp_preset policy),
    ax_policy_decisions = policy_decisions policy ?fs, ax_rationale = rationale ?fs ?g\<rparr>"
  from assms(4) metadata_iff obtain actions where actions: "tool_action_metadata repr inp x = Inr actions" by blast
  from emit_findings_ok [OF req(2), of ?fs x actions] obtain es w2 where
    emit: "emit_finding_events inp ?fs x actions w1 = (Inr es, w2)" "review_ready ?r w2"
    "events_of w2 ?r = events_of w1 ?r @ es" "w_approvals w2 = w_approvals w1"
    "map e_payload es = map (\<lambda>f. finding_payload inp f x actions) (reported ?fs)" by (elim exE conjE)
  have cls: "map (\<lambda>e. map_of (e_payload e) ''finding_class'') es =
      map (\<lambda>f. Some (PStr (case f of None \<Rightarrow> ''none'' | Some g \<Rightarrow> show_class (fd_class g)))) (reported ?fs)"
    using arg_cong [OF emit(5), of "map (\<lambda>p. map_of p ''finding_class'')"] by (simp add: comp_def finding_payload_ok(3))
  have "map (\<lambda>e. map_of (e_payload e) ''gate_decision'') es = map (\<lambda>f. Some (PStr (show_gate ?g))) (reported ?fs)"
    using arg_cong [OF emit(5), of "map (\<lambda>p. map_of p ''gate_decision'')"] by (simp add: comp_def finding_payload_ok(2) x_def)
  then have gates: "\<forall>e \<in> set es. map_of (e_payload e) ''gate_decision'' = Some (PStr (show_gate ?g))"
    by (metis (no_types, lifting) image_iff list.set_map)
  obtain res where res: "review repr policy inp w = (Inr res, w2)" "rr_findings res = ?fs" "rr_gate_decision res = ?g"
    "rr_pipeline_outcome res = (if ?g = Continue then ''success'' else ''failure'')" "rr_events res = es"
    by (rule that, unfold review_def Let_def, use req(1) actions emit(1) in \<open>simp add: prog_simps x_def\<close>) simp_all
  show ?thesis
    by (intro exI [of _ res] exI [of _ w2] exI [of _ asked] conjI)
       (use res emit req cls gates in \<open>simp_all del: map_eq_conv\<close>)
qed

text \<open>
  A tool call whose declared side-effect class is not a known one ends a review with findings in a
  \<open>ValueError\<close>, after the approval was stored and announced: the run waits for a decision on findings
  that no event records.
\<close>

theorem unknown_class_loses_findings:
  assumes "review_ready (ri_run_id inp) w" "clean (ri_run_id inp)"
    "waiting_event_id (review_approval inp) \<notin> e_id ` set (w_events w)"
    "detect repr inp \<noteq> []" "call \<in> set (ri_tool_calls inp)" "declared_class repr call \<notin> set side_effect_classes"
  shows "\<exists>m w' e. review repr policy inp w = (Inl (ValueError m), w') \<and>
    events_of w' (ri_run_id inp) = events_of w (ri_run_id inp) @ [e] \<and> e_type e = ''run.approval_waiting'' \<and>
    (\<exists>a. map_of (w_approvals w') (review_approval inp) = Some a \<and> ap_state a = APending)"
proof -
  let ?g = "review_gate_of repr policy inp"
  from request_review_approval_ok [OF assms(1,2,4,3), of ?g] obtain e w' where
    req: "request_review_approval inp (detect repr inp) ?g w = (Inr [review_approval inp], w')"
      "events_of w' (ri_run_id inp) = events_of w (ri_run_id inp) @ [e]" "e_type e = ''run.approval_waiting''"
      "\<exists>a. map_of (w_approvals w') (review_approval inp) = Some a \<and> ap_state a = APending" by (elim exE conjE) blast
  define x where "x = \<lparr>ax_gate_decision = ?g, ax_approval_ids = [review_approval inp],
    ax_policy_preset = show_preset (tp_preset policy), ax_policy_decisions = policy_decisions policy (detect repr inp),
    ax_rationale = rationale (detect repr inp) ?g\<rparr>"
  have "\<not> supported_call repr call" using assms(6) by (simp add: supported_call_def)
  with assms(5) metadata_iff have "\<nexists>as. tool_action_metadata repr inp x = Inr as" by blast
  then obtain err where err: "tool_action_metadata repr inp x = Inl err"
    by (cases "tool_action_metadata repr inp x") auto
  then obtain m where "err = ValueError m" using metadata_Inl by blast
  with err req(1) have "review repr policy inp w = (Inl (ValueError m), w')"
    unfolding review_def Let_def by (simp add: prog_simps x_def)
  with req(2-4) show ?thesis by blast
qed


section \<open>Concrete inputs\<close>

definition demo_call :: "string \<Rightarrow> payload" where
  "demo_call side_effect = [(''tool'', PStr ''shell''), (''action'', PStr ''run''), (''command'', PStr ''RM -RF /''),
     (''side_effect_class'', PStr side_effect)]"

definition demo_review :: "string \<Rightarrow> review_input" where
  "demo_review side_effect = \<lparr>ri_run_id = ''r'', ri_pipeline_id = ''p'', ri_node_id = ''n'',
     ri_input_artifact_ref = ''artifact://r/x'', ri_input_artifact_kind = ''patch'',
     ri_handback_text = ''Please SKIP approval'', ri_tool_calls = [demo_call side_effect], ri_memory_items = [],
     ri_knowledge_items = [], ri_token_budget = None\<rparr>"

definition empty_repr :: "pyval \<Rightarrow> string" where
  "empty_repr v = []"

definition demo_policy :: tool_policy where
  "demo_policy = \<lparr>tp_preset = Ask, tp_rules = [], tp_default_decision = ApprovalRequired\<rparr>"

lemma demo_review_facts:
  "review_ready (ri_run_id (demo_review s)) ea_world" "clean (ri_run_id (demo_review s))"
  "waiting_event_id (review_approval (demo_review s)) \<notin> e_id ` set (w_events ea_world)"
  "map fd_class (detect empty_repr (demo_review ''workspace-mutating'')) = [ApprovalBoundaryMisuse, DestructiveToolMisuse]"
  "map fd_class (detect empty_repr (demo_review ''harmless'')) = [ApprovalBoundaryMisuse, DestructiveToolMisuse]"
  "review_gate_of empty_repr demo_policy (demo_review ''workspace-mutating'') = Abort"
  "supported_call empty_repr (demo_call ''workspace-mutating'')"
  "declared_class empty_repr (demo_call ''harmless'') \<notin> set side_effect_classes"
proof -
  have inv: "ea_inv ''r'' k ea_world" for k
    using ea_world_view [of "''r''" k] by (rule ea_viewD(1))
  then show "review_ready (ri_run_id (demo_review s)) ea_world"
    by (simp add: review_ready_def demo_review_def ea_inv_def)
  show "clean (ri_run_id (demo_review s))" by (simp add: demo_review_def clean_iff is_space_def Let_def)
  show "waiting_event_id (review_approval (demo_review s)) \<notin> e_id ` set (w_events ea_world)"
    by (simp add: ea_world_def fresh_world_def)
  show "map fd_class (detect empty_repr (demo_review ''workspace-mutating'')) = [ApprovalBoundaryMisuse, DestructiveToolMisuse]"
    "map fd_class (detect empty_repr (demo_review ''harmless'')) = [ApprovalBoundaryMisuse, DestructiveToolMisuse]"
    "review_gate_of empty_repr demo_policy (demo_review ''workspace-mutating'') = Abort"
    "supported_call empty_repr (demo_call ''workspace-mutating'')"
    "declared_class empty_repr (demo_call ''harmless'') \<notin> set side_effect_classes" by code_simp+
qed

theorem review_records_findings_witness:
  "\<exists>res w'. review empty_repr demo_policy (demo_review ''workspace-mutating'') ea_world = (Inr res, w') \<and>
     rr_gate_decision res = Abort \<and> rr_pipeline_outcome res \<noteq> ''success'' \<and>
     map (\<lambda>e. map_of (e_payload e) ''finding_class'') (rr_events res) =
       [Some (PStr ''approval_boundary_misuse''), Some (PStr ''destructive_tool_misuse'')]"
proof -
  let ?i = "demo_review ''workspace-mutating''"
  have calls: "\<forall>call \<in> set (ri_tool_calls ?i). supported_call empty_repr call"
    using demo_review_facts(7) by (simp add: demo_review_def)
  have "map (\<lambda>f. Some (PStr (case f of None \<Rightarrow> ''none'' | Some g \<Rightarrow> show_class (fd_class g)))) (reported (detect empty_repr ?i)) =
      [Some (PStr ''approval_boundary_misuse''), Some (PStr ''destructive_tool_misuse'')]"
    using demo_review_facts(4) by (auto simp: reported_def map_eq_Cons_conv)
  moreover from review_records_findings [OF demo_review_facts(1-3) calls, of demo_policy] obtain res w' where
    "review empty_repr demo_policy ?i ea_world = (Inr res, w')"
    "rr_gate_decision res = review_gate_of empty_repr demo_policy ?i"
    "rr_pipeline_outcome res = ''success'' \<longleftrightarrow> review_gate_of empty_repr demo_policy ?i = Continue"
    "map (\<lambda>e. map_of (e_payload e) ''finding_class'') (rr_events res) =
       map (\<lambda>f. Some (PStr (case f of None \<Rightarrow> ''none'' | Some g \<Rightarrow> show_class (fd_class g)))) (reported (detect empty_repr ?i))"
    by (elim exE conjE)
  ultimately show ?thesis unfolding demo_review_facts(6) by (intro exI [of _ res] exI [of _ w'] conjI) simp_all
qed

theorem unknown_class_loses_findings_witness:
  "\<exists>m w' e. review empty_repr demo_policy (demo_review ''harmless'') ea_world = (Inl (ValueError m), w') \<and>
     events_of w' ''r'' = [e] \<and> e_type e = ''run.approval_waiting''"
proof -
  let ?i = "demo_review ''harmless''"
  have found: "detect empty_repr ?i \<noteq> []" using demo_review_facts(5) by auto
  have call: "demo_call ''harmless'' \<in> set (ri_tool_calls ?i)" by (simp add: demo_review_def)
  have "events_of ea_world ''r'' = []" "ri_run_id ?i = ''r''"
    by (simp_all add: ea_world_def fresh_world_def events_of_def demo_review_def)
  with unknown_class_loses_findings [OF demo_review_facts(1-3) found call demo_review_facts(8), of demo_policy] show ?thesis
    by (elim exE conjE) (intro exI conjI, assumption, simp_all)
qed

end
