(* ===== verification/Context_Provider.thy ===== *)
theory Context_Provider
  imports Documents
begin

text \<open>
  The repository context of coding sessions (domain/context_provider.py): the three patterns that
  are redacted, the test that keeps excerpts inside the repository, and the fragments about git, the
  tracked files and the artifacts. What the processes and the file system answer is a record of
  functions. Every pattern is a matcher: what is left of a text after a match at its start.

  A locale states what the redaction needs of a matcher and proves that nothing is left to match,
  also after later patterns were redacted; it is interpreted on the three patterns.
\<close>

section \<open>The patterns\<close>

text \<open>A literal at the start, whatever its case.\<close>

fun prefix_ci :: "string \<Rightarrow> string \<Rightarrow> string option" where
  "prefix_ci [] s = Some s"
| "prefix_ci (p # ps) [] = None"
| "prefix_ci (p # ps) (c # s) = (if lower_char c = p then prefix_ci ps s else None)"

fun first_prefix :: "string list \<Rightarrow> string \<Rightarrow> string option" where
  "first_prefix [] s = None"
| "first_prefix (w # ws) s = (case prefix_ci w s of Some r \<Rightarrow> Some r | None \<Rightarrow> first_prefix ws s)"

definition skip_space :: "string \<Rightarrow> string" where
  "skip_space s = dropWhile is_space s"

text \<open>At least one blank, then a literal.\<close>

definition spaced :: "string list \<Rightarrow> string \<Rightarrow> string option" where
  "spaced ws s = (case s of [] \<Rightarrow> None | c # _ \<Rightarrow> if is_space c then first_prefix ws (skip_space s) else None)"

definition secret_names :: "string list" where
  "secret_names = [''api_key'', ''api-key'', ''apikey'', ''token'', ''secret'', ''password'']"

definition match_assignment :: "string \<Rightarrow> string option" where
  "match_assignment s = (case first_prefix secret_names s of
       None \<Rightarrow> None
     | Some r \<Rightarrow> (case skip_space r of
         c # r' \<Rightarrow> if c \<in> {CHR ''='', CHR '':''} \<and> skip_space r' \<noteq> []
                   then Some (dropWhile (\<lambda>d. \<not> is_space d) (skip_space r')) else None
       | [] \<Rightarrow> None))"

definition match_private_key :: "string \<Rightarrow> string option" where
  "match_private_key s = (case first_prefix [''-----begin''] s of None \<Rightarrow> None | Some r \<Rightarrow>
     (case spaced [''rsa'', ''ec'', ''dsa''] r of None \<Rightarrow> None | Some r \<Rightarrow>
     (case spaced [''private''] r of None \<Rightarrow> None | Some r \<Rightarrow> spaced [''key-----''] r)))"

definition token_char :: "char \<Rightarrow> bool" where
  "token_char c \<longleftrightarrow> (let n = (of_char c :: nat) in
     (65 \<le> n \<and> n \<le> 90) \<or> (97 \<le> n \<and> n \<le> 122) \<or> (48 \<le> n \<and> n \<le> 57) \<or> n = 95)"

definition github_prefixes :: "string list" where
  "github_prefixes = [''ghp_'', ''gho_'', ''ghu_'', ''ghs_'', ''ghr_'']"

definition match_github_token :: "string \<Rightarrow> string option" where
  "match_github_token s = (case first_prefix github_prefixes s of
       None \<Rightarrow> None
     | Some r \<Rightarrow> if 36 \<le> length (takeWhile token_char r) then Some (dropWhile token_char r) else None)"

definition secret_patterns :: "(string \<Rightarrow> string option) list" where
  "secret_patterns = [match_assignment, match_private_key, match_github_token]"

section \<open>Redaction\<close>

definition redacted :: string where
  "redacted = ''[REDACTED]''"

text \<open>\<open>pattern.sub\<close>: leftmost matches that do not overlap. A match of these patterns is never empty.\<close>

fun sub_all :: "(string \<Rightarrow> string option) \<Rightarrow> string \<Rightarrow> string" where
  "sub_all m [] = []"
| "sub_all m (c # s) = (case m (c # s) of
       None \<Rightarrow> c # sub_all m s
     | Some r \<Rightarrow> if length r \<le> length s then redacted @ sub_all m r else c # sub_all m s)"

definition scrub_secrets :: "string \<Rightarrow> string" where
  "scrub_secrets s = fold sub_all secret_patterns s"

text \<open>A match anywhere in a text.\<close>

fun occurs :: "(string \<Rightarrow> string option) \<Rightarrow> string \<Rightarrow> bool" where
  "occurs m [] = (m [] \<noteq> None)"
| "occurs m (c # s) = (m (c # s) \<noteq> None \<or> occurs m s)"

definition has_secret :: "string \<Rightarrow> bool" where
  "has_secret s \<longleftrightarrow> list_ex (\<lambda>m. occurs m s) secret_patterns"

section \<open>What redaction leaves\<close>

text \<open>Replacing disjoint pieces that start with a character that is no blank.\<close>

inductive blurs :: "string \<Rightarrow> string \<Rightarrow> bool" where
  blurs_Nil: "blurs [] []"
| blurs_char: "blurs s t \<Longrightarrow> blurs (c # s) (c # t)"
| blurs_piece: "blurs s t \<Longrightarrow> \<not> is_space c \<Longrightarrow> blurs (c # x @ s) (redacted @ t)"

inductive_cases blurs_NilE: "blurs s []"

lemma blurs_refl: "blurs s s"
  by (induction s) (auto intro: blurs.intros)

lemma redacted_Cons: "redacted = CHR ''['' # ''REDACTED]''"
  by (simp add: redacted_def)

lemma blurs_head:
  assumes "blurs s (c # t)" "c \<noteq> CHR ''[''"
  obtains s' where "s = c # s'" "blurs s' t"
  using assms by (auto simp: redacted_Cons elim: blurs.cases)

lemma lower_bracket: "lower_char (CHR ''['') = CHR ''['' \<and> \<not> is_space (CHR ''['')"
  by code_simp

lemma blurs_prefix:
  "prefix_ci w t = Some t' \<Longrightarrow> blurs s t \<Longrightarrow> CHR ''['' \<notin> set w \<Longrightarrow> \<exists>s'. prefix_ci w s = Some s' \<and> blurs s' t'"
proof (induction w t arbitrary: s rule: prefix_ci.induct)
  case (3 p ps c t)
  then have c: "lower_char c = p" "prefix_ci ps t = Some t'" by (auto split: if_splits)
  with 3 have "c \<noteq> CHR ''[''" using lower_bracket by auto
  with 3(3) obtain s' where s: "s = c # s'" "blurs s' t" by (rule blurs_head)
  with 3(1) [OF c(1) c(2) s(2)] 3(4) c(1) show ?case by simp
qed auto

text \<open>What every matcher offers: it reads a piece that starts with no blank, it is not fooled by a redaction.\<close>

locale redaction =
  fixes m :: "string \<Rightarrow> string option"
  assumes reads_piece: "m s = Some r \<Longrightarrow> \<exists>c x. s = c # x @ r \<and> \<not> is_space c"
    and not_created: "blurs s t \<Longrightarrow> m t \<noteq> None \<Longrightarrow> m s \<noteq> None"
    and not_inside: "u @ v = redacted \<Longrightarrow> v \<noteq> [] \<Longrightarrow> m (v @ t) = None"
begin

lemma not_empty: "m [] = None"
  using reads_piece by (cases "m []") auto

lemma sub_match: "m (c # s) = Some r \<Longrightarrow> sub_all m (c # s) = redacted @ sub_all m r \<and> length r \<le> length s"
  using reads_piece [of "c # s" r] by auto

lemma blurs_sub_all: "blurs s (sub_all m s)"
proof (induction s rule: measure_induct_rule [of length])
  case (less s)
  show ?case
  proof (cases s)
    case (Cons c s')
    show ?thesis
    proof (cases "m s")
      case None
      then show ?thesis using less [of s'] Cons by (auto intro: blurs.intros)
    next
      case (Some r)
      then obtain d x where d: "s = d # x @ r" "\<not> is_space d" using reads_piece by blast
      have "blurs r (sub_all m r)" using less [of r] d(1) by simp
      then show ?thesis using blurs_piece [OF _ d(2)] sub_match Some Cons d(1) by metis
    qed
  qed (auto intro: blurs.intros)
qed

lemma occurs_suffix: "occurs m s \<longleftrightarrow> (\<exists>u v. s = u @ v \<and> m v \<noteq> None)"
proof (induction s)
  case (Cons c s)
  then show ?case by (auto simp: Cons_eq_append_conv)
qed simp

lemma occurs_redacted: "occurs m (redacted @ t) \<longleftrightarrow> occurs m t"
proof -
  have "occurs m (v @ t) \<longleftrightarrow> occurs m t" if "u @ v = redacted" for u v
    using that
  proof (induction v arbitrary: u)
    case (Cons c v)
    from Cons.prems have "m ((c # v) @ t) = None" by (rule not_inside) simp
    moreover from Cons.prems have "(u @ [c]) @ v = redacted" by simp
    ultimately show ?case using Cons.IH by fastforce
  qed simp
  from this [of "[]"] show ?thesis by simp
qed

lemma blurs_keeps_out: "blurs s t \<Longrightarrow> \<not> occurs m s \<Longrightarrow> \<not> occurs m t"
proof (induction rule: blurs.induct)
  case (blurs_char s t c)
  then have "m (c # t) = None" using not_created [OF blurs.blurs_char] by (metis occurs.simps(2))
  with blurs_char show ?case by simp
next
  case (blurs_piece s t c x)
  then have "\<not> occurs m s" by (auto simp: occurs_suffix)
  with blurs_piece show ?case by (simp add: occurs_redacted)
qed simp

lemma sub_all_nothing: "\<not> occurs m s \<Longrightarrow> sub_all m s = s"
  by (induction s) auto

lemma sub_all_leaves_none: "\<not> occurs m (sub_all m s)"
proof (induction s rule: measure_induct_rule [of length])
  case (less s)
  show ?case
  proof (cases s)
    case (Cons c s')
    show ?thesis
    proof (cases "m s")
      case None
      have "m (c # sub_all m s') = None" using not_created [OF blurs_char [OF blurs_sub_all]] None Cons by metis
      then show ?thesis using less [of s'] Cons None by simp
    next
      case (Some r)
      then have "length r < length s" using sub_match Cons by fastforce
      then show ?thesis using less [of r] sub_match Some Cons by (simp add: occurs_redacted)
    qed
  qed (simp add: not_empty)
qed

end

section \<open>The three patterns are such matchers\<close>

lemma prefix_ci_piece: "prefix_ci w s = Some r \<Longrightarrow> \<exists>x. s = x @ r \<and> lower x = w"
proof (induction w s rule: prefix_ci.induct)
  case (3 p ps c s)
  then obtain x where "s = x @ r" "lower x = ps" by (auto split: if_splits)
  with 3 show ?case by (intro exI [of _ "c # x"]) (auto simp: lower_def split: if_splits)
qed (auto simp: lower_def)

lemma prefix_ci_both:
  "prefix_ci a s = Some r \<Longrightarrow> prefix_ci b s = Some r' \<Longrightarrow> starts_with a b \<or> starts_with b a"
proof (induction a s arbitrary: b rule: prefix_ci.induct)
  case (3 p ps c s)
  then show ?case by (cases b) (auto split: if_splits)
qed auto

definition literals :: "string list \<Rightarrow> bool" where
  "literals ws \<longleftrightarrow> sorted_wrt (\<lambda>a b. \<not> starts_with a b \<and> \<not> starts_with b a) ws \<and>
     (\<forall>w \<in> set ws. w \<noteq> [] \<and> \<not> is_space (hd w) \<and> CHR ''['' \<notin> set w)"

lemma first_prefix_piece:
  "first_prefix ws s = Some r \<Longrightarrow> literals ws \<Longrightarrow> \<exists>c x. s = c # x @ r \<and> \<not> is_space c"
proof (induction ws)
  case (Cons w ws)
  show ?case
  proof (cases "prefix_ci w s")
    case (Some r')
    then have "r' = r" using Cons.prems(1) by simp
    then obtain x where x: "s = x @ r" "lower x = w" using prefix_ci_piece Some by blast
    then obtain c y where "x = c # y" using Cons.prems(2) by (cases x) (auto simp: literals_def lower_def)
    then show ?thesis using x Cons.prems(2) by (auto simp: literals_def lower_def)
  qed (use Cons in \<open>auto simp: literals_def\<close>)
qed simp

lemma blurs_first:
  "first_prefix ws t = Some t' \<Longrightarrow> blurs s t \<Longrightarrow> literals ws \<Longrightarrow> \<exists>s'. first_prefix ws s = Some s' \<and> blurs s' t'"
proof (induction ws)
  case (Cons w ws)
  show ?case
  proof (cases "prefix_ci w t")
    case (Some r)
    then show ?thesis using blurs_prefix [OF Some Cons.prems(2)] Cons.prems by (auto simp: literals_def)
  next
    case None
    then have t: "first_prefix ws t = Some t'" using Cons.prems(1) by simp
    then obtain s' where s': "first_prefix ws s = Some s'" "blurs s' t'" using Cons by (auto simp: literals_def)
    moreover have "first_prefix vs s = Some s' \<Longrightarrow> \<exists>v \<in> set vs. \<exists>r. prefix_ci v s = Some r" for vs
      by (induction vs) (auto split: option.splits)
    ultimately obtain v r where "v \<in> set ws" "prefix_ci v s = Some r" by blast
    then have "prefix_ci w s = None"
      using Cons.prems(3) prefix_ci_both by (cases "prefix_ci w s") (fastforce simp: literals_def)+
    then show ?thesis using s' by simp
  qed
qed simp

lemma blurs_skip: "blurs s t \<Longrightarrow> blurs (skip_space s) (skip_space t)"
  unfolding skip_space_def
proof (induction rule: blurs.induct)
  case (blurs_piece s t c x)
  then have "dropWhile is_space (c # x @ s) = c # x @ s" "dropWhile is_space (redacted @ t) = redacted @ t"
    using lower_bracket by (simp_all add: redacted_Cons)
  then show ?case using blurs.blurs_piece [OF blurs_piece(1,2)] by metis
qed (auto intro: blurs.intros)

lemma blurs_take: "blurs s t \<Longrightarrow> \<not> P (CHR ''['') \<Longrightarrow> length (takeWhile P t) \<le> length (takeWhile P s)"
  by (induction rule: blurs.induct) (auto simp: redacted_Cons)

lemma blurs_spaced:
  assumes "spaced ws t = Some t'" "blurs s t" "literals ws"
  shows "\<exists>s'. spaced ws s = Some s' \<and> blurs s' t'"
proof -
  obtain c u where t: "t = c # u" "is_space c" "first_prefix ws (skip_space t) = Some t'"
    using assms(1) by (auto simp: spaced_def split: list.splits if_splits)
  then have "c \<noteq> CHR ''[''" using lower_bracket by auto
  with assms(2) t(1) obtain s' where "s = c # s'" using blurs_head by metis
  then show ?thesis using blurs_first [OF t(3) blurs_skip [OF assms(2)] assms(3)] t(2) by (simp add: spaced_def)
qed

lemma skip_space_suffix: "\<exists>x. s = x @ skip_space s"
  unfolding skip_space_def by (metis takeWhile_dropWhile_id)

lemma spaced_suffix: "spaced ws s = Some r \<Longrightarrow> literals ws \<Longrightarrow> \<exists>x. s = x @ r"
  using first_prefix_piece skip_space_suffix [of s]
  by (fastforce simp: spaced_def split: list.splits if_splits)

lemma all_literals:
  "literals secret_names"
  "literals [''-----begin'']" "literals [''rsa'', ''ec'', ''dsa'']" "literals [''private'']" "literals [''key-----'']"
  "literals github_prefixes"
  by code_simp+

lemma assignment_iff:
  "match_assignment s = Some r \<longleftrightarrow> (\<exists>a c b. first_prefix secret_names s = Some a \<and>
     skip_space a = c # b \<and> c \<in> {CHR ''='', CHR '':''} \<and> skip_space b \<noteq> [] \<and> r = dropWhile (\<lambda>d. \<not> is_space d) (skip_space b))"
proof (cases "first_prefix secret_names s")
  case (Some a)
  then show ?thesis by (cases "skip_space a") (auto simp: match_assignment_def)
qed (simp add: match_assignment_def)

text \<open>No literal starts inside a redaction: some character differs before it ends.\<close>

fun clashes :: "string \<Rightarrow> string \<Rightarrow> bool" where
  "clashes (p # ps) (c # cs) = (lower_char c \<noteq> p \<or> clashes ps cs)"
| "clashes _ _ = False"

lemma clashes_prefix: "clashes w v \<Longrightarrow> prefix_ci w (v @ t) = None"
  by (induction w v rule: clashes.induct) auto

lemma clashes_first: "\<forall>w \<in> set ws. clashes w v \<Longrightarrow> first_prefix ws (v @ t) = None"
  by (induction ws) (auto simp: clashes_prefix)

definition redaction_tails :: "string list" where
  "redaction_tails = map (\<lambda>i. drop i redacted) [0..<10]"

lemma tails_clash: "\<forall>v \<in> set redaction_tails. \<forall>w \<in> set (secret_names @ ''-----begin'' # github_prefixes). clashes w v"
  by code_simp

lemma inside_redacted:
  assumes "u @ v = redacted" "v \<noteq> []"
  shows "match_assignment (v @ t) = None" "match_private_key (v @ t) = None" "match_github_token (v @ t) = None"
proof -
  have "v = drop (length u) redacted" using assms(1) by (metis append_eq_conv_conj)
  moreover have "length u + length v = 10" using arg_cong [OF assms(1), of length] by (simp add: redacted_def)
  then have "length u < 10" using assms(2) by (cases v) auto
  ultimately have "v \<in> set redaction_tails" by (auto simp: redaction_tails_def)
  then have "\<forall>w \<in> set (secret_names @ ''-----begin'' # github_prefixes). clashes w v" using tails_clash by blast
  then have "first_prefix secret_names (v @ t) = None" "first_prefix [''-----begin''] (v @ t) = None"
    "first_prefix github_prefixes (v @ t) = None" by (simp_all add: clashes_first del: first_prefix.simps)
  then show "match_assignment (v @ t) = None" "match_private_key (v @ t) = None" "match_github_token (v @ t) = None"
    by (simp_all only: match_assignment_def match_private_key_def match_github_token_def option.case)
qed

interpretation assignment: redaction match_assignment
proof
  fix s r
  assume "match_assignment s = Some r"
  then obtain a c b where a: "first_prefix secret_names s = Some a"
    "skip_space a = c # b" "r = dropWhile (\<lambda>d. \<not> is_space d) (skip_space b)" by (auto simp: assignment_iff)
  obtain d x where "s = d # x @ a" "\<not> is_space d" using first_prefix_piece [OF a(1) all_literals(1)] by blast
  moreover obtain y where "a = y @ c # b" using skip_space_suffix [of a] a(2) by auto
  moreover obtain z where "b = z @ skip_space b" using skip_space_suffix by blast
  moreover have "\<exists>e. skip_space b = e @ r" using a(3) by (metis takeWhile_dropWhile_id)
  ultimately show "\<exists>c x. s = c # x @ r \<and> \<not> is_space c" by (metis append_Cons append_assoc)
next
  fix s t
  assume b: "blurs s t" and "match_assignment t \<noteq> None"
  then obtain a c d where t: "first_prefix secret_names t = Some a"
    "skip_space a = c # d" "c \<in> {CHR ''='', CHR '':''}" "skip_space d \<noteq> []" by (auto simp: assignment_iff)
  obtain a' where a': "first_prefix secret_names s = Some a'"
    "blurs a' a" using blurs_first [OF t(1) b all_literals(1)] by blast
  have "blurs (skip_space a') (c # d)" using blurs_skip [OF a'(2)] t(2) by simp
  then obtain d' where d': "skip_space a' = c # d'" "blurs d' d" using t(3) by (auto elim: blurs_head)
  then have "skip_space d' \<noteq> []" using blurs_skip [OF d'(2)] t(4) by (auto elim: blurs.cases)
  then show "match_assignment s \<noteq> None" using a'(1) d'(1) t(3) by (auto simp: match_assignment_def)
qed (rule inside_redacted(1))

lemma private_key_iff:
  "match_private_key s = Some r \<longleftrightarrow> (\<exists>a b c. first_prefix [''-----begin''] s = Some a \<and> spaced [''rsa'', ''ec'', ''dsa''] a = Some b \<and>
     spaced [''private''] b = Some c \<and> spaced [''key-----''] c = Some r)"
  by (auto simp: match_private_key_def split: option.splits)

interpretation private_key: redaction match_private_key
proof
  fix s r
  assume "match_private_key s = Some r"
  then obtain a b c where a: "first_prefix [''-----begin''] s = Some a" "spaced [''rsa'', ''ec'', ''dsa''] a = Some b"
    "spaced [''private''] b = Some c" "spaced [''key-----''] c = Some r" by (auto simp: private_key_iff)
  obtain d x where "s = d # x @ a" "\<not> is_space d" using first_prefix_piece [OF a(1) all_literals(2)] by blast
  with spaced_suffix [OF a(2) all_literals(3)] spaced_suffix [OF a(3) all_literals(4)] spaced_suffix [OF a(4) all_literals(5)]
  show "\<exists>c x. s = c # x @ r \<and> \<not> is_space c" by (metis append_assoc)
next
  fix s t
  assume b: "blurs s t" and "match_private_key t \<noteq> None"
  then obtain a c d r where t: "first_prefix [''-----begin''] t = Some a" "spaced [''rsa'', ''ec'', ''dsa''] a = Some c"
    "spaced [''private''] c = Some d" "spaced [''key-----''] d = Some r" by (metis not_Some_eq private_key_iff)
  obtain a' where a: "first_prefix [''-----begin''] s = Some a'" "blurs a' a" using blurs_first [OF t(1) b all_literals(2)] by blast
  obtain c' where c: "spaced [''rsa'', ''ec'', ''dsa''] a' = Some c'" "blurs c' c" using blurs_spaced [OF t(2) a(2) all_literals(3)] by blast
  obtain d' where d: "spaced [''private''] c' = Some d'" "blurs d' d" using blurs_spaced [OF t(3) c(2) all_literals(4)] by blast
  obtain r' where "spaced [''key-----''] d' = Some r'" using blurs_spaced [OF t(4) d(2) all_literals(5)] by blast
  with a c d show "match_private_key s \<noteq> None" by (simp add: match_private_key_def)
qed (rule inside_redacted(2))

interpretation github_token: redaction match_github_token
proof
  fix s r
  assume "match_github_token s = Some r"
  then obtain a where a: "first_prefix github_prefixes s = Some a" "r = dropWhile token_char a"
    by (auto simp: match_github_token_def split: option.splits if_splits)
  obtain d x where "s = d # x @ a" "\<not> is_space d" using first_prefix_piece [OF a(1) all_literals(6)] by blast
  moreover have "\<exists>e. a = e @ r" using a(2) by (metis takeWhile_dropWhile_id)
  ultimately show "\<exists>c x. s = c # x @ r \<and> \<not> is_space c" by (metis append_assoc)
next
  fix s t
  assume b: "blurs s t" and "match_github_token t \<noteq> None"
  then obtain a where t: "first_prefix github_prefixes t = Some a"
    "36 \<le> length (takeWhile token_char a)" by (auto simp: match_github_token_def split: option.splits if_splits)
  obtain a' where a: "first_prefix github_prefixes s = Some a'" "blurs a' a"
    using blurs_first [OF t(1) b all_literals(6)] by blast
  have "\<not> token_char (CHR ''['')" by code_simp
  then have "36 \<le> length (takeWhile token_char a')" using blurs_take [OF a(2), of token_char] t(2) by simp
  with a show "match_github_token s \<noteq> None" by (simp add: match_github_token_def)
qed (rule inside_redacted(3))

section \<open>The provider\<close>

record fragment =
  cf_heading :: string
  cf_content :: string

definition line_feed :: string where
  "line_feed = [CHR 0x0A]"

definition render_fragment :: "fragment \<Rightarrow> string" where
  "render_fragment f = ''## '' @ cf_heading f @ line_feed @ cf_content f"

text \<open>
  What git and the file system answer: the output of a git command or its exception, whether a path is
  a file or a directory, the components of the resolved path, the bytes of a file, the names in a
  directory (\<open>None\<close> for an \<open>OSError\<close>), and the decoding of bytes.
\<close>

record surroundings =
  su_git :: "string list \<Rightarrow> exc + string"
  su_is_file :: "string \<Rightarrow> bool"
  su_is_dir :: "string \<Rightarrow> bool"
  su_resolve :: "string \<Rightarrow> string list option"
  su_read_bytes :: "string \<Rightarrow> string option"
  su_children :: "string \<Rightarrow> string list option"
  su_decode :: "string \<Rightarrow> string"

fun os_error :: "exc \<Rightarrow> bool" where
  "os_error (OSError _) = True"
| "os_error (FileNotFoundError _) = True"
| "os_error _ = False"

fun git_missing :: "exc \<Rightarrow> bool" where
  "git_missing CalledProcessError = True"
| "git_missing (FileNotFoundError _) = True"
| "git_missing _ = False"

definition is_safe_path :: "surroundings \<Rightarrow> string \<Rightarrow> string \<Rightarrow> bool" where
  "is_safe_path fs root path = (case (su_resolve fs path, su_resolve fs root) of
       (Some p, Some r) \<Rightarrow> take (length r) p = r
     | _ \<Rightarrow> False)"

text \<open>\<open>str.splitlines\<close>, with carriage return and line feed as one break.\<close>

definition line_break :: "char \<Rightarrow> bool" where
  "line_break c \<longleftrightarrow> (of_char c :: nat) \<in> {10, 11, 12, 13, 28, 29, 30, 133}"

fun lines_from :: "string \<Rightarrow> string \<Rightarrow> string list" where
  "lines_from acc [] = (if acc = [] then [] else [rev acc])"
| "lines_from acc (c # s) =
     (if line_break c then rev acc # lines_from [] (if c = CHR 0x0D \<and> starts_with s line_feed then tl s else s)
      else lines_from (c # acc) s)"

definition splitlines :: "string \<Rightarrow> string list" where
  "splitlines s = lines_from [] s"

definition git_status_fragment :: "surroundings \<Rightarrow> exc + fragment" where
  "git_status_fragment fs =
     rbind (case su_git fs [''branch'', ''--show-current''] of
         Inr out \<Rightarrow> Inr (''branch: '' @ (if strip out = [] then ''(detached)'' else strip out))
       | Inl e \<Rightarrow> if git_missing e then Inr ''branch: (detached or not a git repo)'' else Inl e) (\<lambda>branch.
     rbind (case su_git fs [''status'', ''--porcelain''] of
         Inr out \<Rightarrow> Inr (if strip out = [] then [''working tree: clean''] else splitlines (strip out))
       | Inl e \<Rightarrow> if git_missing e then Inr [''working tree: (unable to read)''] else Inl e) (\<lambda>status.
     Inr \<lparr>cf_heading = ''Git context'', cf_content = join line_feed (branch # status)\<rparr>))"

definition read_file_excerpt :: "surroundings \<Rightarrow> string \<Rightarrow> int \<Rightarrow> string \<Rightarrow> string" where
  "read_file_excerpt fs root max_file_size path =
     (if \<not> su_is_file fs path then ''(file not found)''
      else if \<not> is_safe_path fs root path then ''(access denied)''
      else case su_read_bytes fs path of
          None \<Rightarrow> ''(unable to read)''
        | Some bytes \<Rightarrow> if max_file_size < int (length bytes)
            then su_decode fs (slice_to max_file_size bytes) @ line_feed @ ''... [truncated, exceeded max file size]''
            else su_decode fs bytes)"

definition file_line :: "surroundings \<Rightarrow> string \<Rightarrow> int \<Rightarrow> string \<Rightarrow> string option" where
  "file_line fs root max_file_size rel = (let path = root @ ''/'' @ rel in
     if \<not> su_is_file fs path then None
     else if \<not> is_safe_path fs root path then None
     else let content = read_file_excerpt fs root max_file_size path in
       Some (''- '' @ rel @ '' ('' @ show_nat (length content) @ '' bytes)''))"

definition filesystem_excerpts_fragment :: "surroundings \<Rightarrow> string \<Rightarrow> int \<Rightarrow> exc + fragment" where
  "filesystem_excerpts_fragment fs root max_file_size =
     rbind (case su_git fs [''ls-files''] of
         Inr out \<Rightarrow> Inr (List.map_filter (file_line fs root max_file_size) (take 20 (splitlines (strip out))))
       | Inl e \<Rightarrow> if git_missing e then Inr [''(no tracked files)''] else Inl e) (\<lambda>ls.
     Inr \<lparr>cf_heading = ''Relevant files'',
          cf_content = (if join line_feed ls = [] then ''(none)'' else join line_feed ls)\<rparr>)"

definition artifact_lines :: "surroundings \<Rightarrow> string \<Rightarrow> string \<Rightarrow> exc + string list" where
  "artifact_lines fs root subdir = (let path = root @ ''/'' @ subdir in
     if \<not> su_is_dir fs path then Inr []
     else case su_children fs path of
         None \<Rightarrow> Inl (OSError path)
       | Some names \<Rightarrow> Inr (map (\<lambda>n. ''artifact: '' @ subdir @ ''/'' @ n) (take 10 (sort names))))"

definition artifact_references_fragment :: "surroundings \<Rightarrow> string \<Rightarrow> string \<Rightarrow> exc + fragment" where
  "artifact_references_fragment fs root session_id =
     rbind (rmap (artifact_lines fs root) [''plans'', ''artifacts'', ''checks'']) (\<lambda>lss.
     Inr \<lparr>cf_heading = ''Artifact references'',
          cf_content = join line_feed ((''session: '' @ session_id) # concat lss)\<rparr>)"

definition provide :: "surroundings \<Rightarrow> string \<Rightarrow> int \<Rightarrow> string \<Rightarrow> exc + string" where
  "provide fs root max_file_size session_id =
     rbind (case git_status_fragment fs of
         Inr f \<Rightarrow> Inr [f]
       | Inl e \<Rightarrow> if e = CalledProcessError \<or> os_error e then Inr [] else Inl e) (\<lambda>git.
     rbind (filesystem_excerpts_fragment fs root max_file_size) (\<lambda>files.
     rbind (artifact_references_fragment fs root session_id) (\<lambda>refs.
     Inr (scrub_secrets (join (line_feed @ line_feed) (map render_fragment (git @ [files, refs])))))))"

section \<open>What the context shows\<close>

lemma scrubbed: "\<not> has_secret (scrub_secrets s)"
proof -
  let ?a = "sub_all match_assignment s"
  let ?b = "sub_all match_private_key ?a"
  let ?c = "sub_all match_github_token ?b"
  have "scrub_secrets s = ?c" by (simp add: scrub_secrets_def secret_patterns_def)
  moreover have "\<not> occurs match_assignment ?c"
    by (intro assignment.blurs_keeps_out [OF github_token.blurs_sub_all] assignment.blurs_keeps_out [OF private_key.blurs_sub_all]
        assignment.sub_all_leaves_none)
  moreover have "\<not> occurs match_private_key ?c"
    by (intro private_key.blurs_keeps_out [OF github_token.blurs_sub_all] private_key.sub_all_leaves_none)
  moreover have "\<not> occurs match_github_token ?c" by (rule github_token.sub_all_leaves_none)
  ultimately show ?thesis by (simp add: has_secret_def secret_patterns_def)
qed

lemma scrub_nothing: "\<not> has_secret s \<Longrightarrow> scrub_secrets s = s"
  by (simp add: has_secret_def scrub_secrets_def secret_patterns_def assignment.sub_all_nothing
      private_key.sub_all_nothing github_token.sub_all_nothing)

text \<open>
  C6. Whatever git, the files and the session id say, the context that goes into a prompt matches none of
  the three secret patterns anywhere, and redacting it again changes nothing.
\<close>

theorem context_has_no_secret:
  assumes "provide fs root max_file_size session_id = Inr text"
  shows "\<not> has_secret text \<and> scrub_secrets text = text"
  using assms scrubbed scrub_nothing by (auto simp: provide_def rbind_Inr_iff)

definition shown_line :: "string \<times> nat \<Rightarrow> string" where
  "shown_line = (\<lambda>(rel, n). ''- '' @ rel @ '' ('' @ show_nat n @ '' bytes)'')"

definition inside_repository :: "surroundings \<Rightarrow> string \<Rightarrow> string \<Rightarrow> bool" where
  "inside_repository fs root rel \<longleftrightarrow> su_is_file fs (root @ ''/'' @ rel) \<and> is_safe_path fs root (root @ ''/'' @ rel)"

lemma file_lines:
  "\<exists>shown. List.map_filter (file_line fs root m) rels = map shown_line shown \<and>
     map fst shown = filter (inside_repository fs root) rels"
proof (induction rels)
  case (Cons rel rels)
  then obtain shown where shown: "List.map_filter (file_line fs root m) rels = map shown_line shown"
    "map fst shown = filter (inside_repository fs root) rels" by blast
  let ?n = "length (read_file_excerpt fs root m (root @ ''/'' @ rel))"
  have "file_line fs root m rel = (if inside_repository fs root rel then Some (shown_line (rel, ?n)) else None)"
    by (simp add: file_line_def inside_repository_def shown_line_def Let_def)
  then show ?case
    using shown by (intro exI [of _ "if inside_repository fs root rel then (rel, ?n) # shown else shown"])
      (simp add: map_filter_simps)
qed (simp add: map_filter_simps)

lemma join_Nil_iff: "[] \<notin> set ls \<Longrightarrow> join sep ls = [] \<longleftrightarrow> ls = []"
  by (cases "(sep, ls)" rule: join.cases) auto

text \<open>
  C38. The file list of the context names exactly those of the first twenty tracked files that are regular
  files and whose resolved path lies under the resolved repository root, in git's order.
\<close>

theorem listed_files_stay_inside:
  assumes "su_git fs [''ls-files''] = Inr out" "filesystem_excerpts_fragment fs root m = Inr f"
  shows "\<exists>shown. cf_content f = (if shown = [] then ''(none)'' else join line_feed (map shown_line shown)) \<and>
    map fst shown = filter (inside_repository fs root) (take 20 (splitlines (strip out)))"
proof -
  obtain shown where shown: "List.map_filter (file_line fs root m) (take 20 (splitlines (strip out))) = map shown_line shown"
    "map fst shown = filter (inside_repository fs root) (take 20 (splitlines (strip out)))" using file_lines by blast
  moreover have "[] \<notin> set (map shown_line shown)" by (auto simp: shown_line_def)
  ultimately have "cf_content f = (if shown = [] then ''(none)'' else join line_feed (map shown_line shown))"
    using assms join_Nil_iff [of "map shown_line shown"] by (auto simp: filesystem_excerpts_fragment_def)
  with shown(2) show ?thesis by blast
qed

text \<open>
  What the patterns miss: the value after a second key in the same assignment, and the body of a
  private key, of which only the first line is redacted.
\<close>

lemma redaction_gaps:
  "sub_all match_assignment ''token: token = x'' = ''[REDACTED] = x''"
  by code_simp

section \<open>Witnesses\<close>

definition demo_surroundings :: surroundings where
  "demo_surroundings = \<lparr>su_git = (\<lambda>args. if args = [''ls-files''] then Inr ''README.md'' else Inr []),
     su_is_file = (\<lambda>p. True), su_is_dir = (\<lambda>p. False), su_resolve = (\<lambda>p. Some (split_on (CHR ''/'') p)),
     su_read_bytes = (\<lambda>p. Some ''text''), su_children = (\<lambda>p. None), su_decode = id\<rparr>"

theorem context_has_no_secret_witness:
  "\<exists>text. provide demo_surroundings ''/r'' 8192 ''token=abc'' = Inr text \<and> \<not> has_secret text \<and> scrub_secrets text = text"
proof -
  obtain out where "provide demo_surroundings ''/r'' 8192 ''token=abc'' = Inr out"
    by (simp add: provide_def git_status_fragment_def filesystem_excerpts_fragment_def artifact_references_fragment_def
        artifact_lines_def demo_surroundings_def Let_def)
  with context_has_no_secret [OF this] show ?thesis by blast
qed

theorem listed_files_stay_inside_witness:
  "\<exists>f. filesystem_excerpts_fragment demo_surroundings ''/r'' 8192 = Inr f \<and>
    (\<exists>shown. cf_content f = (if shown = [] then ''(none)'' else join line_feed (map shown_line shown)) \<and>
      map fst shown = filter (inside_repository demo_surroundings ''/r'') (take 20 (splitlines (strip ''README.md''))))"
proof -
  have "case filesystem_excerpts_fragment demo_surroundings ''/r'' 8192 of Inl _ \<Rightarrow> False | Inr _ \<Rightarrow> True" by code_simp
  then obtain f where f: "filesystem_excerpts_fragment demo_surroundings ''/r'' 8192 = Inr f" by (rule case_Inr_obtain)
  have "su_git demo_surroundings [''ls-files''] = Inr ''README.md''" by (simp add: demo_surroundings_def)
  from listed_files_stay_inside [OF this f] f show ?thesis by (intro exI [of _ f] conjI)
qed

end
