(* ===== verification/Model_Calls.thy ===== *)
theory Model_Calls
  imports Domain Documents "HOL-Library.Multiset"
begin

text \<open>
  Model calls and their accounting: the provider-neutral value types (domain/providers/types), the
  deterministic provider (adapters/model/fake.py), the adapter of the Messages API
  (adapters/model/anthropic.py), the router (adapters/model/router.py) and the token usage repository
  with its summary (infra/db/repositories/token_usage_repo.py). A provider is a program over a state of
  its own; the response of the remote service is an argument.
\<close>

section \<open>Value types\<close>

text \<open>The score of a hit is a whole number in every adapter.\<close>

record knowledge_hit =
  kh_ref :: string
  kh_title :: string
  kh_snippet :: string
  kh_score :: int

record memory_query =
  mq_session_id :: string
  mq_query_text :: string
  mq_limit :: int

definition make_memory_query :: "string \<Rightarrow> string \<Rightarrow> int \<Rightarrow> exc + memory_query" where
  "make_memory_query session_id query_text limit =
     rbind (ensure (session_id \<noteq> []) (ValueError ''session_id must not be empty'')) (\<lambda>_.
     rbind (ensure (\<not> limit < 1) (ValueError ''limit must be >= 1'')) (\<lambda>_.
     Inr \<lparr>mq_session_id = session_id, mq_query_text = query_text, mq_limit = limit\<rparr>))"

record memory_entry =
  me_session_id :: string
  me_content :: string
  me_metadata :: "(string \<times> string) list"
  me_created_at :: datetime

text \<open>The clock is read when no creation time is given.\<close>

definition make_memory_entry ::
  "datetime \<Rightarrow> string \<Rightarrow> string \<Rightarrow> (string \<times> string) list \<Rightarrow> datetime option \<Rightarrow> exc + memory_entry" where
  "make_memory_entry now session_id content metadata created_at =
     rbind (ensure (session_id \<noteq> []) (ValueError ''session_id must not be empty'')) (\<lambda>_.
     rbind (case created_at of
         None \<Rightarrow> Inr now
       | Some t \<Rightarrow> rbind (ensure (is_aware t) (ValueError ''created_at must be timezone-aware'')) (\<lambda>_. Inr (as_utc t))) (\<lambda>t.
     Inr \<lparr>me_session_id = session_id, me_content = content, me_metadata = metadata, me_created_at = t\<rparr>))"

record prompt_envelope =
  pe_session_id :: string
  pe_messages :: "string list"
  pe_memory_block :: "memory_entry list"
  pe_knowledge_block :: "knowledge_hit list"
  pe_tools :: "string list option"
  pe_system_prompt :: "string option"

definition make_prompt ::
  "string \<Rightarrow> string list \<Rightarrow> memory_entry list \<Rightarrow> knowledge_hit list \<Rightarrow> string list option \<Rightarrow> string option
   \<Rightarrow> exc + prompt_envelope" where
  "make_prompt session_id messages memory knowledge tools system_prompt =
     rbind (ensure (session_id \<noteq> []) (ValueError ''session_id must not be empty'')) (\<lambda>_.
     rbind (ensure (messages \<noteq> []) (ValueError ''messages must not be empty'')) (\<lambda>_.
     Inr \<lparr>pe_session_id = session_id, pe_messages = messages, pe_memory_block = memory,
          pe_knowledge_block = knowledge, pe_tools = tools, pe_system_prompt = system_prompt\<rparr>))"

record completion =
  mc_session_id :: string
  mc_text :: string
  mc_model :: string
  mc_provider :: string
  mc_recorded_at :: datetime
  mc_prompt_tokens :: int
  mc_completion_tokens :: int
  mc_total_tokens :: int

definition make_completion ::
  "string \<Rightarrow> string \<Rightarrow> string \<Rightarrow> string \<Rightarrow> datetime \<Rightarrow> int \<Rightarrow> int \<Rightarrow> int \<Rightarrow> exc + completion" where
  "make_completion session_id text0 model provider recorded_at prompt compl tot =
     rbind (ensure (session_id \<noteq> []) (ValueError ''session_id must not be empty'')) (\<lambda>_.
     rbind (ensure (strip model \<noteq> []) (ValueError ''model must be a non-empty string'')) (\<lambda>_.
     rbind (ensure (strip provider \<noteq> []) (ValueError ''provider must be a non-empty string'')) (\<lambda>_.
     rbind (ensure (\<not> (prompt < 0 \<or> compl < 0)) (ValueError ''token counts must be non-negative'')) (\<lambda>_.
     rbind (ensure (tot = prompt + compl) (ValueError ''total_tokens must equal prompt_tokens + completion_tokens'')) (\<lambda>_.
     rbind (ensure (is_aware recorded_at) (ValueError ''recorded_at must be timezone-aware'')) (\<lambda>_.
     Inr \<lparr>mc_session_id = session_id, mc_text = text0, mc_model = model, mc_provider = provider,
          mc_recorded_at = as_utc recorded_at, mc_prompt_tokens = prompt, mc_completion_tokens = compl,
          mc_total_tokens = tot\<rparr>))))))"

record tool_decl =
  td_tool_id :: string
  td_action :: string
  td_description :: string
  td_parameters :: "payload option"

definition make_tool_decl :: "string \<Rightarrow> string \<Rightarrow> string \<Rightarrow> payload option \<Rightarrow> exc + tool_decl" where
  "make_tool_decl tool_id action description parameters =
     rbind (ensure (strip tool_id \<noteq> []) (ValueError ''tool_id must not be empty'')) (\<lambda>_.
     rbind (ensure (strip action \<noteq> []) (ValueError ''action must not be empty'')) (\<lambda>_.
     Inr \<lparr>td_tool_id = tool_id, td_action = action, td_description = description, td_parameters = parameters\<rparr>))"

section \<open>The deterministic provider\<close>

text \<open>\<open>str.split()\<close>: the words between runs of blanks.\<close>

fun words_from :: "string \<Rightarrow> string \<Rightarrow> string list" where
  "words_from acc [] = (if acc = [] then [] else [rev acc])"
| "words_from acc (c # s) =
     (if is_space c then (if acc = [] then words_from [] s else rev acc # words_from [] s)
      else words_from (c # acc) s)"

definition words :: "string \<Rightarrow> string list" where
  "words s = words_from [] s"

record fake_model =
  fm_model :: string
  fm_provider :: string
  fm_scripted_outputs :: "(string \<times> string) list"
  fm_tool_script :: "((string \<times> string) \<times> string) list"

fun scripted_tool_output :: "fake_model \<Rightarrow> tool_decl list \<Rightarrow> string option" where
  "scripted_tool_output m [] = None"
| "scripted_tool_output m (t # ts) = (case map_of (fm_tool_script m) (td_tool_id t, td_action t) of
       Some output \<Rightarrow> Some output | None \<Rightarrow> scripted_tool_output m ts)"

definition count_prompt_tokens :: "prompt_envelope \<Rightarrow> tool_decl list \<Rightarrow> int" where
  "count_prompt_tokens p tools =
     (let text_parts = pe_messages p @ (case pe_system_prompt p of Some s \<Rightarrow> if s \<noteq> [] then [s] else [] | None \<Rightarrow> []) @
        concat (map (\<lambda>t. [td_tool_id t, td_action t, td_description t]) tools) in
      max 1 (int (sum_list (map (\<lambda>part. length (words part)) text_parts))))"

text \<open>The digest of the prompt and the reading of the clock are arguments.\<close>

type_synonym 's model_provider = "prompt_envelope \<Rightarrow> tool_decl list \<Rightarrow> bool \<Rightarrow> ('s, completion) prog"

definition fake_complete ::
  "fake_model \<Rightarrow> (prompt_envelope \<Rightarrow> tool_decl list \<Rightarrow> string) \<Rightarrow> ('s, datetime) prog \<Rightarrow> 's model_provider" where
  "fake_complete m digest tick p tools stream =
     (if stream then raise (NotImplementedError ''FakeModelProvider does not implement streaming'')
      else
        let scripted = (case scripted_tool_output m tools of Some t \<Rightarrow> Some t
              | None \<Rightarrow> map_of (fm_scripted_outputs m) (join [CHR 0x0A] (pe_messages p)));
            text0 = (case scripted of Some t \<Rightarrow> t | None \<Rightarrow> ''fake-response-'' @ digest p tools);
            prompt_tokens = count_prompt_tokens p tools;
            completion_tokens = max 1 (int (length (words text0))) in
        bind tick (\<lambda>now.
          lift (make_completion (pe_session_id p) text0 (fm_model m) (fm_provider m) now
             prompt_tokens completion_tokens (prompt_tokens + completion_tokens))))"

section \<open>The adapter of the Messages API\<close>

record anthropic =
  an_model :: string
  an_max_tokens :: int

definition make_anthropic :: "string \<Rightarrow> string \<Rightarrow> int \<Rightarrow> exc + anthropic" where
  "make_anthropic api_key model max_tokens =
     rbind (ensure (strip api_key \<noteq> []) (ValueError ''api_key must not be empty'')) (\<lambda>_.
     rbind (ensure (strip model \<noteq> []) (ValueError ''model must not be empty'')) (\<lambda>_.
     rbind (ensure (\<not> max_tokens < 1) (ValueError ''max_tokens must be >= 1'')) (\<lambda>_.
     Inr \<lparr>an_model = model, an_max_tokens = max_tokens\<rparr>)))"

text \<open>A value that is no mapping has none of the attributes.\<close>

fun response_field :: "pyval \<Rightarrow> string \<Rightarrow> pyval" where
  "response_field (PDict d) k = dict_get d k"
| "response_field _ k = PNone"

definition tool_payload :: "tool_decl \<Rightarrow> payload" where
  "tool_payload t = [(''name'', PStr (td_tool_id t)), (''description'', PStr (td_description t)),
     (''input_schema'', PDict (case td_parameters t of
        Some (p # ps) \<Rightarrow> p # ps
      | _ \<Rightarrow> [(''type'', PStr ''object''), (''properties'', PDict [])]))]"

definition build_request :: "anthropic \<Rightarrow> prompt_envelope \<Rightarrow> tool_decl list \<Rightarrow> payload" where
  "build_request a p tools =
     [(''model'', PStr (an_model a)), (''max_tokens'', PInt (an_max_tokens a)),
      (''messages'', PTuple [PDict [(''role'', PStr ''user''), (''content'', PStr (join [CHR 0x0A] (pe_messages p)))]])] @
     (case pe_system_prompt p of Some (c # cs) \<Rightarrow> [(''system'', PStr (c # cs))] | _ \<Rightarrow> []) @
     (if tools \<noteq> [] then [(''tools'', PTuple (map (\<lambda>t. PDict (tool_payload t)) tools))] else [])"

definition extract_text :: "pyval \<Rightarrow> string" where
  "extract_text response = (case response_field response ''content'' of
       PStr s \<Rightarrow> s
     | PTuple blocks \<Rightarrow> concat (map (\<lambda>b. if response_field b ''type'' = PStr ''text''
           then (case response_field b ''text'' of PStr s \<Rightarrow> s | _ \<Rightarrow> []) else []) blocks)
     | _ \<Rightarrow> [])"

text \<open>A truth value is an integer.\<close>

definition usage_int :: "pyval \<Rightarrow> string \<Rightarrow> int" where
  "usage_int response key = (case response_field (response_field response ''usage'') key of
       PInt i \<Rightarrow> i | PBool b \<Rightarrow> of_bool b | _ \<Rightarrow> 0)"

definition model_name :: "anthropic \<Rightarrow> pyval \<Rightarrow> string" where
  "model_name a response = (case response_field response ''model'' of
       PStr s \<Rightarrow> if strip s \<noteq> [] then s else an_model a | _ \<Rightarrow> an_model a)"

definition anthropic_complete ::
  "anthropic \<Rightarrow> (payload \<Rightarrow> ('s, pyval) prog) \<Rightarrow> ('s, datetime) prog \<Rightarrow> 's model_provider" where
  "anthropic_complete a create tick p tools stream =
     (if stream then raise (NotImplementedError ''AnthropicModelProvider does not implement streaming yet'')
      else bind (create (build_request a p tools)) (\<lambda>response.
        let text0 = extract_text response; prompt_tokens = usage_int response ''input_tokens'';
            completion_tokens = usage_int response ''output_tokens'' in
        andthen (require (text0 \<noteq> []) (RuntimeError ''Anthropic model returned no text completion''))
        (bind tick (\<lambda>now.
          lift (make_completion (pe_session_id p) text0 (model_name a response) ''anthropic'' now
            prompt_tokens completion_tokens (prompt_tokens + completion_tokens))))))"

section \<open>The usage table\<close>

text \<open>The rows in insertion order, and what \<open>uuid4().hex\<close> returns.\<close>

record ledger =
  lg_rows :: "token_usage list"
  lg_uuid :: "nat \<Rightarrow> string"
  lg_uuids :: nat

definition usage_rows :: "string \<Rightarrow> ledger \<Rightarrow> token_usage list" where
  "usage_rows run_id l = filter (\<lambda>u. tu_run_id u = run_id) (lg_rows l)"

definition usage_next_seq :: "string \<Rightarrow> ledger \<Rightarrow> int" where
  "usage_next_seq run_id l = (case map tu_seq (usage_rows run_id l) of [] \<Rightarrow> 0 | n # ns \<Rightarrow> fold max ns n) + 1"

definition usage_append :: "token_usage \<Rightarrow> (ledger, token_usage) prog" where
  "usage_append entry l =
     (case make_token_usage (tu_id entry) (tu_run_id entry) (usage_next_seq (tu_run_id entry) l) (tu_provider entry)
        (tu_model entry) (tu_prompt_tokens entry) (tu_completion_tokens entry) (tu_total_tokens entry)
        (tu_recorded_at entry) (tu_call_ref entry) of
       Inl e \<Rightarrow> (Inl e, l)
     | Inr row \<Rightarrow>
         if tu_id row \<in> tu_id ` set (lg_rows l) then (Inl (IntegrityError ''token_usage.id''), l)
         else if (tu_run_id row, tu_seq row) \<in> (\<lambda>u. (tu_run_id u, tu_seq u)) ` set (lg_rows l)
         then (Inl (IntegrityError ''uq_token_usage_run_id_seq''), l)
         else (Inr row, l\<lparr>lg_rows := lg_rows l @ [row]\<rparr>))"

definition reload_usage :: "token_usage \<Rightarrow> exc + token_usage" where
  "reload_usage u = make_token_usage (tu_id u) (tu_run_id u) (tu_seq u) (tu_provider u) (tu_model u)
     (tu_prompt_tokens u) (tu_completion_tokens u) (tu_total_tokens u)
     (case tu_recorded_at u of Naive t \<Rightarrow> Aware t 0 | d \<Rightarrow> d) (tu_call_ref u)"

definition usage_list :: "string \<Rightarrow> (ledger, token_usage list) prog" where
  "usage_list run_id l = (rmap reload_usage (sort_key tu_seq (usage_rows run_id l)), l)"

record model_rollup =
  mr_model :: string
  mr_prompt_tokens :: int
  mr_completion_tokens :: int
  mr_total_tokens :: int
  mr_call_count :: int

record usage_summary =
  us_run_id :: string
  us_total_prompt :: int
  us_total_completion :: int
  us_total_total :: int
  us_by_model :: "(string \<times> model_rollup) list"

definition add_to_model :: "token_usage \<Rightarrow> (string \<times> model_rollup) list \<Rightarrow> (string \<times> model_rollup) list" where
  "add_to_model u by_model =
     (let r = (case map_of by_model (tu_model u) of Some r \<Rightarrow> r
          | None \<Rightarrow> \<lparr>mr_model = tu_model u, mr_prompt_tokens = 0, mr_completion_tokens = 0, mr_total_tokens = 0,
                     mr_call_count = 0\<rparr>) in
      AList.update (tu_model u)
        (r\<lparr>mr_prompt_tokens := mr_prompt_tokens r + tu_prompt_tokens u,
           mr_completion_tokens := mr_completion_tokens r + tu_completion_tokens u,
           mr_total_tokens := mr_total_tokens r + tu_total_tokens u, mr_call_count := mr_call_count r + 1\<rparr>) by_model)"

definition add_usage :: "token_usage \<Rightarrow> usage_summary \<Rightarrow> usage_summary" where
  "add_usage u s =
     s\<lparr>us_total_prompt := us_total_prompt s + tu_prompt_tokens u,
       us_total_completion := us_total_completion s + tu_completion_tokens u,
       us_total_total := us_total_total s + tu_total_tokens u,
       us_by_model := add_to_model u (us_by_model s)\<rparr>"

definition summarize :: "string \<Rightarrow> (ledger, usage_summary) prog" where
  "summarize run_id = gets (\<lambda>l. fold add_usage (sort_key tu_seq (usage_rows run_id l))
     \<lparr>us_run_id = run_id, us_total_prompt = 0, us_total_completion = 0, us_total_total = 0, us_by_model = []\<rparr>)"

section \<open>The router\<close>

record 's model_router =
  rt_providers :: "(string \<times> 's model_provider) list"
  rt_default :: string

definition make_router :: "(string \<times> 's model_provider) list \<Rightarrow> string \<Rightarrow> exc + 's model_router" where
  "make_router providers default0 =
     rbind (ensure (providers \<noteq> []) (ValueError ''providers must not be empty'')) (\<lambda>_.
     rbind (ensure (default0 \<in> set (map fst providers)) (UnknownModelProviderError default0)) (\<lambda>_.
     Inr \<lparr>rt_providers = providers, rt_default = default0\<rparr>))"

text \<open>The state of a call: the usage table and the provider's own state.\<close>

definition on_ledger :: "(ledger, 'a) prog \<Rightarrow> (ledger \<times> 's, 'a) prog" where
  "on_ledger m = (\<lambda>(l, s). case m l of (r, l') \<Rightarrow> (r, (l', s)))"

definition on_provider :: "('s, 'a) prog \<Rightarrow> (ledger \<times> 's, 'a) prog" where
  "on_provider m = (\<lambda>(l, s). case m s of (r, s') \<Rightarrow> (r, (l, s')))"

definition find_provider :: "'s model_router \<Rightarrow> string \<Rightarrow> exc + 's model_provider" where
  "find_provider rt name0 = (case map_of (rt_providers rt) name0 of
       None \<Rightarrow> Inl (UnknownModelProviderError name0) | Some p \<Rightarrow> Inr p)"

definition usage_uuid :: "(ledger, string) prog" where
  "usage_uuid l = (Inr (lg_uuid l (lg_uuids l)), l\<lparr>lg_uuids := Suc (lg_uuids l)\<rparr>)"

definition record_usage :: "completion \<Rightarrow> string option \<Rightarrow> string option \<Rightarrow> (ledger, unit) prog" where
  "record_usage c run_id call_ref = (case run_id of
       Some (r # rs) \<Rightarrow>
         bind usage_uuid (\<lambda>u.
         bind (lift (make_token_usage (''usage_'' @ u) (r # rs) 1 (mc_provider c) (mc_model c) (mc_prompt_tokens c)
             (mc_completion_tokens c) (mc_total_tokens c) (mc_recorded_at c) call_ref)) (\<lambda>entry.
         andthen (usage_append entry) (ret ())))
     | _ \<Rightarrow> raise MissingRunIdError)"

definition router_complete ::
  "'s model_router \<Rightarrow> prompt_envelope \<Rightarrow> string option \<Rightarrow> tool_decl list \<Rightarrow> bool \<Rightarrow> string option \<Rightarrow> string option
   \<Rightarrow> (ledger \<times> 's, completion) prog" where
  "router_complete rt p provider tools stream run_id call_ref =
     bind (lift (find_provider rt (case provider of Some (c # cs) \<Rightarrow> c # cs | _ \<Rightarrow> rt_default rt))) (\<lambda>complete.
     bind (on_provider (complete p tools stream)) (\<lambda>c.
     andthen (on_ledger (record_usage c run_id call_ref)) (ret c)))"

section \<open>The summary against its definition by sums\<close>

definition rollup_of :: "token_usage list \<Rightarrow> string \<Rightarrow> model_rollup" where
  "rollup_of rows m = (let us = filter (\<lambda>u. tu_model u = m) rows in
     \<lparr>mr_model = m, mr_prompt_tokens = sum_list (map tu_prompt_tokens us),
      mr_completion_tokens = sum_list (map tu_completion_tokens us),
      mr_total_tokens = sum_list (map tu_total_tokens us), mr_call_count = int (length us)\<rparr>)"

lemma dedupe_snoc: "dedupe (xs @ [x]) = (if x \<in> set xs then dedupe xs else dedupe xs @ [x])"
  by (simp add: dedupe_def)

lemma update_keyed:
  "distinct ks \<Longrightarrow> AList.update k v (map (\<lambda>m. (m, f m)) ks) =
     (if k \<in> set ks then map (\<lambda>m. (m, if m = k then v else f m)) ks else map (\<lambda>m. (m, f m)) ks @ [(k, v)])"
  by (induction ks) auto

lemma map_of_keyed: "map_of (map (\<lambda>m. (m, f m)) ks) k = (if k \<in> set ks then Some (f k) else None)"
  by (induction ks) auto

lemma rollup_snoc:
  "rollup_of (rows @ [u]) m = (if tu_model u = m then (let r = rollup_of rows m in
     r\<lparr>mr_prompt_tokens := mr_prompt_tokens r + tu_prompt_tokens u,
       mr_completion_tokens := mr_completion_tokens r + tu_completion_tokens u,
       mr_total_tokens := mr_total_tokens r + tu_total_tokens u, mr_call_count := mr_call_count r + 1\<rparr>)
     else rollup_of rows m)"
  by (simp add: rollup_of_def Let_def)

lemma rollup_unused: "m \<notin> tu_model ` set rows \<Longrightarrow> rollup_of rows m =
    \<lparr>mr_model = m, mr_prompt_tokens = 0, mr_completion_tokens = 0, mr_total_tokens = 0, mr_call_count = 0\<rparr>"
proof -
  assume "m \<notin> tu_model ` set rows"
  then have "filter (\<lambda>u. tu_model u = m) rows = []" by (auto simp: filter_empty_conv intro: rev_image_eqI)
  then show ?thesis by (simp add: rollup_of_def)
qed

lemma models_added:
  "fold add_to_model rows [] = map (\<lambda>m. (m, rollup_of rows m)) (dedupe (map tu_model rows))"
proof (induction rows rule: rev_induct)
  case (snoc u rows)
  let ?ms = "dedupe (map tu_model rows)"
  have step: "fold add_to_model (rows @ [u]) [] =
      AList.update (tu_model u) (rollup_of (rows @ [u]) (tu_model u)) (map (\<lambda>m. (m, rollup_of rows m)) ?ms)"
    by (auto simp: snoc add_to_model_def map_of_keyed rollup_snoc Let_def rollup_unused split: option.split)
  show ?case
  proof (cases "tu_model u \<in> set ?ms")
    case True
    then show ?thesis unfolding step by (auto simp: update_keyed dedupe_snoc rollup_snoc)
  next
    case False
    then have "map (\<lambda>m. (m, rollup_of rows m)) ?ms = map (\<lambda>m. (m, rollup_of (rows @ [u]) m)) ?ms"
      by (intro map_cong) (auto simp: rollup_snoc)
    with False show ?thesis unfolding step by (simp add: update_keyed dedupe_snoc)
  qed
qed (simp add: dedupe_def)

lemma summary_fold:
  "fold add_usage rows s = s\<lparr>us_total_prompt := us_total_prompt s + sum_list (map tu_prompt_tokens rows),
     us_total_completion := us_total_completion s + sum_list (map tu_completion_tokens rows),
     us_total_total := us_total_total s + sum_list (map tu_total_tokens rows),
     us_by_model := fold add_to_model rows (us_by_model s)\<rparr>"
  by (induction rows arbitrary: s) (simp_all add: add_usage_def)

lemma sum_by_models:
  fixes f :: "token_usage \<Rightarrow> int"
  shows "sum_list (map (\<lambda>m. sum_list (map f (filter (\<lambda>u. tu_model u = m) rows))) (dedupe (map tu_model rows))) =
    sum_list (map f rows)"
proof -
  have "sum_list (map (\<lambda>m. sum_list (map f (filter (\<lambda>u. tu_model u = m) rows))) ks) = sum_list (map f rows)"
    if "distinct ks" "tu_model ` set rows \<subseteq> set ks" for ks
    using that(2)
  proof (induction rows)
    case (Cons u rows)
    have "sum_list (map (\<lambda>m. if tu_model u = m then f u else 0) ks) = f u"
      using that(1) Cons.prems by (simp add: sum_list_distinct_conv_sum_set sum.delta)
    moreover have "sum_list (map (\<lambda>m. sum_list (map f (filter (\<lambda>v. tu_model v = m) (u # rows)))) ks) =
      sum_list (map (\<lambda>m. if tu_model u = m then f u else 0) ks) +
      sum_list (map (\<lambda>m. sum_list (map f (filter (\<lambda>v. tu_model v = m) rows))) ks)"
      by (simp only: sum_list_addf [symmetric], rule arg_cong [where f = sum_list], rule map_cong) auto
    ultimately show ?case using Cons by simp
  qed simp
  then show ?thesis by simp
qed

lemma sort_key_sums:
  fixes f :: "'a \<Rightarrow> int"
  shows "sum_list (map f (filter P (sort_key k xs))) = sum_list (map f (filter P xs))"
proof -
  have "mset (map f (filter P (sort_key k xs))) = mset (map f (filter P xs))" by simp
  then show ?thesis by (metis sum_mset_sum_list)
qed

lemma sort_key_rollup: "rollup_of (sort_key k rows) m = rollup_of rows m"
proof -
  have "length (filter P (sort_key k rows)) = length (filter P rows)" for P :: "token_usage \<Rightarrow> bool"
  proof -
    have "mset (filter P (sort_key k rows)) = mset (filter P rows)" by simp
    then show ?thesis by (metis size_mset)
  qed
  then show ?thesis by (simp add: rollup_of_def Let_def sort_key_sums)
qed

text \<open>
  C25. The summary of a run is exact: the totals are the sums over the run's rows, there is one entry for
  every model in order of its first call, each holds the sums and the number of the model's rows, and
  the entries of all models together make up the total.
\<close>

theorem summary_adds_up:
  "\<exists>by_model. fst (summarize run_id l) = Inr \<lparr>us_run_id = run_id,
      us_total_prompt = sum_list (map tu_prompt_tokens (usage_rows run_id l)),
      us_total_completion = sum_list (map tu_completion_tokens (usage_rows run_id l)),
      us_total_total = sum_list (map tu_total_tokens (usage_rows run_id l)), us_by_model = by_model\<rparr> \<and>
    by_model = map (\<lambda>m. (m, rollup_of (usage_rows run_id l) m)) (dedupe (map tu_model (sort_key tu_seq (usage_rows run_id l)))) \<and>
    sum_list (map (mr_total_tokens \<circ> snd) by_model) = sum_list (map tu_total_tokens (usage_rows run_id l))"
proof -
  let ?rows = "usage_rows run_id l"
  have sums: "sum_list (map f (sort_key tu_seq ?rows)) = sum_list (map f ?rows)" for f :: "token_usage \<Rightarrow> int"
    using sort_key_sums [of f "\<lambda>_. True" tu_seq ?rows] by simp
  have "sum_list (map (\<lambda>m. mr_total_tokens (rollup_of (sort_key tu_seq ?rows) m)) (dedupe (map tu_model (sort_key tu_seq ?rows)))) =
      sum_list (map tu_total_tokens ?rows)"
    using sum_by_models [of tu_total_tokens "sort_key tu_seq ?rows"] sums by (simp add: rollup_of_def Let_def)
  then show ?thesis
    by (simp add: summarize_def gets_def summary_fold models_added sums sort_key_rollup comp_def)
qed

section \<open>The table stays in order\<close>

definition wf_usage :: "token_usage \<Rightarrow> bool" where
  "wf_usage u \<longleftrightarrow> reload_usage u = Inr u"

definition ledger_ok :: "ledger \<Rightarrow> bool" where
  "ledger_ok l \<longleftrightarrow> distinct (map tu_id (lg_rows l)) \<and> (\<forall>u \<in> set (lg_rows l). wf_usage u) \<and>
     (\<forall>r. map tu_seq (usage_rows r l) = map int [1..<Suc (length (usage_rows r l))])"

lemma fold_max_upt: "fold max (map int [Suc k..<Suc n]) (int k) = int (max k n)"
proof (induction n)
  case (Suc n)
  then show ?case by (cases "k \<le> n") (auto simp: max_def)
qed (simp add: max_def)

lemma usage_next_seq_ok:
  assumes "ledger_ok l"
  shows "usage_next_seq r l = int (length (usage_rows r l)) + 1"
proof (cases "length (usage_rows r l)")
  case (Suc n)
  have "map tu_seq (usage_rows r l) = map int [1..<Suc (Suc n)]" using assms Suc by (simp add: ledger_ok_def)
  also have "\<dots> = 1 # map int [Suc 1..<Suc (Suc n)]" by (subst upt_conv_Cons) auto
  finally show ?thesis using fold_max_upt [of 1 "Suc n"] Suc by (simp add: usage_next_seq_def)
qed (simp add: usage_next_seq_def)

lemma fresh_usage_seq:
  assumes "ledger_ok l"
  shows "(r, usage_next_seq r l) \<notin> (\<lambda>u. (tu_run_id u, tu_seq u)) ` set (lg_rows l)"
proof
  assume "(r, usage_next_seq r l) \<in> (\<lambda>u. (tu_run_id u, tu_seq u)) ` set (lg_rows l)"
  then have "usage_next_seq r l \<in> set (map tu_seq (usage_rows r l))" by (force simp: usage_rows_def)
  also have "set (map tu_seq (usage_rows r l)) = int ` {1..<Suc (length (usage_rows r l))}"
    using assms by (simp add: ledger_ok_def del: upt_Suc)
  finally show False using usage_next_seq_ok [OF assms, of r] by auto
qed

lemma make_usage_wf:
  assumes "make_token_usage i r n p m a b c t cr = Inr u"
  shows "wf_usage u \<and> tu_id u = i \<and> tu_run_id u = r \<and> tu_seq u = n \<and> tu_provider u = p \<and> tu_model u = m \<and>
    tu_prompt_tokens u = a \<and> tu_completion_tokens u = b \<and> tu_total_tokens u = c \<and> tu_recorded_at u = as_utc t \<and> tu_call_ref u = cr"
  using assms by (cases t) (auto simp: wf_usage_def reload_usage_def make_token_usage_def rbind_Inr_iff)

lemma usage_rows_snoc:
  "usage_rows r (l\<lparr>lg_rows := lg_rows l @ [u]\<rparr>) = (if tu_run_id u = r then usage_rows r l @ [u] else usage_rows r l)"
  by (simp add: usage_rows_def)

lemma ledger_snoc:
  assumes "ledger_ok l" "wf_usage u" "tu_id u \<notin> tu_id ` set (lg_rows l)"
    "tu_seq u = int (length (usage_rows (tu_run_id u) l)) + 1"
  shows "ledger_ok (l\<lparr>lg_rows := lg_rows l @ [u]\<rparr>)"
proof -
  have "[1..<Suc (Suc n)] = [1..<Suc n] @ [Suc n]" for n by simp
  with assms show ?thesis by (auto simp: ledger_ok_def usage_rows_snoc simp del: upt_Suc)
qed

lemma usage_append_ok:
  assumes "ledger_ok l" "usage_append entry l = (r, l')"
  shows "ledger_ok l' \<and> (case r of
      Inr u \<Rightarrow> l' = l\<lparr>lg_rows := lg_rows l @ [u]\<rparr> \<and> tu_seq u = int (length (usage_rows (tu_run_id entry) l)) + 1 \<and>
        tu_run_id u = tu_run_id entry \<and> tu_id u = tu_id entry
    | Inl _ \<Rightarrow> l' = l)"
proof -
  let ?m = "make_token_usage (tu_id entry) (tu_run_id entry) (usage_next_seq (tu_run_id entry) l) (tu_provider entry)
        (tu_model entry) (tu_prompt_tokens entry) (tu_completion_tokens entry) (tu_total_tokens entry)
        (tu_recorded_at entry) (tu_call_ref entry)"
  show ?thesis
  proof (cases ?m)
    case (Inr u)
    from make_usage_wf [OF Inr] have u: "wf_usage u" "tu_id u = tu_id entry" "tu_run_id u = tu_run_id entry"
      "tu_seq u = int (length (usage_rows (tu_run_id u) l)) + 1" by (simp_all add: usage_next_seq_ok [OF assms(1)])
    moreover have "r = (if tu_id u \<in> tu_id ` set (lg_rows l) then Inl (IntegrityError ''token_usage.id'')
        else if (tu_run_id u, tu_seq u) \<in> (\<lambda>u. (tu_run_id u, tu_seq u)) ` set (lg_rows l)
        then Inl (IntegrityError ''uq_token_usage_run_id_seq'') else Inr u)"
      "l' = (case r of Inl _ \<Rightarrow> l | Inr _ \<Rightarrow> l\<lparr>lg_rows := lg_rows l @ [u]\<rparr>)"
      using assms(2) by (auto simp only: usage_append_def Inr sum.case prod.inject split: if_splits)
    ultimately show ?thesis using assms(1) ledger_snoc [OF assms(1) u(1) _ u(4)] by auto
  next
    case (Inl e)
    then have "usage_append entry l = (Inl e, l)" by (simp add: usage_append_def)
    then show ?thesis using assms by auto
  qed
qed

section \<open>What the router records\<close>

definition accounts_for :: "string \<Rightarrow> completion \<Rightarrow> token_usage \<Rightarrow> bool" where
  "accounts_for run_id c u \<longleftrightarrow> tu_run_id u = run_id \<and> tu_provider u = mc_provider c \<and> tu_model u = mc_model c \<and>
     tu_prompt_tokens u = mc_prompt_tokens c \<and> tu_completion_tokens u = mc_completion_tokens c \<and>
     tu_total_tokens u = mc_total_tokens c"

lemma append_keeps_fields:
  assumes "usage_append entry l = (Inr u, l')"
  shows "tu_run_id u = tu_run_id entry \<and> tu_provider u = tu_provider entry \<and> tu_model u = tu_model entry \<and>
    tu_prompt_tokens u = tu_prompt_tokens entry \<and> tu_completion_tokens u = tu_completion_tokens entry \<and>
    tu_total_tokens u = tu_total_tokens entry"
proof -
  obtain n where "make_token_usage (tu_id entry) (tu_run_id entry) n (tu_provider entry) (tu_model entry)
      (tu_prompt_tokens entry) (tu_completion_tokens entry) (tu_total_tokens entry) (tu_recorded_at entry) (tu_call_ref entry) = Inr u"
    using assms by (auto simp: usage_append_def split: sum.splits if_splits)
  from make_usage_wf [OF this] show ?thesis by simp
qed

lemma record_usage_ok:
  assumes "ledger_ok l" "record_usage c (Some run_id) call_ref l = (Inr x, l')" "run_id \<noteq> []"
  shows "\<exists>u. ledger_ok l' \<and> lg_rows l' = lg_rows l @ [u] \<and> accounts_for run_id c u"
proof -
  let ?l = "l\<lparr>lg_uuids := Suc (lg_uuids l)\<rparr>"
  from assms(2,3) obtain entry u where e: "make_token_usage (''usage_'' @ lg_uuid l (lg_uuids l)) run_id 1 (mc_provider c)
      (mc_model c) (mc_prompt_tokens c) (mc_completion_tokens c) (mc_total_tokens c) (mc_recorded_at c) call_ref = Inr entry"
    "usage_append entry ?l = (Inr u, l')"
    by (auto simp: record_usage_def usage_uuid_def prog_simps neq_Nil_conv split: sum.splits prod.splits)
  have ok: "ledger_ok ?l" using assms(1) by (simp add: ledger_ok_def usage_rows_def)
  from usage_append_ok [OF ok e(2)] have "ledger_ok l'" by (rule conjunct1)
  moreover from usage_append_ok [OF ok e(2)] have "lg_rows l' = lg_rows l @ [u]" by simp
  moreover have "accounts_for run_id c u"
    using append_keeps_fields [OF e(2)] make_usage_wf [OF e(1)] by (simp add: accounts_for_def)
  ultimately show ?thesis by (intro exI [of _ u]) simp
qed

definition routed :: "'s model_router \<Rightarrow> bool \<Rightarrow> string \<Rightarrow> prompt_envelope \<times> string option \<times> tool_decl list \<times> string option
    \<Rightarrow> (ledger \<times> 's, completion) prog" where
  "routed rt stream run_id = (\<lambda>(p, provider, tools, call_ref). router_complete rt p provider tools stream (Some run_id) call_ref)"

lemma routed_ok:
  assumes "ledger_ok (fst s)" "routed rt stream run_id req s = (Inr c, s')" "run_id \<noteq> []"
  shows "\<exists>u. ledger_ok (fst s') \<and> lg_rows (fst s') = lg_rows (fst s) @ [u] \<and> accounts_for run_id c u"
proof -
  obtain p provider tools call_ref l t where [simp]: "req = (p, provider, tools, call_ref)" "s = (l, t)" by (metis surj_pair)
  from assms(2) obtain x l' where "record_usage c (Some run_id) call_ref l = (Inr x, l')" "fst s' = l'"
    by (auto simp: routed_def router_complete_def prog_simps on_provider_def on_ledger_def split: sum.splits prod.splits)
  then show ?thesis using record_usage_ok [of l c run_id call_ref x l'] assms(1,3) by simp
qed

text \<open>
  C5. Every completion that calls of a run return is accounted for: in order of the calls one row is
  appended for each, with its provider, its model and its token counts, the table stays in order, other
  runs keep their rows, and the run's total grows by exactly the tokens of the completions.
\<close>

theorem calls_are_accounted:
  assumes "ledger_ok (fst s)" "for_each (routed rt stream run_id) reqs s = (Inr cs, s')" "run_id \<noteq> []"
  shows "ledger_ok (fst s') \<and> (\<exists>us. list_all2 (accounts_for run_id) cs us \<and>
      (\<forall>q. usage_rows q (fst s') = usage_rows q (fst s) @ (if q = run_id then us else []))) \<and>
    length cs = length reqs \<and>
    sum_list (map tu_total_tokens (usage_rows run_id (fst s'))) =
      sum_list (map tu_total_tokens (usage_rows run_id (fst s))) + sum_list (map mc_total_tokens cs)"
  using assms(1,2)
proof (induction reqs arbitrary: s cs)
  case (Cons req reqs)
  from Cons.prems(2) obtain c s1 cs' where c: "routed rt stream run_id req s = (Inr c, s1)"
    "for_each (routed rt stream run_id) reqs s1 = (Inr cs', s')" "cs = c # cs'"
    by (auto simp: prog_simps split: sum.splits prod.splits)
  obtain u where u: "ledger_ok (fst s1)" "lg_rows (fst s1) = lg_rows (fst s) @ [u]" "accounts_for run_id c u"
    using routed_ok [OF Cons.prems(1) c(1) assms(3)] by blast
  from Cons.IH [OF u(1) c(2)] obtain us where us: "ledger_ok (fst s')" "list_all2 (accounts_for run_id) cs' us"
    "\<And>q. usage_rows q (fst s') = usage_rows q (fst s1) @ (if q = run_id then us else [])" "length cs' = length reqs"
    "sum_list (map tu_total_tokens (usage_rows run_id (fst s'))) =
      sum_list (map tu_total_tokens (usage_rows run_id (fst s1))) + sum_list (map mc_total_tokens cs')" by auto
  have one: "usage_rows q (fst s1) = usage_rows q (fst s) @ (if q = run_id then [u] else [])" for q
    using u(2,3) by (auto simp: usage_rows_def accounts_for_def)
  then have "usage_rows q (fst s') = usage_rows q (fst s) @ (if q = run_id then u # us else [])" for q using us(3) by simp
  moreover have "list_all2 (accounts_for run_id) cs (u # us)" using us(2) u(3) c(3) by simp
  moreover have "tu_total_tokens u = mc_total_tokens c" using u(3) by (simp add: accounts_for_def)
  ultimately show ?case using us(1,4,5) one c(3) by (intro conjI exI [of _ "u # us"]) auto
qed (auto simp: prog_simps)

text \<open>
  C39. A call without a run id is refused only after the provider has answered: the provider's state has
  moved on, the completion is lost, and the table does not know of its tokens.
\<close>

theorem unaccounted_call_is_lost:
  assumes "find_provider rt (rt_default rt) = Inr complete" "complete p tools stream t = (Inr c, t')"
  shows "router_complete rt p None tools stream None call_ref (l, t) = (Inl MissingRunIdError, (l, t')) \<and>
    router_complete rt p None tools stream (Some []) call_ref (l, t) = (Inl MissingRunIdError, (l, t'))"
  using assms by (simp add: router_complete_def prog_simps on_provider_def on_ledger_def record_usage_def)

section \<open>Witnesses\<close>

definition empty_ledger :: ledger where
  "empty_ledger = \<lparr>lg_rows = [], lg_uuid = show_nat, lg_uuids = 0\<rparr>"

lemma empty_ledger_ok: "ledger_ok empty_ledger"
  by (simp add: ledger_ok_def empty_ledger_def usage_rows_def)

definition demo_tick :: "(nat, datetime) prog" where
  "demo_tick n = (Inr (Aware (int n) 0), Suc n)"

definition demo_fake :: "nat model_provider" where
  "demo_fake = fake_complete \<lparr>fm_model = ''m'', fm_provider = ''fake'', fm_scripted_outputs = [(''hi'', ''a b'')],
     fm_tool_script = []\<rparr> (\<lambda>p tools. ''0'') demo_tick"

definition demo_router :: "nat model_router" where
  "demo_router = \<lparr>rt_providers = [(''fake'', demo_fake)], rt_default = ''fake''\<rparr>"

definition demo_prompt :: prompt_envelope where
  "demo_prompt = \<lparr>pe_session_id = ''s'', pe_messages = [''hi''], pe_memory_block = [], pe_knowledge_block = [],
     pe_tools = None, pe_system_prompt = None\<rparr>"

lemma demo_completion:
  "\<exists>c. demo_fake demo_prompt [] False n = (Inr c, Suc n) \<and> mc_total_tokens c = 3 \<and> mc_provider c = ''fake'' \<and> mc_model c = ''m'' \<and>
     mc_prompt_tokens c = 1 \<and> mc_completion_tokens c = 2 \<and> is_aware (mc_recorded_at c)"
proof -
  have w: "words ''hi'' = [''hi'']" "words ''a b'' = [''a'', ''b'']" by code_simp+
  have s: "strip ''m'' \<noteq> []" "strip ''fake'' \<noteq> []" by code_simp+
  show ?thesis
    using w s by (simp add: demo_fake_def fake_complete_def demo_prompt_def prog_simps demo_tick_def count_prompt_tokens_def
        make_completion_def Let_def)
qed



theorem calls_are_accounted_witness:
  "\<exists>cs s'. for_each (routed demo_router False ''r'') [(demo_prompt, None, [], None)] (empty_ledger, 0) = (Inr cs, s') \<and>
    ledger_ok (fst s') \<and> length cs = 1 \<and>
    sum_list (map tu_total_tokens (usage_rows ''r'' (fst s'))) =
      sum_list (map tu_total_tokens (usage_rows ''r'' empty_ledger)) + sum_list (map mc_total_tokens cs)"
proof -
  obtain c where c: "demo_fake demo_prompt [] False 0 = (Inr c, Suc 0)" "mc_total_tokens c = 3" "mc_provider c = ''fake''"
    "mc_model c = ''m''" "mc_prompt_tokens c = 1" "mc_completion_tokens c = 2" "is_aware (mc_recorded_at c)"
    using demo_completion [of 0] by blast
  have s: "strip ''m'' \<noteq> []" "strip ''fake'' \<noteq> []" by code_simp+
  obtain s' where r: "for_each (routed demo_router False ''r'') [(demo_prompt, None, [], None)] (empty_ledger, 0) = (Inr [c], s')"
    using c s by (simp add: routed_def router_complete_def find_provider_def demo_router_def prog_simps on_provider_def
        on_ledger_def record_usage_def usage_uuid_def make_token_usage_def usage_append_def usage_next_seq_def usage_rows_def
        empty_ledger_def)
  have ok: "ledger_ok (fst (empty_ledger, 0::nat))" using empty_ledger_ok by simp
  from calls_are_accounted [OF ok r] r show ?thesis by (intro exI [of _ "[c]"] exI [of _ s']) simp
qed

theorem unaccounted_call_is_lost_witness:
  "\<exists>t'. router_complete demo_router demo_prompt None [] False None None (empty_ledger, 0) = (Inl MissingRunIdError, (empty_ledger, t')) \<and>
    t' \<noteq> 0"
proof -
  obtain c where c: "demo_fake demo_prompt [] False 0 = (Inr c, Suc 0)" using demo_completion [of 0] by blast
  have "find_provider demo_router (rt_default demo_router) = Inr demo_fake" by (simp add: find_provider_def demo_router_def)
  from unaccounted_call_is_lost [OF this c, of None empty_ledger] show ?thesis by (intro exI [of _ "Suc 0"]) simp
qed

end
