(* ===== verification/Context_Builder.thy ===== *)
theory Context_Builder
  imports Model_Calls "HOL-Library.Product_Lexorder"
begin

text \<open>
  How a prompt is put together (services/context_builder.py) from the session memory
  (adapters/memory/fake.py, adapters/memory/honcho.py) and the knowledge base
  (adapters/knowledge/filesystem.py; building its index from markdown files is an argument, namely the
  list of indexed documents).
\<close>

section \<open>Session memory\<close>

text \<open>The records of every session, in the order they were written: creation time, id, entry.\<close>

type_synonym memory_store = "(string \<times> (datetime \<times> string \<times> memory_entry) list) list"

definition records_of :: "string \<Rightarrow> memory_store \<Rightarrow> (datetime \<times> string \<times> memory_entry) list" where
  "records_of session_id m = (case map_of m session_id of None \<Rightarrow> [] | Some rs \<Rightarrow> rs)"

definition memory_write :: "string \<Rightarrow> memory_entry \<Rightarrow> (memory_store, string \<times> string) prog" where
  "memory_write session_id entry =
     bind (gets (records_of session_id)) (\<lambda>rs. let entry_id = take 4 session_id @ ''-'' @ show_nat (length rs) in
     bind (lift (make_memory_entry (me_created_at entry) (me_session_id entry) (me_content entry) (me_metadata entry)
         (Some (me_created_at entry)))) (\<lambda>stored.
     andthen (modify (AList.update session_id (rs @ [(me_created_at stored, entry_id, stored)])))
     (ret (entry_id, session_id))))"

definition memory_read :: "string \<Rightarrow> memory_query \<Rightarrow> (memory_store, memory_entry list) prog" where
  "memory_read session_id q = gets (\<lambda>m.
     let filtered = filter (\<lambda>(_, _, e). contains (lower (mq_query_text q)) (lower (me_content e))) (records_of session_id m);
         newest = sort_key (\<lambda>(t, _, _). - instant t) filtered in
     map (\<lambda>(_, _, e). e) (slice_to (mq_limit q) newest))"

text \<open>The Honcho adapter: what the service returns is an argument, the clock stands in for missing times.\<close>

definition honcho_entry :: "datetime \<Rightarrow> string \<Rightarrow> string option \<Rightarrow> string option \<Rightarrow> (string \<times> string) list option
    \<Rightarrow> datetime option \<Rightarrow> exc + memory_entry" where
  "honcho_entry now session_id raw_session raw_content raw_meta raw_created =
     make_memory_entry now
       (case raw_session of Some (c # cs) \<Rightarrow> c # cs | _ \<Rightarrow> session_id)
       (case raw_content of Some c \<Rightarrow> c | None \<Rightarrow> [])
       (case raw_meta of Some m \<Rightarrow> m | None \<Rightarrow> [])
       (Some (case raw_created of Some t \<Rightarrow> t | None \<Rightarrow> now))"

section \<open>The knowledge base\<close>

record indexed_doc =
  id_ref :: string
  id_title :: string
  id_body :: string

text \<open>\<open>text.find(needle)\<close>.\<close>

fun find_at :: "string \<Rightarrow> string \<Rightarrow> nat option" where
  "find_at needle [] = (if needle = [] then Some 0 else None)"
| "find_at needle (c # s) = (if starts_with (c # s) needle then Some 0 else map_option Suc (find_at needle s))"

definition around :: "nat \<Rightarrow> nat \<Rightarrow> nat \<Rightarrow> string \<Rightarrow> string \<Rightarrow> string" where
  "around before after max_len txt0 query = (case find_at (lower query) (lower txt0) of
       None \<Rightarrow> take max_len txt0
     | Some idx \<Rightarrow> strip (drop (idx - before) (take (min (length txt0) (idx + length query + after)) txt0)))"

definition snippet_from :: "string \<Rightarrow> string \<Rightarrow> nat \<Rightarrow> string" where
  "snippet_from txt0 query max_len = around 20 40 max_len txt0 query"

definition build_snippet :: "string \<Rightarrow> string \<Rightarrow> nat \<Rightarrow> string" where
  "build_snippet body query window = around 10 window window body query"

definition search_doc :: "string \<Rightarrow> indexed_doc \<Rightarrow> knowledge_hit option" where
  "search_doc query d =
     (let q = lower query; title_match = contains q (lower (id_title d)); body_match = contains q (lower (id_body d)) in
      if \<not> title_match \<and> \<not> body_match then None
      else Some \<lparr>kh_ref = id_ref d, kh_title = id_title d,
        kh_snippet = (if body_match \<and> \<not> title_match then build_snippet (id_body d) query 60
                      else if title_match then id_title d @ '': '' @ snippet_from (id_body d) query 40
                      else snippet_from (id_body d) query 80),
        kh_score = (if title_match then 2 else 1)\<rparr>)"

definition knowledge_search :: "indexed_doc list \<Rightarrow> string \<Rightarrow> int \<Rightarrow> knowledge_hit list" where
  "knowledge_search docs query limit =
     slice_to limit (sort_key (\<lambda>h. (- kh_score h, kh_ref h)) (List.map_filter (search_doc query) docs))"

definition knowledge_fetch :: "indexed_doc list \<Rightarrow> string \<Rightarrow> exc + string \<times> string \<times> string" where
  "knowledge_fetch docs ref = (case find (\<lambda>d. id_ref d = ref) docs of
       None \<Rightarrow> Inl (KnowledgeNotFound ref)
     | Some d \<Rightarrow> Inr (id_ref d, id_title d, id_body d))"

section \<open>The builder\<close>

record context_builder =
  cb_memory_cap :: int
  cb_knowledge_cap :: int

definition make_builder :: "bool \<Rightarrow> bool \<Rightarrow> int \<Rightarrow> int \<Rightarrow> exc + context_builder" where
  "make_builder has_memory has_knowledge memory_cap knowledge_cap =
     rbind (ensure (has_memory \<and> has_knowledge) (ValueError ''memory_provider and knowledge_provider must not be None'')) (\<lambda>_.
     rbind (ensure (\<not> memory_cap < 0) (ValueError ''context_memory_char_cap must be >= 0'')) (\<lambda>_.
     rbind (ensure (\<not> knowledge_cap < 0) (ValueError ''context_knowledge_char_cap must be >= 0'')) (\<lambda>_.
     Inr \<lparr>cb_memory_cap = memory_cap, cb_knowledge_cap = knowledge_cap\<rparr>)))"

text \<open>The new entry is built by the constructor, which accepts what the old one already passed.\<close>

definition apply_cap :: "int \<Rightarrow> memory_entry \<Rightarrow> exc + memory_entry" where
  "apply_cap cap e = (if cap < int (length (me_content e))
     then make_memory_entry (me_created_at e) (me_session_id e) (slice_to cap (me_content e)) (me_metadata e) (Some (me_created_at e))
     else Inr e)"

definition apply_cap_knowledge :: "int \<Rightarrow> knowledge_hit \<Rightarrow> knowledge_hit" where
  "apply_cap_knowledge cap h = (if cap < int (length (kh_snippet h)) then h\<lparr>kh_snippet := slice_to cap (kh_snippet h)\<rparr> else h)"

definition truncate_memory :: "context_builder \<Rightarrow> memory_entry list \<Rightarrow> exc + memory_entry list" where
  "truncate_memory b es = (if cb_memory_cap b \<le> 0 then Inr [] else rmap (apply_cap (cb_memory_cap b)) es)"

definition truncate_knowledge :: "context_builder \<Rightarrow> knowledge_hit list \<Rightarrow> knowledge_hit list" where
  "truncate_knowledge b hs = (if cb_knowledge_cap b \<le> 0 then [] else map (apply_cap_knowledge (cb_knowledge_cap b)) hs)"

definition fetch_memory ::
  "(string \<Rightarrow> memory_query \<Rightarrow> ('s, memory_entry list) prog) \<Rightarrow> string \<Rightarrow> int \<Rightarrow> ('s, memory_entry list) prog" where
  "fetch_memory read session_id max_entries =
     bind (lift (make_memory_query session_id [] max_entries)) (\<lambda>q.
     bind (read session_id q) (\<lambda>raw. ret (slice_to max_entries raw)))"

definition build_prompt ::
  "context_builder \<Rightarrow> (string \<Rightarrow> memory_query \<Rightarrow> ('s, memory_entry list) prog) \<Rightarrow> (string \<Rightarrow> int \<Rightarrow> ('s, knowledge_hit list) prog)
   \<Rightarrow> string \<Rightarrow> string \<Rightarrow> int \<Rightarrow> int \<Rightarrow> ('s, prompt_envelope) prog" where
  "build_prompt b read search session_id user_input max_memory max_knowledge =
     bind (fetch_memory read session_id max_memory) (\<lambda>entries.
     bind (search user_input max_knowledge) (\<lambda>hits.
     bind (lift (truncate_memory b entries)) (\<lambda>memory_block.
     lift (make_prompt session_id [user_input] memory_block (truncate_knowledge b hits) None None))))"
section \<open>What a memory promises\<close>

definition wf_entry :: "memory_entry \<Rightarrow> bool" where
  "wf_entry e \<longleftrightarrow> me_session_id e \<noteq> [] \<and> (\<exists>t. me_created_at e = Aware t 0)"

definition newest_first :: "memory_entry list \<Rightarrow> memory_entry list" where
  "newest_first es = sort_key (\<lambda>e. - instant (me_created_at e)) es"

text \<open>
  A memory keeps what is written to a session at the end of the session's entries, and a read returns
  the newest of the entries that contain the text of the query.
\<close>

locale session_memory =
  fixes put :: "string \<Rightarrow> memory_entry \<Rightarrow> ('s, string \<times> string) prog"
    and recall :: "string \<Rightarrow> memory_query \<Rightarrow> ('s, memory_entry list) prog"
    and entries :: "string \<Rightarrow> 's \<Rightarrow> memory_entry list"
    and good :: "'s \<Rightarrow> bool"
  assumes write_appends: "good s \<Longrightarrow> wf_entry e \<Longrightarrow>
      \<exists>r s'. put i e s = (Inr r, s') \<and> good s' \<and> (\<forall>q. entries q s' = entries q s @ (if q = i then [e] else []))"
    and read_newest: "good s \<Longrightarrow> recall i q s =
      (Inr (slice_to (mq_limit q) (newest_first (filter (\<lambda>e. contains (lower (mq_query_text q)) (lower (me_content e))) (entries i s)))), s)"
begin

lemma writes_append:
  assumes "good s" "\<forall>(i, e) \<in> set ws. wf_entry e"
  shows "\<exists>rs s'. for_each (\<lambda>(i, e). put i e) ws s = (Inr rs, s') \<and> good s' \<and>
    (\<forall>q. entries q s' = entries q s @ map snd (filter (\<lambda>(i, e). i = q) ws))"
  using assms
proof (induction ws arbitrary: s)
  case (Cons w ws)
  obtain i e where w: "w = (i, e)" by (cases w)
  with Cons.prems obtain r s1 where s1: "put i e s = (Inr r, s1)" "good s1"
    "\<forall>q. entries q s1 = entries q s @ (if q = i then [e] else [])" using write_appends by fastforce
  from Cons.IH [OF s1(2)] Cons.prems(2) obtain rs s' where "for_each (\<lambda>(i, e). put i e) ws s1 = (Inr rs, s')" "good s'"
    "\<forall>q. entries q s' = entries q s1 @ map snd (filter (\<lambda>(i, e). i = q) ws)" by auto
  with s1 w show ?case by (auto simp: prog_simps)
qed (simp add: prog_simps)

lemma fetch_newest:
  assumes "good s"
  shows "fetch_memory recall i n s =
    (if i = [] then (Inl (ValueError ''session_id must not be empty''), s)
     else if n < 1 then (Inl (ValueError ''limit must be >= 1''), s)
     else (Inr (take (nat n) (newest_first (entries i s))), s))"
proof -
  have "contains [] t" for t by (cases t) auto
  then show ?thesis
    by (simp add: fetch_memory_def make_memory_query_def prog_simps read_newest [OF assms] slice_to_def lower_def ensure_def)
qed

end

definition store_entries :: "string \<Rightarrow> memory_store \<Rightarrow> memory_entry list" where
  "store_entries i m = map (\<lambda>(_, _, e). e) (records_of i m)"

definition store_good :: "memory_store \<Rightarrow> bool" where
  "store_good m \<longleftrightarrow> (\<forall>i. \<forall>(t, n, e) \<in> set (records_of i m). t = me_created_at e)"

lemma records_update: "records_of q (AList.update i rs m) = (if q = i then rs else records_of q m)"
  by (simp add: records_of_def update_conv')

lemma sort_key_map: "sort_key k (map f xs) = map f (sort_key (k \<circ> f) xs)"
proof -
  have "insort_key k (f x) (map f xs) = map f (insort_key (k \<circ> f) x xs)" for x xs
    by (induction xs) auto
  then show ?thesis by (induction xs) (auto simp: sort_key_simps)
qed

lemma sort_key_cong_set: "\<forall>x \<in> set xs. f x = g x \<Longrightarrow> sort_key f xs = sort_key g xs"
proof (induction xs)
  case (Cons x xs)
  have "\<forall>y \<in> insert x (set ys). f y = g y \<Longrightarrow> insort_key f x ys = insort_key g x ys" for ys
    by (induction ys) auto
  then show ?case using Cons by (simp add: sort_key_simps)
qed simp

lemma slice_to_map: "slice_to n (map f xs) = map f (slice_to n xs)"
  by (simp add: slice_to_def take_map)

interpretation fake_memory: session_memory memory_write memory_read store_entries store_good
proof
  fix m i e
  assume m: "store_good m" and e: "wf_entry e"
  then obtain t where t: "me_created_at e = Aware t 0" "me_session_id e \<noteq> []" by (auto simp: wf_entry_def)
  let ?n = "take 4 i @ ''-'' @ show_nat (length (records_of i m))"
  let ?m = "AList.update i (records_of i m @ [(me_created_at e, ?n, e)]) m"
  have "memory_write i e m = (Inr (?n, i), ?m)"
    using t by (cases e) (simp add: memory_write_def prog_simps make_memory_entry_def Let_def)
  moreover have "store_good ?m" using m by (auto simp: store_good_def records_update)
  moreover have "\<forall>q. store_entries q ?m = store_entries q m @ (if q = i then [e] else [])"
    by (simp add: store_entries_def records_update)
  ultimately show "\<exists>r s'. memory_write i e m = (Inr r, s') \<and> store_good s' \<and>
    (\<forall>q. store_entries q s' = store_entries q m @ (if q = i then [e] else []))" by blast
next
  fix m i and q :: memory_query
  assume m: "store_good m"
  let ?P = "\<lambda>e. contains (lower (mq_query_text q)) (lower (me_content e))"
  let ?rs = "filter (\<lambda>(_, _, e). ?P e) (records_of i m)"
  have key: "\<forall>r \<in> set ?rs. (\<lambda>(t, _, _). - instant t) r = ((\<lambda>e. - instant (me_created_at e)) \<circ> (\<lambda>(_, _, e). e)) r"
    using m by (auto simp: store_good_def)
  have "map (\<lambda>(_, _, e). e) (sort_key (\<lambda>(t, _, _). - instant t) ?rs) = newest_first (filter ?P (store_entries i m))"
    unfolding sort_key_cong_set [OF key]
    by (simp add: newest_first_def store_entries_def sort_key_map filter_map comp_def case_prod_unfold)
  then show "memory_read i q m = (Inr (slice_to (mq_limit q) (newest_first (filter ?P (store_entries i m)))), m)"
    by (simp add: memory_read_def gets_def slice_to_map [symmetric] Let_def)
qed

section \<open>What goes into a prompt\<close>

lemma length_slice_to: "0 \<le> n \<Longrightarrow> int (length (slice_to n xs)) \<le> n"
  by (simp add: slice_to_def)

definition capped :: "int \<Rightarrow> memory_entry \<Rightarrow> memory_entry" where
  "capped cap e = (if cap < int (length (me_content e)) then e\<lparr>me_content := slice_to cap (me_content e)\<rparr> else e)"

lemma apply_cap_ok: "wf_entry e \<Longrightarrow> apply_cap cap e = Inr (capped cap e)"
  by (cases e) (auto simp: apply_cap_def capped_def wf_entry_def make_memory_entry_def)

lemma apply_cap_bound: "apply_cap cap e = Inr e' \<Longrightarrow> 0 \<le> cap \<Longrightarrow> int (length (me_content e')) \<le> cap \<and> me_session_id e' = me_session_id e"
  by (auto simp: apply_cap_def make_memory_entry_def rbind_Inr_iff length_slice_to split: if_splits)

text \<open>
  C28. Whatever the providers return, a prompt that is built carries the user's input as its only message,
  at most the requested number of memory entries, no memory or knowledge text longer than its cap, and
  nothing at all under a cap of zero. The cap bounds each entry, not the block.
\<close>

theorem built_prompt_is_bounded:
  assumes "build_prompt b recall search session_id user_input max_memory max_knowledge s = (Inr p, s')"
    "make_builder True True (cb_memory_cap b) (cb_knowledge_cap b) = Inr b"
  shows "pe_session_id p = session_id \<and> session_id \<noteq> [] \<and> pe_messages p = [user_input] \<and>
    int (length (pe_memory_block p)) \<le> max_memory \<and>
    (\<forall>e \<in> set (pe_memory_block p). int (length (me_content e)) \<le> cb_memory_cap b) \<and>
    (\<forall>h \<in> set (pe_knowledge_block p). int (length (kh_snippet h)) \<le> cb_knowledge_cap b) \<and>
    (cb_memory_cap b = 0 \<longrightarrow> pe_memory_block p = []) \<and> (cb_knowledge_cap b = 0 \<longrightarrow> pe_knowledge_block p = [])"
proof -
  have caps: "0 \<le> cb_memory_cap b" "0 \<le> cb_knowledge_cap b" using assms(2) by (auto simp: make_builder_def rbind_Inr_iff)
  from assms(1) obtain es s1 hs s2 ms where e: "fetch_memory recall session_id max_memory s = (Inr es, s1)"
    "search user_input max_knowledge s1 = (Inr hs, s2)" "truncate_memory b es = Inr ms"
    "make_prompt session_id [user_input] ms (truncate_knowledge b hs) None None = Inr p"
    by (auto simp: build_prompt_def prog_simps split: sum.splits prod.splits)
  from e(1) obtain raw where raw: "es = slice_to max_memory raw" "1 \<le> max_memory"
    by (auto simp: fetch_memory_def prog_simps make_memory_query_def rbind_def ensure_def split: sum.splits prod.splits if_splits)
  have p: "pe_memory_block p = ms" "pe_knowledge_block p = truncate_knowledge b hs" "pe_session_id p = session_id"
    "session_id \<noteq> []" "pe_messages p = [user_input]"
    using e(4) by (auto simp: make_prompt_def rbind_Inr_iff)
  have "length ms \<le> length es" using e(3) by (auto simp: truncate_memory_def rmap_length split: if_splits)
  moreover have "int (length es) \<le> max_memory" using raw by (simp add: length_slice_to)
  moreover have "\<forall>m \<in> set ms. int (length (me_content m)) \<le> cb_memory_cap b"
    using e(3) caps(1) apply_cap_bound by (auto simp: truncate_memory_def split: if_splits dest!: rmap_Inr_ex)
  moreover have "\<forall>h \<in> set (truncate_knowledge b hs). int (length (kh_snippet h)) \<le> cb_knowledge_cap b"
    using caps(2) by (auto simp: truncate_knowledge_def apply_cap_knowledge_def length_slice_to)
  ultimately show ?thesis using p e(3) by (auto simp: truncate_memory_def truncate_knowledge_def)
qed

text \<open>
  What a search is to find, without its code: the documents whose title or body holds the query in any
  case, those with the query in the title first, and among equals in the order of their references.
\<close>

definition title_hit :: "string \<Rightarrow> indexed_doc \<Rightarrow> bool" where
  "title_hit query d \<longleftrightarrow> contains (lower query) (lower (id_title d))"

definition body_hit :: "string \<Rightarrow> indexed_doc \<Rightarrow> bool" where
  "body_hit query d \<longleftrightarrow> contains (lower query) (lower (id_body d))"

definition no_worse :: "string \<Rightarrow> indexed_doc \<Rightarrow> indexed_doc \<Rightarrow> bool" where
  "no_worse query d d' \<longleftrightarrow> title_hit query d \<and> \<not> title_hit query d' \<or>
     title_hit query d = title_hit query d' \<and> id_ref d \<le> id_ref d'"

text \<open>The text around the first place where the query occurs, in any case; the beginning without one.\<close>

definition occurs :: "string \<Rightarrow> string \<Rightarrow> nat \<Rightarrow> bool" where
  "occurs query body i \<longleftrightarrow> starts_with (drop i (lower body)) (lower query)"

definition excerpt :: "nat \<Rightarrow> nat \<Rightarrow> nat \<Rightarrow> string \<Rightarrow> string \<Rightarrow> string" where
  "excerpt before after len body query =
     (if \<exists>i. occurs query body i
      then let i = (LEAST i. occurs query body i) in strip (drop (i - before) (take (i + length query + after) body))
      else take len body)"

definition hit_text :: "string \<Rightarrow> indexed_doc \<Rightarrow> string" where
  "hit_text query d = (if title_hit query d then id_title d @ '': '' @ excerpt 20 40 40 (id_body d) query
     else excerpt 10 60 60 (id_body d) query)"

lemma find_at_least:
  "find_at needle s = (if \<exists>i. starts_with (drop i s) needle then Some (LEAST i. starts_with (drop i s) needle) else None)"
proof (induction s)
  case Nil
  show ?case by (cases needle) (auto intro!: Least_equality [symmetric])
next
  case (Cons c s)
  let ?P = "\<lambda>i. starts_with (drop i (c # s)) needle"
  show ?case
  proof (cases "?P 0")
    case True
    then have "(LEAST i. ?P i) = 0" by (intro Least_equality) simp_all
    with True show ?thesis by (auto intro: exI [of _ 0])
  next
    case False
    have "(\<exists>i. ?P i) \<longleftrightarrow> (\<exists>i. ?P (Suc i))" using False by (metis not0_implies_Suc)
    moreover have "?P i \<Longrightarrow> (LEAST i. ?P i) = Suc (LEAST i. ?P (Suc i))" for i
      using Least_Suc [of ?P i] False by blast
    ultimately show ?thesis using False Cons by auto
  qed
qed

lemma around_excerpt: "around before after len body query = excerpt before after len body query"
proof -
  have "take (min (length body) n) body = take n body" for n by (simp add: min_def)
  then show ?thesis
    by (auto simp: around_def excerpt_def occurs_def find_at_least Let_def)
qed

definition hit_of :: "string \<Rightarrow> indexed_doc \<Rightarrow> knowledge_hit" where
  "hit_of query d = \<lparr>kh_ref = id_ref d, kh_title = id_title d, kh_snippet = hit_text query d,
     kh_score = (if title_hit query d then 2 else 1)\<rparr>"

lemma search_doc_iff:
  "search_doc query d = (if title_hit query d \<or> body_hit query d then Some (hit_of query d) else None)"
  by (simp add: search_doc_def Let_def hit_of_def hit_text_def title_hit_def body_hit_def build_snippet_def snippet_from_def around_excerpt)

lemma search_ranks:
  "\<exists>ranked. mset ranked = mset (filter (\<lambda>d. title_hit query d \<or> body_hit query d) docs) \<and>
     sorted_wrt (no_worse query) ranked \<and>
     knowledge_search docs query limit = map (hit_of query) (slice_to limit ranked)"
proof -
  let ?m = "filter (\<lambda>d. title_hit query d \<or> body_hit query d) docs"
  let ?k = "(\<lambda>h. (- kh_score h, kh_ref h)) \<circ> hit_of query"
  let ?r = "sort_key ?k ?m"
  have "List.map_filter (search_doc query) docs = map (hit_of query) ?m"
    by (induction docs) (simp_all add: List.map_filter_simps search_doc_iff)
  then have "knowledge_search docs query limit = map (hit_of query) (slice_to limit ?r)"
    by (simp add: knowledge_search_def sort_key_map slice_to_map)
  moreover have "sorted_wrt (\<lambda>d d'. ?k d \<le> ?k d') ?r"
    using sorted_sort_key [of ?k ?m] by (simp add: sorted_map)
  then have "sorted_wrt (no_worse query) ?r"
    by (rule sorted_wrt_mono_rel [rotated]) (auto simp: no_worse_def hit_of_def split: if_splits)
  ultimately show ?thesis by (intro exI [of _ ?r]) simp
qed

text \<open>
  C14. With the in-memory store, a prompt recalls what was said: after any writes its memory block holds the
  newest entries of the session and of no other one, newest first and cut to the cap. Its knowledge block
  is the front of a ranking of exactly the documents that hold the input: matches in the title before
  matches in the body, equal ones by reference, each with the text around the first match cut to the cap, and
  nothing under a cap of zero. Building it writes nothing.
\<close>

theorem prompt_recalls_newest:
  assumes "\<forall>(i, e) \<in> set ws. wf_entry e" "0 < cb_memory_cap b" "session_id \<noteq> []" "1 \<le> max_memory"
  shows "\<exists>rs m ranked. for_each (\<lambda>(i, e). memory_write i e) ws [] = (Inr rs, m) \<and>
    mset ranked = mset (filter (\<lambda>d. title_hit user_input d \<or> body_hit user_input d) docs) \<and>
    sorted_wrt (no_worse user_input) ranked \<and>
    build_prompt b memory_read (\<lambda>q n. ret (knowledge_search docs q n)) session_id user_input max_memory max_knowledge m =
      (Inr \<lparr>pe_session_id = session_id, pe_messages = [user_input],
        pe_memory_block = map (capped (cb_memory_cap b))
          (take (nat max_memory) (newest_first (map snd (filter (\<lambda>(i, e). i = session_id) ws)))),
        pe_knowledge_block = (if cb_knowledge_cap b \<le> 0 then [] else
          map (\<lambda>d. \<lparr>kh_ref = id_ref d, kh_title = id_title d,
              kh_snippet = take (nat (cb_knowledge_cap b)) (hit_text user_input d),
              kh_score = (if title_hit user_input d then 2 else 1)\<rparr>)
            (slice_to max_knowledge ranked)),
        pe_tools = None, pe_system_prompt = None\<rparr>, m)"
proof -
  have "store_good []" by (simp add: store_good_def records_of_def)
  from fake_memory.writes_append [OF this assms(1)] obtain rs m where m: "for_each (\<lambda>(i, e). memory_write i e) ws [] = (Inr rs, m)"
    "store_good m" "store_entries session_id m = map snd (filter (\<lambda>(i, e). i = session_id) ws)"
    by (auto simp: store_entries_def records_of_def)
  obtain ranked where ranked: "mset ranked = mset (filter (\<lambda>d. title_hit user_input d \<or> body_hit user_input d) docs)"
    "sorted_wrt (no_worse user_input) ranked"
    "knowledge_search docs user_input max_knowledge = map (hit_of user_input) (slice_to max_knowledge ranked)"
    using search_ranks by blast
  have cut: "apply_cap_knowledge cap (hit_of user_input d) = \<lparr>kh_ref = id_ref d, kh_title = id_title d,
      kh_snippet = take (nat cap) (hit_text user_input d), kh_score = (if title_hit user_input d then 2 else 1)\<rparr>"
    if "0 < cap" for cap d
    using that by (simp add: apply_cap_knowledge_def hit_of_def slice_to_def)
  let ?es = "take (nat max_memory) (newest_first (map snd (filter (\<lambda>(i, e). i = session_id) ws)))"
  have "\<forall>e \<in> set ?es. wf_entry e" using assms(1) by (fastforce simp: newest_first_def dest!: in_set_takeD)
  then have "rmap (apply_cap (cb_memory_cap b)) ?es = Inr (map (capped (cb_memory_cap b)) ?es)"
    by (simp add: rmap_Inr_iff list_all2_map2 list_all2_same apply_cap_ok)
  then have "truncate_memory b ?es = Inr (map (capped (cb_memory_cap b)) ?es)" using assms(2) by (simp add: truncate_memory_def)
  then have built: "build_prompt b memory_read (\<lambda>q n. ret (knowledge_search docs q n)) session_id user_input max_memory max_knowledge m =
      (Inr \<lparr>pe_session_id = session_id, pe_messages = [user_input], pe_memory_block = map (capped (cb_memory_cap b)) ?es,
        pe_knowledge_block = truncate_knowledge b (knowledge_search docs user_input max_knowledge),
        pe_tools = None, pe_system_prompt = None\<rparr>, m)"
    using fake_memory.fetch_newest [OF m(2), of session_id max_memory] assms(3,4) m(3)
    by (simp add: build_prompt_def prog_simps make_prompt_def)
  have block: "truncate_knowledge b (knowledge_search docs user_input max_knowledge) = (if cb_knowledge_cap b \<le> 0 then [] else
      map (\<lambda>d. \<lparr>kh_ref = id_ref d, kh_title = id_title d,
          kh_snippet = take (nat (cb_knowledge_cap b)) (hit_text user_input d),
          kh_score = (if title_hit user_input d then 2 else 1)\<rparr>) (slice_to max_knowledge ranked))"
    using cut by (simp add: truncate_knowledge_def ranked(3))
  show ?thesis using m(1) ranked(1,2) built unfolding block by blast
qed

text \<open>
  Entries of different sessions get the same id when the first four characters of the sessions agree.
  The adapter of the Messages API does not send what the builder put into the blocks.
\<close>

lemma entry_ids_collide:
  assumes "wf_entry e" "take 4 i = take 4 j"
  shows "\<exists>n m m'. memory_write i e [] = (Inr (n, i), m) \<and> memory_write j e [] = (Inr (n, j), m')"
  using assms by (cases e) (auto simp: memory_write_def prog_simps make_memory_entry_def records_of_def wf_entry_def Let_def)

lemma blocks_are_not_sent:
  "build_request a (p\<lparr>pe_memory_block := ms, pe_knowledge_block := ks\<rparr>) tools = build_request a p tools"
  by (simp add: build_request_def)

text \<open>Hits come from matching documents only, those whose title matches first.\<close>

lemma search_hits:
  assumes "h \<in> set (knowledge_search docs query limit)"
  shows "\<exists>d \<in> set docs. kh_ref h = id_ref d \<and> kh_title h = id_title d \<and>
    (contains (lower query) (lower (id_title d)) \<or> contains (lower query) (lower (id_body d))) \<and>
    kh_score h = (if contains (lower query) (lower (id_title d)) then 2 else 1)"
proof -
  have "set (slice_to n xs) \<subseteq> set xs" for n and xs :: "knowledge_hit list"
    by (auto simp: slice_to_def dest: in_set_takeD)
  then have "h \<in> set (List.map_filter (search_doc query) docs)" using assms by (fastforce simp: knowledge_search_def)
  then show ?thesis by (auto simp: List.map_filter_def search_doc_def Let_def split: if_splits)
qed

section \<open>Witnesses\<close>

definition demo_entry :: "string \<Rightarrow> int \<Rightarrow> memory_entry" where
  "demo_entry c t = \<lparr>me_session_id = ''s1'', me_content = c, me_metadata = [], me_created_at = Aware t 0\<rparr>"

definition demo_writes :: "(string \<times> memory_entry) list" where
  "demo_writes = [(''s1'', demo_entry ''old'' 1), (''s2'', demo_entry ''other'' 5), (''s1'', demo_entry ''recent'' 2)]"

definition demo_builder :: context_builder where
  "demo_builder = \<lparr>cb_memory_cap = 4, cb_knowledge_cap = 4\<rparr>"

definition demo_docs :: "indexed_doc list" where
  "demo_docs = [\<lparr>id_ref = ''a.md'', id_title = ''Notes'', id_body = ''say Hello twice''\<rparr>,
     \<lparr>id_ref = ''b.md'', id_title = ''Other'', id_body = ''nothing''\<rparr>,
     \<lparr>id_ref = ''c.md'', id_title = ''Hello'', id_body = ''x''\<rparr>]"

theorem prompt_recalls_newest_witness:
  "\<exists>rs m p. for_each (\<lambda>(i, e). memory_write i e) demo_writes [] = (Inr rs, m) \<and>
    build_prompt demo_builder memory_read (\<lambda>q n. ret (knowledge_search demo_docs q n)) ''s1'' ''hello'' 1 5 m = (Inr p, m) \<and>
    map me_content (pe_memory_block p) = [''rece''] \<and> map kh_ref (pe_knowledge_block p) = [''c.md'', ''a.md'']"
proof -
  let ?b = demo_builder and ?q = "''hello''"
  have w: "\<forall>(i, e) \<in> set demo_writes. wf_entry e" by (simp add: demo_writes_def demo_entry_def wf_entry_def)
  have mem: "map me_content (map (capped (cb_memory_cap ?b))
      (take (nat 1) (newest_first (map snd (filter (\<lambda>(i, e). i = ''s1'') demo_writes))))) = [''rece'']" by code_simp
  have cap: "0 < cb_memory_cap ?b" by (simp add: demo_builder_def)
  have hits: "filter (\<lambda>d. title_hit ?q d \<or> body_hit ?q d) demo_docs = [demo_docs ! 0, demo_docs ! 2]" by code_simp
  from prompt_recalls_newest [OF w cap, of "''s1''" 1 "''hello''" demo_docs 5]
  obtain rs m ranked where r: "for_each (\<lambda>(i, e). memory_write i e) demo_writes [] = (Inr rs, m)"
    "mset ranked = mset (filter (\<lambda>d. title_hit ?q d \<or> body_hit ?q d) demo_docs)" "sorted_wrt (no_worse ?q) ranked"
    "build_prompt ?b memory_read (\<lambda>q n. ret (knowledge_search demo_docs q n)) ''s1'' ?q 1 5 m =
      (Inr \<lparr>pe_session_id = ''s1'', pe_messages = [?q],
        pe_memory_block = map (capped (cb_memory_cap ?b))
          (take (nat 1) (newest_first (map snd (filter (\<lambda>(i, e). i = ''s1'') demo_writes)))),
        pe_knowledge_block = (if cb_knowledge_cap ?b \<le> 0 then [] else
          map (\<lambda>d. \<lparr>kh_ref = id_ref d, kh_title = id_title d,
              kh_snippet = take (nat (cb_knowledge_cap ?b)) (hit_text ?q d),
              kh_score = (if title_hit ?q d then 2 else 1)\<rparr>) (slice_to 5 ranked)),
        pe_tools = None, pe_system_prompt = None\<rparr>, m)" by auto
  have "length ranked = 2" using arg_cong [OF r(2), of size] by (simp add: hits)
  then obtain x y where xy: "ranked = [x, y]" by (auto simp: length_Suc_conv numeral_2_eq_2)
  have "no_worse ?q (demo_docs ! 2) (demo_docs ! 0)" "\<not> no_worse ?q (demo_docs ! 0) (demo_docs ! 2)" by code_simp+
  then have "ranked = [demo_docs ! 2, demo_docs ! 0]"
    using r(2,3) by (auto simp: hits xy add_eq_conv_ex)
  then have "map kh_ref (if cb_knowledge_cap ?b \<le> 0 then [] else
      map (\<lambda>d. \<lparr>kh_ref = id_ref d, kh_title = id_title d, kh_snippet = take (nat (cb_knowledge_cap ?b)) (hit_text ?q d),
        kh_score = (if title_hit ?q d then 2 else 1)\<rparr>) (slice_to 5 ranked)) = [''c.md'', ''a.md'']"
    by (simp add: demo_builder_def slice_to_def demo_docs_def)
  with r(1,4) mem show ?thesis by (intro exI conjI) (assumption, assumption, simp_all)
qed

theorem built_prompt_is_bounded_witness:
  "\<exists>p m. build_prompt demo_builder memory_read (\<lambda>q n. ret (knowledge_search [] q n)) ''s1'' ''hello'' 1 5 [] = (Inr p, m) \<and>
    pe_messages p = [''hello''] \<and> int (length (pe_memory_block p)) \<le> 1"
proof -
  obtain p m where p: "build_prompt demo_builder memory_read (\<lambda>q n. ret (knowledge_search [] q n)) ''s1'' ''hello'' 1 5 [] = (Inr p, m)"
    by (simp add: build_prompt_def fetch_memory_def make_memory_query_def memory_read_def records_of_def prog_simps
        truncate_memory_def demo_builder_def make_prompt_def slice_to_def)
  have b: "make_builder True True (cb_memory_cap demo_builder) (cb_knowledge_cap demo_builder) = Inr demo_builder"
    by (simp add: make_builder_def demo_builder_def)
  from built_prompt_is_bounded [OF p b] p show ?thesis by (intro exI [of _ p] exI [of _ m]) simp
qed

end
