(* ===== verification/Briefing.thy ===== *)
theory Briefing
  imports EA_Routines Documents
begin

text \<open>
  The briefing routine (services/orchestration/briefing.py) and the surface that runs the routines of a
  hydrated assistant profile (services/orchestration/routine.py). A handler keeps the messages about
  malformed entries, an optional list it copies events to, and works on the store. The title and the
  ISO form of a time are arguments, the title for its dash.
\<close>

section \<open>Data\<close>

record inbox_entry =
  ie_subject :: string
  ie_body :: string
  ie_from_address :: string
  ie_received_at :: datetime

record briefing_state =
  bs_inbox_received :: int
  bs_inbox_accepted :: int
  bs_pending_tasks :: int
  bs_artifacts_queued :: int

record briefing_result =
  br_title :: string
  br_timestamp :: string
  br_state :: briefing_state
  br_milestones :: "payload list"
  br_artifact :: payload

text \<open>The handler with its event repository, and the store behind it.\<close>

record briefing_handler =
  bh_stderr :: "string list"
  bh_snapshot :: "run_event list option"
  bh_has_repo :: bool
  bh_world :: world

definition on_world :: "(world, 'a) prog \<Rightarrow> (briefing_handler, 'a) prog" where
  "on_world m h = (case m (bh_world h) of (r, w) \<Rightarrow> (r, h\<lparr>bh_world := w\<rparr>))"

section \<open>Building the result\<close>

definition accepted_entry :: "inbox_entry \<Rightarrow> bool" where
  "accepted_entry e \<longleftrightarrow> strip (ie_subject e) \<noteq> []"

definition subject_error :: "inbox_entry \<Rightarrow> string" where
  "subject_error e = ''inbox entry from '' @ ie_from_address e @ '' has no subject''"

definition classify_entry :: "inbox_entry \<Rightarrow> briefing_state \<Rightarrow> (briefing_handler, briefing_state) prog" where
  "classify_entry e st =
     (if accepted_entry e then ret (st\<lparr>bs_inbox_accepted := bs_inbox_accepted st + 1\<rparr>)
      else andthen (modify (\<lambda>h. h\<lparr>bh_stderr := bh_stderr h @ [subject_error e]\<rparr>)) (ret st))"

fun classify_all :: "inbox_entry list \<Rightarrow> briefing_state \<Rightarrow> (briefing_handler, briefing_state) prog" where
  "classify_all [] st = ret st"
| "classify_all (e # es) st = bind (classify_entry e st) (classify_all es)"

definition briefing_milestones :: "briefing_state \<Rightarrow> payload list" where
  "briefing_milestones st =
     [[(''phase'', PStr ''intake''), (''milestone'', PStr ''received''), (''count'', PInt (bs_inbox_received st))],
      [(''phase'', PStr ''intake''), (''milestone'', PStr ''accepted''), (''count'', PInt (bs_inbox_accepted st))],
      [(''phase'', PStr ''plan''), (''milestone'', PStr ''drafted''), (''detail'', PStr ''Briefing drafted'')],
      [(''phase'', PStr ''plan''), (''milestone'', PStr ''review''), (''detail'', PStr ''Review pending'')],
      [(''phase'', PStr ''plan''), (''milestone'', PStr ''ready''), (''detail'', PStr ''Briefing ready'')]]"

definition build_result ::
  "(datetime \<Rightarrow> string) \<Rightarrow> (datetime \<Rightarrow> string) \<Rightarrow> inbox_entry list option \<Rightarrow> int
   \<Rightarrow> (briefing_handler, briefing_result \<times> datetime) prog" where
  "build_result title_of isoformat inbox_entries pending_tasks =
     (let inbox = (case inbox_entries of None \<Rightarrow> [] | Some es \<Rightarrow> es) in
      bind (classify_all inbox \<lparr>bs_inbox_received = int (length inbox), bs_inbox_accepted = 0, bs_pending_tasks = 0,
          bs_artifacts_queued = 0\<rparr>) (\<lambda>st.
      let st = st\<lparr>bs_pending_tasks := pending_tasks, bs_artifacts_queued := 0\<rparr> in
      bind (on_world now_utc) (\<lambda>now.
      bind (gets bh_stderr) (\<lambda>errors.
      ret (\<lparr>br_title = title_of now, br_timestamp = isoformat now, br_state = st, br_milestones = briefing_milestones st,
        br_artifact = [(''briefing_title'', PStr (title_of now)), (''items_received'', PInt (bs_inbox_received st)),
          (''items_accepted'', PInt (bs_inbox_accepted st)), (''pending_tasks'', PInt (bs_pending_tasks st)),
          (''generated_at'', PStr (isoformat now)), (''errors'', PTuple (map PStr errors))]\<rparr>, now)))))"

section \<open>Emitting events\<close>

definition emit_run :: "run_event \<Rightarrow> (briefing_handler, unit) prog" where
  "emit_run e =
     bind (gets bh_has_repo) (\<lambda>repo.
     andthen (if repo then bind (on_world (ev_append e)) (\<lambda>_. ret ()) else ret ())
     (modify (\<lambda>h. h\<lparr>bh_snapshot := map_option (\<lambda>es. es @ [e]) (bh_snapshot h)\<rparr>)))"

definition next_seq :: "string \<Rightarrow> (briefing_handler, int) prog" where
  "next_seq run_id =
     bind (gets bh_has_repo) (\<lambda>repo.
       if repo then bind (on_world (ev_latest_seq run_id)) (\<lambda>n. ret (n + 1)) else ret 1)"

definition briefing_event_id :: "string \<Rightarrow> string \<Rightarrow> string \<Rightarrow> string" where
  "briefing_event_id run_id label u = ''evt-'' @ run_id @ ''-briefing-'' @ label @ ''-'' @ u"

definition emit_milestone :: "string \<Rightarrow> datetime \<Rightarrow> payload \<Rightarrow> (briefing_handler, unit) prog" where
  "emit_milestone run_id timestamp ms = (case (dict_get ms ''phase'', dict_get ms ''milestone'') of
       (PStr phase, PStr milestone) \<Rightarrow>
         if \<not> is_valid_milestone phase milestone then ret ()
         else
           bind (on_world uuid_hex) (\<lambda>u.
           bind (next_seq run_id) (\<lambda>seq.
           bind (lift (make_event (briefing_event_id run_id (phase @ ''-'' @ milestone) u) run_id seq ''run.progress'' ms timestamp
             (caused_by (''briefing.'' @ phase @ ''.'' @ milestone))
             system_actor)) emit_run))
     | _ \<Rightarrow> ret ())"

definition emit_milestones :: "string \<Rightarrow> datetime \<Rightarrow> payload list \<Rightarrow> (briefing_handler, unit) prog" where
  "emit_milestones run_id timestamp mss = andthen (for_each (emit_milestone run_id timestamp) mss) (ret ())"

definition emit_briefing_artifact :: "string \<Rightarrow> string \<Rightarrow> string \<Rightarrow> string \<Rightarrow> (briefing_handler, unit) prog" where
  "emit_briefing_artifact run_id art_ref artifact_kind label =
     bind (on_world uuid_hex) (\<lambda>u.
     bind (next_seq run_id) (\<lambda>seq.
     bind (on_world now_utc) (\<lambda>now.
     bind (lift (make_event (briefing_event_id run_id ''artifact'' u) run_id seq ''run.artifact_created''
         [(''artifact_ref'', PStr art_ref), (''artifact_kind'', PStr artifact_kind), (''label'', PStr label)] now
         (caused_by ''briefing_artifact_created'')
         system_actor)) emit_run)))"

definition emit_events :: "string \<Rightarrow> datetime \<Rightarrow> briefing_result \<Rightarrow> (briefing_handler, unit) prog" where
  "emit_events run_id timestamp result =
     andthen (emit_milestones run_id timestamp (br_milestones result))
       (emit_briefing_artifact run_id (''briefing-'' @ br_timestamp result) ''briefing'' ''briefing'')"

definition briefing_run_async ::
  "(datetime \<Rightarrow> string) \<Rightarrow> (datetime \<Rightarrow> string) \<Rightarrow> inbox_entry list option \<Rightarrow> int \<Rightarrow> string
   \<Rightarrow> (briefing_handler, briefing_result) prog" where
  "briefing_run_async title_of isoformat inbox_entries pending_tasks run_id =
     bind (build_result title_of isoformat inbox_entries pending_tasks) (\<lambda>(result, now).
     bind (gets bh_has_repo) (\<lambda>repo.
     andthen (if repo then emit_events run_id now result else ret ()) (ret result)))"

text \<open>The synchronous entry refuses to write events while an event loop runs, after it built the result.\<close>

definition briefing_run ::
  "bool \<Rightarrow> (datetime \<Rightarrow> string) \<Rightarrow> (datetime \<Rightarrow> string) \<Rightarrow> inbox_entry list option \<Rightarrow> int \<Rightarrow> string
   \<Rightarrow> (briefing_handler, briefing_result) prog" where
  "briefing_run loop_running title_of isoformat inbox_entries pending_tasks run_id =
     bind (build_result title_of isoformat inbox_entries pending_tasks) (\<lambda>(result, now).
     bind (gets bh_has_repo) (\<lambda>repo.
     andthen (if \<not> repo then ret ()
              else if loop_running then raise (RuntimeError ''EABriefingHandler.run() cannot persist events in async runtime; use run_async()'')
              else emit_events run_id now result)
     (ret result)))"

definition validate_briefing_milestones :: "payload list \<Rightarrow> exc + unit" where
  "validate_briefing_milestones mss =
     reach (\<lambda>ms. ensure (dict_get ms ''phase'' \<in> PStr ` set all_phases) (ValueError ''milestone phase not known'')) mss"


section \<open>What a briefing writes\<close>

text \<open>The events a run gets: label of the id, type and payload.\<close>

type_synonym brief_entry = "string \<times> string \<times> payload"

definition brief_events :: "world \<Rightarrow> string \<Rightarrow> brief_entry list \<Rightarrow> run_event list \<Rightarrow> bool" where
  "brief_events w0 run tr es \<longleftrightarrow>
     map (\<lambda>e. (e_run_id e, e_type e, e_payload e)) es = map (\<lambda>(l, t, p). (run, t, p)) tr \<and>
     map e_id es = map (\<lambda>i. briefing_event_id run (fst (tr ! i)) (w_uuid w0 (w_uuids w0 + i))) [0..<length tr] \<and>
     map e_seq es = map (\<lambda>i. int (length (events_of w0 run)) + int i + 1) [0..<length tr]"

lemma brief_events_of:
  assumes "brief_events w0 run tr es"
  shows "filter (\<lambda>e. e_run_id e = run) es = es \<and> length es = length tr"
proof -
  have m: "map (\<lambda>e. (e_run_id e, e_type e, e_payload e)) es = map (\<lambda>(l, t, p). (run, t, p)) tr"
    using assms by (simp add: brief_events_def)
  from arg_cong [where f = "map fst", OF m] have "map e_run_id es = map (\<lambda>_. run) tr"
    by (simp add: comp_def case_prod_unfold)
  then have "set (map e_run_id es) \<subseteq> {run}" by auto
  moreover have "length es = length tr" using arg_cong [where f = length, OF m] by simp
  ultimately show ?thesis by (auto simp: filter_id_conv)
qed

definition briefed :: "briefing_handler \<Rightarrow> string \<Rightarrow> string list \<Rightarrow> brief_entry list \<Rightarrow> briefing_handler \<Rightarrow> bool" where
  "briefed h0 run errors tr h \<longleftrightarrow> (let w0 = bh_world h0; w = bh_world h in
     log_ok (w_events w) \<and> \<not> run_terminal w run \<and> bh_has_repo h \<and> bh_stderr h = errors \<and>
     w_uuid w = w_uuid w0 \<and> w_uuids w = w_uuids w0 + length tr \<and> w_runs w = w_runs w0 \<and>
     (\<exists>es. w_events w = w_events w0 @ es \<and> bh_snapshot h = map_option (\<lambda>xs. xs @ es) (bh_snapshot h0) \<and>
       brief_events w0 run tr es))"

lemma on_world_apply [prog_simps]: "on_world m h = (case m (bh_world h) of (r, w) \<Rightarrow> (r, h\<lparr>bh_world := w\<rparr>))"
  by (simp add: on_world_def)

lemma emit_run_apply:
  "bh_has_repo h \<Longrightarrow> ev_append e (bh_world h) = (Inr e', w) \<Longrightarrow>
     emit_run e h = (Inr (), h\<lparr>bh_world := w, bh_snapshot := map_option (\<lambda>es. es @ [e]) (bh_snapshot h)\<rparr>)"
  by (simp add: emit_run_def prog_simps)

text \<open>One event: the id is new, so the append succeeds under the number that was computed.\<close>

lemma emit_briefed:
  assumes at: "briefed h0 run errors tr h" and p: "validate_payload ty p = Inr ()"
    and tick: "\<And>h. \<exists>ts k. tick h = (Inr ts, h\<lparr>bh_world := (bh_world h)\<lparr>w_ticks := k\<rparr>\<rparr>) \<and> is_aware ts"
    and new: "briefing_event_id run label (w_uuid (bh_world h0) (w_uuids (bh_world h0) + length tr)) \<notin> e_id ` set (w_events (bh_world h0))"
      "\<forall>u v. \<forall>l \<in> set (map fst tr). briefing_event_id run label u \<noteq> briefing_event_id run l v"
  shows "\<exists>h'. bind (on_world uuid_hex) (\<lambda>u. bind (next_seq run) (\<lambda>seq. bind tick (\<lambda>ts.
      bind (lift (make_event (briefing_event_id run label u) run seq ty p ts c a)) emit_run))) h = (Inr (), h') \<and>
    briefed h0 run errors (tr @ [(label, ty, p)]) h'"
proof -
  let ?v = "bh_world h0" and ?w = "bh_world h"
  let ?u = "w_uuid ?v (w_uuids ?v + length tr)"
  let ?i = "briefing_event_id run label ?u"
  let ?y = "?w\<lparr>w_uuids := Suc (w_uuids ?w)\<rparr>"
  obtain ts k where ts: "tick (h\<lparr>bh_world := ?y\<rparr>) = (Inr ts, h\<lparr>bh_world := ?y\<lparr>w_ticks := k\<rparr>\<rparr>)" "is_aware ts"
    using tick [of "h\<lparr>bh_world := ?y\<rparr>"] by auto
  let ?x = "?y\<lparr>w_ticks := k\<rparr>"
  from at have es: "log_ok (w_events ?w)" "\<not> run_terminal ?w run" "bh_has_repo h" "bh_stderr h = errors"
    "w_uuid ?w = w_uuid ?v" "w_uuids ?w = w_uuids ?v + length tr" "w_runs ?w = w_runs ?v"
    unfolding briefed_def Let_def by blast+
  from at obtain es where ev: "w_events ?w = w_events ?v @ es" "bh_snapshot h = map_option (\<lambda>xs. xs @ es) (bh_snapshot h0)"
    "brief_events ?v run tr es" unfolding briefed_def Let_def by blast
  from ev(3) have ids0: "map e_id es = map (\<lambda>i. briefing_event_id run (fst (tr ! i)) (w_uuid ?v (w_uuids ?v + i))) [0..<length tr]"
    by (simp add: brief_events_def)
  have "e_id ` set es = set (map e_id es)" by simp
  also have "\<dots> = (\<lambda>i. briefing_event_id run (fst (tr ! i)) (w_uuid ?v (w_uuids ?v + i))) ` {0..<length tr}"
    unfolding ids0 by simp
  finally have "?i \<notin> e_id ` set es" using new(2) by auto
  then have fresh: "?i \<notin> e_id ` set (w_events ?x)" using new(1) ev(1) by auto
  let ?n = "int (length (events_of ?w run)) + 1"
  let ?e = "\<lparr>e_id = ?i, e_run_id = run, e_seq = ?n, e_type = ty, e_payload = p, e_timestamp = as_utc ts, e_causation = c, e_actor = a\<rparr>"
  let ?h = "h\<lparr>bh_world := ?x\<lparr>w_events := w_events ?w @ [?e]\<rparr>, bh_snapshot := map_option (\<lambda>es. es @ [?e]) (bh_snapshot h)\<rparr>"
  have seq: "next_seq run (h\<lparr>bh_world := ?y\<rparr>) = (Inr ?n, h\<lparr>bh_world := ?y\<rparr>)"
    using es(1,3) by (simp add: next_seq_def prog_simps ev_latest_seq_def max_seq_log_ok events_of_def)
  have mk: "make_event ?i run ?n ty p ts c a = Inr ?e" using p ts(2) by (simp add: make_event_ok)
  have ok: "log_ok (w_events ?x)" "\<not> run_terminal ?x run" using es(1,2) by (simp_all add: run_terminal_def get_run_state_def)
  have ap: "ev_append ?e ?x = (Inr ?e, ?x\<lparr>w_events := w_events ?w @ [?e]\<rparr>)"
    using ev_append_cases [OF ok(1), of ?e] ok(2) fresh by (simp add: Let_def events_of_def)
  have log: "log_ok (w_events ?w @ [?e])"
    using es(1) mk fresh by (intro log_ok_snoc make_event_wf [OF mk]) (simp_all add: seqs_of_def events_of_def)
  have ids: "map (\<lambda>i. briefing_event_id run (fst ((tr @ [(label, ty, p)]) ! i)) (w_uuid ?v (w_uuids ?v + i)))
      [0..<length (tr @ [(label, ty, p)])] = map e_id es @ [?i]"
    unfolding ids0 by (simp add: nth_append)
  have "length (events_of ?w run) = length (events_of ?v run) + length tr"
    using brief_events_of [OF ev(3)] ev(1) by (simp add: events_of_def)
  moreover have "map e_seq es = map (\<lambda>i. int (length (events_of ?v run)) + int i + 1) [0..<length tr]"
    using ev(3) by (simp add: brief_events_def)
  ultimately have "briefed h0 run errors (tr @ [(label, ty, p)]) ?h"
    unfolding briefed_def Let_def
    using es(2-7) log ev ids
    by (intro conjI exI [of _ "es @ [?e]"])
      (simp_all add: run_terminal_def get_run_state_def option.map_comp comp_def brief_events_def)
  moreover have "emit_run ?e (h\<lparr>bh_world := ?x\<rparr>) = (Inr (), ?h)"
    using emit_run_apply [of "h\<lparr>bh_world := ?x\<rparr>" ?e ?e] ap es(3) by simp
  ultimately show ?thesis using seq mk ts(1) es(5,6) by (simp add: prog_simps uuid_hex_def)
qed

lemma emit_milestone_briefed:
  assumes at: "briefed h0 run errors tr h"
    and ms: "dict_get ms ''phase'' = PStr ph" "dict_get ms ''milestone'' = PStr m" "is_valid_milestone ph m"
    and p: "validate_payload ''run.progress'' ms = Inr ()" "is_aware ts"
    and new: "briefing_event_id run (ph @ ''-'' @ m) (w_uuid (bh_world h0) (w_uuids (bh_world h0) + length tr)) \<notin> e_id ` set (w_events (bh_world h0))"
      "\<forall>u v. \<forall>l \<in> set (map fst tr). briefing_event_id run (ph @ ''-'' @ m) u \<noteq> briefing_event_id run l v"
  shows "\<exists>h'. emit_milestone run ts ms h = (Inr (), h') \<and> briefed h0 run errors (tr @ [(ph @ ''-'' @ m, ''run.progress'', ms)]) h'"
proof -
  have "\<exists>us k. ret ts h = (Inr us, h\<lparr>bh_world := (bh_world h)\<lparr>w_ticks := k\<rparr>\<rparr>) \<and> is_aware us" for h :: briefing_handler
    using p(2) by (intro exI [of _ ts] exI [of _ "w_ticks (bh_world h)"]) (simp add: prog_simps)
  moreover have "bind (ret ts) f = f ts" for f :: "datetime \<Rightarrow> (briefing_handler, unit) prog" by (simp add: fun_eq_iff prog_simps)
  ultimately show ?thesis using emit_briefed [OF at p(1) _ new, of "ret ts"] ms by (simp add: emit_milestone_def)
qed

lemma emit_artifact_briefed:
  assumes at: "briefed h0 run errors tr h"
    and new: "briefing_event_id run ''artifact'' (w_uuid (bh_world h0) (w_uuids (bh_world h0) + length tr)) \<notin> e_id ` set (w_events (bh_world h0))"
      "\<forall>u v. \<forall>l \<in> set (map fst tr). briefing_event_id run ''artifact'' u \<noteq> briefing_event_id run l v"
  shows "\<exists>h'. emit_briefing_artifact run ref kind label h = (Inr (), h') \<and> briefed h0 run errors
    (tr @ [(''artifact'', ''run.artifact_created'', [(''artifact_ref'', PStr ref), (''artifact_kind'', PStr kind), (''label'', PStr label)])]) h'"
proof -
  have "\<exists>ts k. on_world now_utc h = (Inr ts, h\<lparr>bh_world := (bh_world h)\<lparr>w_ticks := k\<rparr>\<rparr>) \<and> is_aware ts" for h
    by (rule exI [of _ "Aware (w_clock (bh_world h) (w_ticks (bh_world h))) 0"], rule exI [of _ "Suc (w_ticks (bh_world h))"]) (simp add: prog_simps now_utc_def)
  from emit_briefed [OF at _ this new] show ?thesis by (simp add: emit_briefing_artifact_def)
qed

lemma classify_all_result:
  "classify_all es st h = (Inr (st\<lparr>bs_inbox_accepted := bs_inbox_accepted st + int (length (filter accepted_entry es))\<rparr>),
     h\<lparr>bh_stderr := bh_stderr h @ map subject_error (filter (\<lambda>e. \<not> accepted_entry e) es)\<rparr>)"
  by (induction es arbitrary: st h) (simp_all add: prog_simps classify_entry_def)

definition briefing_labels :: "string list" where
  "briefing_labels = [''intake-received'', ''intake-accepted'', ''plan-drafted'', ''plan-ready'', ''artifact'']"

definition briefing_script :: "int \<Rightarrow> int \<Rightarrow> string \<Rightarrow> brief_entry list" where
  "briefing_script received accepted time =
     [(''intake-received'', ''run.progress'',
        [(''phase'', PStr ''intake''), (''milestone'', PStr ''received''), (''count'', PInt received)]),
      (''intake-accepted'', ''run.progress'',
        [(''phase'', PStr ''intake''), (''milestone'', PStr ''accepted''), (''count'', PInt accepted)]),
      (''plan-drafted'', ''run.progress'',
        [(''phase'', PStr ''plan''), (''milestone'', PStr ''drafted''), (''detail'', PStr ''Briefing drafted'')]),
      (''plan-ready'', ''run.progress'',
        [(''phase'', PStr ''plan''), (''milestone'', PStr ''ready''), (''detail'', PStr ''Briefing ready'')]),
      (''artifact'', ''run.artifact_created'',
        [(''artifact_ref'', PStr (''briefing-'' @ time)), (''artifact_kind'', PStr ''briefing''), (''label'', PStr ''briefing'')])]"

lemma script_labels: "map fst (briefing_script n m time) = briefing_labels"
  by (simp add: briefing_script_def briefing_labels_def)

lemma briefing_ids_apart:
  "briefing_event_id run ''intake-accepted'' u \<noteq> briefing_event_id run ''intake-received'' v"
  "briefing_event_id run ''plan-drafted'' u \<noteq> briefing_event_id run ''intake-received'' v"
  "briefing_event_id run ''plan-drafted'' u \<noteq> briefing_event_id run ''intake-accepted'' v"
  "briefing_event_id run ''plan-ready'' u \<noteq> briefing_event_id run ''intake-received'' v"
  "briefing_event_id run ''plan-ready'' u \<noteq> briefing_event_id run ''intake-accepted'' v"
  "briefing_event_id run ''plan-ready'' u \<noteq> briefing_event_id run ''plan-drafted'' v"
  "briefing_event_id run ''artifact'' u \<noteq> briefing_event_id run ''intake-received'' v"
  "briefing_event_id run ''artifact'' u \<noteq> briefing_event_id run ''intake-accepted'' v"
  "briefing_event_id run ''artifact'' u \<noteq> briefing_event_id run ''plan-drafted'' v"
  "briefing_event_id run ''artifact'' u \<noteq> briefing_event_id run ''plan-ready'' v"
  by (simp_all add: briefing_event_id_def)

lemma review_not_cataloged: "\<not> is_valid_milestone ''plan'' ''review''"
  by (simp add: is_valid_milestone_def milestone_set_def milestone_catalog_def)

definition fresh_for_briefing :: "world \<Rightarrow> string \<Rightarrow> bool" where
  "fresh_for_briefing w run \<longleftrightarrow> log_ok (w_events w) \<and> \<not> run_terminal w run \<and>
     (\<forall>i < 5. briefing_event_id run (briefing_labels ! i) (w_uuid w (w_uuids w + i)) \<notin> e_id ` set (w_events w))"

lemma emit_events_briefed:
  assumes at: "briefed h0 run errors [] h0" and fresh: "fresh_for_briefing (bh_world h0) run" and ts: "is_aware ts"
    and res: "br_milestones res = briefing_milestones st"
  shows "\<exists>h'. emit_events run ts res h0 = (Inr (), h') \<and>
    briefed h0 run errors (briefing_script (bs_inbox_received st) (bs_inbox_accepted st) (br_timestamp res)) h'"
proof -
  let ?s = "briefing_script (bs_inbox_received st) (bs_inbox_accepted st) (br_timestamp res)"
  have new: "briefing_event_id run (briefing_labels ! i) (w_uuid (bh_world h0) (w_uuids (bh_world h0) + i)) \<notin> e_id ` set (w_events (bh_world h0))"
    if "i < 5" for i using fresh that by (simp add: fresh_for_briefing_def)
  note news = new [of 0] new [of 1] new [of 2] new [of 3] new [of 4]
  obtain h1 where h1: "emit_milestone run ts (briefing_milestones st ! 0) h0 = (Inr (), h1)" "briefed h0 run errors (take 1 ?s) h1"
    using emit_milestone_briefed [OF at, of "briefing_milestones st ! 0" "''intake''" "''received''" ts] news(1) ts
    by (auto simp: briefing_milestones_def dict_get_def briefing_labels_def briefing_script_def)
  obtain h2 where h2: "emit_milestone run ts (briefing_milestones st ! 1) h1 = (Inr (), h2)" "briefed h0 run errors (take 2 ?s) h2"
    using emit_milestone_briefed [OF h1(2), of "briefing_milestones st ! 1" "''intake''" "''accepted''" ts] news(2) ts briefing_ids_apart
    by (auto simp: briefing_milestones_def dict_get_def briefing_labels_def briefing_script_def)
  obtain h3 where h3: "emit_milestone run ts (briefing_milestones st ! 2) h2 = (Inr (), h3)" "briefed h0 run errors (take 3 ?s) h3"
    using emit_milestone_briefed [OF h2(2), of "briefing_milestones st ! 2" "''plan''" "''drafted''" ts] news(3) ts briefing_ids_apart
    by (auto simp: briefing_milestones_def dict_get_def briefing_labels_def briefing_script_def)
  have skip: "emit_milestone run ts (briefing_milestones st ! 3) h3 = (Inr (), h3)"
    using review_not_cataloged by (simp add: emit_milestone_def briefing_milestones_def dict_get_def prog_simps)
  obtain h4 where h4: "emit_milestone run ts (briefing_milestones st ! 4) h3 = (Inr (), h4)" "briefed h0 run errors (take 4 ?s) h4"
    using emit_milestone_briefed [OF h3(2), of "briefing_milestones st ! 4" "''plan''" "''ready''" ts] news(4) ts briefing_ids_apart
    by (auto simp: briefing_milestones_def dict_get_def briefing_labels_def briefing_script_def numeral_3_eq_3)
  obtain h5 where h5: "emit_briefing_artifact run (''briefing-'' @ br_timestamp res) ''briefing'' ''briefing'' h4 = (Inr (), h5)"
    "briefed h0 run errors ?s h5"
    using emit_artifact_briefed [OF h4(2), where ref = "''briefing-'' @ br_timestamp res" and kind = "''briefing''" and label = "''briefing''"] news(5) briefing_ids_apart
    by (auto simp: briefing_labels_def briefing_script_def eval_nat_numeral)
  have "for_each (emit_milestone run ts) (briefing_milestones st) h0 = (Inr [(), (), (), (), ()], h4)"
  proof -
    obtain m1 m2 m3 m4 m5 where ms: "briefing_milestones st = [m1, m2, m3, m4, m5]" by (simp add: briefing_milestones_def)
    show ?thesis using h1(1) h2(1) h3(1) skip h4(1) unfolding ms by (simp add: prog_simps)
  qed
  then show ?thesis using h5 by (auto simp: emit_events_def emit_milestones_def res prog_simps)
qed

definition built_result :: "(datetime \<Rightarrow> string) \<Rightarrow> (datetime \<Rightarrow> string) \<Rightarrow> inbox_entry list \<Rightarrow> int \<Rightarrow> briefing_handler \<Rightarrow> briefing_result" where
  "built_result title_of isoformat inbox pending h =
     (let now = Aware (w_clock (bh_world h) (w_ticks (bh_world h))) 0; n = int (length inbox);
          m = int (length (filter accepted_entry inbox));
          st = \<lparr>bs_inbox_received = n, bs_inbox_accepted = m, bs_pending_tasks = pending, bs_artifacts_queued = 0\<rparr> in
      \<lparr>br_title = title_of now, br_timestamp = isoformat now, br_state = st, br_milestones = briefing_milestones st,
        br_artifact = [(''briefing_title'', PStr (title_of now)), (''items_received'', PInt n), (''items_accepted'', PInt m),
          (''pending_tasks'', PInt pending), (''generated_at'', PStr (isoformat now)),
          (''errors'', PTuple (map PStr (bh_stderr h @ map subject_error (filter (\<lambda>e. \<not> accepted_entry e) inbox))))]\<rparr>)"

definition after_build :: "inbox_entry list \<Rightarrow> briefing_handler \<Rightarrow> briefing_handler" where
  "after_build inbox h = h\<lparr>bh_stderr := bh_stderr h @ map subject_error (filter (\<lambda>e. \<not> accepted_entry e) inbox),
     bh_world := (bh_world h)\<lparr>w_ticks := Suc (w_ticks (bh_world h))\<rparr>\<rparr>"

lemma build_result_apply:
  "build_result title_of isoformat (Some inbox) pending h =
    (Inr (built_result title_of isoformat inbox pending h, Aware (w_clock (bh_world h) (w_ticks (bh_world h))) 0), after_build inbox h)"
  by (simp add: build_result_def classify_all_result prog_simps now_utc_def built_result_def after_build_def Let_def)


text \<open>
  Without a repository nothing is written, not even to the copy; inside a running event loop the
  synchronous entry raises after it recorded the errors; on a closed run the first milestone is refused.
\<close>

lemma briefing_without_repo:
  assumes "\<not> bh_has_repo h"
  shows "briefing_run_async title_of isoformat (Some inbox) pending run h =
    (Inr (built_result title_of isoformat inbox pending h), after_build inbox h)"
  using assms by (simp add: briefing_run_async_def build_result_apply prog_simps after_build_def)

lemma briefing_in_loop:
  assumes "bh_has_repo h"
  shows "\<exists>m. briefing_run True title_of isoformat (Some inbox) pending run h = (Inl (RuntimeError m), after_build inbox h)"
  using assms by (simp add: briefing_run_def build_result_apply prog_simps after_build_def)

lemma briefing_on_closed_run:
  assumes "log_ok (w_events (bh_world h))" "run_terminal (bh_world h) run" "bh_has_repo h"
  shows "\<exists>h'. briefing_run_async title_of isoformat (Some inbox) pending run h = (Inl (TerminalRunStateError run), h') \<and>
    w_events (bh_world h') = w_events (bh_world h)"
proof -
  let ?h = "after_build inbox h"
  obtain st where ms: "br_milestones (built_result title_of isoformat inbox pending h) = briefing_milestones st"
    by (simp add: built_result_def Let_def)
  have "run_terminal (w\<lparr>w_uuids := k\<rparr>) run = run_terminal w run" "run_terminal (w\<lparr>w_ticks := k\<rparr>) run = run_terminal w run" for w k
    by (simp_all add: run_terminal_def get_run_state_def)
  then have "\<exists>h'. emit_milestone run (Aware n 0) [(''phase'', PStr ''intake''), (''milestone'', PStr ''received''), (''count'', PInt k)] ?h =
      (Inl (TerminalRunStateError run), h') \<and> w_events (bh_world h') = w_events (bh_world h)" for n k
    using assms by (simp add: emit_milestone_def dict_get_def prog_simps uuid_hex_def next_seq_def ev_latest_seq_def max_seq_log_ok
        make_event_ok emit_run_def ev_append_cases after_build_def events_of_def)
  then obtain h' where h': "emit_milestone run (Aware (w_clock (bh_world h) (w_ticks (bh_world h))) 0) [(''phase'', PStr ''intake''),
      (''milestone'', PStr ''received''), (''count'', PInt (bs_inbox_received st))] ?h = (Inl (TerminalRunStateError run), h')"
    "w_events (bh_world h') = w_events (bh_world h)" by blast
  obtain rest where "briefing_milestones st = [(''phase'', PStr ''intake''), (''milestone'', PStr ''received''),
      (''count'', PInt (bs_inbox_received st))] # rest" by (simp add: briefing_milestones_def)
  moreover have "bh_has_repo ?h" using assms(3) by (simp add: after_build_def)
  ultimately show ?thesis using h'
    by (intro exI [of _ h']) (simp add: briefing_run_async_def build_result_apply emit_events_def emit_milestones_def ms prog_simps)
qed


end
