(* ===== verification/Routines.thy ===== *)
theory Routines
  imports Briefing Assets_Schema
begin

text \<open>
  The surface that runs the routines of a hydrated assistant profile
  (services/orchestration/routine.py): it picks the routine assets, infers what kind of artifact each
  produces, and hands a call to the briefing, the scheduler or the triage. A default of the code's
  keyword arguments is a \<open>None\<close> here.
\<close>

section \<open>Routine slices\<close>

record routine_slice =
  rs_asset_id :: string
  rs_milestone_specs :: "payload list"
  rs_emits_events :: "pyval list"
  rs_artifact_kind :: string

definition briefing_artifact_kind :: string where
  "briefing_artifact_kind = ''briefing''"

definition scheduler_emit_events :: "string list" where
  "scheduler_emit_events = [''run.progress'', ''run.approval_waiting'']"

definition triage_emit_events :: "string list" where
  "triage_emit_events = [''run.progress'', ''run.approval_waiting'']"

definition infer_artifact_kind :: "string \<Rightarrow> string" where
  "infer_artifact_kind asset_id =
     (if contains ''briefing'' asset_id then ''briefing''
      else if contains ''scheduler'' asset_id then ''task_schedule''
      else if contains ''triage'' asset_id then ''triage_outcome''
      else ''routine_artifact'')"

text \<open>\<open>getattr\<close> with a default: only the details of a routine have the two attributes.\<close>

definition resolve_routine_slices :: "asset list \<Rightarrow> routine_slice list" where
  "resolve_routine_slices assets =
     map (\<lambda>a. \<lparr>rs_asset_id = as_id a,
        rs_milestone_specs = (case as_details a of RoutineDetails r \<Rightarrow> rt_milestones r | _ \<Rightarrow> []),
        rs_emits_events = (case as_details a of RoutineDetails r \<Rightarrow> (case rt_emits_events r of PTuple vs \<Rightarrow> vs | _ \<Rightarrow> []) | _ \<Rightarrow> []),
        rs_artifact_kind = infer_artifact_kind (as_id a)\<rparr>)
       (filter (\<lambda>a. as_kind a = ''routine'') assets)"

definition require_routine :: "string \<Rightarrow> asset list \<Rightarrow> exc + routine_slice" where
  "require_routine asset_id assets = (case find (\<lambda>s. rs_asset_id s = asset_id) (resolve_routine_slices assets) of
       Some s \<Rightarrow> Inr s | None \<Rightarrow> Inl (ValueError ''routine asset was not resolved by EA profile''))"

section \<open>Running a routine\<close>

record routine_surface =
  sf_events :: "run_event list"
  sf_has_repo :: bool
  sf_has_tasks :: bool
  sf_world :: world

record routine_args =
  ra_inbox_entries :: "inbox_entry list option"
  ra_pending_tasks :: "int option"
  ra_run_id :: "string option"
  ra_tasks :: "scheduled_task list option"
  ra_items :: "inbox_item list option"
  ra_decisions :: "(string \<times> approval_decision) list option"

datatype routine_result = Briefed briefing_result | Scheduled schedule_result | Triaged triage_result

definition with_default :: "'a \<Rightarrow> 'a option \<Rightarrow> 'a" where
  "with_default d v = (case v of None \<Rightarrow> d | Some x \<Rightarrow> x)"

definition on_surface_store :: "(world, 'a) prog \<Rightarrow> (routine_surface, 'a) prog" where
  "on_surface_store m s = (case m (sf_world s) of (r, w) \<Rightarrow> (r, s\<lparr>sf_world := w\<rparr>))"

text \<open>A fresh handler that shares the surface's list of events.\<close>

definition run_briefing ::
  "(datetime \<Rightarrow> string) \<Rightarrow> (datetime \<Rightarrow> string) \<Rightarrow> routine_args \<Rightarrow> (routine_surface, routine_result) prog" where
  "run_briefing title_of isoformat args s =
     (case briefing_run_async title_of isoformat (ra_inbox_entries args) (with_default 0 (ra_pending_tasks args))
         (with_default ''ea-briefing-run'' (ra_run_id args))
         \<lparr>bh_stderr = [], bh_snapshot = Some (sf_events s), bh_has_repo = sf_has_repo s, bh_world = sf_world s\<rparr> of
       (r, h) \<Rightarrow> (map_sum id Briefed r,
         s\<lparr>sf_events := with_default (sf_events s) (bh_snapshot h), sf_world := bh_world h\<rparr>))"

definition run_scheduler :: "routine_args \<Rightarrow> (routine_surface, routine_result) prog" where
  "run_scheduler args =
     bind (gets sf_has_tasks) (\<lambda>has.
     andthen (require has (ValueError ''scheduler routine requires task_service''))
     (bind (on_surface_store (scheduler_run has (with_default [] (ra_tasks args)) (ra_decisions args)
        (with_default ''ea-scheduler-run'' (ra_run_id args)))) (\<lambda>r. ret (Scheduled r))))"

definition run_triage :: "routine_args \<Rightarrow> (routine_surface, routine_result) prog" where
  "run_triage args =
     bind (gets sf_has_tasks) (\<lambda>has.
     andthen (require has (ValueError ''triage routine requires task_service''))
     (bind (on_surface_store (triage_run has (Some (with_default [] (ra_items args))) (ra_decisions args)
        (with_default ''ea-triage-run'' (ra_run_id args)))) (\<lambda>r. ret (Triaged r))))"

definition normalized_id :: "string \<Rightarrow> string" where
  "normalized_id i = map (\<lambda>c. if c = CHR ''_'' then CHR ''-'' else c) i"

definition execute_routine ::
  "(datetime \<Rightarrow> string) \<Rightarrow> (datetime \<Rightarrow> string) \<Rightarrow> string \<Rightarrow> asset list \<Rightarrow> routine_args \<Rightarrow> (routine_surface, routine_result) prog" where
  "execute_routine title_of isoformat asset_id assets args =
     bind (lift (require_routine asset_id assets)) (\<lambda>routine.
     let i = normalized_id (rs_asset_id routine) in
     if contains ''briefing'' i then run_briefing title_of isoformat args
     else if contains ''scheduler'' i then run_scheduler args
     else if contains ''triage'' i then run_triage args
     else raise (ValueError ''no EA routine handler registered for asset''))"

section \<open>Which handler runs\<close>

lemma contains_normalized:
  assumes "CHR ''_'' \<notin> set p" "CHR ''-'' \<notin> set p"
  shows "contains p (normalized_id s) = contains p s"
proof -
  let ?f = "\<lambda>c. if c = CHR ''_'' then CHR ''-'' else c"
  have "starts_with (map ?f s) p = starts_with s p" for s
    using assms by (induction s p rule: starts_with.induct) auto
  note st = this
  have "contains p (map ?f s) = contains p s"
  proof (induction s)
    case (Cons c s)
    then show ?case using st [of "c # s"] by (simp del: starts_with.simps)
  qed simp
  then show ?thesis by (simp add: normalized_id_def)
qed

lemma required_routine:
  shows no_routine: "\<not> (\<exists>a \<in> set assets. as_kind a = ''routine'' \<and> as_id a = i)
      \<Longrightarrow> require_routine i assets = Inl (ValueError ''routine asset was not resolved by EA profile'')"
    and routine_id: "require_routine i assets = Inr s \<Longrightarrow> rs_asset_id s = i"
    and routine_found: "\<exists>a \<in> set assets. as_kind a = ''routine'' \<and> as_id a = i \<Longrightarrow> \<exists>s. require_routine i assets = Inr s"
proof -
  let ?ss = "resolve_routine_slices assets"
  have f: "find (\<lambda>s. rs_asset_id s = i) ?ss = None \<longleftrightarrow> \<not> (\<exists>a \<in> set assets. as_kind a = ''routine'' \<and> as_id a = i)"
    by (auto simp: find_None_iff resolve_routine_slices_def)
  show "require_routine i assets = Inl (ValueError ''routine asset was not resolved by EA profile'')"
    if "\<not> (\<exists>a \<in> set assets. as_kind a = ''routine'' \<and> as_id a = i)"
    unfolding require_routine_def using iffD2 [OF f that] by simp
  show "require_routine i assets = Inr s \<Longrightarrow> rs_asset_id s = i"
    by (auto simp: require_routine_def find_Some_iff split: option.splits)
  show "\<exists>s. require_routine i assets = Inr s" if "\<exists>a \<in> set assets. as_kind a = ''routine'' \<and> as_id a = i"
  proof -
    have "find (\<lambda>s. rs_asset_id s = i) ?ss \<noteq> None" using f that by blast
    then show ?thesis by (auto simp: require_routine_def)
  qed
qed

text \<open>
  C31. Running a routine is refused, and changes nothing, unless the resolved assets hold a routine with
  that id; else the handler that runs is the one of the artifact kind inferred for its slice, and a routine
  of no known kind is refused. Replacing underscores in the id changes nothing.
\<close>

theorem routine_dispatch:
  "execute_routine title_of isoformat asset_id assets args s =
    (if asset_id \<notin> set (map as_id (filter (\<lambda>a. as_kind a = ''routine'') assets))
     then (Inl (ValueError ''routine asset was not resolved by EA profile''), s)
     else if infer_artifact_kind asset_id = ''briefing'' then run_briefing title_of isoformat args s
     else if infer_artifact_kind asset_id = ''task_schedule'' then run_scheduler args s
     else if infer_artifact_kind asset_id = ''triage_outcome'' then run_triage args s
     else (Inl (ValueError ''no EA routine handler registered for asset''), s))"
proof -
  have mem: "asset_id \<in> set (map as_id (filter (\<lambda>a. as_kind a = ''routine'') assets))
      \<longleftrightarrow> (\<exists>a \<in> set assets. as_kind a = ''routine'' \<and> as_id a = asset_id)" by auto
  show ?thesis
  proof (cases "\<exists>a \<in> set assets. as_kind a = ''routine'' \<and> as_id a = asset_id")
    case False
    then show ?thesis unfolding mem by (simp add: execute_routine_def prog_simps no_routine [OF False] del: bex_simps)
  next
    case True
    then obtain r where r: "require_routine asset_id assets = Inr r" "rs_asset_id r = asset_id"
      using routine_found routine_id by blast
    have n: "contains ''briefing'' (normalized_id asset_id) = contains ''briefing'' asset_id"
      "contains ''scheduler'' (normalized_id asset_id) = contains ''scheduler'' asset_id"
      "contains ''triage'' (normalized_id asset_id) = contains ''triage'' asset_id" by (simp_all add: contains_normalized)
    show ?thesis using True unfolding mem by (simp add: execute_routine_def prog_simps r n infer_artifact_kind_def Let_def)
  qed
qed

end
