(* ===== verification/Json.thy ===== *)
theory Json
  imports Prelude
begin

text \<open>
  The part of Python's \<open>json\<close> module that the code uses: \<open>json.dumps\<close> with its default and with the
  compact separators, with sorted keys, and \<open>json.loads\<close>. Non-ASCII characters are escaped, as by
  default. Numbers with a fraction or an exponent and characters beyond the first 256 code points have
  no value here; reading them is an error.
\<close>

section \<open>Writing\<close>

definition hex_digits :: string where
  "hex_digits = ''0123456789abcdef''"

definition hex_code :: "nat \<Rightarrow> string" where
  "hex_code n = ''00'' @ [hex_digits ! (n div 16), hex_digits ! (n mod 16)]"

definition short_escapes :: "(char \<times> char) list" where
  "short_escapes = [(CHR 0x22, CHR 0x22), (CHR 0x5C, CHR 0x5C), (CHR 0x08, CHR ''b''), (CHR 0x0C, CHR ''f''),
     (CHR 0x0A, CHR ''n''), (CHR 0x0D, CHR ''r''), (CHR 0x09, CHR ''t'')]"

definition json_char :: "char \<Rightarrow> string" where
  "json_char c = (case map_of short_escapes c of
       Some e \<Rightarrow> [CHR 0x5C, e]
     | None \<Rightarrow> let n = of_char c in if 32 \<le> n \<and> n \<le> (126 :: nat) then [c] else CHR 0x5C # CHR ''u'' # hex_code n)"

definition json_string :: "string \<Rightarrow> string" where
  "json_string s = CHR 0x22 # concat (map json_char s) @ [CHR 0x22]"

text \<open>The text of a value, for the separators of items and of keys.\<close>

fun json_text :: "string \<Rightarrow> string \<Rightarrow> pyval \<Rightarrow> string" where
  "json_text isep ksep PNone = ''null''"
| "json_text isep ksep (PBool b) = (if b then ''true'' else ''false'')"
| "json_text isep ksep (PInt i) = show_int i"
| "json_text isep ksep (PStr s) = json_string s"
| "json_text isep ksep (PTuple vs) = ''['' @ join isep (map (json_text isep ksep) vs) @ '']''"
| "json_text isep ksep (PDict kvs) =
     ''{'' @ join isep (map (\<lambda>(k, v). json_string k @ ksep @ json_text isep ksep v) kvs) @ ''}''"

definition json_dumps :: "pyval \<Rightarrow> string" where
  "json_dumps v = json_text '', '' '': '' v"

text \<open>\<open>sort_keys=True\<close> sorts the items of every mapping by their keys.\<close>

fun with_sorted_keys :: "pyval \<Rightarrow> pyval" where
  "with_sorted_keys (PTuple vs) = PTuple (map with_sorted_keys vs)"
| "with_sorted_keys (PDict kvs) = PDict (sort_key fst (map (\<lambda>(k, v). (k, with_sorted_keys v)) kvs))"
| "with_sorted_keys v = v"

definition json_canonical :: "pyval \<Rightarrow> string" where
  "json_canonical v = json_text '','' '':'' (with_sorted_keys v)"

section \<open>Reading\<close>

definition json_space :: "char \<Rightarrow> bool" where
  "json_space c \<longleftrightarrow> (of_char c :: nat) \<in> {32, 9, 10, 13}"

definition skip_ws :: "string \<Rightarrow> string" where
  "skip_ws s = dropWhile json_space s"

fun hex_value :: "string \<Rightarrow> nat \<Rightarrow> nat option" where
  "hex_value [] n = Some n"
| "hex_value (c # cs) n = (case find (\<lambda>i. hex_digits ! i = lower_char c) [0..<16] of
       None \<Rightarrow> None | Some i \<Rightarrow> hex_value cs (16 * n + i))"

definition unescaped :: "char \<Rightarrow> char option" where
  "unescaped e = (if e = CHR ''/'' then Some e else map_of (map (\<lambda>(c, x). (x, c)) short_escapes) e)"

text \<open>The characters of a string after its opening quote, and what follows the closing one.\<close>

fun scan_string :: "string \<Rightarrow> string \<Rightarrow> (string \<times> string) option" where
  "scan_string acc [] = None"
| "scan_string acc (c # s) =
     (if c = CHR 0x22 then Some (rev acc, s)
      else if c = CHR 0x5C then
        (case s of
           [] \<Rightarrow> None
         | e # t \<Rightarrow>
             if e = CHR ''u'' then
               (if length t < 4 then None
                else case hex_value (take 4 t) 0 of
                    None \<Rightarrow> None
                  | Some n \<Rightarrow> if n < 256 then scan_string (char_of n # acc) (drop 4 t) else None)
             else (case unescaped e of None \<Rightarrow> None | Some x \<Rightarrow> scan_string (x # acc) t))
      else if (of_char c :: nat) < 32 then None
      else scan_string (c # acc) s)"

definition is_digit :: "char \<Rightarrow> bool" where
  "is_digit c \<longleftrightarrow> c \<in> set decimal_digits"

text \<open>What would make a number a fraction.\<close>

definition float_follows :: "string \<Rightarrow> bool" where
  "float_follows s = (case s of
       c # d # t \<Rightarrow> (c = CHR ''.'' \<and> is_digit d) \<or>
         (c \<in> {CHR ''e'', CHR ''E''} \<and> (is_digit d \<or> (d \<in> {CHR ''+'', CHR ''-''} \<and> t \<noteq> [] \<and> is_digit (hd t))))
     | _ \<Rightarrow> False)"

definition scan_nat :: "string \<Rightarrow> (nat \<times> string) option" where
  "scan_nat s = (case s of
       [] \<Rightarrow> None
     | c # t \<Rightarrow> if \<not> is_digit c then None
         else let ds = (if c = CHR ''0'' then [c] else c # takeWhile is_digit t);
                  rest = (if c = CHR ''0'' then t else dropWhile is_digit t) in
              if float_follows rest then None
              else map_option (\<lambda>n. (n, rest)) (digit_run False 0 ds))"

definition scan_number :: "string \<Rightarrow> (pyval \<times> string) option" where
  "scan_number s = (if starts_with s ''-'' then map_option (\<lambda>(n, r). (PInt (- int n), r)) (scan_nat (tl s))
     else map_option (\<lambda>(n, r). (PInt (int n), r)) (scan_nat s))"

text \<open>A value that is neither a list nor a mapping.\<close>

definition scan_flat :: "string \<Rightarrow> (pyval \<times> string) option" where
  "scan_flat s =
     (if starts_with s [CHR 0x22] then map_option (\<lambda>(x, r). (PStr x, r)) (scan_string [] (tl s))
      else if starts_with s ''null'' then Some (PNone, drop 4 s)
      else if starts_with s ''true'' then Some (PBool True, drop 4 s)
      else if starts_with s ''false'' then Some (PBool False, drop 5 s)
      else scan_number s)"

text \<open>A later item of the same key replaces the earlier one: the object is a dictionary.\<close>

fun parse_value :: "nat \<Rightarrow> string \<Rightarrow> (pyval \<times> string) option"
and parse_items :: "nat \<Rightarrow> string \<Rightarrow> (pyval list \<times> string) option"
and parse_members :: "nat \<Rightarrow> string \<Rightarrow> ((string \<times> pyval) list \<times> string) option" where
  "parse_value 0 s = None"
| "parse_value (Suc n) s = (case s of
       [] \<Rightarrow> None
     | c # t \<Rightarrow>
         if c = CHR ''['' then
           (if starts_with (skip_ws t) '']'' then Some (PTuple [], tl (skip_ws t))
            else map_option (\<lambda>(vs, r). (PTuple vs, r)) (parse_items n (skip_ws t)))
         else if c = CHR ''{'' then
           (if starts_with (skip_ws t) ''}'' then Some (PDict [], tl (skip_ws t))
            else map_option (\<lambda>(kvs, r). (PDict (dict_update [] kvs), r)) (parse_members n (skip_ws t)))
         else scan_flat s)"
| "parse_items 0 s = None"
| "parse_items (Suc n) s = (case parse_value n s of
       None \<Rightarrow> None
     | Some (v, r) \<Rightarrow> (case skip_ws r of
           [] \<Rightarrow> None
         | c # t \<Rightarrow>
             if c = CHR '']'' then Some ([v], t)
             else if c = CHR '','' then map_option (\<lambda>(vs, r'). (v # vs, r')) (parse_items n (skip_ws t))
             else None))"
| "parse_members 0 s = None"
| "parse_members (Suc n) s = (case s of
       [] \<Rightarrow> None
     | q # t \<Rightarrow>
         if q \<noteq> CHR 0x22 then None
         else (case scan_string [] t of
             None \<Rightarrow> None
           | Some (k, r) \<Rightarrow>
               if \<not> starts_with (skip_ws r) '':'' then None
               else (case parse_value n (skip_ws (tl (skip_ws r))) of
                   None \<Rightarrow> None
                 | Some (v, r') \<Rightarrow> (case skip_ws r' of
                       [] \<Rightarrow> None
                     | c # t' \<Rightarrow>
                         if c = CHR ''}'' then Some ([(k, v)], t')
                         else if c = CHR '','' then map_option (\<lambda>(kvs, r''). ((k, v) # kvs, r'')) (parse_members n (skip_ws t'))
                         else None))))"

definition json_loads :: "string \<Rightarrow> exc + pyval" where
  "json_loads s = (let u = skip_ws s in
     case parse_value (2 * length u + 1) u of
       Some (v, r) \<Rightarrow> if skip_ws r = [] then Inr v else Inl (ValueError ''Extra data'')
     | None \<Rightarrow> Inl (ValueError ''Expecting value''))"

section \<open>Fuel\<close>

lemma length_skip_ws: "length (skip_ws s) \<le> length s"
  by (simp add: skip_ws_def length_dropWhile_le)

lemma scan_string_step:
  assumes "scan_string acc (c # s) = Some (x, r)"
  shows "r = s \<or> (\<exists>acc' s'. scan_string acc' s' = Some (x, r) \<and> length s' \<le> length s)"
  using assms by (subst (asm) scan_string.simps(2)) (force simp del: scan_string.simps split: if_splits list.splits option.splits)

lemma scan_string_shorter: "scan_string acc s = Some (x, r) \<Longrightarrow> length r < length s"
proof (induction s arbitrary: acc rule: length_induct)
  case (1 s)
  then obtain c t where s: "s = c # t" by (cases s) auto
  with "1.prems" scan_string_step [of acc c t x r]
  have "r = t \<or> (\<exists>acc' s'. scan_string acc' s' = Some (x, r) \<and> length s' \<le> length t)" by blast
  then show ?case
  proof
    assume "\<exists>acc' s'. scan_string acc' s' = Some (x, r) \<and> length s' \<le> length t"
    then obtain acc' s' where *: "scan_string acc' s' = Some (x, r)" "length s' \<le> length t" by blast
    then have "length r < length s'" using "1.IH" [rule_format, of s' acc'] s by simp
    with * s show ?thesis by simp
  qed (simp add: s)
qed

lemma scan_nat_shorter: "scan_nat s = Some (m, r) \<Longrightarrow> length r < length s"
  by (cases s) (auto simp: scan_nat_def Let_def less_Suc_eq_le length_dropWhile_le split: if_splits)

lemma scan_number_shorter: "scan_number s = Some (v, r) \<Longrightarrow> length r < length s"
  by (cases s) (auto simp: scan_number_def dest!: scan_nat_shorter split: if_splits)

lemma scan_flat_shorter: "scan_flat s = Some (v, r) \<Longrightarrow> length r < length s"
  by (cases s) (auto simp: scan_flat_def dest!: scan_string_shorter scan_number_shorter split: if_splits)

lemma parse_value_Some:
  "parse_value (Suc n) s = Some (v, r) \<longleftrightarrow> (\<exists>c t. s = c # t \<and>
     (if c = CHR ''['' then
        if starts_with (skip_ws t) '']'' then v = PTuple [] \<and> r = tl (skip_ws t)
        else \<exists>vs. parse_items n (skip_ws t) = Some (vs, r) \<and> v = PTuple vs
      else if c = CHR ''{'' then
        if starts_with (skip_ws t) ''}'' then v = PDict [] \<and> r = tl (skip_ws t)
        else \<exists>kvs. parse_members n (skip_ws t) = Some (kvs, r) \<and> v = PDict (dict_update [] kvs)
      else scan_flat s = Some (v, r)))"
  by (cases s) auto

lemma parse_items_Some:
  "parse_items (Suc n) s = Some (vs, r) \<longleftrightarrow> (\<exists>v r1 c t. parse_value n s = Some (v, r1) \<and> skip_ws r1 = c # t \<and>
     (if c = CHR '']'' then vs = [v] \<and> r = t
      else c = CHR '','' \<and> (\<exists>ws. parse_items n (skip_ws t) = Some (ws, r) \<and> vs = v # ws)))"
  by (auto split: option.splits list.splits)

lemma parse_members_Some:
  "parse_members (Suc n) s = Some (kvs, r) \<longleftrightarrow> (\<exists>t k r1 u v r2 c t'. s = CHR 0x22 # t \<and> scan_string [] t = Some (k, r1) \<and>
     skip_ws r1 = CHR '':'' # u \<and> parse_value n (skip_ws u) = Some (v, r2) \<and> skip_ws r2 = c # t' \<and>
     (if c = CHR ''}'' then kvs = [(k, v)] \<and> r = t'
      else c = CHR '','' \<and> (\<exists>ws. parse_members n (skip_ws t') = Some (ws, r) \<and> kvs = (k, v) # ws)))"
proof (cases "\<exists>t k r1 u. s = CHR 0x22 # t \<and> scan_string [] t = Some (k, r1) \<and> skip_ws r1 = CHR '':'' # u")
  case True
  then obtain t k r1 u where *: "s = CHR 0x22 # t" "scan_string [] t = Some (k, r1)" "skip_ws r1 = CHR '':'' # u" by blast
  then have "parse_members (Suc n) s = (case parse_value n (skip_ws u) of
       None \<Rightarrow> None
     | Some (v, r') \<Rightarrow> (case skip_ws r' of
           [] \<Rightarrow> None
         | c # t' \<Rightarrow>
             if c = CHR ''}'' then Some ([(k, v)], t')
             else if c = CHR '','' then map_option (\<lambda>(kvs, r''). ((k, v) # kvs, r'')) (parse_members n (skip_ws t'))
             else None))" by simp
  then show ?thesis using * by (auto split: option.splits list.splits)
next
  case False
  have colon: "starts_with x '':'' \<longleftrightarrow> (\<exists>u. x = CHR '':'' # u)" for x by (cases x) auto
  from False have "parse_members (Suc n) s = None" by (auto simp: colon split: option.splits list.splits)
  with False show ?thesis by auto
qed

text \<open>
  More fuel than twice the length of the text changes nothing: every value takes a character, and
  a list or a mapping another step for every item.
\<close>

lemma ws_shorter: "skip_ws r = c # t \<Longrightarrow> length t < length r"
  using length_skip_ws [of r] by simp

lemma parse_fuel:
  "(\<forall>s v r. parse_value n s = Some (v, r) \<longrightarrow>
      length r < length s \<and> (\<forall>k \<ge> 2 * length s. parse_value k s = Some (v, r))) \<and>
   (\<forall>s vs r. parse_items n s = Some (vs, r) \<longrightarrow>
      length r < length s \<and> (\<forall>k > 2 * length s. parse_items k s = Some (vs, r))) \<and>
   (\<forall>s kvs r. parse_members n s = Some (kvs, r) \<longrightarrow>
      length r < length s \<and> (\<forall>k > 2 * length s. parse_members k s = Some (kvs, r)))"
    (is "?V n \<and> ?I n \<and> ?M n")
proof (induction n)
  case (Suc n)
  then have V: "?V n" and I: "?I n" and M: "?M n" by blast+
  have "?V (Suc n)"
  proof (intro allI impI)
    fix s v r
    assume p: "parse_value (Suc n) s = Some (v, r)"
    then obtain c t where s: "s = c # t" by (cases s) auto
    have ws: "length (skip_ws t) \<le> length t" by (rule length_skip_ws)
    have tl: "length (tl (skip_ws t)) < length s" using ws s by auto
    have fl: "length r < length s" if "scan_flat s = Some (v, r)" using scan_flat_shorter [OF that] .
    consider (items) vs where "c = CHR ''[''" "\<not> starts_with (skip_ws t) '']''" "parse_items n (skip_ws t) = Some (vs, r)"
        "v = PTuple vs"
      | (members) kvs where "c = CHR ''{''" "\<not> starts_with (skip_ws t) ''}''" "parse_members n (skip_ws t) = Some (kvs, r)"
        "v = PDict (dict_update [] kvs)"
      | (flat) "\<forall>m. parse_value (Suc m) s = Some (v, r)" "length r < length s"
    proof (cases "c = CHR ''['' \<and> \<not> starts_with (skip_ws t) '']'' \<or> c = CHR ''{'' \<and> \<not> starts_with (skip_ws t) ''}''")
      case True
      then show thesis using p items members unfolding s by auto
    next
      case False
      have "\<forall>m. parse_value (Suc m) s = parse_value (Suc n) s" using False unfolding s by auto
      moreover have "length r < length s" using p tl fl False unfolding s by (auto split: if_splits)
      ultimately show thesis using p flat by simp
    qed
    then show "length r < length s \<and> (\<forall>k \<ge> 2 * length s. parse_value k s = Some (v, r))"
    proof cases
      case items
      have "parse_value k s = Some (v, r)" if "2 * length s \<le> k" for k
      proof -
        obtain j where j: "k = Suc j" using \<open>2 * length s \<le> k\<close> s by (cases k) auto
        then have "2 * length (skip_ws t) < j" using \<open>2 * length s \<le> k\<close> ws s by auto
        with I items(3) have "parse_items j (skip_ws t) = Some (vs, r)" by blast
        then show ?thesis using items unfolding j s by simp
      qed
      moreover have "length r < length (skip_ws t)" using I items(3) by blast
      then have "length r < length s" using ws s by simp
      ultimately show ?thesis by blast
    next
      case members
      have "parse_value k s = Some (v, r)" if "2 * length s \<le> k" for k
      proof -
        obtain j where j: "k = Suc j" using \<open>2 * length s \<le> k\<close> s by (cases k) auto
        then have "2 * length (skip_ws t) < j" using \<open>2 * length s \<le> k\<close> ws s by auto
        with M members(3) have "parse_members j (skip_ws t) = Some (kvs, r)" by blast
        then show ?thesis using members unfolding j s by simp
      qed
      moreover have "length r < length (skip_ws t)" using M members(3) by blast
      then have "length r < length s" using ws s by simp
      ultimately show ?thesis by blast
    next
      case flat
      have "parse_value k s = Some (v, r)" if "2 * length s \<le> k" for k
        using flat \<open>2 * length s \<le> k\<close> s by (cases k) auto
      with flat show ?thesis by blast
    qed
  qed
  moreover have "?I (Suc n)"
  proof (intro allI impI)
    fix s vs r
    assume "parse_items (Suc n) s = Some (vs, r)"
    then obtain v r1 c t where *: "parse_value n s = Some (v, r1)" "skip_ws r1 = c # t"
      "if c = CHR '']'' then vs = [v] \<and> r = t
       else c = CHR '','' \<and> (\<exists>ws. parse_items n (skip_ws t) = Some (ws, r) \<and> vs = v # ws)"
      unfolding parse_items_Some by blast
    have r1: "length r1 < length s" using V *(1) by blast
    have len: "length t < length s" "length (skip_ws t) < length s"
      using r1 ws_shorter [OF *(2)] length_skip_ws [of t] by linarith+
    have "parse_items k s = Some (vs, r)" if "2 * length s < k" for k
    proof -
      obtain j where j: "k = Suc j" "2 * length s \<le> j" using \<open>2 * length s < k\<close> by (cases k) auto
      have "parse_value j s = Some (v, r1)" using V *(1) j by blast
      moreover have "parse_items j (skip_ws t) = Some (ws, r)" if "parse_items n (skip_ws t) = Some (ws, r)" for ws
      proof -
        have "2 * length (skip_ws t) < j" using j len by simp
        then show ?thesis using I that by blast
      qed
      ultimately show ?thesis using *(2,3) unfolding j parse_items_Some by (cases "c = CHR '']''") auto
    qed
    moreover have "length r < length s"
    proof (cases "c = CHR '']''")
      case False
      with *(3) obtain ws where "parse_items n (skip_ws t) = Some (ws, r)" by auto
      then have "length r < length (skip_ws t)" using I by blast
      with len show ?thesis by simp
    qed (use *(3) len in simp)
    ultimately show "length r < length s \<and> (\<forall>k > 2 * length s. parse_items k s = Some (vs, r))" by blast
  qed
  moreover have "?M (Suc n)"
  proof (intro allI impI)
    fix s kvs r
    assume "parse_members (Suc n) s = Some (kvs, r)"
    then obtain t k r1 u v r2 c t' where *: "s = CHR 0x22 # t" "scan_string [] t = Some (k, r1)"
      "skip_ws r1 = CHR '':'' # u" "parse_value n (skip_ws u) = Some (v, r2)" "skip_ws r2 = c # t'"
      "if c = CHR ''}'' then kvs = [(k, v)] \<and> r = t'
       else c = CHR '','' \<and> (\<exists>ws. parse_members n (skip_ws t') = Some (ws, r) \<and> kvs = (k, v) # ws)"
      unfolding parse_members_Some by blast
    have u: "length (skip_ws u) < length s"
      using *(1) scan_string_shorter [OF *(2)] ws_shorter [OF *(3)] length_skip_ws [of u] by simp
    have r2: "length r2 < length (skip_ws u)" using V *(4) by blast
    have len: "length t' < length s" "length (skip_ws t') < length s"
      using r2 u ws_shorter [OF *(5)] length_skip_ws [of t'] by linarith+
    have "parse_members m s = Some (kvs, r)" if "2 * length s < m" for m
    proof -
      obtain j where j: "m = Suc j" "2 * length s \<le> j" using \<open>2 * length s < m\<close> by (cases m) auto
      have "2 * length (skip_ws u) \<le> j" using j u by simp
      then have "parse_value j (skip_ws u) = Some (v, r2)" using V *(4) by blast
      moreover have "parse_members j (skip_ws t') = Some (ws, r)" if "parse_members n (skip_ws t') = Some (ws, r)" for ws
      proof -
        have "2 * length (skip_ws t') < j" using j len by simp
        then show ?thesis using M that by blast
      qed
      ultimately show ?thesis using *(1,2,3,5,6) unfolding j parse_members_Some by (cases "c = CHR ''}''") auto
    qed
    moreover have "length r < length s"
    proof (cases "c = CHR ''}''")
      case False
      with *(6) obtain ws where "parse_members n (skip_ws t') = Some (ws, r)" by auto
      then have "length r < length (skip_ws t')" using M by blast
      with len show ?thesis by simp
    qed (use *(6) len in simp)
    ultimately show "length r < length s \<and> (\<forall>k > 2 * length s. parse_members k s = Some (kvs, r))" by blast
  qed
  ultimately show ?case by blast
qed simp

section \<open>Reading inverts writing\<close>

text \<open>The keys of every mapping are distinct, as in a dictionary.\<close>

fun wf_json :: "pyval \<Rightarrow> bool" where
  "wf_json (PTuple vs) = list_all wf_json vs"
| "wf_json (PDict kvs) = (distinct (map fst kvs) \<and> list_all (\<lambda>(k, v). wf_json v) kvs)"
| "wf_json v = True"

definition separators :: "string \<Rightarrow> string \<Rightarrow> bool" where
  "separators isep ksep \<longleftrightarrow> (\<exists>i k. isep = CHR '','' # i \<and> ksep = CHR '':'' # k \<and>
     list_all json_space i \<and> list_all json_space k)"

text \<open>What may follow the text of a value.\<close>

definition stops :: "string \<Rightarrow> bool" where
  "stops r \<longleftrightarrow> r = [] \<or> hd r \<in> {CHR '','', CHR '']'', CHR ''}''}"

lemma skip_spaces: "list_all json_space i \<Longrightarrow> skip_ws (i @ s) = skip_ws s"
  by (induction i) (simp_all add: skip_ws_def)

lemma skip_ws_stop: "s \<noteq> [] \<Longrightarrow> \<not> json_space (hd s) \<Longrightarrow> skip_ws s = s"
  by (cases s) (simp_all add: skip_ws_def)

lemma find_hex: "i < 16 \<Longrightarrow> find (\<lambda>j. hex_digits ! j = lower_char (hex_digits ! i)) [0..<16] = Some i"
proof -
  have "\<forall>i \<in> set [0..<16]. find (\<lambda>j. hex_digits ! j = lower_char (hex_digits ! i)) [0..<16] = Some i" by code_simp
  then show "i < 16 \<Longrightarrow> find (\<lambda>j. hex_digits ! j = lower_char (hex_digits ! i)) [0..<16] = Some i" by simp
qed

lemma hex_code_value: "n < 256 \<Longrightarrow> hex_value (hex_code n) 0 = Some n"
proof -
  assume n: "n < 256"
  have h: "hex_code n = map ((!) hex_digits) [0, 0, n div 16, n mod 16]" by (simp add: hex_code_def hex_digits_def)
  have "hex_value (map ((!) hex_digits) is) m = Some (foldl (\<lambda>a i. 16 * a + i) m is)" if "list_all (\<lambda>i. i < 16) is" for "is" m
    using that by (induction "is" arbitrary: m) (simp_all add: find_hex del: upt_Suc)
  from this [of "[0, 0, n div 16, n mod 16]" 0] n show ?thesis unfolding h by (simp add: less_mult_imp_div_less)
qed

lemma scan_json_char: "scan_string acc (json_char c @ u) = scan_string (c # acc) u"
proof (cases "map_of short_escapes c")
  case (Some e)
  then have "(c, e) \<in> set short_escapes" by (rule map_of_SomeD)
  then show ?thesis by (auto simp: json_char_def short_escapes_def unescaped_def)
next
  case None
  then have c: "c \<noteq> CHR 0x22" "c \<noteq> CHR 0x5C" by (auto simp: short_escapes_def)
  show ?thesis
  proof (cases "32 \<le> (of_char c :: nat) \<and> (of_char c :: nat) \<le> 126")
    case True
    with None c show ?thesis by (simp add: json_char_def)
  next
    case False
    let ?n = "of_char c :: nat"
    have n: "?n < 256" by simp
    have t: "take 4 (hex_code ?n @ u) = hex_code ?n" "drop 4 (hex_code ?n @ u) = u" "length (hex_code ?n) = 4"
      by (simp_all add: hex_code_def)
    from None False have "json_char c = CHR 0x5C # CHR ''u'' # hex_code ?n" by (simp add: json_char_def Let_def)
    then show ?thesis using n t hex_code_value [OF n] by simp
  qed
qed

lemma scan_json_string: "scan_string acc (concat (map json_char s) @ CHR 0x22 # r) = Some (rev acc @ s, r)"
  by (induction s arbitrary: acc) (simp_all add: scan_json_char)

lemma leading_zero: "hd (show_nat n) = CHR ''0'' \<Longrightarrow> n = 0"
proof (induction n rule: less_induct)
  case (less n)
  show ?case
  proof (cases "n < 10")
    case True
    then show ?thesis using less.prems digit_inj [of n 0] by (simp add: show_nat_small digit_def)
  next
    case False
    then have "hd (show_nat (n div 10)) = CHR ''0''" using less.prems by (simp add: show_nat_big)
    with less.IH [of "n div 10"] False show ?thesis by simp
  qed
qed

lemma stops_number: "stops r \<Longrightarrow> \<not> float_follows r \<and> takeWhile is_digit r = [] \<and> dropWhile is_digit r = r"
  by (cases r) (auto simp: stops_def float_follows_def is_digit_def decimal_digits_def split: list.splits)

lemma scan_nat_show: "stops r \<Longrightarrow> scan_nat (show_nat n @ r) = Some (n, r)"
proof -
  assume "stops r"
  note r = stops_number [OF this]
  have ds: "list_all is_digit (show_nat n)" using set_show_nat [of n] by (auto simp: list_all_iff is_digit_def)
  then obtain c t where n: "show_nat n = c # t" "is_digit c" "list_all is_digit t" by (cases "show_nat n") auto
  have run: "takeWhile is_digit (t @ r) = t" "dropWhile is_digit (t @ r) = r"
    using n(3) r by (simp_all add: list_all_iff)
  show ?thesis
  proof (cases "c = CHR ''0''")
    case True
    with leading_zero [of n] n have "n = 0" by simp
    then have "t = []" using n by (simp add: show_nat_small)
    with True n r digit_run_show_nat [of n] show ?thesis by (simp add: scan_nat_def)
  next
    case False
    with n r run digit_run_show_nat [of n] show ?thesis by (simp add: scan_nat_def)
  qed
qed

lemma scan_number_show: "stops r \<Longrightarrow> scan_number (show_int i @ r) = Some (PInt i, r)"
proof -
  assume r: "stops r"
  have "\<not> starts_with (show_nat n @ r) ''-''" for n
    using set_show_nat [of n] by (cases "show_nat n") (auto simp: decimal_digits_def)
  with r show ?thesis by (simp add: scan_number_def show_int_def scan_nat_show)
qed

lemma show_int_head: "show_int i \<noteq> []" "hd (show_int i @ r) = CHR ''-'' \<or> is_digit (hd (show_int i @ r))"
proof -
  have "hd (show_nat n) \<in> set (show_nat n)" for n by simp
  then have "is_digit (hd (show_nat n))" for n using set_show_nat [of n] unfolding is_digit_def by blast
  then show "hd (show_int i @ r) = CHR ''-'' \<or> is_digit (hd (show_int i @ r))" by (simp add: show_int_def)
qed (simp add: show_int_def)

lemma json_text_head:
  "\<exists>c t. json_text isep ksep v = c # t \<and> \<not> json_space c \<and> c \<noteq> CHR '']'' \<and> c \<noteq> CHR ''}''"
proof (cases v)
  case (PInt i)
  obtain c t where c: "show_int i = c # t" using show_int_head(1) by (cases "show_int i") auto
  with show_int_head(2) [of i "[]"] have "c = CHR ''-'' \<or> is_digit c" by simp
  then have "\<not> json_space c \<and> c \<noteq> CHR '']'' \<and> c \<noteq> CHR ''}''"
    by (auto simp: json_space_def is_digit_def decimal_digits_def)
  with PInt c show ?thesis by simp
qed (auto simp: json_space_def json_string_def)

lemma skip_json_text: "skip_ws (json_text isep ksep v @ r) = json_text isep ksep v @ r"
  using json_text_head [of isep ksep v] by (auto intro: skip_ws_stop)

lemma scan_flat_text:
  assumes "stops r" "case v of PTuple vs \<Rightarrow> False | PDict kvs \<Rightarrow> False | _ \<Rightarrow> True"
  shows "scan_flat (json_text isep ksep v @ r) = Some (v, r)"
proof (cases v)
  case (PInt i)
  obtain c t where c: "show_int i = c # t" using show_int_head(1) by (cases "show_int i") auto
  with show_int_head(2) [of i "[]"] have "c \<noteq> CHR 0x22" "c \<noteq> CHR ''n''" "c \<noteq> CHR ''t''" "c \<noteq> CHR ''f''"
    by (auto simp: is_digit_def decimal_digits_def)
  with PInt c scan_number_show [OF assms(1), of i] show ?thesis by (simp add: scan_flat_def)
next
  case (PStr x)
  then show ?thesis by (simp add: scan_flat_def json_string_def scan_json_string)
qed (use assms in \<open>auto simp: scan_flat_def\<close>)

lemma flat_head:
  assumes "case v of PTuple vs \<Rightarrow> False | PDict kvs \<Rightarrow> False | _ \<Rightarrow> True"
  shows "hd (json_text isep ksep v @ r) \<noteq> CHR ''['' \<and> hd (json_text isep ksep v @ r) \<noteq> CHR ''{''"
proof (cases v)
  case (PInt i)
  with show_int_head(2) [of i r] show ?thesis by (auto simp: is_digit_def decimal_digits_def)
qed (use assms in \<open>auto simp: json_string_def\<close>)

lemma dict_update_distinct: "distinct (map fst (d @ kvs)) \<Longrightarrow> dict_update d kvs = d @ kvs"
proof (induction kvs arbitrary: d)
  case (Cons x kvs)
  have upd: "AList.update k v d = d @ [(k, v)]" if "k \<notin> fst ` set d" for k and v :: 'b and d :: "('a \<times> 'b) list"
    using that by (induction d) auto
  have "dict_update d (x # kvs) = dict_update (AList.update (fst x) (snd x) d) kvs"
    by (simp add: dict_update_def split_beta)
  also have "AList.update (fst x) (snd x) d = d @ [x]" using Cons.prems by (simp add: upd)
  finally show ?case using Cons.IH [of "d @ [x]"] Cons.prems by simp
qed simp

definition reads :: "string \<Rightarrow> string \<Rightarrow> pyval \<Rightarrow> bool" where
  "reads isep ksep v \<longleftrightarrow> (\<forall>r. stops r \<longrightarrow> (\<exists>n. parse_value n (json_text isep ksep v @ r) = Some (v, r)))"

lemma more_fuel:
  "parse_value n s = Some (v, r) \<Longrightarrow> 2 * length s \<le> k \<Longrightarrow> parse_value k s = Some (v, r)"
  "parse_items n s = Some (vs, r) \<Longrightarrow> 2 * length s < k \<Longrightarrow> parse_items k s = Some (vs, r)"
  "parse_members n s = Some (kvs, r) \<Longrightarrow> 2 * length s < k \<Longrightarrow> parse_members k s = Some (kvs, r)"
  using parse_fuel [of n] by blast+

lemma join_Cons: "xs \<noteq> [] \<Longrightarrow> join sep (x # xs) = x @ sep @ join sep xs"
  by (cases xs) simp_all

lemma reads_items:
  assumes sep: "separators isep ksep" and "vs \<noteq> []" "\<forall>v \<in> set vs. reads isep ksep v"
  shows "\<exists>n. parse_items n (join isep (map (json_text isep ksep) vs) @ CHR '']'' # r) = Some (vs, r)"
  using assms(2,3)
proof (induction vs rule: list_nonempty_induct)
  case (single v)
  have "stops (CHR '']'' # r)" by (simp add: stops_def)
  with single obtain n where "parse_value n (json_text isep ksep v @ CHR '']'' # r) = Some (v, CHR '']'' # r)" by (auto simp: reads_def)
  then have "parse_items (Suc n) (json_text isep ksep v @ CHR '']'' # r) = Some ([v], r)"
    by (simp add: skip_ws_def json_space_def)
  then show ?case unfolding list.map join.simps by blast
next
  case (cons v ws)
  from sep obtain i where i: "isep = CHR '','' # i" "list_all json_space i" by (auto simp: separators_def)
  let ?t = "join isep (map (json_text isep ksep) ws) @ CHR '']'' # r"
  let ?x = "json_text isep ksep v"
  from cons obtain n where n: "parse_items n ?t = Some (ws, r)" by auto
  have "stops (isep @ ?t)" by (simp add: i stops_def)
  with cons.prems obtain m where m: "parse_value m (?x @ isep @ ?t) = Some (v, isep @ ?t)" by (auto simp: reads_def)
  let ?k = "Suc (2 * length (?x @ isep @ ?t))"
  obtain w ws' where w: "ws = w # ws'" using cons.hyps by (cases ws) auto
  have t: "skip_ws (i @ ?t) = ?t"
  proof -
    have "skip_ws ?t = ?t" using w skip_json_text [of isep ksep w] by (cases ws') (auto simp: append_assoc)
    then show ?thesis by (simp add: skip_spaces [OF i(2)])
  qed
  have "parse_value ?k (?x @ isep @ ?t) = Some (v, isep @ ?t)" using m by (rule more_fuel(1)) simp
  moreover have "parse_items ?k ?t = Some (ws, r)" using n by (rule more_fuel(2)) (simp add: i)
  moreover have "skip_ws (isep @ ?t) = CHR '','' # i @ ?t" by (simp add: i skip_ws_def json_space_def)
  ultimately have "parse_items (Suc ?k) (?x @ isep @ ?t) = Some (v # ws, r)"
    unfolding parse_items_Some using t by force
  moreover have "join isep (map (json_text isep ksep) (v # ws)) @ CHR '']'' # r = ?x @ isep @ ?t"
    using cons.hyps by (simp add: join_Cons)
  ultimately show ?case by metis
qed

lemma scan_key: "scan_string [] (concat (map json_char k) @ CHR 0x22 # r) = Some (k, r)"
  using scan_json_string [of "[]" k r] by simp

lemma members_more:
  "scan_string [] t = Some (k, r1) \<Longrightarrow> skip_ws r1 = CHR '':'' # u \<Longrightarrow> parse_value n (skip_ws u) = Some (v, r2) \<Longrightarrow>
   skip_ws r2 = CHR '','' # t' \<Longrightarrow> parse_members n (skip_ws t') = Some (ws, r) \<Longrightarrow>
   parse_members (Suc n) (CHR 0x22 # t) = Some ((k, v) # ws, r)"
  by simp

lemma members_last:
  "scan_string [] t = Some (k, r1) \<Longrightarrow> skip_ws r1 = CHR '':'' # u \<Longrightarrow> parse_value n (skip_ws u) = Some (v, r2) \<Longrightarrow>
   skip_ws r2 = CHR ''}'' # r \<Longrightarrow> parse_members (Suc n) (CHR 0x22 # t) = Some ([(k, v)], r)"
  by simp

lemma reads_members:
  assumes sep: "separators isep ksep" and "kvs \<noteq> []" "\<forall>x \<in> set kvs. reads isep ksep (snd x)"
  defines "mem \<equiv> \<lambda>(k, v). json_string k @ ksep @ json_text isep ksep v"
  shows "\<exists>n. parse_members n (join isep (map mem kvs) @ CHR ''}'' # r) = Some (kvs, r)"
  using assms(2,3)
proof (induction kvs rule: list_nonempty_induct)
  case (single x)
  obtain k v where x: "x = (k, v)" by (cases x)
  have "stops (CHR ''}'' # r)" by (simp add: stops_def)
  with single x obtain n where n: "parse_value n (json_text isep ksep v @ CHR ''}'' # r) = Some (v, CHR ''}'' # r)" by (auto simp: reads_def)
  from sep obtain i where i: "ksep = CHR '':'' # i" "list_all json_space i" by (auto simp: separators_def)
  let ?s = "json_text isep ksep v @ CHR ''}'' # r"
  have s: "skip_ws (i @ ?s) = ?s" by (simp add: skip_spaces [OF i(2)] skip_json_text)
  have e: "mem x @ CHR ''}'' # r = CHR 0x22 # concat (map json_char k) @ CHR 0x22 # CHR '':'' # i @ ?s"
    by (simp add: x mem_def json_string_def i)
  have w: "skip_ws (CHR '':'' # i @ ?s) = CHR '':'' # i @ ?s" "skip_ws (CHR ''}'' # r) = CHR ''}'' # r"
    by (simp_all add: skip_ws_def json_space_def)
  have n': "parse_value n (skip_ws (i @ ?s)) = Some (v, CHR ''}'' # r)" using n by (simp only: s)
  have "parse_members (Suc n) (mem x @ CHR ''}'' # r) = Some ([x], r)"
    unfolding e unfolding x by (rule members_last [OF scan_key w(1) n' w(2)])
  then show ?case unfolding list.map join.simps by blast
next
  case (cons x ws)
  obtain k v where x: "x = (k, v)" by (cases x)
  from sep obtain i c where i: "ksep = CHR '':'' # i" "list_all json_space i" and c: "isep = CHR '','' # c" "list_all json_space c"
    by (auto simp: separators_def)
  let ?t = "join isep (map mem ws) @ CHR ''}'' # r"
  let ?s = "json_text isep ksep v @ isep @ ?t"
  from cons obtain n where n: "parse_members n ?t = Some (ws, r)" by auto
  have "stops (isep @ ?t)" by (simp add: c stops_def)
  with cons.prems x obtain m where m: "parse_value m ?s = Some (v, isep @ ?t)" by (auto simp: reads_def)
  let ?k = "Suc (2 * length ?s)"
  have q: "skip_ws (CHR 0x22 # u) = CHR 0x22 # u" for u by (simp add: skip_ws_def json_space_def)
  obtain w ws' where w: "ws = w # ws'" using cons.hyps by (cases ws) auto
  have t: "skip_ws (c @ ?t) = ?t"
  proof -
    have "\<exists>u. mem w = CHR 0x22 # u" by (cases w) (simp add: mem_def json_string_def)
    then have "\<exists>u. ?t = CHR 0x22 # u" using w by (cases ws') auto
    then show ?thesis using q by (auto simp: skip_spaces [OF c(2)])
  qed
  have pv: "parse_value ?k ?s = Some (v, isep @ ?t)" using m by (rule more_fuel(1)) simp
  have "parse_members ?k ?t = Some (ws, r)" using n by (rule more_fuel(3)) (simp add: c)
  then have pm: "parse_members ?k (skip_ws (c @ ?t)) = Some (ws, r)" by (simp only: t)
  have w: "skip_ws (isep @ ?t) = CHR '','' # c @ ?t" by (simp add: c skip_ws_def json_space_def)
  have s: "skip_ws (i @ ?s) = ?s" by (simp add: skip_spaces [OF i(2)] skip_json_text)
  have e: "mem x @ isep @ ?t = CHR 0x22 # concat (map json_char k) @ CHR 0x22 # CHR '':'' # i @ ?s"
    by (simp add: x mem_def json_string_def i)
  have w': "skip_ws (CHR '':'' # i @ ?s) = CHR '':'' # i @ ?s" by (simp add: skip_ws_def json_space_def)
  have pv': "parse_value ?k (skip_ws (i @ ?s)) = Some (v, isep @ ?t)" using pv by (simp only: s)
  have "parse_members (Suc ?k) (mem x @ isep @ ?t) = Some (x # ws, r)"
    unfolding e unfolding x by (rule members_more [OF scan_key w' pv' w pm])
  moreover have "join isep (map mem (x # ws)) @ CHR ''}'' # r = mem x @ isep @ ?t"
    using cons.hyps by (simp add: join_Cons)
  ultimately show ?case by metis
qed

lemma reads_flat:
  assumes "case v of PTuple vs \<Rightarrow> False | PDict kvs \<Rightarrow> False | _ \<Rightarrow> True"
  shows "reads isep ksep v"
  unfolding reads_def
proof (intro allI impI)
  fix r assume r: "stops r"
  obtain c t where c: "json_text isep ksep v = c # t" using json_text_head [of isep ksep v] by blast
  have "parse_value (Suc 0) (json_text isep ksep v @ r) = Some (v, r)"
    using scan_flat_text [OF r assms, of isep ksep] flat_head [OF assms, of isep ksep r] c
    by (simp del: json_text.simps)
  then show "\<exists>n. parse_value n (json_text isep ksep v @ r) = Some (v, r)" by blast
qed

lemma reads_text: "separators isep ksep \<Longrightarrow> wf_json v \<Longrightarrow> reads isep ksep v"
proof (induction isep ksep v rule: json_text.induct)
  case (5 isep ksep vs)
  show ?case unfolding reads_def
  proof (intro allI impI)
    fix r assume "stops r"
    show "\<exists>n. parse_value n (json_text isep ksep (PTuple vs) @ r) = Some (PTuple vs, r)"
    proof (cases "vs = []")
      case True
      then have "parse_value 1 (json_text isep ksep (PTuple vs) @ r) = Some (PTuple vs, r)"
        by (simp add: skip_ws_def json_space_def)
      then show ?thesis ..
    next
      case False
      then obtain v ws where v: "vs = v # ws" by (cases vs) auto
      let ?u = "join isep (map (json_text isep ksep) vs) @ CHR '']'' # r"
      from 5 False obtain n where n: "parse_items n ?u = Some (vs, r)"
        using reads_items [of isep ksep vs r] by (auto simp: list_all_iff)
      obtain c t where c: "json_text isep ksep v = c # t" "\<not> json_space c" "c \<noteq> CHR '']''"
        using json_text_head [of isep ksep v] by blast
      have "\<exists>u. ?u = c # u" using v c by (cases ws) auto
      then have "skip_ws ?u = ?u" "\<not> starts_with ?u '']''" using c by (auto simp: skip_ws_def)
      with n have "parse_value (Suc n) (json_text isep ksep (PTuple vs) @ r) = Some (PTuple vs, r)" by simp
      then show ?thesis ..
    qed
  qed
next
  case (6 isep ksep kvs)
  let ?mem = "\<lambda>(k, v). json_string k @ ksep @ json_text isep ksep v"
  show ?case unfolding reads_def
  proof (intro allI impI)
    fix r assume "stops r"
    show "\<exists>n. parse_value n (json_text isep ksep (PDict kvs) @ r) = Some (PDict kvs, r)"
    proof (cases "kvs = []")
      case True
      then have "parse_value 1 (json_text isep ksep (PDict kvs) @ r) = Some (PDict kvs, r)"
        by (simp add: skip_ws_def json_space_def)
      then show ?thesis ..
    next
      case False
      then obtain k v ws where v: "kvs = (k, v) # ws" by (cases kvs) auto
      let ?u = "join isep (map ?mem kvs) @ CHR ''}'' # r"
      have "\<forall>x \<in> set kvs. reads isep ksep (snd x)"
      proof
        fix x assume x: "x \<in> set kvs"
        then have "wf_json (snd x)" using 6(3) by (auto simp: list_all_iff)
        then show "reads isep ksep (snd x)" using 6(1) [OF x, of "fst x" "snd x"] 6(2) by simp
      qed
      then obtain n where n: "parse_members n ?u = Some (kvs, r)"
        using reads_members [OF 6(2) False] by blast
      have "\<exists>u. ?u = CHR 0x22 # u" using v by (cases ws) (auto simp: json_string_def)
      then have "skip_ws ?u = ?u" "\<not> starts_with ?u ''}''" by (auto simp: skip_ws_def json_space_def)
      with n dict_update_distinct [of "[]" kvs] 6(3)
      have "parse_value (Suc n) (json_text isep ksep (PDict kvs) @ r) = Some (PDict kvs, r)" by simp
      then show ?thesis ..
    qed
  qed
qed (auto intro: reads_flat)

lemma separators_used: "separators '', '' '': ''" "separators '','' '':''"
  by (simp_all add: separators_def json_space_def)

lemma json_text_read:
  assumes sep: "separators isep ksep" and "wf_json v"
  shows "json_loads (json_text isep ksep v) = Inr v"
proof -
  let ?s = "json_text isep ksep v"
  have ws: "skip_ws ?s = ?s" using skip_json_text [of isep ksep v "[]"] by simp
  have "stops []" by (simp add: stops_def)
  with reads_text [OF assms] obtain n where "parse_value n ?s = Some (v, [])" by (fastforce simp: reads_def)
  then have "parse_value (2 * length ?s + 1) ?s = Some (v, [])" by (rule more_fuel(1)) simp
  then show ?thesis unfolding json_loads_def Let_def ws by (simp add: skip_ws_def del: parse_value.simps)
qed

text \<open>
  Reading a written value gives the value back, for both kinds of separators: no text that the code
  writes is misread, whatever characters the strings in it hold.
\<close>

theorem json_roundtrip:
  assumes "wf_json v"
  shows "json_loads (json_dumps v) = Inr v \<and> json_loads (json_text '','' '':'' v) = Inr v"
  using json_text_read [OF _ assms] separators_used by (simp add: json_dumps_def del: json_text.simps)

definition sample_value :: pyval where
  "sample_value = PDict [(''a'', PTuple [PInt (- 120), PNone, PBool True]), (''b'', PStr [CHR 0x22, CHR 0x5C, CHR 0xE9]), (''c'', PDict [])]"

theorem json_roundtrip_witness: "json_loads (json_dumps sample_value) = Inr sample_value"
  using json_roundtrip [of sample_value] by (simp add: sample_value_def)

lemma wf_sorted: "wf_json v \<Longrightarrow> wf_json (with_sorted_keys v)"
proof (induction v rule: with_sorted_keys.induct)
  case (2 kvs)
  let ?kvs = "map (\<lambda>(k, v). (k, with_sorted_keys v)) kvs"
  have "map fst ?kvs = map fst kvs" by (simp add: split_beta comp_def)
  moreover have "distinct (map fst (sort_key fst xs)) = distinct (map fst xs)" for xs :: "(string \<times> pyval) list"
    by (simp add: distinct_map inj_on_def)
  ultimately have d: "distinct (map fst (sort_key fst ?kvs))" using 2(2) by (metis wf_json.simps(2))
  have "wf_json w" if "(k, w) \<in> set ?kvs" for k w
  proof -
    from that obtain v where v: "(k, v) \<in> set kvs" "w = with_sorted_keys v" by auto
    with 2(2) have "wf_json v" by (auto simp: list_all_iff)
    with 2(1) [OF v(1), of k v] v(2) show ?thesis by simp
  qed
  then have "\<forall>x \<in> set ?kvs. case x of (k, v) \<Rightarrow> wf_json v" by blast
  then have "list_all (\<lambda>(k, v). wf_json v) (sort_key fst ?kvs)" by (simp only: list_all_iff set_sort)
  with d show ?case by simp
qed (auto simp: list_all_iff)

text \<open>Texts with sorted keys agree only when the values do, up to the order of the keys.\<close>

lemma canonical_inj:
  assumes "wf_json v" "wf_json w" "json_canonical v = json_canonical w"
  shows "with_sorted_keys v = with_sorted_keys w"
  using json_text_read [OF separators_used(2) wf_sorted [OF assms(1)]] json_text_read [OF separators_used(2) wf_sorted [OF assms(2)]] assms(3)
  unfolding json_canonical_def by (metis sum.inject(2))

end
