(* ===== verification/Manifest_Store.thy ===== *)
theory Manifest_Store
  imports Json Manifest Lifecycle Documents
begin

text \<open>
  The table of workspace manifests (infra/db/repositories/workspace_manifest_repo.py), how a manifest
  becomes JSON and is read back, and how crash recovery uses the JSON of the stored manifest to notice
  that it changed (services/resume.py, domain/manifest/content_hash.py). SHA-256 is an argument.

  The dataclasses of a manifest check nothing, so a body that was not written by \<open>save\<close> could hold
  values outside their declared types; here reading such a body is a \<open>TypeError\<close>.
\<close>

section \<open>The literals of a manifest\<close>

fun show_input_kind :: "input_kind \<Rightarrow> string" where
  "show_input_kind InFile = ''file''" | "show_input_kind InDirectory = ''directory''"
| "show_input_kind InArtifact = ''artifact''" | "show_input_kind InBundle = ''bundle''"
| "show_input_kind InMemoryExport = ''memory-export''" | "show_input_kind InKnowledgeExport = ''knowledge-export''"

fun show_purpose :: "writable_purpose \<Rightarrow> string" where
  "show_purpose TaskScratch = ''task-scratch''" | "show_purpose DeclaredOutput = ''declared-output''"
| "show_purpose Cache = ''cache''" | "show_purpose CheckoutCopy = ''checkout-copy''"

fun show_retention :: "retention \<Rightarrow> string" where
  "show_retention Ephemeral = ''ephemeral''" | "show_retention RunRetained = ''run-retained''"
| "show_retention ArtifactPromoted = ''artifact-promoted''"

fun show_output_kind :: "output_kind \<Rightarrow> string" where
  "show_output_kind OutFile = ''file''" | "show_output_kind OutDirectory = ''directory''"
| "show_output_kind OutJson = ''json''" | "show_output_kind OutLog = ''log''"
| "show_output_kind OutPatchSet = ''patch-set''" | "show_output_kind OutReport = ''report''"

fun show_network_mode :: "network_mode \<Rightarrow> string" where
  "show_network_mode NetDeny = ''deny''" | "show_network_mode NetAllowlist = ''allowlist''"
| "show_network_mode NetProfileDefault = ''profile-default''"

fun show_scheme :: "network_scheme \<Rightarrow> string" where
  "show_scheme Https = ''https''" | "show_scheme Http = ''http''" | "show_scheme Ssh = ''ssh''" | "show_scheme Tcp = ''tcp''"

fun show_secret_mode :: "secret_mode \<Rightarrow> string" where
  "show_secret_mode SecretNone = ''none''" | "show_secret_mode Brokered = ''brokered''"
| "show_secret_mode EnvMounted = ''env-mounted''"

fun show_redaction :: "redaction_level \<Rightarrow> string" where
  "show_redaction RedactFull = ''full''" | "show_redaction NamesOnly = ''names-only''" | "show_redaction RedactNone = ''none''"

section \<open>A manifest as a dictionary\<close>

definition texts_value :: "string list \<Rightarrow> pyval" where
  "texts_value xs = PTuple (map PStr xs)"

definition input_to_dict :: "input_mount \<Rightarrow> payload" where
  "input_to_dict i = [(''name'', PStr (im_name i)), (''kind'', PStr (show_input_kind (im_kind i))),
     (''source_ref'', PStr (im_source_ref i)), (''target_path'', PStr (im_target_path i)),
     (''read_only'', PBool (im_read_only i)), (''required'', PBool (im_required i)),
     (''description'', pstr_opt (im_description i))]"

definition writable_to_dict :: "writable_path \<Rightarrow> payload" where
  "writable_to_dict p = [(''path'', PStr (wp_path p)), (''purpose'', PStr (show_purpose (wp_purpose p))),
     (''max_size_mb'', pint_opt (wp_max_size_mb p)),
     (''retention'', pstr_opt (map_option show_retention (wp_retention p)))]"

definition output_to_dict :: "output_contract \<Rightarrow> payload" where
  "output_to_dict c = [(''name'', PStr (oc_name c)), (''path'', PStr (oc_path c)),
     (''kind'', PStr (show_output_kind (oc_kind c))), (''required'', PBool (oc_required c)),
     (''promote_to_artifact'', PBool (oc_promote_to_artifact c)), (''description'', pstr_opt (oc_description c))]"

definition network_rule_to_dict :: "network_rule \<Rightarrow> payload" where
  "network_rule_to_dict r = [(''host_pattern'', PStr (nr_host_pattern r)), (''purpose'', PStr (nr_purpose r)),
     (''port'', pint_opt (nr_port r)), (''scheme'', pstr_opt (map_option show_scheme (nr_scheme r)))]"

definition network_to_dict :: "network_policy \<Rightarrow> payload" where
  "network_to_dict n = [(''mode'', PStr (show_network_mode (np_mode n))),
     (''allow'', PTuple (map (PDict \<circ> network_rule_to_dict) (np_allow n))), (''deny'', texts_value (np_deny n))]"

definition tool_rule_to_dict :: "tool_rule \<Rightarrow> payload" where
  "tool_rule_to_dict r = [(''tool'', PStr (tr_tool r)), (''action'', pstr_opt (tr_action r)),
     (''decision'', PStr (show_tool_decision (tr_decision r))), (''reason'', pstr_opt (tr_reason r))]"

definition tool_policy_to_dict :: "tool_policy \<Rightarrow> payload" where
  "tool_policy_to_dict t = [(''preset'', PStr (show_preset (tp_preset t))),
     (''rules'', PTuple (map (PDict \<circ> tool_rule_to_dict) (tp_rules t))),
     (''default_decision'', PStr (show_tool_decision (tp_default_decision t)))]"

definition secret_to_dict :: "secret_scope \<Rightarrow> payload" where
  "secret_to_dict s = [(''mode'', PStr (show_secret_mode (ss_mode s))),
     (''allowed_secret_refs'', texts_value (ss_allowed_secret_refs s)), (''mount_env'', texts_value (ss_mount_env s)),
     (''redaction_level'', PStr (show_redaction (ss_redaction_level s)))]"

definition snapshot_to_dict :: "snapshot_policy \<Rightarrow> payload" where
  "snapshot_to_dict s = [(''on_start'', PBool (sp_on_start s)), (''on_completion'', PBool (sp_on_completion s)),
     (''on_failure'', PBool (sp_on_failure s)), (''before_destructive_actions'', PBool (sp_before_destructive_actions s)),
     (''max_snapshots'', pint_opt (sp_max_snapshots s)), (''include_paths'', texts_value (sp_include_paths s)),
     (''exclude_paths'', texts_value (sp_exclude_paths s))]"

definition manifest_to_dict :: "manifest \<Rightarrow> payload" where
  "manifest_to_dict m = [(''inputs'', PTuple (map (PDict \<circ> input_to_dict) (mf_inputs m))),
     (''writable_paths'', PTuple (map (PDict \<circ> writable_to_dict) (mf_writable_paths m))),
     (''outputs'', PTuple (map (PDict \<circ> output_to_dict) (mf_outputs m))),
     (''network_policy'', PDict (network_to_dict (mf_network_policy m))),
     (''tool_policy'', PDict (tool_policy_to_dict (mf_tool_policy m))),
     (''secret_scope'', PDict (secret_to_dict (mf_secret_scope m))),
     (''snapshot_policy'', PDict (snapshot_to_dict (mf_snapshot_policy m)))]"

text \<open>\<open>dataclasses.asdict\<close>, which also holds the run id.\<close>

definition manifest_asdict :: "manifest \<Rightarrow> payload" where
  "manifest_asdict m = (''run_id'', PStr (mf_run_id m)) # manifest_to_dict m"

section \<open>Reading it back\<close>

text \<open>\<open>d[k]\<close>, and the arguments of \<open>C(**d)\<close>: none beyond the fields, none without a default missing.\<close>

definition item :: "payload \<Rightarrow> string \<Rightarrow> (pyval \<Rightarrow> exc + 'a) \<Rightarrow> exc + 'a" where
  "item d k read = (case map_of d k of None \<Rightarrow> Inl (KeyError k) | Some v \<Rightarrow> read v)"

definition only_keywords :: "string list \<Rightarrow> payload \<Rightarrow> exc + unit" where
  "only_keywords names d = ensure (set (dict_keys d) \<subseteq> set names) (TypeError ''unexpected keyword argument'')"

definition keyword :: "payload \<Rightarrow> string \<Rightarrow> (pyval \<Rightarrow> exc + 'a) \<Rightarrow> exc + 'a" where
  "keyword d k read = (case map_of d k of None \<Rightarrow> Inl (TypeError (''missing argument '' @ k)) | Some v \<Rightarrow> read v)"

fun read_bool :: "pyval \<Rightarrow> exc + bool" where
  "read_bool (PBool b) = Inr b"
| "read_bool _ = Inl (TypeError ''not a truth value'')"

fun read_int_opt :: "pyval \<Rightarrow> exc + int option" where
  "read_int_opt PNone = Inr None"
| "read_int_opt (PInt i) = Inr (Some i)"
| "read_int_opt _ = Inl (TypeError ''not a number or None'')"

fun read_text :: "pyval \<Rightarrow> exc + string" where
  "read_text (PStr s) = Inr s"
| "read_text _ = Inl (TypeError ''not a text'')"

fun read_text_opt :: "pyval \<Rightarrow> exc + string option" where
  "read_text_opt PNone = Inr None"
| "read_text_opt (PStr s) = Inr (Some s)"
| "read_text_opt _ = Inl (TypeError ''not a text or None'')"

definition read_literal :: "('e \<Rightarrow> string) \<Rightarrow> 'e list \<Rightarrow> pyval \<Rightarrow> exc + 'e" where
  "read_literal show_e es v = rbind (read_text v) (\<lambda>s. case parse_literal show_e es s of
       None \<Rightarrow> Inl (TypeError ''not one of the literals'') | Some e \<Rightarrow> Inr e)"

definition read_literal_opt :: "('e \<Rightarrow> string) \<Rightarrow> 'e list \<Rightarrow> pyval \<Rightarrow> exc + 'e option" where
  "read_literal_opt show_e es v = (if v = PNone then Inr None else rbind (read_literal show_e es v) (\<lambda>e. Inr (Some e)))"

fun read_list :: "(pyval \<Rightarrow> exc + 'a) \<Rightarrow> pyval \<Rightarrow> exc + 'a list" where
  "read_list read (PTuple vs) = rmap read vs"
| "read_list read _ = Inl (TypeError ''not a list'')"

fun read_dict :: "(payload \<Rightarrow> exc + 'a) \<Rightarrow> pyval \<Rightarrow> exc + 'a" where
  "read_dict read (PDict d) = read d"
| "read_dict read _ = Inl (TypeError ''not a mapping'')"

definition input_from_dict :: "payload \<Rightarrow> exc + input_mount" where
  "input_from_dict d =
     rbind (only_keywords [''name'', ''kind'', ''source_ref'', ''target_path'', ''read_only'', ''required'', ''description''] d) (\<lambda>_.
     rbind (keyword d ''name'' read_text) (\<lambda>name.
     rbind (keyword d ''kind'' (read_literal show_input_kind
        [InFile, InDirectory, InArtifact, InBundle, InMemoryExport, InKnowledgeExport])) (\<lambda>kind.
     rbind (keyword d ''source_ref'' read_text) (\<lambda>source_ref.
     rbind (keyword d ''target_path'' read_text) (\<lambda>target_path.
     rbind (optional_field d ''read_only'' True read_bool) (\<lambda>read_only.
     rbind (optional_field d ''required'' True read_bool) (\<lambda>required.
     rbind (optional_field d ''description'' None read_text_opt) (\<lambda>description.
     Inr \<lparr>im_name = name, im_kind = kind, im_source_ref = source_ref, im_target_path = target_path,
       im_read_only = read_only, im_required = required, im_description = description\<rparr>))))))))"

definition writable_from_dict :: "payload \<Rightarrow> exc + writable_path" where
  "writable_from_dict d =
     rbind (only_keywords [''path'', ''purpose'', ''max_size_mb'', ''retention''] d) (\<lambda>_.
     rbind (keyword d ''path'' read_text) (\<lambda>path.
     rbind (keyword d ''purpose'' (read_literal show_purpose [TaskScratch, DeclaredOutput, Cache, CheckoutCopy])) (\<lambda>purpose.
     rbind (optional_field d ''max_size_mb'' None read_int_opt) (\<lambda>max_size_mb.
     rbind (optional_field d ''retention'' None (read_literal_opt show_retention [Ephemeral, RunRetained, ArtifactPromoted])) (\<lambda>retention.
     Inr \<lparr>wp_path = path, wp_purpose = purpose, wp_max_size_mb = max_size_mb, wp_retention = retention\<rparr>)))))"

definition output_from_dict :: "payload \<Rightarrow> exc + output_contract" where
  "output_from_dict d =
     rbind (only_keywords [''name'', ''path'', ''kind'', ''required'', ''promote_to_artifact'', ''description''] d) (\<lambda>_.
     rbind (keyword d ''name'' read_text) (\<lambda>name.
     rbind (keyword d ''path'' read_text) (\<lambda>path.
     rbind (keyword d ''kind'' (read_literal show_output_kind [OutFile, OutDirectory, OutJson, OutLog, OutPatchSet, OutReport])) (\<lambda>kind.
     rbind (keyword d ''required'' read_bool) (\<lambda>required.
     rbind (optional_field d ''promote_to_artifact'' True read_bool) (\<lambda>promote.
     rbind (optional_field d ''description'' None read_text_opt) (\<lambda>description.
     Inr \<lparr>oc_name = name, oc_path = path, oc_kind = kind, oc_required = required, oc_promote_to_artifact = promote,
       oc_description = description\<rparr>)))))))"

definition network_rule_from_dict :: "payload \<Rightarrow> exc + network_rule" where
  "network_rule_from_dict d =
     rbind (only_keywords [''host_pattern'', ''purpose'', ''port'', ''scheme''] d) (\<lambda>_.
     rbind (keyword d ''host_pattern'' read_text) (\<lambda>host_pattern.
     rbind (keyword d ''purpose'' read_text) (\<lambda>purpose.
     rbind (optional_field d ''port'' None read_int_opt) (\<lambda>port.
     rbind (optional_field d ''scheme'' None (read_literal_opt show_scheme [Https, Http, Ssh, Tcp])) (\<lambda>scheme.
     Inr \<lparr>nr_host_pattern = host_pattern, nr_purpose = purpose, nr_port = port, nr_scheme = scheme\<rparr>)))))"

definition network_from_dict :: "payload \<Rightarrow> exc + network_policy" where
  "network_from_dict d =
     rbind (item d ''mode'' (read_literal show_network_mode [NetDeny, NetAllowlist, NetProfileDefault])) (\<lambda>mode.
     rbind (item d ''allow'' (read_list (read_dict network_rule_from_dict))) (\<lambda>allow.
     rbind (item d ''deny'' (read_list read_text)) (\<lambda>deny.
     Inr \<lparr>np_mode = mode, np_allow = allow, np_deny = deny\<rparr>)))"

definition all_tool_decisions :: "tool_decision list" where
  "all_tool_decisions = [AutoAllow, ApprovalRequired, Forbidden]"

definition tool_rule_from_dict :: "payload \<Rightarrow> exc + tool_rule" where
  "tool_rule_from_dict d =
     rbind (only_keywords [''tool'', ''action'', ''decision'', ''reason''] d) (\<lambda>_.
     rbind (keyword d ''tool'' read_text) (\<lambda>tool.
     rbind (optional_field d ''action'' None read_text_opt) (\<lambda>action.
     rbind (optional_field d ''decision'' ApprovalRequired (read_literal show_tool_decision all_tool_decisions)) (\<lambda>decision.
     rbind (optional_field d ''reason'' None read_text_opt) (\<lambda>reason.
     Inr \<lparr>tr_tool = tool, tr_action = action, tr_decision = decision, tr_reason = reason\<rparr>)))))"

definition tool_policy_from_dict :: "payload \<Rightarrow> exc + tool_policy" where
  "tool_policy_from_dict d =
     rbind (item d ''preset'' (read_literal show_preset policy_presets)) (\<lambda>preset.
     rbind (item d ''rules'' (read_list (read_dict tool_rule_from_dict))) (\<lambda>rules.
     rbind (item d ''default_decision'' (read_literal show_tool_decision all_tool_decisions)) (\<lambda>default_decision.
     Inr \<lparr>tp_preset = preset, tp_rules = rules, tp_default_decision = default_decision\<rparr>)))"

definition secret_from_dict :: "payload \<Rightarrow> exc + secret_scope" where
  "secret_from_dict d =
     rbind (item d ''mode'' (read_literal show_secret_mode [SecretNone, Brokered, EnvMounted])) (\<lambda>mode.
     rbind (item d ''allowed_secret_refs'' (read_list read_text)) (\<lambda>refs.
     rbind (item d ''mount_env'' (read_list read_text)) (\<lambda>mount_env.
     rbind (item d ''redaction_level'' (read_literal show_redaction [RedactFull, NamesOnly, RedactNone])) (\<lambda>level.
     Inr \<lparr>ss_mode = mode, ss_allowed_secret_refs = refs, ss_mount_env = mount_env, ss_redaction_level = level\<rparr>))))"

definition snapshot_from_dict :: "payload \<Rightarrow> exc + snapshot_policy" where
  "snapshot_from_dict d =
     rbind (item d ''on_start'' read_bool) (\<lambda>on_start.
     rbind (item d ''on_completion'' read_bool) (\<lambda>on_completion.
     rbind (item d ''on_failure'' read_bool) (\<lambda>on_failure.
     rbind (item d ''before_destructive_actions'' read_bool) (\<lambda>before.
     rbind (item d ''max_snapshots'' read_int_opt) (\<lambda>max_snapshots.
     rbind (item d ''include_paths'' (read_list read_text)) (\<lambda>include_paths.
     rbind (item d ''exclude_paths'' (read_list read_text)) (\<lambda>exclude_paths.
     Inr \<lparr>sp_on_start = on_start, sp_on_completion = on_completion, sp_on_failure = on_failure,
       sp_before_destructive_actions = before, sp_max_snapshots = max_snapshots, sp_include_paths = include_paths,
       sp_exclude_paths = exclude_paths\<rparr>)))))))"

definition manifest_from_dict :: "string \<Rightarrow> payload \<Rightarrow> exc + manifest" where
  "manifest_from_dict run_id d =
     rbind (item d ''inputs'' (read_list (read_dict input_from_dict))) (\<lambda>inputs.
     rbind (item d ''writable_paths'' (read_list (read_dict writable_from_dict))) (\<lambda>writable_paths.
     rbind (item d ''outputs'' (read_list (read_dict output_from_dict))) (\<lambda>outputs.
     rbind (item d ''network_policy'' (read_dict network_from_dict)) (\<lambda>network_policy.
     rbind (item d ''tool_policy'' (read_dict tool_policy_from_dict)) (\<lambda>tool_policy.
     rbind (item d ''secret_scope'' (read_dict secret_from_dict)) (\<lambda>secret_scope.
     rbind (item d ''snapshot_policy'' (read_dict snapshot_from_dict)) (\<lambda>snapshot_policy.
     Inr \<lparr>mf_run_id = run_id, mf_inputs = inputs, mf_writable_paths = writable_paths, mf_outputs = outputs,
       mf_network_policy = network_policy, mf_tool_policy = tool_policy, mf_secret_scope = secret_scope,
       mf_snapshot_policy = snapshot_policy\<rparr>)))))))"

section \<open>The table\<close>

text \<open>The database takes a second manifest of a run as an update on PostgreSQL and refuses it on SQLite.\<close>

record manifest_row =
  mw_id :: string
  mw_run_id :: string
  mw_body :: string

record manifest_table =
  mt_rows :: "manifest_row list"
  mt_postgres :: bool
  mt_uuid :: "nat \<Rightarrow> string"
  mt_uuids :: nat

definition manifest_save :: "manifest \<Rightarrow> (manifest_table, manifest) prog" where
  "manifest_save m t =
     (let body = json_dumps (PDict (manifest_to_dict m)); row_id = mt_uuid t (mt_uuids t);
          t' = t\<lparr>mt_uuids := Suc (mt_uuids t)\<rparr> in
      if mf_run_id m \<in> mw_run_id ` set (mt_rows t) \<and> mt_postgres t then
        (Inr m, t'\<lparr>mt_rows := map (\<lambda>r. if mw_run_id r = mf_run_id m then r\<lparr>mw_body := body\<rparr> else r) (mt_rows t)\<rparr>)
      else if mf_run_id m \<in> mw_run_id ` set (mt_rows t) \<or> row_id \<in> mw_id ` set (mt_rows t) then
        (Inl (IntegrityError ''workspace_manifests''), t')
      else (Inr m, t'\<lparr>mt_rows := mt_rows t @ [\<lparr>mw_id = row_id, mw_run_id = mf_run_id m, mw_body = body\<rparr>]\<rparr>))"

definition load_manifest :: "string \<Rightarrow> string \<Rightarrow> exc + manifest" where
  "load_manifest run_id body = rbind (json_loads body) (read_dict (manifest_from_dict run_id))"

definition manifest_get :: "manifest_table \<Rightarrow> string \<Rightarrow> exc + manifest option" where
  "manifest_get t run_id = (case find (\<lambda>r. mw_run_id r = run_id) (mt_rows t) of
       None \<Rightarrow> Inr None
     | Some r \<Rightarrow> rbind (load_manifest (mw_run_id r) (mw_body r)) (\<lambda>m. Inr (Some m)))"

section \<open>Reading inverts writing\<close>

named_theorems reads_back \<open>what the readers make of what was written\<close>
named_theorems order_free \<open>readers that do not see the order of keys\<close>

lemma rmap_inverse: "(\<And>x. f (g x) = Inr x) \<Longrightarrow> rmap f (map g xs) = Inr xs"
  by (induction xs) simp_all

lemma read_texts_back [reads_back]: "read_list read_text (texts_value xs) = Inr xs"
  unfolding texts_value_def read_list.simps by (rule rmap_inverse) simp

lemma read_opts_back [reads_back]:
  "read_int_opt (pint_opt i) = Inr i" "read_text_opt (pstr_opt x) = Inr x"
  by (cases i; simp) (cases x; simp)

lemma read_literals_back [reads_back]:
  "read_literal show_input_kind [InFile, InDirectory, InArtifact, InBundle, InMemoryExport, InKnowledgeExport] (PStr (show_input_kind a)) = Inr a"
  "read_literal show_purpose [TaskScratch, DeclaredOutput, Cache, CheckoutCopy] (PStr (show_purpose b)) = Inr b"
  "read_literal show_output_kind [OutFile, OutDirectory, OutJson, OutLog, OutPatchSet, OutReport] (PStr (show_output_kind c)) = Inr c"
  "read_literal show_network_mode [NetDeny, NetAllowlist, NetProfileDefault] (PStr (show_network_mode d)) = Inr d"
  "read_literal show_preset policy_presets (PStr (show_preset e)) = Inr e"
  "read_literal show_tool_decision all_tool_decisions (PStr (show_tool_decision f)) = Inr f"
  "read_literal show_secret_mode [SecretNone, Brokered, EnvMounted] (PStr (show_secret_mode g)) = Inr g"
  "read_literal show_redaction [RedactFull, NamesOnly, RedactNone] (PStr (show_redaction h)) = Inr h"
  subgoal by (cases a) (simp_all add: read_literal_def parse_literal_def)
  subgoal by (cases b) (simp_all add: read_literal_def parse_literal_def)
  subgoal by (cases c) (simp_all add: read_literal_def parse_literal_def)
  subgoal by (cases d) (simp_all add: read_literal_def parse_literal_def)
  subgoal by (cases e) (simp_all add: read_literal_def parse_literal_def policy_presets_def)
  subgoal by (cases f) (simp_all add: read_literal_def parse_literal_def all_tool_decisions_def)
  subgoal by (cases g) (simp_all add: read_literal_def parse_literal_def)
  subgoal by (cases h) (simp_all add: read_literal_def parse_literal_def)
  done

lemma read_literal_opts_back [reads_back]:
  "read_literal_opt show_retention [Ephemeral, RunRetained, ArtifactPromoted] (pstr_opt (map_option show_retention x)) = Inr x"
  "read_literal_opt show_scheme [Https, Http, Ssh, Tcp] (pstr_opt (map_option show_scheme y)) = Inr y"
proof -
  show "read_literal_opt show_retention [Ephemeral, RunRetained, ArtifactPromoted] (pstr_opt (map_option show_retention x)) = Inr x"
  proof (cases x)
    case (Some z)
    then show ?thesis by (cases z) (simp_all add: read_literal_opt_def read_literal_def parse_literal_def)
  qed (simp add: read_literal_opt_def)
  show "read_literal_opt show_scheme [Https, Http, Ssh, Tcp] (pstr_opt (map_option show_scheme y)) = Inr y"
  proof (cases y)
    case (Some z)
    then show ?thesis by (cases z) (simp_all add: read_literal_opt_def read_literal_def parse_literal_def)
  qed (simp add: read_literal_opt_def)
qed

lemmas reader_defs = item_def keyword_def optional_field_def only_keywords_def dict_keys_def

lemma read_leaves_back [reads_back]:
  "input_from_dict (input_to_dict i) = Inr i"
  "writable_from_dict (writable_to_dict p) = Inr p"
  "output_from_dict (output_to_dict c) = Inr c"
  "network_rule_from_dict (network_rule_to_dict n) = Inr n"
  "tool_rule_from_dict (tool_rule_to_dict t) = Inr t"
  "secret_from_dict (secret_to_dict s) = Inr s"
  "snapshot_from_dict (snapshot_to_dict z) = Inr z"
  by (simp_all add: reader_defs reads_back input_from_dict_def input_to_dict_def writable_from_dict_def writable_to_dict_def
      output_from_dict_def output_to_dict_def network_rule_from_dict_def network_rule_to_dict_def tool_rule_from_dict_def
      tool_rule_to_dict_def secret_from_dict_def secret_to_dict_def snapshot_from_dict_def snapshot_to_dict_def)

lemma read_dicts_back [reads_back]:
  "(\<And>x. f (g x) = Inr x) \<Longrightarrow> read_list (read_dict f) (PTuple (map (PDict \<circ> g) xs)) = Inr xs"
  unfolding read_list.simps by (rule rmap_inverse) simp

lemma read_policies_back [reads_back]:
  "network_from_dict (network_to_dict n) = Inr n"
  "tool_policy_from_dict (tool_policy_to_dict t) = Inr t"
  by (simp_all add: reader_defs reads_back network_from_dict_def network_to_dict_def tool_policy_from_dict_def tool_policy_to_dict_def
      del: read_list.simps)

lemma read_manifest_back:
  "manifest_from_dict (mf_run_id m) (manifest_to_dict m) = Inr m"
  "manifest_from_dict (mf_run_id m) (manifest_asdict m) = Inr m"
  by (simp_all add: reader_defs reads_back manifest_from_dict_def manifest_to_dict_def manifest_asdict_def del: read_list.simps)

lemma wf_leaves:
  "wf_json (PDict (input_to_dict i))" "wf_json (PDict (writable_to_dict p))" "wf_json (PDict (output_to_dict c))"
  "wf_json (PDict (network_rule_to_dict n))" "wf_json (PDict (tool_rule_to_dict t))" "wf_json (PDict (secret_to_dict s))"
  "wf_json (PDict (snapshot_to_dict z))"
proof -
  have [simp]: "wf_json (pstr_opt x)" "wf_json (pint_opt j)" for x j by (cases x; simp) (cases j; simp)
  have [simp]: "wf_json (texts_value xs)" for xs by (simp add: texts_value_def list_all_iff)
  show "wf_json (PDict (input_to_dict i))" "wf_json (PDict (writable_to_dict p))" "wf_json (PDict (output_to_dict c))"
    "wf_json (PDict (network_rule_to_dict n))" "wf_json (PDict (tool_rule_to_dict t))" "wf_json (PDict (secret_to_dict s))"
    "wf_json (PDict (snapshot_to_dict z))"
    by (simp_all add: input_to_dict_def writable_to_dict_def output_to_dict_def network_rule_to_dict_def tool_rule_to_dict_def
        secret_to_dict_def snapshot_to_dict_def)
qed

lemma wf_manifest_json: "wf_json (PDict (manifest_to_dict m))" "wf_json (PDict (manifest_asdict m))"
proof -
  have dicts: "wf_json (PTuple (map (PDict \<circ> g) xs))" if "\<And>x. wf_json (PDict (g x))" for g :: "'b \<Rightarrow> payload" and xs
    using that by (simp add: list_all_iff del: wf_json.simps(2))
  have texts: "wf_json (texts_value xs)" for xs by (simp add: texts_value_def list_all_iff)
  have "wf_json (PDict (network_to_dict n))" "wf_json (PDict (tool_policy_to_dict t))" for n t
    using dicts [of network_rule_to_dict, OF wf_leaves(4)] dicts [of tool_rule_to_dict, OF wf_leaves(5)] texts
    by (simp_all add: network_to_dict_def tool_policy_to_dict_def del: wf_json.simps(1))
  with dicts [of input_to_dict, OF wf_leaves(1)] dicts [of writable_to_dict, OF wf_leaves(2)] dicts [of output_to_dict, OF wf_leaves(3)]
    wf_leaves(6,7)
  show "wf_json (PDict (manifest_to_dict m))" "wf_json (PDict (manifest_asdict m))"
    by (auto simp: manifest_to_dict_def manifest_asdict_def simp del: wf_json.simps(1))
qed

lemma load_saved: "load_manifest (mf_run_id m) (json_dumps (PDict (manifest_to_dict m))) = Inr m"
  using json_text_read [OF separators_used(1) wf_manifest_json(1), of m]
  by (simp add: load_manifest_def json_dumps_def read_manifest_back del: json_text.simps)

text \<open>
  C3. A manifest that was saved is read back as it was, with every nested list and optional field, and
  saving it leaves the manifests of other runs alone. Saving fails only when the row cannot be inserted:
  a second manifest for the same run is an update on PostgreSQL and an integrity error elsewhere, because
  the table (models/workspace\_manifest.py) declares \<open>run_id\<close> unique. The repository's own
  test\_save\_twice\_no\_crash asks SQLite for no error; its table is made without that declaration. The
  update is accepted whatever state the run is in, although RT-001 calls the manifest of a started run
  immutable.
\<close>

theorem saved_manifest_reads_back:
  "case manifest_save m t of
     (Inr m', t') \<Rightarrow> m' = m \<and> manifest_get t' (mf_run_id m) = Inr (Some m) \<and>
       (run \<noteq> mf_run_id m \<longrightarrow> manifest_get t' run = manifest_get t run)
   | (Inl e, t') \<Rightarrow> e = IntegrityError ''workspace_manifests'' \<and> mt_rows t' = mt_rows t \<and>
       (mf_run_id m \<in> mw_run_id ` set (mt_rows t) \<and> \<not> mt_postgres t \<or>
        mf_run_id m \<notin> mw_run_id ` set (mt_rows t) \<and> mt_uuid t (mt_uuids t) \<in> mw_id ` set (mt_rows t))"
proof -
  let ?body = "json_dumps (PDict (manifest_to_dict m))"
  let ?upd = "\<lambda>r. if mw_run_id r = mf_run_id m then r\<lparr>mw_body := ?body\<rparr> else r"
  have upd: "find (\<lambda>r. mw_run_id r = run) (map ?upd rows) = map_option ?upd (find (\<lambda>r. mw_run_id r = run) rows)" for rows run
    by (induction rows) auto
  have snoc: "find P (xs @ [y]) = (case find P xs of Some x \<Rightarrow> Some x | None \<Rightarrow> if P y then Some y else None)"
    for P and xs :: "manifest_row list" and y by (induction xs) auto
  have none: "find (\<lambda>r. mw_run_id r = mf_run_id m) rows = None \<longleftrightarrow> mf_run_id m \<notin> mw_run_id ` set rows" for rows
    by (auto simp: find_None_iff intro: rev_image_eqI)
  consider (update) "mf_run_id m \<in> mw_run_id ` set (mt_rows t)" "mt_postgres t"
    | (refused) "mf_run_id m \<in> mw_run_id ` set (mt_rows t) \<and> \<not> mt_postgres t \<or>
        mf_run_id m \<notin> mw_run_id ` set (mt_rows t) \<and> mt_uuid t (mt_uuids t) \<in> mw_id ` set (mt_rows t)"
    | (insert) "mf_run_id m \<notin> mw_run_id ` set (mt_rows t)" "mt_uuid t (mt_uuids t) \<notin> mw_id ` set (mt_rows t)" by blast
  then show ?thesis
  proof cases
    case update
    then obtain r where r: "find (\<lambda>r. mw_run_id r = mf_run_id m) (mt_rows t) = Some r"
      using none [of "mt_rows t"] by (cases "find (\<lambda>r. mw_run_id r = mf_run_id m) (mt_rows t)") auto
    moreover from r have "mw_run_id r = mf_run_id m" by (auto simp: find_Some_iff)
    moreover have "map_option ?upd (find (\<lambda>r. mw_run_id r = run) (mt_rows t)) = find (\<lambda>r. mw_run_id r = run) (mt_rows t)"
      if "run \<noteq> mf_run_id m" for run
    proof (cases "find (\<lambda>r. mw_run_id r = run) (mt_rows t)")
      case (Some x)
      then have "mw_run_id x = run" by (auto simp: find_Some_iff)
      with Some that show ?thesis by simp
    qed simp
    ultimately show ?thesis using update by (simp add: manifest_save_def Let_def manifest_get_def upd load_saved)
  next
    case refused
    then show ?thesis by (auto simp: manifest_save_def Let_def)
  next
    case insert
    then have "find (\<lambda>r. mw_run_id r = mf_run_id m) (mt_rows t) = None" using none by blast
    with insert show ?thesis
      by (auto simp: manifest_save_def Let_def manifest_get_def snoc load_saved split: option.split)
  qed
qed


section \<open>Drift\<close>

definition content_hash :: "(string \<Rightarrow> string) \<Rightarrow> string \<Rightarrow> string" where
  "content_hash hashed body = hashed body"

definition serialize_manifest_body :: "manifest \<Rightarrow> string" where
  "serialize_manifest_body m = json_canonical (PDict (manifest_asdict m))"

definition compute_actual_manifest_hash :: "(string \<Rightarrow> string) \<Rightarrow> manifest_table \<Rightarrow> string \<Rightarrow> exc + string" where
  "compute_actual_manifest_hash hashed t run_id = rbind (manifest_get t run_id) (\<lambda>found. case found of
       Some m \<Rightarrow> Inr (content_hash hashed (serialize_manifest_body m))
     | None \<Rightarrow> Inr (content_hash hashed []))"

text \<open>
  The file of pending runs: absent, or opened. Of the values of an entry only texts and null are
  represented; any other value, which the code would take along, is a \<open>TypeError\<close> here.
\<close>

definition pending_from_item :: "pyval \<Rightarrow> exc + pending_run" where
  "pending_from_item v = read_dict (\<lambda>d.
     rbind (item d ''run_id'' read_text) (\<lambda>run_id.
     rbind (read_text_opt (dict_get d ''manifest_hash'')) (\<lambda>manifest_hash.
     rbind (read_text_opt (dict_get d ''checkpoint_run_id'')) (\<lambda>checkpoint_run_id.
     Inr \<lparr>pr_run_id = run_id, pr_manifest_hash = manifest_hash, pr_checkpoint_run_id = checkpoint_run_id\<rparr>)))) v"

fun load_pending_runs :: "document option \<Rightarrow> exc + pending_run list" where
  "load_pending_runs None = Inr []"
| "load_pending_runs (Some (Unreadable m)) = Inl (OSError m)"
| "load_pending_runs (Some (Unparsable m)) = Inl (YAMLError m)"
| "load_pending_runs (Some (Parsed (PDict d))) = (case get_default d ''pending_runs'' (PTuple []) of
       PTuple items \<Rightarrow> rmap pending_from_item items
     | PDict kvs \<Rightarrow> if kvs = [] then Inr [] else Inl (TypeError ''string indices must be integers'')
     | PStr s \<Rightarrow> if s = [] then Inr [] else Inl (TypeError ''string indices must be integers'')
     | _ \<Rightarrow> Inl (TypeError ''not iterable''))"
| "load_pending_runs (Some (Parsed _)) = Inl (AttributeError ''get'')"

text \<open>Crash recovery as the server starts it.\<close>

definition recover_from ::
  "(string \<Rightarrow> string) \<Rightarrow> document option \<Rightarrow> manifest_table \<Rightarrow> (world, run list) prog" where
  "recover_from hashed doc t = bind (lift (load_pending_runs doc)) (rehydrate_all (compute_actual_manifest_hash hashed t))"

text \<open>Sorting the keys changes no reading.\<close>

lemma map_of_sort: "distinct (map fst d) \<Longrightarrow> map_of (sort_key fst d) = map_of d"
  by (rule map_of_inject_set [THEN iffD2]) (simp_all add: distinct_map inj_on_def)

definition with_sorted_items :: "payload \<Rightarrow> payload" where
  "with_sorted_items d = sort_key fst (map (\<lambda>(k, v). (k, with_sorted_keys v)) d)"

lemma sorted_dict: "with_sorted_keys (PDict d) = PDict (with_sorted_items d)"
  by (simp add: with_sorted_items_def)

lemma keys_of_sorted: "set (dict_keys (with_sorted_items d)) = set (dict_keys d)"
  by (simp add: dict_keys_def with_sorted_items_def image_image split_beta)

lemma map_of_sorted_items:
  assumes "distinct (map fst d)"
  shows "map_of (with_sorted_items d) k = map_option with_sorted_keys (map_of d k)"
proof -
  let ?d = "map (\<lambda>(k, v). (k, with_sorted_keys v)) d"
  have "map fst ?d = map fst d" by (simp add: split_beta comp_def)
  then have "map_of (sort_key fst ?d) = map_of ?d" using assms by (intro map_of_sort) metis
  then show ?thesis unfolding with_sorted_items_def by (simp only: map_of_map comp_apply)
qed

definition key_order_free :: "(pyval \<Rightarrow> exc + 'a) \<Rightarrow> bool" where
  "key_order_free read \<longleftrightarrow> (\<forall>v. wf_json v \<longrightarrow> read (with_sorted_keys v) = read v)"

definition item_order_free :: "(payload \<Rightarrow> exc + 'a) \<Rightarrow> bool" where
  "item_order_free read \<longleftrightarrow> (\<forall>d. wf_json (PDict d) \<longrightarrow> read (with_sorted_items d) = read d)"

lemma flat_order_free [order_free]:
  "key_order_free read_bool" "key_order_free read_int_opt" "key_order_free read_text" "key_order_free read_text_opt"
proof -
  have "read_bool (with_sorted_keys v) = read_bool v" "read_int_opt (with_sorted_keys v) = read_int_opt v"
    "read_text (with_sorted_keys v) = read_text v" "read_text_opt (with_sorted_keys v) = read_text_opt v" for v
    by (cases v; simp)+
  then show "key_order_free read_bool" "key_order_free read_int_opt" "key_order_free read_text" "key_order_free read_text_opt"
    by (simp_all add: key_order_free_def)
qed

lemma literal_order_free [order_free]: "key_order_free (read_literal f es)" "key_order_free (read_literal_opt f es)"
proof -
  have t: "read_text (with_sorted_keys v) = read_text v" "with_sorted_keys v = PNone \<longleftrightarrow> v = PNone" for v by (cases v; simp)+
  show "key_order_free (read_literal f es)" "key_order_free (read_literal_opt f es)"
    unfolding key_order_free_def read_literal_def read_literal_opt_def t by simp_all
qed

lemma list_order_free [order_free]: "key_order_free read \<Longrightarrow> key_order_free (read_list read)"
proof -
  assume r: "key_order_free read"
  have "rmap read (map with_sorted_keys vs) = rmap read vs" if "\<forall>v \<in> set vs. wf_json v" for vs
    using that r by (induction vs) (simp_all add: key_order_free_def)
  then have "read_list read (with_sorted_keys v) = read_list read v" if "wf_json v" for v
    using that by (cases v) (simp_all add: list_all_iff)
  then show ?thesis by (simp add: key_order_free_def)
qed

lemma dict_order_free [order_free]: "item_order_free read \<Longrightarrow> key_order_free (read_dict read)"
proof -
  assume r: "item_order_free read"
  have "read_dict read (with_sorted_keys v) = read_dict read v" if "wf_json v" for v
  proof (cases v)
    case (PDict d)
    with that r show ?thesis by (simp add: sorted_dict item_order_free_def del: wf_json.simps with_sorted_keys.simps(2))
  qed (use that in simp_all)
  then show ?thesis by (simp add: key_order_free_def)
qed

lemma field_order_free:
  assumes "key_order_free read" "wf_json (PDict d)"
  shows "item (with_sorted_items d) k read = item d k read"
    and "keyword (with_sorted_items d) k read = keyword d k read"
    and "optional_field (with_sorted_items d) k z read = optional_field d k z read"
proof -
  have "wf_json v" if "map_of d k = Some v" for v using map_of_SomeD [OF that] assms(2) by (auto simp: list_all_iff)
  with assms show "item (with_sorted_items d) k read = item d k read"
    "keyword (with_sorted_items d) k read = keyword d k read"
    "optional_field (with_sorted_items d) k z read = optional_field d k z read"
    by (auto simp: item_def keyword_def optional_field_def map_of_sorted_items key_order_free_def split: option.split)
qed

lemma keywords_order_free: "only_keywords ks (with_sorted_items d) = only_keywords ks d"
  by (simp add: only_keywords_def keys_of_sorted)

lemma leaves_order_free [order_free]:
  "item_order_free input_from_dict" "item_order_free writable_from_dict" "item_order_free output_from_dict"
  "item_order_free network_rule_from_dict" "item_order_free tool_rule_from_dict" "item_order_free secret_from_dict"
  "item_order_free snapshot_from_dict"
  unfolding item_order_free_def input_from_dict_def writable_from_dict_def output_from_dict_def network_rule_from_dict_def
    tool_rule_from_dict_def secret_from_dict_def snapshot_from_dict_def keywords_order_free
  by (simp_all add: field_order_free order_free del: wf_json.simps)

lemma policies_order_free [order_free]: "item_order_free network_from_dict" "item_order_free tool_policy_from_dict"
  unfolding item_order_free_def network_from_dict_def tool_policy_from_dict_def
  by (simp_all add: field_order_free order_free del: wf_json.simps)

lemma manifest_order_free: "item_order_free (manifest_from_dict run_id)"
  unfolding item_order_free_def manifest_from_dict_def
  by (simp add: field_order_free order_free del: wf_json.simps)

lemma serialized_inj:
  assumes "serialize_manifest_body m = serialize_manifest_body m'"
  shows "m = m'"
proof -
  let ?d = "manifest_asdict m" and ?d' = "manifest_asdict m'"
  have "with_sorted_keys (PDict ?d) = with_sorted_keys (PDict ?d')"
    by (rule canonical_inj [OF wf_manifest_json(2) wf_manifest_json(2) assms [unfolded serialize_manifest_body_def]])
  then have s: "with_sorted_items ?d = with_sorted_items ?d'" by (simp only: sorted_dict pyval.inject)
  have run: "item (manifest_asdict x) ''run_id'' read_text = Inr (mf_run_id x)" for x
    by (simp add: item_def manifest_asdict_def)
  have run_of: "item (with_sorted_items (manifest_asdict x)) ''run_id'' read_text = Inr (mf_run_id x)" for x
    using field_order_free(1) [OF flat_order_free(3) wf_manifest_json(2), of x "''run_id''"] run by (rule trans)
  have again: "manifest_from_dict (mf_run_id x) (with_sorted_items (manifest_asdict x)) = Inr x" for x
    using manifest_order_free [unfolded item_order_free_def, rule_format, OF wf_manifest_json(2), of "mf_run_id x" x]
      read_manifest_back(2) by (rule trans)
  have "mf_run_id m = mf_run_id m'" using run_of [of m] run_of [of m'] unfolding s by (metis sum.inject(2))
  then show ?thesis using again [of m] again [of m'] unfolding s by (metis sum.inject(2))
qed

lemma serialized_not_empty: "serialize_manifest_body m \<noteq> []"
  by (simp add: serialize_manifest_body_def json_canonical_def sorted_dict del: with_sorted_keys.simps)

text \<open>
  C7. Crash recovery notices every change of a manifest: a pending run that names the hash of manifest
  \<open>expected\<close> passes the check exactly when the stored manifest is \<open>expected\<close>, and a missing or any other manifest,
  whatever field differs, stops the recovery. Assumed of SHA-256 (\<open>hashed\<close>): no collision between these bodies.
\<close>

theorem recovery_notices_drift:
  assumes "run_get (pr_run_id p) w = (Inr (Some r), w)" "r_state r \<notin> set lifecycle_terminal"
    "pr_checkpoint_run_id p \<in> {None, Some (pr_run_id p)}"
    "pr_manifest_hash p = Some (content_hash hashed (serialize_manifest_body expected))"
    "manifest_get t (pr_run_id p) = Inr stored"
    "\<forall>b \<in> insert [] (set_option (map_option serialize_manifest_body stored)).
       hashed b = hashed (serialize_manifest_body expected) \<longrightarrow> b = serialize_manifest_body expected"
  shows "recovery_checks (compute_actual_manifest_hash hashed t) p w =
    (if stored = Some expected then (Inr (Some r), w) else (Inl (ManifestChangedWithoutRevisionError (pr_run_id p)), w))"
proof -
  let ?h = "hashed (case stored of Some m \<Rightarrow> serialize_manifest_body m | None \<Rightarrow> [])"
  have h: "compute_actual_manifest_hash hashed t (pr_run_id p) = Inr ?h"
    using assms(5) by (simp add: compute_actual_manifest_hash_def content_hash_def split: option.split)
  have "?h = hashed (serialize_manifest_body expected) \<longleftrightarrow> stored = Some expected"
    using assms(6) serialized_not_empty [of expected] by (cases stored) (auto dest: serialized_inj)
  with h assms(1-4) show ?thesis
    by (cases "pr_checkpoint_run_id p"; cases "stored = Some expected") (simp_all add: recovery_checks_def prog_simps content_hash_def)
qed


section \<open>Witnesses\<close>

definition demo_table :: manifest_table where
  "demo_table = \<lparr>mt_rows = [\<lparr>mw_id = ''id'', mw_run_id = ''run-t1'',
     mw_body = json_dumps (PDict (manifest_to_dict (demo_manifest\<lparr>mf_run_id := ''run-t1''\<rparr>)))\<rparr>],
     mt_postgres = True, mt_uuid = (\<lambda>i. replicate i (CHR ''a'')), mt_uuids = 0\<rparr>"

theorem saved_manifest_reads_back_witness:
  "manifest_get (snd (manifest_save demo_manifest demo_table)) ''r1'' = Inr (Some demo_manifest) \<and>
   manifest_get (snd (manifest_save demo_manifest demo_table)) ''run-t1'' = manifest_get demo_table ''run-t1''"
proof -
  have r: "mf_run_id demo_manifest = ''r1''" by (simp add: demo_manifest_def)
  have "\<exists>t. manifest_save demo_manifest demo_table = (Inr demo_manifest, t)"
    by (simp add: manifest_save_def demo_table_def r Let_def)
  then obtain t where t: "manifest_save demo_manifest demo_table = (Inr demo_manifest, t)" by blast
  show ?thesis using saved_manifest_reads_back [where m = demo_manifest and t = demo_table and run = "''run-t1''"] unfolding t prod.case sum.case by (simp add: r)
qed

theorem recovery_notices_drift_witness:
  "fst (recovery_checks (compute_actual_manifest_hash id demo_table)
      \<lparr>pr_run_id = ''run-t1'', pr_manifest_hash = Some (content_hash id (serialize_manifest_body demo_manifest)),
       pr_checkpoint_run_id = None\<rparr> started_world) = Inl (ManifestChangedWithoutRevisionError ''run-t1'')"
proof -
  let ?m = "demo_manifest\<lparr>mf_run_id := ''run-t1''\<rparr>"
  have "fst (run_get ''run-t1'' started_world) = Inr (Some (started_run demo_task Api (Aware 0 0)))" by code_simp
  then have run: "run_get ''run-t1'' started_world = (Inr (Some (started_run demo_task Api (Aware 0 0))), started_world)"
    by (simp add: run_get_def)
  have st: "r_state (started_run demo_task Api (Aware 0 0)) \<notin> set lifecycle_terminal" by code_simp
  have got: "manifest_get demo_table ''run-t1'' = Inr (Some ?m)"
    using load_saved [of ?m] by (simp add: manifest_get_def demo_table_def)
  have ne: "Some ?m \<noteq> Some demo_manifest" by (simp add: demo_manifest_def)
  show ?thesis
    using recovery_notices_drift [of "\<lparr>pr_run_id = ''run-t1'', pr_manifest_hash = Some (content_hash id (serialize_manifest_body demo_manifest)),
       pr_checkpoint_run_id = None\<rparr>" started_world, where expected = demo_manifest and hashed = id and t = demo_table] run st got ne
    by simp
qed

end
