(* ===== verification/Policy_Loading.thy ===== *)
theory Policy_Loading
  imports Approval_Engine Documents
begin

text \<open>
  Loading a policy preset (policy/loader.py) up to the answers the hooks give under it
  (services/approval_hooks.py). The preset directory is a function from names to opened files; pydantic's
  validation of a document and of an override rule are arguments, \<open>None\<close> for a validation error.
\<close>

section \<open>The loader\<close>

definition ends_with :: "string \<Rightarrow> string \<Rightarrow> bool" where
  "ends_with s suffix \<longleftrightarrow> starts_with (rev s) (rev suffix)"

definition yaml_stem :: "string \<Rightarrow> string" where
  "yaml_stem name = (if name = ''.yaml'' then name else take (length name - 5) name)"

text \<open>The names in the directory; \<open>None\<close> when there is no such directory.\<close>

definition list_presets :: "string list option \<Rightarrow> string list" where
  "list_presets names = (case names of None \<Rightarrow> []
     | Some ns \<Rightarrow> sort (map yaml_stem (filter (\<lambda>n. ends_with n ''.yaml'') ns)))"

fun read_preset_file :: "document \<Rightarrow> exc + payload" where
  "read_preset_file (Unreadable m) = Inl (PolicyLoadError ''Cannot read'')"
| "read_preset_file (Unparsable m) = Inl (PolicyLoadError ''Malformed YAML'')"
| "read_preset_file (Parsed (PDict d)) = Inr d"
| "read_preset_file (Parsed _) = Inl (PolicyLoadError ''Expected a YAML mapping'')"

definition validate_preset :: "(payload \<Rightarrow> preset_doc option) \<Rightarrow> payload \<Rightarrow> exc + preset_doc" where
  "validate_preset validate raw = (case validate raw of
       None \<Rightarrow> Inl (PolicyLoadError ''Schema validation failed for preset'') | Some doc \<Rightarrow> Inr doc)"

text \<open>
  \<open>model_copy\<close> validates nothing, so the default decision of an override is kept as it is: a loaded
  policy has any value there, and the hooks compare it with two texts.
\<close>

record loaded_policy =
  lp_preset :: policy_preset
  lp_rules :: "tool_rule list"
  lp_default_decision :: pyval

definition override_rule :: "(payload \<Rightarrow> tool_rule option) \<Rightarrow> pyval \<Rightarrow> tool_rule option" where
  "override_rule validate v = (case v of PDict d \<Rightarrow> validate d | _ \<Rightarrow> None)"

definition override_of :: "payload \<Rightarrow> pyval override" where
  "override_of ov = \<lparr>ov_rules = (case get_default ov ''rules'' (PTuple []) of PTuple vs \<Rightarrow> Some vs | _ \<Rightarrow> None),
     ov_default_decision = None\<rparr>"

definition merge_into :: "(payload \<Rightarrow> tool_rule option) \<Rightarrow> payload option \<Rightarrow> preset_doc \<Rightarrow> loaded_policy" where
  "merge_into validate override0 doc =
     (let ov = (case override0 of None \<Rightarrow> [] | Some ov \<Rightarrow> ov);
          merged = merge_overrides (override_rule validate) doc (if ov = [] then None else Some (override_of ov)) in
      \<lparr>lp_preset = pd_preset merged, lp_rules = pd_rules merged,
       lp_default_decision = get_default ov ''default_decision'' (PStr (show_tool_decision (pd_default_decision merged)))\<rparr>)"

definition load_policy ::
  "(payload \<Rightarrow> preset_doc option) \<Rightarrow> (payload \<Rightarrow> tool_rule option) \<Rightarrow> (string \<Rightarrow> document option) \<Rightarrow> string
   \<Rightarrow> payload option \<Rightarrow> exc + loaded_policy" where
  "load_policy validate_doc validate_rule file name0 override0 =
     rbind (case file (name0 @ ''.yaml'') of
         Some doc \<Rightarrow> Inr doc
       | None \<Rightarrow> (case file (name0 @ ''.json'') of Some doc \<Rightarrow> Inr doc | None \<Rightarrow> Inl (UnknownPresetError name0))) (\<lambda>file0.
     rbind (read_preset_file file0) (\<lambda>raw.
     rbind (validate_preset validate_doc raw) (\<lambda>doc.
     Inr (merge_into validate_rule override0 doc))))"

text \<open>How the hooks read the default decision.\<close>

definition read_decision :: "pyval \<Rightarrow> tool_decision" where
  "read_decision v = (if v = PStr ''auto-allow'' then AutoAllow else if v = PStr ''forbidden'' then Forbidden
     else ApprovalRequired)"

definition policy_in_force :: "loaded_policy \<Rightarrow> tool_policy" where
  "policy_in_force l = \<lparr>tp_preset = lp_preset l, tp_rules = lp_rules l,
     tp_default_decision = read_decision (lp_default_decision l)\<rparr>"

section \<open>What an override decides\<close>

text \<open>The last valid override rule of a tool.\<close>

definition chosen_rule :: "(payload \<Rightarrow> tool_rule option) \<Rightarrow> payload option \<Rightarrow> string \<Rightarrow> tool_rule option" where
  "chosen_rule validate override0 tool = (case override0 of None \<Rightarrow> None | Some ov \<Rightarrow>
     (case get_default ov ''rules'' (PTuple []) of
        PTuple vs \<Rightarrow> find (\<lambda>r. tr_tool r = tool) (rev (List.map_filter (override_rule validate) vs))
      | _ \<Rightarrow> None))"

lemma merged_rules:
  "\<exists>m. keyed_by_tool m \<and> map_of m = chosen_rule validate override0 \<and>
     lp_rules (merge_into validate override0 doc) =
       map (overridden m) (pd_rules doc) @ map snd (filter (\<lambda>(t, _). t \<notin> set (map tr_tool (pd_rules doc))) m)"
proof (cases "override0 = None \<or> override0 = Some []")
  case True
  then show ?thesis
    by (intro exI [of _ "[]"])
      (auto simp: keyed_by_tool_def chosen_rule_def merge_into_def merge_overrides_def overridden_def [abs_def] get_default_def
        List.map_filter_simps fun_eq_iff)
next
  case False
  then obtain ov where ov: "override0 = Some ov" "ov \<noteq> []" by (cases override0) auto
  show ?thesis
  proof (cases "get_default ov ''rules'' (PTuple [])")
    case (PTuple vs)
    let ?m = "override_map (override_rule validate) vs []"
    have k: "keyed_by_tool ?m" by (rule override_map_keyed) (simp add: keyed_by_tool_def)
    have "map_of ?m = chosen_rule validate override0"
      using ov PTuple by (auto simp: fun_eq_iff override_map_lookup chosen_rule_def split: option.split)
    moreover have "lp_rules (merge_into validate override0 doc) = merge_rules ?m (pd_rules doc)"
      using ov PTuple by (simp add: merge_into_def merge_overrides_def override_of_def)
    ultimately show ?thesis using k merge_rules_eq [OF k] by metis
  qed (use ov in \<open>auto intro!: exI [of _ "[]"] simp: keyed_by_tool_def chosen_rule_def merge_into_def merge_overrides_def override_of_def
        overridden_def [abs_def] fun_eq_iff\<close>)
qed

lemma requirements_of_tool:
  "rules_requirements rules d tool action = rules_requirements (filter (\<lambda>r. tr_tool r = tool) rules) d tool action"
  by (induction rules) auto

lemma requirements_same_rule:
  "rs \<noteq> [] \<Longrightarrow> \<forall>x \<in> set rs. x = r \<Longrightarrow> tr_tool r = tool \<Longrightarrow> rules_requirements rs d tool action =
    (if rule_matches tool action r then decision_requirements (tr_decision r) (tr_reason r) else decision_requirements d None)"
proof (induction rs)
  case (Cons x rs)
  then show ?case by (cases "rs = []") (auto simp: rule_matches_def)
qed simp

text \<open>The file a policy was read from.\<close>

lemma read_preset_Inr: "read_preset_file d = Inr raw \<longleftrightarrow> d = Parsed (PDict raw)"
  by (cases d rule: read_preset_file.cases) auto

lemma loaded_from:
  assumes "load_policy validate_doc validate_rule file name0 override0 = Inr l"
  shows "\<exists>raw doc. (if file (name0 @ ''.yaml'') = None then file (name0 @ ''.json'') else file (name0 @ ''.yaml'')) =
      Some (Parsed (PDict raw)) \<and> validate_doc raw = Some doc \<and> l = merge_into validate_rule override0 doc"
  using assms
  by (auto simp: load_policy_def rbind_Inr_iff validate_preset_def read_preset_Inr split: option.splits)

text \<open>
  C8. A policy that loads comes from the file of the requested name, its .yaml file or, without one, its
  .json file: that file holds a mapping the schema accepts, and its preset is the policy's. Under the
  policy an override rule is all that is left of its tool: for the tool's other actions the rules of the
  file, its prohibitions too, are gone and the default decides. Tools that no valid override rule names
  are decided by the file's rules as before. The default is the override's, when it has one, whatever its
  value is; one that is neither of two known texts asks for approval.
\<close>

theorem override_decides:
  assumes "load_policy validate_doc validate_rule file name0 override0 = Inr l"
  shows "\<exists>raw doc. (if file (name0 @ ''.yaml'') = None then file (name0 @ ''.json'') else file (name0 @ ''.yaml'')) =
        Some (Parsed (PDict raw)) \<and>
    validate_doc raw = Some doc \<and> lp_preset l = pd_preset doc \<and>
    lp_default_decision l = get_default (case override0 of None \<Rightarrow> [] | Some ov \<Rightarrow> ov) ''default_decision''
      (PStr (show_tool_decision (pd_default_decision doc))) \<and>
    (\<forall>tool action. requirements (policy_in_force l) tool action =
      (case chosen_rule validate_rule override0 tool of
         Some r \<Rightarrow> decision_requirements (if rule_matches tool action r then tr_decision r else read_decision (lp_default_decision l))
                    (if rule_matches tool action r then tr_reason r else None)
       | None \<Rightarrow> rules_requirements (pd_rules doc) (read_decision (lp_default_decision l)) tool action))"
proof -
  obtain raw doc where src: "(if file (name0 @ ''.yaml'') = None then file (name0 @ ''.json'') else file (name0 @ ''.yaml'')) =
        Some (Parsed (PDict raw))"
    and doc: "validate_doc raw = Some doc" and l: "l = merge_into validate_rule override0 doc"
    using loaded_from [OF assms] by blast
  obtain m where m: "keyed_by_tool m" "map_of m = chosen_rule validate_rule override0"
    and rules: "lp_rules l = map (overridden m) (pd_rules doc) @ map snd (filter (\<lambda>(t, _). t \<notin> set (map tr_tool (pd_rules doc))) m)"
    using merged_rules [of validate_rule override0 doc] unfolding l by blast
  have key: "tr_tool r = t" if "map_of m t = Some r" for t r
    using m(1) map_of_SomeD [OF that] by (auto simp: keyed_by_tool_def)
  have tool_of: "tr_tool (overridden m r) = tr_tool r" for r
    using key by (auto simp: overridden_def split: option.split)
  have "requirements (policy_in_force l) tool action =
      (case chosen_rule validate_rule override0 tool of
         Some r \<Rightarrow> decision_requirements (if rule_matches tool action r then tr_decision r else read_decision (lp_default_decision l))
                    (if rule_matches tool action r then tr_reason r else None)
       | None \<Rightarrow> rules_requirements (pd_rules doc) (read_decision (lp_default_decision l)) tool action)" for tool action
  proof -
    let ?d = "read_decision (lp_default_decision l)"
    let ?rs = "filter (\<lambda>r. tr_tool r = tool) (lp_rules l)"
    have req: "requirements (policy_in_force l) tool action = rules_requirements ?rs ?d tool action"
      unfolding requirements_def policy_in_force_def by (simp add: requirements_of_tool [of "lp_rules l"])
    show ?thesis
    proof (cases "chosen_rule validate_rule override0 tool")
      case None
      have "filter (\<lambda>r. tr_tool r = tool) (map snd (filter (\<lambda>(t, _). t \<notin> set (map tr_tool (pd_rules doc))) m)) = []"
        using m(1) None [folded m(2)] by (auto simp: filter_empty_conv keyed_by_tool_def map_of_eq_None_iff intro: rev_image_eqI)
      moreover have "filter (\<lambda>r. tr_tool r = tool) (map (overridden m) rs) = filter (\<lambda>r. tr_tool r = tool) rs" for rs
        using None [folded m(2)] tool_of by (induction rs) (auto simp: overridden_def)
      ultimately show ?thesis using None by (simp add: req rules flip: requirements_of_tool)
    next
      case (Some r)
      then have mr: "map_of m tool = Some r" by (simp add: m(2))
      have same: "\<forall>x \<in> set ?rs. x = r"
      proof
        fix x assume x: "x \<in> set ?rs"
        then consider y where "y \<in> set (pd_rules doc)" "x = overridden m y" "tr_tool x = tool"
          | t where "(t, x) \<in> set m" "tr_tool x = tool" unfolding rules by auto
        then show "x = r"
        proof cases
          case 1
          then show ?thesis using tool_of [of y] mr by (simp add: overridden_def)
        next
          case 2
          then have "map_of m tool = Some x" using m(1) by (auto simp: keyed_by_tool_def map_of_eq_Some_iff)
          then show ?thesis using mr by simp
        qed
      qed
      have "?rs \<noteq> []"
      proof (cases "tool \<in> set (map tr_tool (pd_rules doc))")
        case True
        then obtain y where "y \<in> set (pd_rules doc)" "tr_tool y = tool" by auto
        then have "overridden m y \<in> set ?rs" using tool_of by (auto simp: rules)
        then show ?thesis by (metis empty_iff empty_set)
      next
        case False
        then have "r \<in> set ?rs" using map_of_SomeD [OF mr] key [OF mr] by (force simp: rules)
        then show ?thesis by (metis empty_iff empty_set)
      qed
      with requirements_same_rule [OF this same key [OF mr], of ?d action] Some show ?thesis by (simp add: req)
    qed
  qed
  moreover have "lp_default_decision l = get_default (case override0 of None \<Rightarrow> [] | Some ov \<Rightarrow> ov) ''default_decision''
      (PStr (show_tool_decision (pd_default_decision doc)))"
    unfolding l by (simp add: merge_into_def Let_def merge_overrides_def override_of_def split: option.split)
  moreover have "lp_preset l = pd_preset doc"
    unfolding l by (simp add: merge_into_def Let_def merge_overrides_def split: option.split)
  ultimately show ?thesis using src doc by blast
qed

section \<open>Witness\<close>

text \<open>
  Two presets: custom.json forbids one action of a tool, yolo.yaml every call. An override of the first is
  about another action of the tool.
\<close>

definition guarded_preset :: preset_doc where
  "guarded_preset = \<lparr>pd_name = ''custom'', pd_preset = Custom, pd_default_decision = AutoAllow,
     pd_rules = [\<lparr>tr_tool = ''shell'', tr_action = Some ''delete'', tr_decision = Forbidden, tr_reason = None\<rparr>]\<rparr>"

definition closed_preset :: preset_doc where
  "closed_preset = \<lparr>pd_name = ''yolo'', pd_preset = Yolo, pd_default_decision = Forbidden, pd_rules = []\<rparr>"

definition preset_files :: "string \<Rightarrow> document option" where
  "preset_files = map_of [(''yolo.yaml'', Parsed (PDict [(''name'', PStr ''yolo'')])),
     (''custom.json'', Parsed (PDict [(''name'', PStr ''custom'')])),
     (''yolo.json'', Parsed (PDict [(''name'', PStr ''custom'')]))]"

definition read_doc :: "payload \<Rightarrow> preset_doc option" where
  "read_doc d = (if get_default d ''name'' PNone = PStr ''custom'' then Some guarded_preset
     else if get_default d ''name'' PNone = PStr ''yolo'' then Some closed_preset else None)"

definition read_rule :: "payload \<Rightarrow> tool_rule option" where
  "read_rule d = Some \<lparr>tr_tool = ''shell'', tr_action = Some ''read'', tr_decision = ApprovalRequired, tr_reason = None\<rparr>"

theorem override_decides_witness:
  "(case load_policy read_doc read_rule preset_files ''custom'' (Some [(''rules'', PTuple [PDict []])]) of
     Inl _ \<Rightarrow> False
   | Inr l \<Rightarrow> lp_preset l = Custom \<and> requirements (policy_in_force l) ''shell'' ''delete'' = Inr (False, None, None)) \<and>
   (case load_policy read_doc read_rule preset_files ''yolo'' None of
     Inl _ \<Rightarrow> False | Inr l \<Rightarrow> lp_preset l = Yolo)"
proof -
  let ?ov = "Some [(''rules'', PTuple [PDict []])]"
  let ?l = "merge_into read_rule ?ov guarded_preset" and ?y = "merge_into read_rule None closed_preset"
  have docs: "preset_files (''custom'' @ ''.yaml'') = None"
    "preset_files (''custom'' @ ''.json'') = Some (Parsed (PDict [(''name'', PStr ''custom'')]))"
    "preset_files (''yolo'' @ ''.yaml'') = Some (Parsed (PDict [(''name'', PStr ''yolo'')]))"
    "read_doc [(''name'', PStr ''custom'')] = Some guarded_preset" "read_doc [(''name'', PStr ''yolo'')] = Some closed_preset"
    by (simp_all add: preset_files_def read_doc_def get_default_def)
  then have l: "load_policy read_doc read_rule preset_files ''custom'' ?ov = Inr ?l"
    "load_policy read_doc read_rule preset_files ''yolo'' None = Inr ?y"
    by (simp_all add: load_policy_def validate_preset_def)
  have c: "chosen_rule read_rule ?ov ''shell'' = Some \<lparr>tr_tool = ''shell'', tr_action = Some ''read'', tr_decision = ApprovalRequired, tr_reason = None\<rparr>"
    by (simp add: chosen_rule_def get_default_def override_rule_def read_rule_def List.map_filter_simps)
  have d: "read_decision (lp_default_decision ?l) = AutoAllow"
    by (simp add: merge_into_def get_default_def merge_overrides_def override_of_def guarded_preset_def read_decision_def)
  have "requirements (policy_in_force ?l) ''shell'' ''delete'' = decision_requirements AutoAllow None \<and> lp_preset ?l = Custom"
    using override_decides [OF l(1)] d docs by (auto simp: c rule_matches_def guarded_preset_def)
  moreover have "lp_preset ?y = Yolo"
    using override_decides [OF l(2)] docs by (auto simp: closed_preset_def)
  ultimately show ?thesis by (simp add: l decision_requirements_def)
qed

end
