(* ===== verification/Spec2Isabelle.thy ===== *)
theory Spec2Isabelle
  imports Domain Milestones Store Policy Approval_Engine Lifecycle Orchestration Handoff Till_Done Manifest Delegation Registry Team Pipeline EA_Tasks EA_Routines Event_Stream Visibility
    Documents Assets_Schema Asset_Registry Profiles Profile_Hydration Instances Adversarial_Review
    Context_Provider Model_Calls Context_Builder Briefing Routines Json Manifest_Store Policy_Loading
begin

text \<open>
  A model of waywarden (src/src/waywarden): a small agent harness whose runs, approvals, tasks
  and workspace manifests live in a relational store and whose history is an append-only event
  log. The theories below translate its domain records, its repositories, its services and its
  orchestration, and prove what they promise.

  How the parts interact. The domain records (domain/) are frozen dataclasses whose constructors
  check and normalise their fields. The repositories (infra/db/repositories/) keep them in tables
  and are the only writers of the event log. The services (services/) work on the repositories
  through their protocols: the run lifecycle opens and resumes runs, the approval engine stores
  approvals and maps decisions to events, the orchestration service drives a run through the
  milestone catalog, and the executive-assistant service keeps tasks and puts checkpoints on them,
  for the scheduler and the triage above it. Delegation narrows a parent's manifest into a child's
  envelope; teams and pipelines say which sub-agents hand work to whom, and the pipeline engine
  walks such a pipeline.

  The state. \<open>Store.world\<close> is the durable store and the environment: the tables \<open>w_runs\<close>,
  \<open>w_events\<close>, \<open>w_approvals\<close>, \<open>w_tasks\<close>, a clock that is read by number of readings, and the
  supply of uuids. A service method is a program \<open>(world, 'a) prog\<close>, that is a function from a
  world to a result or exception and the world it leaves; what the code wrote before it raised
  stays written. Constructors and other pure code return \<open>exc + 'a\<close>. The in-memory registries,
  envelopes, teams, pipelines and revision catalogs are values passed explicitly.

  The theories, in the order of their imports:
    \<^item> \<^verbatim>\<open>Prelude\<close>: exceptions, the two computation types with their simplification rules, the
      locale \<open>step_relation\<close> (a reflexive and transitive relation kept by every step is kept by a
      program), total-correctness triples \<open>returns P m Q\<close>, Python text functions.
    \<^item> \<^verbatim>\<open>Domain\<close>: runs, tasks, approvals, run events, checkpoints, token usage, with constructors.
    \<^item> \<^verbatim>\<open>Milestones\<close>: the catalog of phases and milestones.
    \<^item> \<^verbatim>\<open>Store\<close>: the repositories; the locales \<open>event_reader\<close>, \<open>event_repository\<close> and
      \<open>kv_repository\<close> state what the services rely on and are interpreted on the modelled tables.
    \<^item> \<^verbatim>\<open>Policy\<close>: tool policies and the merge of overrides into a preset.
    \<^item> \<^verbatim>\<open>Approval_Engine\<close>: requests, decisions and the events they write, and the tool hooks.
    \<^item> \<^verbatim>\<open>Lifecycle\<close>: start, resume, cancel and the recovery after a crash.
    \<^item> \<^verbatim>\<open>Orchestration\<close>: the milestone pipeline of a run, from intake to the usage summary.
    \<^item> \<^verbatim>\<open>Handoff\<close>: lineage, token budgets and handoff artifacts with their event.
    \<^item> \<^verbatim>\<open>Till_Done\<close>: the plan-apply-check loop and the catalog of plan revisions.
    \<^item> \<^verbatim>\<open>Manifest\<close>: workspace manifests and their validation.
    \<^item> \<^verbatim>\<open>Delegation\<close>: narrowing, envelopes, the handoff helpers and the dispatcher's packages.
    \<^item> \<^verbatim>\<open>Registry\<close>: the locale \<open>keyed_registry\<close>, the contract of the three in-memory registries.
    \<^item> \<^verbatim>\<open>Team\<close>: sub-agents, teams, the deadlock search and the routing of handoffs.
    \<^item> \<^verbatim>\<open>Pipeline\<close>: pipelines and the engine that executes them.
    \<^item> \<^verbatim>\<open>EA_Tasks\<close>: the task service and its checkpoints.
    \<^item> \<^verbatim>\<open>EA_Routines\<close>: the scheduler and the inbox triage over that service.
    \<^item> \<^verbatim>\<open>Event_Stream\<close>: publication and the server-sent events of a run, as an interleaving of steps.
    \<^item> \<^verbatim>\<open>Visibility\<close>: the read-only view of a run.
    \<^item> \<^verbatim>\<open>Documents\<close>: typed access to parsed YAML, shared by the readers of configuration files.
    \<^item> \<^verbatim>\<open>Assets_Schema\<close>, \<^verbatim>\<open>Asset_Registry\<close>: asset metadata, its registry, loader and filters.
    \<^item> \<^verbatim>\<open>Profiles\<close>, \<^verbatim>\<open>Profile_Hydration\<close>, \<^verbatim>\<open>Instances\<close>: profiles, extensions, the two hydrated
      profiles, instances and their channel bindings.
    \<^item> \<^verbatim>\<open>Adversarial_Review\<close>: the detectors, the gate and the events of a review.
    \<^item> \<^verbatim>\<open>Context_Provider\<close>: the repository context and the redaction of secrets; the locale
      \<open>redaction\<close> is interpreted on the three patterns.
    \<^item> \<^verbatim>\<open>Model_Calls\<close>: model providers, the router and the token accounting.
    \<^item> \<^verbatim>\<open>Context_Builder\<close>: session memory, the knowledge base and the prompt built from them; the
      locale \<open>session_memory\<close> is interpreted on the in-memory store.
    \<^item> \<^verbatim>\<open>Briefing\<close>, \<^verbatim>\<open>Routines\<close>: the briefing and the surface that runs the assistant's routines.
    \<^item> \<^verbatim>\<open>Json\<close>: the writer and the reader of JSON, which are inverse to each other.
    \<^item> \<^verbatim>\<open>Manifest_Store\<close>: the table of manifests, and how recovery notices a changed one.
    \<^item> \<^verbatim>\<open>Policy_Loading\<close>: loading a preset and what an override decides.

  What the lemmas show. In the store: every operation keeps \<open>world_ok\<close> (unique keys, well-formed
  rows, gapless numbering of every run's events, a clock that never goes back), an append extends
  its run's history or refuses without a trace. In the services: which events each verb writes,
  when it raises and what it leaves then, and that the orchestration and the till-done loop write
  exactly the scripts they are meant to. In the pure parts: exactly which manifests, narrowings,
  teams and pipelines are accepted. The task service is described by an abstract state
  (\<open>ea_view\<close>: the state of every task and of its checkpoint), and every operation by a triple
  over it; the routines compose these triples. For texts: what is written as JSON is read back, a
  context has nothing left that the patterns match, a stored manifest is the one that was saved.
  Where the code does less than the specifications under docs/ ask (RT-001 on manifests, RT-002 on
  events and run states), the theorem states what the code does, and the text above it the difference.

  Bounds and fuel. \<open>free_task_id\<close> tries one id more than there are stored tasks, which is
  enough because their ids differ (\<open>free_task_id_found\<close>). The pipeline engine has the code's own
  step limit, by default twice the number of nodes, and a walk that ends never needs it
  (\<open>execution_ends_or_cycles\<close>). The deadlock search recurses on the agents not yet visited.
  The reader of JSON has twice the length of the text as fuel, and more changes nothing
  (\<open>parse_fuel\<close>). Every other recursion is structural or has a measure; no theorem says "if it
  returns" of code that might not.

  Idealisations. Characters are those below code point 256. Messages of exceptions name the fault
  without the values. Timestamps are integers of ticks with an offset. The values of
  \<open>uuid4().hex\<close> are a sequence, any two of which differ where that matters (\<open>uuid_ok\<close>). A
  coroutine runs to its end: operations of one process are not interleaved, and a statement of the
  repositories is committed when it returns. Dictionaries are association lists in insertion
  order. SHA-256, the parsing of YAML, pydantic's validation, git and the file system, the remote
  model and memory services are arguments of the definitions that use them.

  Not modelled: the HTTP routers of chat and health, the command line, the database models and
  migrations, settings from the environment, the channel and tool adapters, tracing and logging:
  they pass values between libraries that are not under src/ and decide little themselves.
\<close>

section \<open>From the pipeline to the view\<close>

text \<open>
  C37. When the pipeline has run over a freshly started run, its view shows a completed run with
  exactly the ten milestones of the pipeline, from intake to handoff and in this order.
\<close>

theorem orchestrated_run_view:
  assumes "world_ok w" "map_of (w_runs w) (r_id r) = Some r" "r_state r = RCreated"
    and free: "pipeline_ids_free w (r_id r)"
    and fresh: "\<forall>e \<in> set (events_of w (r_id r)). e_type e = ''run.created''"
  shows "\<exists>r' w' snap. orchestrate r w = (Inr r', w') \<and>
    snapshot repr True manifests True (r_id r) w' = (Inr snap, w') \<and> sn_run_state snap = ''completed'' \<and>
    map (\<lambda>m. (ml_phase m, ml_milestone m)) (sn_milestones snap) =
      [(''intake'', ''received''), (''intake'', ''accepted''), (''plan'', ''drafted''),
       (''plan'', ''approval_requested''), (''plan'', ''ready''), (''execute'', ''tool_invoked''),
       (''execute'', ''artifact_emitted''), (''execute'', ''waiting_approval''),
       (''review'', ''findings_recorded''), (''handoff'', ''envelope_emitted'')]"
proof -
  have "at_trace w r [] w" using assms(1,2) by (simp add: at_trace_def trace_of_def)
  from returnsD [OF orchestrate_returns [OF free assms(3)] this]
  obtain r' w' es where run: "orchestrate r w = (Inr r', w')"
    and r': "r_state r' = RCompleted" "map_of (w_runs w') (r_id r) = Some r'" and ok: "world_ok w'"
    and es: "w_events w' = w_events w @ es" "\<forall>e \<in> set es. e_run_id e = r_id r" "trace_of es = pipeline_trace (r_id r)"
    by (fastforce simp: after_phase_def at_trace_def)
  have hist: "events_of w' (r_id r) = events_of w (r_id r) @ es"
    using es(1,2) by (simp add: events_of_def filter_id_conv)
  have none: "filter is_progress (events_of w (r_id r)) = []" "filter (is_revision repr) (events_of w (r_id r)) = []"
    using fresh by (auto simp: filter_empty_conv is_progress_def is_revision_def)
  have "filter (is_revision repr) es = []"
    unfolding revisions_of_trace es(3) by (simp add: pipeline_trace_def get_str_def)
  with none have rev: "filter (is_revision repr) (events_of w' (r_id r)) = []" by (simp add: hist)
  have "map (\<lambda>m. (ml_phase m, ml_milestone m)) (map (milestone_of repr (r_id r)) (filter is_progress (events_of w' (r_id r)))) =
      [(''intake'', ''received''), (''intake'', ''accepted''), (''plan'', ''drafted''),
       (''plan'', ''approval_requested''), (''plan'', ''ready''), (''execute'', ''tool_invoked''),
       (''execute'', ''artifact_emitted''), (''execute'', ''waiting_approval''),
       (''review'', ''findings_recorded''), (''handoff'', ''envelope_emitted'')]"
    unfolding hist filter_append none append_Nil map_map o_def milestones_of_trace es(3)
    by (simp add: pipeline_trace_def get_str_def)
  with run r' show ?thesis
    by (simp add: snapshot_result [OF ok] rev)
qed

theorem orchestrated_run_view_witness:
  "\<exists>r' w' snap. orchestrate demo_run started_world = (Inr r', w') \<and>
     snapshot no_repr True None True ''run-t1'' w' = (Inr snap, w') \<and> sn_run_state snap = ''completed'' \<and>
     length (sn_milestones snap) = 10"
proof -
  have "map e_type (events_of started_world ''run-t1'') = [''run.created'']" by code_simp
  then have fresh: "\<forall>e \<in> set (events_of started_world (r_id demo_run)). e_type e = ''run.created''"
    by (auto simp: demo_run_facts(1) map_eq_Cons_conv)
  have "pipeline_ids_free started_world (r_id demo_run)" by (simp add: demo_run_facts)
  from orchestrated_run_view [OF started_world_ok demo_run_stored demo_run_facts(2) this fresh, of no_repr None]
  show ?thesis
  proof (elim exE conjE, goal_cases)
    case (1 r' w' snap)
    have "length (sn_milestones snap) = 10" using arg_cong [OF 1(4), of length] by simp
    with 1(1-3) show ?case unfolding demo_run_facts(1) by blast
  qed
qed

end
